(* ===== verification/Js_Prelude.thy ===== *)
theory Js_Prelude
  imports Main
begin

text \<open>
  Shared ground of the MYNE development: the result type of fallible JavaScript code (every
  \<open>throw\<close> and every failed \<open>assert\<close> is a value), the combinators that keep the control flow of
  the source readable (\<open>assert_ok\<close>, \<open>throw_if\<close>, \<open>then_res\<close>, \<open>catch_res\<close>), their inversion rules,
  collected in \<open>res_simps\<close>, and the list facts that several components use.
\<close>

named_theorems res_simps \<open>inversion of the result combinators\<close>

section \<open>Errors as values\<close>

datatype js_error =
    AssertionError string
  | Error string
  | RangeError string
  | TypeError string
  | SyntaxError string
  | CodedError string string

text \<open>
  A \<open>CodedError\<close> is an \<open>Error\<close> object whose \<open>code\<close> property was set. \<open>error.message\<close>, \<open>String(error)\<close> and
  \<open>error.code\<close>:
\<close>

fun error_message :: "js_error \<Rightarrow> string" where
  "error_message (AssertionError m) = m"
| "error_message (Error m) = m"
| "error_message (RangeError m) = m"
| "error_message (TypeError m) = m"
| "error_message (SyntaxError m) = m"
| "error_message (CodedError c m) = m"

fun error_string :: "js_error \<Rightarrow> string" where
  "error_string (AssertionError m) = ''AssertionError [ERR_ASSERTION]: '' @ m"
| "error_string (Error m) = ''Error: '' @ m"
| "error_string (RangeError m) = ''RangeError: '' @ m"
| "error_string (TypeError m) = ''TypeError: '' @ m"
| "error_string (SyntaxError m) = ''SyntaxError: '' @ m"
| "error_string (CodedError c m) = ''Error: '' @ m"

fun error_code :: "js_error \<Rightarrow> string option" where
  "error_code (AssertionError m) = Some ''ERR_ASSERTION''"
| "error_code (CodedError c m) = Some c"
| "error_code _ = None"

type_synonym 'a res = "js_error + 'a"

text \<open>\<open>assert.ok(c, msg)\<close> followed by the rest of the function body.\<close>

definition assert_ok :: "bool \<Rightarrow> string \<Rightarrow> 'a res \<Rightarrow> 'a res" where
  "assert_ok c msg k = (if c then k else Inl (AssertionError msg))"

text \<open>\<open>if (c) throw e;\<close> followed by the rest of the function body.\<close>

definition throw_if :: "bool \<Rightarrow> js_error \<Rightarrow> 'a res \<Rightarrow> 'a res" where
  "throw_if c e k = (if c then Inl e else k)"

text \<open>Sequencing: an error propagates, as an exception would.\<close>

definition then_res :: "'a res \<Rightarrow> ('a \<Rightarrow> 'b res) \<Rightarrow> 'b res" where
  "then_res r f = (case r of Inl e \<Rightarrow> Inl e | Inr x \<Rightarrow> f x)"

text \<open>\<open>try { r } catch (e) { h(e) }\<close>.\<close>

definition catch_res :: "'a res \<Rightarrow> (js_error \<Rightarrow> 'a res) \<Rightarrow> 'a res" where
  "catch_res r h = (case r of Inl e \<Rightarrow> h e | Inr x \<Rightarrow> Inr x)"

text \<open>\<open>try { return r } catch { return d }\<close> for a function that never throws.\<close>

definition or_else :: "'a res \<Rightarrow> 'a \<Rightarrow> 'a" where
  "or_else r d = (case r of Inl _ \<Rightarrow> d | Inr x \<Rightarrow> x)"

definition is_ok :: "'a res \<Rightarrow> bool" where
  "is_ok r = (case r of Inl _ \<Rightarrow> False | Inr _ \<Rightarrow> True)"

lemma assert_ok_Inr [res_simps]: "assert_ok c m k = Inr y \<longleftrightarrow> c \<and> k = Inr y"
  by (simp add: assert_ok_def)

lemma assert_ok_Inl [res_simps]:
  "assert_ok c m k = Inl e \<longleftrightarrow> (\<not> c \<and> e = AssertionError m) \<or> (c \<and> k = Inl e)"
  by (auto simp: assert_ok_def)

lemma assert_ok_True [simp]: "assert_ok True m k = k"
  by (simp add: assert_ok_def)

lemma assert_ok_False [simp]: "assert_ok False m k = Inl (AssertionError m)"
  by (simp add: assert_ok_def)

lemma throw_if_Inr [res_simps]: "throw_if c e k = Inr y \<longleftrightarrow> \<not> c \<and> k = Inr y"
  by (simp add: throw_if_def)

lemma throw_if_True [simp]: "throw_if True e k = Inl e"
  by (simp add: throw_if_def)

lemma throw_if_False [simp]: "throw_if False e k = k"
  by (simp add: throw_if_def)

lemma then_res_Inr [res_simps]: "then_res r f = Inr y \<longleftrightarrow> (\<exists>x. r = Inr x \<and> f x = Inr y)"
  by (auto simp: then_res_def split: sum.splits)

lemma then_res_Ok [simp]: "then_res (Inr x) f = f x"
  by (simp add: then_res_def)

lemma then_res_Err [simp]: "then_res (Inl e) f = Inl e"
  by (simp add: then_res_def)

lemma catch_res_Ok [simp]: "catch_res (Inr x) h = Inr x"
  by (simp add: catch_res_def)

lemma catch_res_Err [simp]: "catch_res (Inl e) h = h e"
  by (simp add: catch_res_def)

lemma catch_res_Inr [res_simps]:
  "catch_res r h = Inr y \<longleftrightarrow> r = Inr y \<or> (\<exists>e. r = Inl e \<and> h e = Inr y)"
  by (auto simp: catch_res_def split: sum.splits)

lemma or_else_Ok [simp]: "or_else (Inr x) d = x"
  by (simp add: or_else_def)

lemma or_else_Err [simp]: "or_else (Inl e) d = d"
  by (simp add: or_else_def)

lemma or_else_True [res_simps]: "or_else r False \<longleftrightarrow> r = Inr True"
  by (cases r) (auto simp: or_else_def)

lemma is_ok_iff: "is_ok r \<longleftrightarrow> (\<exists>x. r = Inr x)"
  by (cases r) (auto simp: is_ok_def)

lemma is_ok_simps [simp]: "is_ok (Inr x)" "\<not> is_ok (Inl e)"
  by (simp_all add: is_ok_def)

text \<open>A computed result that is a value with a property: how witnesses evaluate a call.\<close>

definition ok_with :: "('a \<Rightarrow> bool) \<Rightarrow> 'a res \<Rightarrow> bool" where
  "ok_with P r = (case r of Inl _ \<Rightarrow> False | Inr x \<Rightarrow> P x)"

lemma ok_withD: "ok_with P r \<Longrightarrow> \<exists>x. r = Inr x \<and> P x"
  by (cases r) (auto simp: ok_with_def)

text \<open>\<open>for\<close> loops over a list whose body may throw: left to right, state threaded.\<close>

fun fold_res :: "('a \<Rightarrow> 's \<Rightarrow> 's res) \<Rightarrow> 'a list \<Rightarrow> 's \<Rightarrow> 's res" where
  "fold_res f [] s = Inr s"
| "fold_res f (x # xs) s = then_res (f x s) (fold_res f xs)"

text \<open>\<open>xs.map(f)\<close> with a callback that may throw.\<close>

fun map_res :: "('a \<Rightarrow> 'b res) \<Rightarrow> 'a list \<Rightarrow> 'b list res" where
  "map_res f [] = Inr []"
| "map_res f (x # xs) = then_res (f x) (\<lambda>y. then_res (map_res f xs) (\<lambda>ys. Inr (y # ys)))"

lemma map_res_Inr: "map_res f xs = Inr ys \<longleftrightarrow> list_all2 (\<lambda>x y. f x = Inr y) xs ys"
proof (induction xs arbitrary: ys)
  case Nil
  show ?case by auto
next
  case (Cons x xs)
  then show ?case by (cases ys) (auto simp: res_simps)
qed

lemma map_res_cong [fundef_cong]:
  "xs = ys \<Longrightarrow> (\<And>x. x \<in> set ys \<Longrightarrow> f x = g x) \<Longrightarrow> map_res f xs = map_res g ys"
proof -
  have "(\<And>x. x \<in> set ys \<Longrightarrow> f x = g x) \<Longrightarrow> map_res f ys = map_res g ys"
    by (induction ys) simp_all
  then show "xs = ys \<Longrightarrow> (\<And>x. x \<in> set ys \<Longrightarrow> f x = g x) \<Longrightarrow> map_res f xs = map_res g ys" by simp
qed

lemma then_res_cong [fundef_cong]:
  "r = r' \<Longrightarrow> (\<And>x. r' = Inr x \<Longrightarrow> f x = g x) \<Longrightarrow> then_res r f = then_res r' g"
  by (cases r') auto

lemma map_res_length: "map_res f xs = Inr ys \<Longrightarrow> length ys = length xs"
  by (auto simp: map_res_Inr dest: list_all2_lengthD)

lemma map_res_const [simp]: "map_res (\<lambda>x. Inr (f x)) xs = Inr (map f xs)"
  by (induction xs) simp_all

lemma map_res_ok: "(\<And>x. x \<in> set xs \<Longrightarrow> is_ok (f x)) \<Longrightarrow> is_ok (map_res f xs)"
  by (induction xs) (fastforce simp: is_ok_iff)+

lemma fold_res_append:
  "fold_res f (xs @ ys) s = then_res (fold_res f xs s) (fold_res f ys)"
  by (induction xs arbitrary: s) (auto simp: then_res_def split: sum.splits)

text \<open>Invariants of a throwing loop: what the body keeps on every accepted element.\<close>

lemma fold_res_inv:
  assumes "fold_res f xs s = Inr t" "I s"
    and step: "\<And>x s s'. x \<in> set xs \<Longrightarrow> I s \<Longrightarrow> f x s = Inr s' \<Longrightarrow> I s'"
  shows "I t"
  using assms
proof (induction xs arbitrary: s)
  case Nil
  then show ?case by simp
next
  case (Cons x xs)
  from Cons.prems(1) obtain s' where s': "f x s = Inr s'" "fold_res f xs s' = Inr t"
    by (auto simp: res_simps)
  have "I s'" by (rule Cons.prems(3)[OF _ Cons.prems(2) s'(1)]) simp
  then show ?case
    using Cons.prems(3) by (intro Cons.IH[OF s'(2)]) (auto intro: list.set_intros)
qed

lemma fold_res_elem:
  assumes "fold_res f xs s = Inr t" "x \<in> set xs"
  shows "\<exists>s s'. f x s = Inr s'"
  using assms by (induction xs arbitrary: s) (auto simp: res_simps)

section \<open>Lists\<close>

text \<open>\<open>xs.slice(0, n)\<close> is \<open>take\<close>; \<open>xs.slice(-n)\<close> is:\<close>

definition slice_last :: "nat \<Rightarrow> 'a list \<Rightarrow> 'a list" where
  "slice_last n xs = drop (length xs - n) xs"

lemma length_slice_last [simp]: "length (slice_last n xs) = min n (length xs)"
  by (simp add: slice_last_def)

text \<open>
  The slices of \<open>for (let offset = 0; offset < xs.length; offset += n) ... xs.slice(offset, offset + n)\<close>, for a
  positive \<open>n\<close>.
\<close>

function chunks :: "nat \<Rightarrow> 'a list \<Rightarrow> 'a list list" where
  "chunks n xs = (if n = 0 \<or> xs = [] then [] else take n xs # chunks n (drop n xs))"
  by pat_completeness auto

termination
  by (relation "measure (\<lambda>(n, xs). length xs)") auto

declare chunks.simps [simp del]

lemma chunks_Nil [simp]: "chunks n [] = []"
  by (simp add: chunks.simps)

lemma chunks_Cons: "0 < n \<Longrightarrow> xs \<noteq> [] \<Longrightarrow> chunks n xs = take n xs # chunks n (drop n xs)"
  by (simp add: chunks.simps[of n xs])

lemma concat_chunks: "0 < n \<Longrightarrow> concat (chunks n xs) = xs"
proof (induction n xs rule: chunks.induct)
  case (1 n xs)
  then show ?case by (cases "xs = []") (simp_all add: chunks_Cons)
qed

lemma chunks_length:
  "c \<in> set (chunks n xs) \<Longrightarrow> 1 \<le> length c \<and> length c \<le> n"
proof (induction n xs rule: chunks.induct)
  case (1 n xs)
  show ?case
  proof (cases "n = 0 \<or> xs = []")
    case True
    then show ?thesis using 1(2) by (simp add: chunks.simps)
  next
    case False
    then have "c = take n xs \<or> c \<in> set (chunks n (drop n xs))" using 1(2) by (simp add: chunks_Cons)
    then show ?thesis
    proof
      assume "c = take n xs"
      then show ?thesis using False by (simp add: Suc_le_eq)
    next
      assume "c \<in> set (chunks n (drop n xs))"
      then show ?thesis by (rule 1(1)[OF False])
    qed
  qed
qed

lemma chunks_subset: "c \<in> set (chunks n xs) \<Longrightarrow> set c \<subseteq> set xs"
proof (induction n xs rule: chunks.induct)
  case (1 n xs)
  show ?case
  proof (cases "n = 0 \<or> xs = []")
    case True
    then show ?thesis using 1(2) by (simp add: chunks.simps)
  next
    case False
    then show ?thesis
      using 1 set_take_subset[of n xs] set_drop_subset[of n xs] by (auto simp: chunks_Cons)
  qed
qed

text \<open>\<open>xs.join(sep)\<close>.\<close>

fun join :: "string \<Rightarrow> string list \<Rightarrow> string" where
  "join sep [] = []"
| "join sep [x] = x"
| "join sep (x # y # ys) = x @ sep @ join sep (y # ys)"

lemma sum_list_nonneg_int: "(\<And>x. x \<in> set xs \<Longrightarrow> 0 \<le> x) \<Longrightarrow> 0 \<le> sum_list (xs :: int list)"
  by (induction xs) auto

lemma list_update_sum:
  "i < length xs \<Longrightarrow> sum_list (xs[i := xs ! i + (a :: int)]) = sum_list xs + a"
proof (induction xs arbitrary: i)
  case Nil
  then show ?case by simp
next
  case (Cons x xs)
  then show ?case by (cases i) auto
qed

section \<open>Integer division\<close>

lemma le_div_int_iff: "0 < b \<Longrightarrow> x \<le> a div b \<longleftrightarrow> x * b \<le> (a :: int)"
proof
  assume b: "0 < b" and "x \<le> a div b"
  then have "x * b \<le> (a div b) * b" by (intro mult_right_mono) auto
  also have "\<dots> \<le> a" using b by (metis add_le_same_cancel1 div_mult_mod_eq le_add_same_cancel1 pos_mod_sign)
  finally show "x * b \<le> a" .
next
  assume b: "0 < b" and xb: "x * b \<le> a"
  show "x \<le> a div b"
  proof (rule ccontr)
    assume "\<not> x \<le> a div b"
    then have "(a div b + 1) * b \<le> x * b" using b by (intro mult_right_mono) auto
    moreover have "a < (a div b + 1) * b"
      using b pos_mod_bound[of b a] div_mult_mod_eq[of a b] unfolding distrib_right by linarith
    ultimately show False using xb by linarith
  qed
qed

end
