(* ===== verification/Js_Values.thy ===== *)
theory Js_Values
  imports Js_Prelude Complex_Main "HOL-Library.Log_Nat" "HOL-Library.Code_Target_Nat"
begin

text \<open>
  The part of JavaScript the sources rely on: Number values (binary64, as rationals with NaN and
  the infinities) with their rounding, BigInt as \<open>int\<close>, strings, arrays and plain objects, the
  conversions \<open>String(v)\<close>, \<open>BigInt(v)\<close>, \<open>Number(v)\<close>, truthiness, property access with and without
  \<open>?.\<close>, and the \<open>??\<close> operator. \<open>BN\<close> is an integer object of the Anchor client: its only observed
  behaviour is that \<open>toString\<close> prints the integer in decimal. \<open>Key\<close> is a public-key object of the
  Solana client, identified by the text its \<open>toBase58\<close> (and \<open>toString\<close>) returns. Negative zero is not distinguished
  from zero, and strings are sequences of 8-bit characters.
\<close>

section \<open>Numbers\<close>

datatype jsnum = NaN | PosInf | NegInf | Fin rat

text \<open>Round half to even, then the exponent of the leading binary digit of a non-zero rational.\<close>

definition half_even :: "rat \<Rightarrow> int" where
  "half_even x = (let f = \<lfloor>x\<rfloor>; d = x - of_int f in
     if d < 1/2 then f else if 1/2 < d then f + 1 else if even f then f else f + 1)"

definition expo :: "rat \<Rightarrow> int" where
  "expo x = (let (p, q) = quotient_of \<bar>x\<bar>; l = bitlen p - bitlen q
     in if 2 powi l \<le> \<bar>x\<bar> then l else l - 1)"

text \<open>The nearest binary64 value, ties to even; subnormals below \<open>2\<^sup>-\<^sup>1\<^sup>0\<^sup>2\<^sup>2\<close>; no overflow test.\<close>

definition quantum :: "rat \<Rightarrow> int" where
  "quantum x = max (expo x - 52) (- 1074)"

definition fl :: "rat \<Rightarrow> rat" where
  "fl x = (if x = 0 then 0
     else of_int (half_even (x / 2 powi (quantum x))) * 2 powi (quantum x))"

definition num_of_rat :: "rat \<Rightarrow> jsnum" where
  "num_of_rat x = (let y = fl x in
     if y \<noteq> 0 \<and> 1024 \<le> expo y then (if 0 < y then PosInf else NegInf) else Fin y)"

definition MAX_SAFE_INTEGER :: int where
  "MAX_SAFE_INTEGER = 2 ^ 53 - 1"

definition safe_num :: "int \<Rightarrow> bool" where
  "safe_num n \<longleftrightarrow> \<bar>n\<bar> \<le> MAX_SAFE_INTEGER"

lemma safe_num_iff: "safe_num n \<longleftrightarrow> - (2 ^ 53) < n \<and> n < 2 ^ 53"
  by (auto simp: safe_num_def MAX_SAFE_INTEGER_def)

lemma half_even_int [simp]: "half_even (of_int n) = n"
  by (simp add: half_even_def)

lemma half_even_error: "\<bar>of_int (half_even x) - x\<bar> \<le> 1/2"
proof -
  have "of_int \<lfloor>x\<rfloor> \<le> x" "x < of_int \<lfloor>x\<rfloor> + 1"
    by linarith+
  then show ?thesis
    by (auto simp: half_even_def Let_def abs_le_iff)
qed

lemma powi_add_nat: "(2::rat) powi (int m - int n) * 2 ^ n = 2 ^ m"
  by (simp add: power_int_diff)

lemma expo_bounds:
  assumes "x \<noteq> 0"
  shows "2 powi (expo x) \<le> \<bar>x\<bar>" "\<bar>x\<bar> < 2 powi (expo x + 1)"
proof -
  obtain p q where pq: "quotient_of \<bar>x\<bar> = (p, q)"
    by (cases "quotient_of \<bar>x\<bar>")
  have q: "0 < q" using quotient_of_denom_pos[OF pq] .
  have eq: "\<bar>x\<bar> = of_int p / of_int q" using quotient_of_div[OF pq] .
  have "0 < (of_int p :: rat)"
    using assms eq q by (metis of_int_0_less_iff zero_less_abs_iff zero_less_divide_iff
      not_less_iff_gr_or_eq)
  then have p: "0 < p" by simp
  define bp bq where "bp = nat (bitlen p)" and "bq = nat (bitlen q)"
  have b: "1 \<le> bp" "1 \<le> bq"
    using p q bitlen_eq_zero_iff[of p] bitlen_eq_zero_iff[of q] bitlen_nonneg[of p]
      bitlen_nonneg[of q] by (auto simp: bp_def bq_def)
  have l: "bitlen p - bitlen q = int bp - int bq"
    using p q by (simp add: bp_def bq_def bitlen_nonneg)
  have P: "2 ^ (bp - 1) \<le> p" "p < 2 ^ bp"
    using bitlen_bounds[OF p] b(1) by (simp_all add: bp_def nat_diff_distrib')
  have Q: "2 ^ (bq - 1) \<le> q" "q < 2 ^ bq"
    using bitlen_bounds[OF q] b(2) by (simp_all add: bq_def nat_diff_distrib')
  have Pr: "(2::rat) ^ (bp - 1) \<le> of_int p" "of_int p < (2::rat) ^ bp"
    using P by (metis of_int_le_iff of_int_power of_int_numeral,
                metis of_int_less_iff of_int_power of_int_numeral)
  have Qr: "(2::rat) ^ (bq - 1) \<le> of_int q" "of_int q < (2::rat) ^ bq"
    using Q by (metis of_int_le_iff of_int_power of_int_numeral,
                metis of_int_less_iff of_int_power of_int_numeral)
  have qr: "(0::rat) < of_int q" using q by simp
  let ?l = "int bp - int bq"
  have up: "\<bar>x\<bar> < 2 powi (?l + 1)"
  proof -
    have "\<bar>x\<bar> * 2 ^ (bq - 1) \<le> of_int p"
    proof -
      have "\<bar>x\<bar> * 2 ^ (bq - 1) \<le> \<bar>x\<bar> * of_int q" using Qr(1) by (rule mult_left_mono) simp
      then show ?thesis using qr eq by simp
    qed
    also have "\<dots> < 2 ^ bp" by (rule Pr(2))
    also have "\<dots> = 2 powi (int bp - int (bq - 1)) * 2 ^ (bq - 1)"
      by (simp add: powi_add_nat)
    finally have "\<bar>x\<bar> < 2 powi (int bp - int (bq - 1))"
      by simp
    moreover have "int bp - int (bq - 1) = ?l + 1" using b by linarith
    ultimately show ?thesis by metis
  qed
  have lo: "2 powi (?l - 1) \<le> \<bar>x\<bar>"
  proof -
    have "2 powi (int (bp - 1) - int bq) * 2 ^ bq = (2::rat) ^ (bp - 1)"
      by (rule powi_add_nat)
    also have "\<dots> \<le> \<bar>x\<bar> * of_int q" using Pr(1) qr eq by simp
    also have "\<dots> \<le> \<bar>x\<bar> * 2 ^ bq"
      using Qr(2) by (intro mult_left_mono) auto
    finally have "2 powi (int (bp - 1) - int bq) \<le> \<bar>x\<bar>" by simp
    moreover have "int (bp - 1) - int bq = ?l - 1" using b by linarith
    ultimately show ?thesis by metis
  qed
  show "2 powi (expo x) \<le> \<bar>x\<bar>" "\<bar>x\<bar> < 2 powi (expo x + 1)"
    using up lo by (auto simp: expo_def pq l Let_def)
qed

text \<open>The relative error of rounding in the normal range is at most \<open>2\<^sup>-\<^sup>5\<^sup>3\<close>.\<close>

lemma fl_error:
  assumes "2 powi (- 1022) \<le> \<bar>x\<bar>"
  shows "\<bar>fl x - x\<bar> \<le> \<bar>x\<bar> * 2 powi (- 53)"
proof (cases "x = 0")
  case True
  then show ?thesis by (simp add: fl_def)
next
  case False
  have "2 powi (- 1022) < (2::rat) powi (expo x + 1)"
    using assms expo_bounds(2)[OF False] by linarith
  then have "- 1022 < expo x + 1"
    using power_int_increasing[of "expo x + 1" "- 1022" "2::rat"] by fastforce
  then have q: "quantum x = expo x - 52" by (simp add: quantum_def)
  let ?u = "(2::rat) powi (quantum x)"
  have u: "0 < ?u" by simp
  have "\<bar>of_int (half_even (x / ?u)) - x / ?u\<bar> \<le> 1/2" by (rule half_even_error)
  then have "\<bar>of_int (half_even (x / ?u)) - x / ?u\<bar> * ?u \<le> 1/2 * ?u"
    using u by (intro mult_right_mono) auto
  moreover have "\<bar>of_int (half_even (x / ?u)) - x / ?u\<bar> * ?u = \<bar>fl x - x\<bar>"
  proof -
    have "\<bar>of_int (half_even (x / ?u)) - x / ?u\<bar> * ?u
        = \<bar>(of_int (half_even (x / ?u)) - x / ?u) * ?u\<bar>"
      using u by (simp add: abs_mult)
    also have "(of_int (half_even (x / ?u)) - x / ?u) * ?u = fl x - x"
      using False u by (simp add: fl_def algebra_simps)
    finally show ?thesis .
  qed
  ultimately have "\<bar>fl x - x\<bar> \<le> 1/2 * ?u" by simp
  also have "1/2 * ?u = 2 powi (expo x) * 2 powi (- 53)"
    unfolding q by (simp add: power_int_diff power_int_minus)
  also have "\<dots> \<le> \<bar>x\<bar> * 2 powi (- 53)"
    using expo_bounds(1)[OF False] by (intro mult_right_mono) auto
  finally show ?thesis .
qed

text \<open>Integers up to \<open>2\<^sup>5\<^sup>3\<close> are exact.\<close>

lemma fl_exact:
  assumes "x / 2 powi (quantum x) = of_int m"
  shows "fl x = x"
proof -
  have "of_int m * 2 powi (quantum x) = x" using assms by (simp add: field_simps)
  then show ?thesis using assms by (simp add: fl_def)
qed

lemma expo_less:
  assumes "x \<noteq> 0" "\<bar>x\<bar> < 2 powi k"
  shows "expo x < k"
proof (rule ccontr)
  assume "\<not> expo x < k"
  then have "(2::rat) powi k \<le> 2 powi (expo x)" by (intro power_int_increasing) auto
  then show False using assms expo_bounds(1)[OF assms(1)] by linarith
qed

lemma expo_ge:
  assumes "x \<noteq> 0" "2 powi k \<le> \<bar>x\<bar>"
  shows "k \<le> expo x"
proof (rule ccontr)
  assume "\<not> k \<le> expo x"
  then have "(2::rat) powi (expo x + 1) \<le> 2 powi k" by (intro power_int_increasing) auto
  then show False using assms expo_bounds(2)[OF assms(1)] by linarith
qed

lemma fl_int:
  assumes "\<bar>n\<bar> \<le> 2 ^ 53"
  shows "fl (of_int n) = of_int n"
proof (cases "n = 0")
  case True
  then show ?thesis by (simp add: fl_def)
next
  case n0: False
  let ?x = "of_int n :: rat"
  have x0: "?x \<noteq> 0" using n0 by simp
  have "1 \<le> \<bar>n\<bar>" using n0 by simp
  then have "(1::rat) \<le> \<bar>?x\<bar>" by (metis of_int_1_le_iff of_int_abs)
  then have e0: "0 \<le> expo ?x" using expo_ge[OF x0, of 0] by simp
  have le: "\<bar>?x\<bar> \<le> 2 ^ 53"
    using assms by (metis of_int_abs of_int_le_iff of_int_numeral of_int_power)
  show ?thesis
  proof (cases "\<bar>?x\<bar> = 2 ^ 53")
    case True
    have "53 \<le> expo ?x" using expo_ge[OF x0, of 53] True by simp
    moreover have "expo ?x < 54" using expo_less[OF x0, of 54] True by simp
    ultimately have q: "quantum ?x = 1" by (simp add: quantum_def)
    from True have "?x = 2 ^ 53 \<or> ?x = - (2 ^ 53)" by linarith
    then have "?x / 2 powi (quantum ?x) = of_int (2 ^ 52)
        \<or> ?x / 2 powi (quantum ?x) = of_int (- (2 ^ 52))"
      unfolding q by auto
    then show ?thesis using fl_exact by blast
  next
    case False
    then have "\<bar>?x\<bar> < 2 powi 53" using le by simp
    then have "expo ?x < 53" by (rule expo_less[OF x0])
    then obtain k where k: "quantum ?x = - int k"
      using e0 by (intro that[of "nat (52 - expo ?x)"]) (simp add: quantum_def)
    have "?x / 2 powi (quantum ?x) = of_int (n * 2 ^ k)"
      by (simp add: k power_int_minus field_simps)
    then show ?thesis by (rule fl_exact)
  qed
qed

text \<open>
  \<open>Math.floor(a / b)\<close> on safe integers is integer division: the rounding of the quotient never
  crosses an integer, because its error is below \<open>a / b \<cdot> 2\<^sup>-\<^sup>5\<^sup>3 < 1 / b\<close>.
\<close>

lemma floor_fl_div:
  assumes a: "0 \<le> a" "a < 2 ^ 53" and b: "0 < b" "b \<le> 2 ^ 53"
  shows "\<lfloor>fl (of_int a / of_int b)\<rfloor> = a div b"
proof (cases "b dvd a")
  case True
  then obtain c where c: "a = b * c" by auto
  have "0 \<le> c" using a(1) b(1) c by (simp add: zero_le_mult_iff)
  moreover have "c \<le> a" using b(1) c \<open>0 \<le> c\<close> by (simp add: mult_le_cancel_right1)
  ultimately have "fl (of_int c) = of_int c" using a by (intro fl_int) simp
  moreover have "(of_int a / of_int b :: rat) = of_int c" using c b by simp
  ultimately show ?thesis using c b by simp
next
  case False
  let ?x = "of_int a / of_int b :: rat"
  let ?k = "a div b"
  have br: "(0::rat) < of_int b" using b by simp
  have "a mod b \<noteq> 0" "0 \<le> a mod b" "a mod b < b"
    using False b by (simp_all add: dvd_eq_mod_eq_0)
  then have m: "1 \<le> a mod b" "a mod b \<le> b - 1" by linarith+
  have x: "?x = of_int ?k + of_int (a mod b) / of_int b"
  proof -
    have "(of_int a :: rat) = of_int ?k * of_int b + of_int (a mod b)"
      by (metis div_mult_mod_eq of_int_add of_int_mult)
    then show ?thesis using br by (simp add: field_simps)
  qed
  have lo: "of_int ?k + 1 / of_int b \<le> ?x"
    using m(1) br by (simp add: x divide_right_mono)
  have hi: "?x \<le> of_int ?k + 1 - 1 / of_int b"
  proof -
    have "of_int (a mod b) / of_int b \<le> (of_int (b - 1) / of_int b :: rat)"
      using m(2) br by (intro divide_right_mono) (simp_all only: of_int_le_iff less_imp_le)
    also have "\<dots> = 1 - 1 / of_int b" using br by (simp add: field_simps)
    finally show ?thesis by (simp add: x)
  qed
  have a1: "1 \<le> a" using False a by (cases "a = 0") auto
  have "(2::rat) powi (- 1022) \<le> 2 powi (- 53)" by (rule power_int_increasing) auto
  also have "\<dots> = 1 / 2 ^ 53" by (simp add: power_int_minus field_simps)
  also have "\<dots> \<le> 1 / of_int b"
  proof -
    have "(of_int b :: rat) \<le> of_int (2 ^ 53)" using b(2) by (simp only: of_int_le_iff)
    then show ?thesis using br by (simp add: frac_le)
  qed
  also have "\<dots> \<le> ?x" using a1 br by (simp add: divide_right_mono)
  finally have norm: "2 powi (- 1022) \<le> \<bar>?x\<bar>"
    by (rule order_trans) (rule abs_ge_self)
  have "\<bar>fl ?x - ?x\<bar> \<le> \<bar>?x\<bar> * 2 powi (- 53)" by (rule fl_error[OF norm])
  also have "\<bar>?x\<bar> = ?x" using a(1) br by simp
  also have "?x * 2 powi (- 53) < 1 / of_int b"
  proof -
    have "(of_int a :: rat) < of_int (2 ^ 53)" using a(2) by (simp only: of_int_less_iff)
    then show ?thesis using br by (simp add: power_int_minus field_simps)
  qed
  finally have "\<bar>fl ?x - ?x\<bar> < 1 / of_int b" .
  then have "of_int ?k < fl ?x" "fl ?x < of_int ?k + 1" using lo hi by linarith+
  then show ?thesis by (simp add: floor_eq_iff)
qed

section \<open>Decimal text\<close>

definition digit_char :: "nat \<Rightarrow> char" where
  "digit_char d = char_of (48 + d)"

definition is_digit :: "char \<Rightarrow> bool" where
  "is_digit c = (48 \<le> (of_char c :: nat) \<and> (of_char c :: nat) \<le> 57)"

definition digit_val :: "char \<Rightarrow> nat" where
  "digit_val c = (of_char c :: nat) - 48"

fun show_nat :: "nat \<Rightarrow> string" where
  "show_nat n = (if n < 10 then [digit_char n] else show_nat (n div 10) @ [digit_char (n mod 10)])"

declare show_nat.simps [simp del]

definition show_int :: "int \<Rightarrow> string" where
  "show_int n = (if n < 0 then CHR ''-'' # show_nat (nat (- n)) else show_nat (nat n))"

definition read_nat :: "string \<Rightarrow> nat" where
  "read_nat s = foldl (\<lambda>a c. 10 * a + digit_val c) 0 s"

definition all_digits :: "string \<Rightarrow> bool" where
  "all_digits s = (s \<noteq> [] \<and> list_all is_digit s)"

text \<open>\<open>/^(?:0|[1-9][0-9]*)$/\<close>\<close>

definition canonical_numeric :: "string \<Rightarrow> bool" where
  "canonical_numeric s = (all_digits s \<and> (s = ''0'' \<or> hd s \<noteq> CHR ''0''))"

lemma digit_char_simps [simp]:
  "d < 10 \<Longrightarrow> is_digit (digit_char d)"
  "d < 10 \<Longrightarrow> digit_val (digit_char d) = d"
  by (simp_all add: digit_char_def is_digit_def digit_val_def of_char_of)

lemma read_nat_snoc [simp]: "read_nat (s @ [c]) = 10 * read_nat s + digit_val c"
  by (simp add: read_nat_def)

lemma read_show_nat [simp]: "read_nat (show_nat n) = n"
proof (induction n rule: show_nat.induct)
  case (1 n)
  then show ?case
    by (cases "n < 10") (simp_all add: show_nat.simps[of n], simp add: read_nat_def)
qed

lemma all_digits_show_nat [simp]: "all_digits (show_nat n)"
proof (induction n rule: show_nat.induct)
  case (1 n)
  then show ?case
    by (cases "n < 10") (simp_all add: show_nat.simps[of n] all_digits_def)
qed

lemma show_nat_nonempty [simp]: "show_nat n \<noteq> []"
  using all_digits_show_nat[of n] by (simp add: all_digits_def)

lemma show_nat_inject [simp]: "show_nat m = show_nat n \<longleftrightarrow> m = n"
  by (metis read_show_nat)

lemma not_digit_minus [simp]: "\<not> is_digit CHR ''-''" "\<not> is_digit CHR ''+''" "\<not> is_digit CHR ''x''"
  by (simp_all add: is_digit_def)

lemma hd_show_nat: "0 < n \<Longrightarrow> hd (show_nat n) \<noteq> CHR ''0''"
proof (induction n rule: show_nat.induct)
  case (1 n)
  show ?case
  proof (cases "n < 10")
    case True
    have "digit_val (digit_char n) \<noteq> digit_val CHR ''0''"
      using True 1(2) by (simp add: digit_val_def[of "CHR ''0''"])
    then have "digit_char n \<noteq> CHR ''0''" by metis
    then show ?thesis using True by (simp add: show_nat.simps[of n])
  next
    case False
    then show ?thesis using 1 by (simp add: show_nat.simps[of n])
  qed
qed

lemma canonical_show_nat [simp]: "canonical_numeric (show_nat n)"
proof (cases "n = 0")
  case True
  moreover have "show_nat 0 = ''0''" by code_simp
  ultimately show ?thesis using all_digits_show_nat[of 0] by (simp add: canonical_numeric_def)
next
  case False
  then show ?thesis using hd_show_nat[of n] by (simp add: canonical_numeric_def)
qed

lemma show_int_nat [simp]: "show_int (int n) = show_nat n"
  by (simp add: show_int_def)

lemma show_int_inject [simp]: "show_int m = show_int n \<longleftrightarrow> m = n"
proof -
  have *: "CHR ''-'' # show_nat k \<noteq> show_nat j" for k j
    using all_digits_show_nat[of j] by (metis all_digits_def list.pred_inject(2) not_digit_minus(1))
  show ?thesis using *[symmetric] * by (auto simp: show_int_def)
qed

section \<open>Values\<close>

datatype jsval =
    Undef
  | Null
  | Bool bool
  | Num jsnum
  | Big int
  | Str string
  | Arr "jsval list"
  | Obj "(string \<times> jsval) list"
  | BN int
  | Key string

abbreviation IntV :: "int \<Rightarrow> jsval" where
  "IntV n \<equiv> Num (Fin (of_int n))"

definition nullish :: "jsval \<Rightarrow> bool" where
  "nullish v = (v = Undef \<or> v = Null)"

text \<open>\<open>a ?? b\<close>\<close>

definition coalesce :: "jsval \<Rightarrow> jsval \<Rightarrow> jsval" where
  "coalesce a b = (if nullish a then b else a)"

fun truthy :: "jsval \<Rightarrow> bool" where
  "truthy Undef = False"
| "truthy Null = False"
| "truthy (Bool b) = b"
| "truthy (Num n) = (n \<noteq> NaN \<and> n \<noteq> Fin 0)"
| "truthy (Big n) = (n \<noteq> 0)"
| "truthy (Str s) = (s \<noteq> [])"
| "truthy (Arr xs) = True"
| "truthy (Obj fs) = True"
| "truthy (BN n) = True"
| "truthy (Key s) = True"

text \<open>\<open>a || b\<close>\<close>

definition js_or :: "jsval \<Rightarrow> jsval \<Rightarrow> jsval" where
  "js_or a b = (if truthy a then a else b)"

text \<open>\<open>typeof v === 'object' && v !== null && !Array.isArray(v)\<close> for the values of the model.\<close>

fun is_object :: "jsval \<Rightarrow> bool" where
  "is_object (Obj fs) = True"
| "is_object (BN n) = True"
| "is_object (Key s) = True"
| "is_object _ = False"

fun is_str :: "jsval \<Rightarrow> bool" where
  "is_str (Str s) = True"
| "is_str _ = False"

text \<open>\<open>v?.k\<close>; on \<open>undefined\<close> and \<open>null\<close> the value is \<open>undefined\<close>.\<close>

fun opt_member :: "jsval \<Rightarrow> string \<Rightarrow> jsval" where
  "opt_member (Obj fs) k = (case map_of fs k of None \<Rightarrow> Undef | Some v \<Rightarrow> v)"
| "opt_member _ k = Undef"

text \<open>\<open>v.k\<close>: a \<open>TypeError\<close> on \<open>undefined\<close> and \<open>null\<close>.\<close>

definition member :: "jsval \<Rightarrow> string \<Rightarrow> jsval res" where
  "member v k = (if nullish v then Inl (TypeError (''Cannot read properties: '' @ k))
                 else Inr (opt_member v k))"

text \<open>Integer Numbers; \<open>Number.isInteger\<close> and \<open>Number.isSafeInteger\<close>.\<close>

fun integer_of :: "jsval \<Rightarrow> int option" where
  "integer_of (Num (Fin r)) = (if r = of_int \<lfloor>r\<rfloor> then Some \<lfloor>r\<rfloor> else None)"
| "integer_of _ = None"

definition safe_int :: "jsval \<Rightarrow> int option" where
  "safe_int v = (case integer_of v of None \<Rightarrow> None
     | Some n \<Rightarrow> if safe_num n then Some n else None)"

lemma integer_of_Int [simp]: "integer_of (IntV n) = Some n"
  by simp

lemma safe_int_Int [simp]: "safe_int (IntV n) = (if safe_num n then Some n else None)"
  by (simp add: safe_int_def)

lemma integer_of_Some: "integer_of v = Some n \<longleftrightarrow> v = IntV n"
  by (cases v rule: integer_of.cases) auto

lemma safe_int_Some: "safe_int v = Some n \<longleftrightarrow> v = IntV n \<and> safe_num n"
  by (auto simp: safe_int_def integer_of_Some split: option.splits)

lemma coalesce_simps [simp]:
  "coalesce Undef b = b" "coalesce Null b = b" "coalesce (Bool x) b = Bool x"
  "coalesce (Num n) b = Num n" "coalesce (Big i) b = Big i" "coalesce (Str s) b = Str s"
  "coalesce (Arr xs) b = Arr xs" "coalesce (Obj fs) b = Obj fs" "coalesce (BN i) b = BN i"
  "coalesce (Key s) b = Key s"
  by (simp_all add: coalesce_def nullish_def)

lemma nullish_simps [simp]:
  "nullish Undef" "nullish Null" "\<not> nullish (Bool x)" "\<not> nullish (Num n)" "\<not> nullish (Big i)"
  "\<not> nullish (Str s)" "\<not> nullish (Arr xs)" "\<not> nullish (Obj fs)" "\<not> nullish (BN i)"
  "\<not> nullish (Key s)"
  by (simp_all add: nullish_def)

lemma size_elem: "x \<in> set xs \<Longrightarrow> size x < size (Arr xs)"
  using size_list_estimation'[of x xs "size x" size] by simp

lemma size_field: "f \<in> set fs \<Longrightarrow> size (snd f) < size (Obj fs)"
  using size_list_estimation'[of f fs "size (snd f)" "size_prod (\<lambda>_. 0) size"] by (cases f) simp

section \<open>String(v)\<close>

text \<open>
  \<open>Number.prototype.toString\<close>: decimal digits for integers below \<open>10\<^sup>2\<^sup>1\<close>; otherwise the shortest
  digit string that rounds back to the number, in positional or exponent form, as the language
  defines it.
\<close>

fun shortest :: "rat \<Rightarrow> int \<Rightarrow> nat \<Rightarrow> nat \<Rightarrow> nat \<times> nat" where
  "shortest x n k 0 = (nat \<lfloor>x / 10 powi (n - int k)\<rfloor>, k)"
| "shortest x n k (Suc fuel) =
     (let u = 10 powi (n - int k); lo = \<lfloor>x / u\<rfloor>; hi = lo + 1;
          okl = (fl (of_int lo * u) = x); okh = (fl (of_int hi * u) = x) in
      if okl \<and> okh then (if x - of_int lo * u \<le> of_int hi * u - x then nat lo else nat hi, k)
      else if okl then (nat lo, k) else if okh then (nat hi, k)
      else shortest x n (Suc k) fuel)"

text \<open>\<open>n\<close> with \<open>10\<^sup>n\<^sup>-\<^sup>1 \<le> x < 10\<^sup>n\<close>, by search from an estimate.\<close>

definition dec_expo :: "rat \<Rightarrow> int" where
  "dec_expo x = (if 1 \<le> x then int (length (show_nat (nat \<lfloor>x\<rfloor>)))
     else 1 - int (length (show_nat (nat (\<lceil>1 / x\<rceil> - 1)))))"

definition show_pos :: "rat \<Rightarrow> string" where
  "show_pos x = (let n0 = dec_expo x; (s0, k0) = shortest x n0 1 17;
       (n, s, k) = (if s0 = 10 ^ k0 then (n0 + 1, 1, 1) else (n0, s0, k0)); ds = show_nat s; e = n - 1;
       es = (if e < 0 then CHR ''-'' else CHR ''+'') # show_nat (nat \<bar>e\<bar>) in
     if int k \<le> n \<and> n \<le> 21 then ds @ replicate (nat n - k) CHR ''0''
     else if 0 < n \<and> n \<le> 21 then take (nat n) ds @ ''.'' @ drop (nat n) ds
     else if - 6 < n \<and> n \<le> 0 then ''0.'' @ replicate (nat (- n)) CHR ''0'' @ ds
     else if k = 1 then ds @ ''e'' @ es
     else take 1 ds @ ''.'' @ drop 1 ds @ ''e'' @ es)"

fun num_to_string :: "jsnum \<Rightarrow> string" where
  "num_to_string NaN = ''NaN''"
| "num_to_string PosInf = ''Infinity''"
| "num_to_string NegInf = ''-Infinity''"
| "num_to_string (Fin x) =
     (if x = of_int \<lfloor>x\<rfloor> \<and> \<bar>x\<bar> < 2 ^ 53 then show_int \<lfloor>x\<rfloor>
      else if x < 0 then CHR ''-'' # show_pos (- x) else show_pos x)"

fun to_str :: "jsval \<Rightarrow> string" where
  "to_str Undef = ''undefined''"
| "to_str Null = ''null''"
| "to_str (Bool b) = (if b then ''true'' else ''false'')"
| "to_str (Num n) = num_to_string n"
| "to_str (Big n) = show_int n"
| "to_str (Str s) = s"
| "to_str (Arr xs) = join '','' (map (\<lambda>v. case v of Undef \<Rightarrow> [] | Null \<Rightarrow> [] | _ \<Rightarrow> to_str v) xs)"
| "to_str (Obj fs) = ''[object Object]''"
| "to_str (BN n) = show_int n"
| "to_str (Key s) = s"

section \<open>BigInt(v)\<close>

definition is_space :: "char \<Rightarrow> bool" where
  "is_space c = (let n = (of_char c :: nat) in (9 \<le> n \<and> n \<le> 13) \<or> n = 32 \<or> n = 160)"

definition trim :: "string \<Rightarrow> string" where
  "trim s = rev (dropWhile is_space (rev (dropWhile is_space s)))"

fun hex_val :: "char \<Rightarrow> nat option" where
  "hex_val c = (let n = (of_char c :: nat) in
     if 48 \<le> n \<and> n \<le> 57 then Some (n - 48)
     else if 97 \<le> n \<and> n \<le> 102 then Some (n - 87)
     else if 65 \<le> n \<and> n \<le> 70 then Some (n - 55) else None)"

declare hex_val.simps [simp del]

fun read_radix :: "nat \<Rightarrow> nat \<Rightarrow> string \<Rightarrow> nat option" where
  "read_radix b a [] = Some a"
| "read_radix b a (c # cs) = (case hex_val c of None \<Rightarrow> None
     | Some d \<Rightarrow> if d < b then read_radix b (b * a + d) cs else None)"

definition nonempty_radix :: "nat \<Rightarrow> string \<Rightarrow> int option" where
  "nonempty_radix b s = (if s = [] then None else map_option int (read_radix b 0 s))"

text \<open>The language's StringToBigInt: signed decimal, or an unsigned prefixed literal.\<close>

definition parse_bigint :: "string \<Rightarrow> int option" where
  "parse_bigint s0 = (let s = trim s0 in
     if s = [] then Some 0
     else if all_digits s then Some (int (read_nat s))
     else case s of
       CHR ''-'' # r \<Rightarrow> if all_digits r then Some (- int (read_nat r)) else None
     | CHR ''+'' # r \<Rightarrow> if all_digits r then Some (int (read_nat r)) else None
     | CHR ''0'' # p # r \<Rightarrow>
         if p \<in> {CHR ''x'', CHR ''X''} then nonempty_radix 16 r
         else if p \<in> {CHR ''o'', CHR ''O''} then nonempty_radix 8 r
         else if p \<in> {CHR ''b'', CHR ''B''} then nonempty_radix 2 r else None
     | _ \<Rightarrow> None)"

definition bigint_of_string :: "string \<Rightarrow> int res" where
  "bigint_of_string s = (case parse_bigint s of
     None \<Rightarrow> Inl (SyntaxError (''Cannot convert '' @ s @ '' to a BigInt'')) | Some n \<Rightarrow> Inr n)"

fun to_bigint :: "jsval \<Rightarrow> int res" where
  "to_bigint Undef = Inl (TypeError ''Cannot convert undefined to a BigInt'')"
| "to_bigint Null = Inl (TypeError ''Cannot convert null to a BigInt'')"
| "to_bigint (Bool b) = Inr (if b then 1 else 0)"
| "to_bigint (Num n) = (case integer_of (Num n) of
     None \<Rightarrow> Inl (RangeError ''The number cannot be converted to a BigInt'') | Some i \<Rightarrow> Inr i)"
| "to_bigint (Big n) = Inr n"
| "to_bigint v = bigint_of_string (to_str v)"

text \<open>\<open>value?.toString?.() ?? value\<close>, then \<open>BigInt\<close> of it.\<close>

definition bigint_of_value :: "jsval \<Rightarrow> int res" where
  "bigint_of_value v = (if nullish v then to_bigint v else bigint_of_string (to_str v))"

text \<open>\<open>BigInt(value?.toString?.() ?? value ?? 0)\<close>\<close>

definition asBig :: "jsval \<Rightarrow> int res" where
  "asBig v = (if nullish v then Inr 0 else bigint_of_string (to_str v))"

lemma digit_not_space: "is_digit c \<Longrightarrow> \<not> is_space c"
  by (auto simp: is_digit_def is_space_def Let_def)

lemma trim_id: "s \<noteq> [] \<Longrightarrow> \<not> is_space (hd s) \<Longrightarrow> \<not> is_space (last s) \<Longrightarrow> trim s = s"
proof -
  assume a: "s \<noteq> []" "\<not> is_space (hd s)" "\<not> is_space (last s)"
  have "dropWhile is_space s = s" using a by (cases s) auto
  moreover have "dropWhile is_space (rev s) = rev s"
    using a by (cases s rule: rev_cases) auto
  ultimately show ?thesis by (simp add: trim_def)
qed

lemma trim_digits: "all_digits s \<Longrightarrow> trim s = s"
  by (rule trim_id) (auto simp: all_digits_def list_all_iff digit_not_space hd_in_set last_in_set)

lemma parse_digits [simp]: "all_digits s \<Longrightarrow> parse_bigint s = Some (int (read_nat s))"
  by (auto simp: parse_bigint_def trim_digits Let_def all_digits_def)

lemma parse_show_int [simp]: "parse_bigint (show_int n) = Some n"
proof (cases "n < 0")
  case False
  then show ?thesis by (simp add: show_int_def)
next
  case True
  let ?d = "show_nat (nat (- n))"
  have d: "all_digits ?d" by simp
  have sp: "\<not> is_space CHR ''-''" by (simp add: is_space_def Let_def)
  have "trim (CHR ''-'' # ?d) = CHR ''-'' # ?d"
    using d sp by (intro trim_id) (auto simp: all_digits_def list_all_iff digit_not_space last_in_set)
  moreover have "\<not> all_digits (CHR ''-'' # ?d)" by (simp add: all_digits_def)
  ultimately show ?thesis using True d by (simp add: parse_bigint_def show_int_def Let_def)
qed

lemma bigint_of_string_show [simp]: "bigint_of_string (show_int n) = Inr n"
  by (simp add: bigint_of_string_def)

lemma asBig_simps [simp]: "asBig Undef = Inr 0" "asBig Null = Inr 0" "asBig (Big n) = Inr n" "asBig (BN n) = Inr n"
  by (simp_all add: asBig_def nullish_def)

lemma bigint_of_string_digits: "all_digits s \<Longrightarrow> bigint_of_string s = Inr (int (read_nat s))"
  by (simp add: bigint_of_string_def)

lemma bigint_of_value_simps [simp]:
  "bigint_of_value (Big n) = Inr n" "bigint_of_value (BN n) = Inr n"
  by (simp_all add: bigint_of_value_def)

lemma num_to_string_int [simp]: "safe_num n \<Longrightarrow> num_to_string (Fin (of_int n)) = show_int n"
proof -
  assume "safe_num n"
  then have "\<bar>n\<bar> < 2 ^ 53" by (auto simp: safe_num_iff)
  then have "\<bar>of_int n :: rat\<bar> < 2 ^ 53"
    by (metis of_int_abs of_int_less_iff of_int_numeral of_int_power)
  then show ?thesis by simp
qed

lemma bigint_of_value_Int [simp]:
  "safe_num n \<Longrightarrow> bigint_of_value (IntV n) = Inr n"
  by (simp add: bigint_of_value_def del: num_to_string.simps)

section \<open>Number(v)\<close>

text \<open>
  StringToNumber: white space around an optional sign, decimal digits with an optional fraction
  and exponent, \<open>Infinity\<close>, or an unsigned prefixed literal; anything else is NaN.
\<close>

definition split_digits :: "string \<Rightarrow> string \<times> string" where
  "split_digits s = (takeWhile is_digit s, dropWhile is_digit s)"

definition parse_exponent :: "string \<Rightarrow> int option" where
  "parse_exponent s = (case s of [] \<Rightarrow> Some 0
     | e # r \<Rightarrow> if e \<in> {CHR ''e'', CHR ''E''} then
         (case r of
            CHR ''-'' # d \<Rightarrow> if all_digits d then Some (- int (read_nat d)) else None
          | CHR ''+'' # d \<Rightarrow> if all_digits d then Some (int (read_nat d)) else None
          | _ \<Rightarrow> if all_digits r then Some (int (read_nat r)) else None)
       else None)"

definition parse_decimal :: "string \<Rightarrow> rat option" where
  "parse_decimal s = (let (w, r) = split_digits s;
       (f, t) = (case r of CHR ''.'' # r' \<Rightarrow> split_digits r' | _ \<Rightarrow> ([], r)) in
     if w = [] \<and> f = [] then None
     else map_option (\<lambda>e. of_nat (read_nat (w @ f)) * 10 powi (e - int (length f)))
       (parse_exponent t))"

definition parse_number :: "string \<Rightarrow> jsnum" where
  "parse_number s0 = (let s = trim s0;
       (neg, r) = (case s of CHR ''-'' # r \<Rightarrow> (True, r) | CHR ''+'' # r \<Rightarrow> (False, r)
                    | _ \<Rightarrow> (False, s)) in
     if s = [] then Fin 0
     else if r = ''Infinity'' then (if neg then NegInf else PosInf)
     else case parse_decimal r of
       Some x \<Rightarrow> num_of_rat (if neg then - x else x)
     | None \<Rightarrow> (if s \<noteq> r then NaN else case s of
           CHR ''0'' # p # d \<Rightarrow>
             (case (if p \<in> {CHR ''x'', CHR ''X''} then nonempty_radix 16 d
                    else if p \<in> {CHR ''o'', CHR ''O''} then nonempty_radix 8 d
                    else if p \<in> {CHR ''b'', CHR ''B''} then nonempty_radix 2 d else None) of
                None \<Rightarrow> NaN | Some n \<Rightarrow> num_of_rat (of_int n))
         | _ \<Rightarrow> NaN))"

fun to_num :: "jsval \<Rightarrow> jsnum" where
  "to_num Undef = NaN"
| "to_num Null = Fin 0"
| "to_num (Bool b) = (if b then Fin 1 else Fin 0)"
| "to_num (Num n) = n"
| "to_num (Big n) = num_of_rat (of_int n)"
| "to_num v = parse_number (to_str v)"

fun num_lt :: "jsnum \<Rightarrow> jsnum \<Rightarrow> bool" where
  "num_lt (Fin x) (Fin y) = (x < y)"
| "num_lt NegInf (Fin y) = True"
| "num_lt NegInf PosInf = True"
| "num_lt (Fin x) PosInf = True"
| "num_lt _ _ = False"

definition num_le :: "jsnum \<Rightarrow> jsnum \<Rightarrow> bool" where
  "num_le x y = (num_lt x y \<or> (x = y \<and> x \<noteq> NaN))"

fun is_finite :: "jsnum \<Rightarrow> bool" where
  "is_finite (Fin x) = True"
| "is_finite _ = False"

lemma num_of_int_small [simp]:
  "safe_num n \<Longrightarrow> num_of_rat (of_int n) = Fin (of_int n)"
proof -
  assume a: "safe_num n"
  then have "\<bar>n\<bar> \<le> 2 ^ 53" by (auto simp: safe_num_iff)
  then have f: "fl (of_int n) = of_int n" by (rule fl_int)
  show ?thesis
  proof (cases "n = 0")
    case True
    then show ?thesis using f by (simp add: num_of_rat_def)
  next
    case False
    have "\<bar>of_int n :: rat\<bar> < 2 ^ 53"
      using a by (metis safe_num_def MAX_SAFE_INTEGER_def of_int_abs of_int_less_iff of_int_numeral
        of_int_power zle_diff1_eq)
    then have "expo (of_int n) < 53"
      using False by (intro expo_less) auto
    then show ?thesis by (simp add: num_of_rat_def f Let_def)
  qed
qed

section \<open>Arithmetic on integer Numbers\<close>

text \<open>
  \<open>a + b\<close>, \<open>a - b\<close> and \<open>a * b\<close> on integer Numbers round to 53 significant bits; the sources
  that use them check their operands with \<open>Number.isSafeInteger\<close>.
\<close>

definition rint :: "int \<Rightarrow> int" where
  "rint n = \<lfloor>fl (of_int n)\<rfloor>"

definition num_floor_div :: "int \<Rightarrow> int \<Rightarrow> int" where
  "num_floor_div a b = \<lfloor>fl (of_int a / of_int b)\<rfloor>"

lemma rint_small: "\<bar>n\<bar> \<le> 2 ^ 53 \<Longrightarrow> rint n = n"
  by (simp add: rint_def fl_int del: of_int_power)

lemma num_floor_div_eq:
  "0 \<le> a \<Longrightarrow> a < 2 ^ 53 \<Longrightarrow> 0 < b \<Longrightarrow> b \<le> 2 ^ 53 \<Longrightarrow> num_floor_div a b = a div b"
  by (simp add: num_floor_div_def floor_fl_div)

section \<open>Number arithmetic\<close>

text \<open>
  The operators and the functions of \<open>Math\<close> on arbitrary Numbers, rounded; negative zero counts as zero,
  also as a divisor.
\<close>

fun num_neg :: "jsnum \<Rightarrow> jsnum" where
  "num_neg NaN = NaN"
| "num_neg PosInf = NegInf"
| "num_neg NegInf = PosInf"
| "num_neg (Fin x) = Fin (- x)"

fun num_add :: "jsnum \<Rightarrow> jsnum \<Rightarrow> jsnum" where
  "num_add (Fin x) (Fin y) = num_of_rat (x + y)"
| "num_add NaN _ = NaN"
| "num_add _ NaN = NaN"
| "num_add PosInf NegInf = NaN"
| "num_add NegInf PosInf = NaN"
| "num_add (Fin x) y = y"
| "num_add x _ = x"

definition num_sub :: "jsnum \<Rightarrow> jsnum \<Rightarrow> jsnum" where
  "num_sub x y = num_add x (num_neg y)"

fun num_mul :: "jsnum \<Rightarrow> jsnum \<Rightarrow> jsnum" where
  "num_mul (Fin x) (Fin y) = num_of_rat (x * y)"
| "num_mul NaN _ = NaN"
| "num_mul _ NaN = NaN"
| "num_mul (Fin x) y = (if x = 0 then NaN else if 0 < x then y else num_neg y)"
| "num_mul x (Fin y) = (if y = 0 then NaN else if 0 < y then x else num_neg x)"
| "num_mul PosInf y = y"
| "num_mul NegInf y = num_neg y"

fun num_div :: "jsnum \<Rightarrow> jsnum \<Rightarrow> jsnum" where
  "num_div (Fin x) (Fin y) = (if y \<noteq> 0 then num_of_rat (x / y)
     else if x = 0 then NaN else if 0 < x then PosInf else NegInf)"
| "num_div NaN _ = NaN"
| "num_div _ NaN = NaN"
| "num_div (Fin x) _ = Fin 0"
| "num_div x (Fin y) = (if 0 \<le> y then x else num_neg x)"
| "num_div _ _ = NaN"

definition num_max :: "jsnum \<Rightarrow> jsnum \<Rightarrow> jsnum" where
  "num_max x y = (if x = NaN \<or> y = NaN then NaN else if num_lt x y then y else x)"

definition num_min :: "jsnum \<Rightarrow> jsnum \<Rightarrow> jsnum" where
  "num_min x y = (if x = NaN \<or> y = NaN then NaN else if num_lt y x then y else x)"

fun num_floor :: "jsnum \<Rightarrow> jsnum" where
  "num_floor (Fin x) = Fin (of_int \<lfloor>x\<rfloor>)"
| "num_floor x = x"

section \<open>Argument checks shared by the policies\<close>

text \<open>A destructured parameter with a default: the default replaces \<open>undefined\<close> only.\<close>

definition with_default :: "jsval \<Rightarrow> jsval \<Rightarrow> jsval" where
  "with_default v d = (if v = Undef then d else v)"

text \<open>\<open>assert.ok(Number.isSafeInteger(value), `${name} must be a safe integer`)\<close>.\<close>

definition require_safe :: "string \<Rightarrow> jsval \<Rightarrow> (int \<Rightarrow> 'a res) \<Rightarrow> 'a res" where
  "require_safe name v k = (case safe_int v of
     None \<Rightarrow> Inl (AssertionError (name @ '' must be a safe integer'')) | Some n \<Rightarrow> k n)"

lemma require_safe_Inr [res_simps]:
  "require_safe name v k = Inr y \<longleftrightarrow> (\<exists>n. v = IntV n \<and> safe_num n \<and> k n = Inr y)"
  by (auto simp: require_safe_def safe_int_Some split: option.splits)

lemma require_safe_ok [simp]:
  "safe_num n \<Longrightarrow> require_safe name (IntV n) k = k n"
  by (simp add: require_safe_def)

section \<open>BigInt division\<close>

text \<open>\<open>a / b\<close> on BigInt truncates towards zero; division by zero is a \<open>RangeError\<close>.\<close>

definition big_div :: "int \<Rightarrow> int \<Rightarrow> int" where
  "big_div a b = sgn a * sgn b * (\<bar>a\<bar> div \<bar>b\<bar>)"

lemma big_div_nonneg [simp]: "0 \<le> a \<Longrightarrow> 0 < b \<Longrightarrow> big_div a b = a div b"
  by (cases "a = 0") (simp_all add: big_div_def)

text \<open>\<open>try { BigInt(value?.toString?.() ?? value) }\<close> with a label for the error, non-negative.\<close>

definition nonneg_bigint :: "jsval \<Rightarrow> string \<Rightarrow> int res" where
  "nonneg_bigint v label =
     then_res (catch_res (bigint_of_value v) (\<lambda>_. Inl (Error (label @ '' must be an integer''))))
       (\<lambda>parsed. assert_ok (0 \<le> parsed) (label @ '' cannot be negative'') (Inr parsed))"

lemma nonneg_bigint_BN [simp]: "0 \<le> n \<Longrightarrow> nonneg_bigint (BN n) l = Inr n"
  by (simp add: nonneg_bigint_def)

lemma nonneg_bigint_Big [simp]: "0 \<le> n \<Longrightarrow> nonneg_bigint (Big n) l = Inr n"
  by (simp add: nonneg_bigint_def)

lemma nonneg_bigint_Inr [res_simps]:
  "nonneg_bigint v l = Inr n \<longleftrightarrow> bigint_of_value v = Inr n \<and> 0 \<le> n"
  by (auto simp: nonneg_bigint_def res_simps)

section \<open>Padding\<close>

text \<open>\<open>s.padStart(n, c)\<close> for a single character \<open>c\<close>.\<close>

definition padStart :: "nat \<Rightarrow> char \<Rightarrow> string \<Rightarrow> string" where
  "padStart n c s = replicate (n - length s) c @ s"

section \<open>Solana u64\<close>

definition U64_MAX :: int where
  "U64_MAX = 2 ^ 64 - 1"

end
