(* ===== verification/Round_Schedule.thy ===== *)
theory Round_Schedule
  imports Js_Values
begin

text \<open>
  \<open>Protocol/scripts/round-schedule-policy.mjs\<close>: which rounds a keeper must prepare at a wall-clock
  second, which round is the first that can still be prebound after a pause, and the exclusive
  result deadline. Timestamps are JavaScript Numbers; every sum and product is rounded as the
  language rounds it (\<open>rint\<close>), and the quotient under \<open>Math.floor\<close> is \<open>num_floor_div\<close>.
\<close>

definition PROVIDER_PREPARATION_LEAD_SECONDS :: int where
  "PROVIDER_PREPARATION_LEAD_SECONDS = 60"

definition PROVIDER_PREPARATION_SAFETY_MARGIN_SECONDS :: int where
  "PROVIDER_PREPARATION_SAFETY_MARGIN_SECONDS = 2"

definition ROUND_KEEPER_DEFERRED_EXIT_CODE :: int where
  "ROUND_KEEPER_DEFERRED_EXIT_CODE = 75"

definition ROUND_KEEPER_MISSED_EXIT_CODE :: int where
  "ROUND_KEEPER_MISSED_EXIT_CODE = 76"

definition requireExactSettlementWindow :: "jsval \<Rightarrow> jsval \<Rightarrow> jsval \<Rightarrow> int res" where
  "requireExactSettlementWindow roundDurationSeconds bettingDurationSeconds settlementLateSeconds =
     require_safe ''roundDurationSeconds'' roundDurationSeconds (\<lambda>rd.
     require_safe ''bettingDurationSeconds'' bettingDurationSeconds (\<lambda>bd.
     require_safe ''settlementLateSeconds'' settlementLateSeconds (\<lambda>late.
     assert_ok (bd < rd) ''Round duration must exceed betting duration''
     (let resultWindowSeconds = rint (rd - bd) in
      assert_ok (late = resultWindowSeconds)
        (''ROUND_KEEPER_SETTLEMENT_LATE_SECONDS must equal the ''
          @ to_str (IntV resultWindowSeconds) @ ''-second result window'')
      (Inr resultWindowSeconds)))))"

definition settlementConfirmedWithinResultWindow :: "jsval \<Rightarrow> jsval \<Rightarrow> bool res" where
  "settlementConfirmedWithinResultWindow confirmedAt resultDeadlineAt =
     require_safe ''confirmedAt'' confirmedAt (\<lambda>c.
     require_safe ''resultDeadlineAt'' resultDeadlineAt (\<lambda>d. Inr (c < d)))"

definition firstSafeResumeRoundId ::
  "jsval \<Rightarrow> jsval \<Rightarrow> jsval \<Rightarrow> jsval \<Rightarrow> jsval \<Rightarrow> jsval \<Rightarrow> int res" where
  "firstSafeResumeRoundId now initializedAt roundDurationSeconds preparationLeadSeconds
       preparationSafetyMarginSeconds nextRoundPrebindGraceSeconds =
     require_safe ''now'' now (\<lambda>now.
     require_safe ''initializedAt'' initializedAt (\<lambda>initializedAt.
     require_safe ''roundDurationSeconds'' roundDurationSeconds (\<lambda>duration.
     require_safe ''preparationLeadSeconds''
       (with_default preparationLeadSeconds (IntV PROVIDER_PREPARATION_LEAD_SECONDS)) (\<lambda>lead.
     require_safe ''preparationSafetyMarginSeconds''
       (with_default preparationSafetyMarginSeconds
         (IntV PROVIDER_PREPARATION_SAFETY_MARGIN_SECONDS)) (\<lambda>margin.
     require_safe ''nextRoundPrebindGraceSeconds'' nextRoundPrebindGraceSeconds (\<lambda>grace.
     assert_ok (0 < duration) ''roundDurationSeconds must be positive'' (
     assert_ok (0 < lead \<and> lead < duration) ''preparationLeadSeconds must be inside one round'' (
     assert_ok (0 \<le> margin \<and> 0 < grace \<and> rint (margin + grace) < lead)
       ''Safe resume prebind deadline must fit inside the preparation window'' (
     if now < initializedAt then Inr 0
     else
       let currentRoundId = num_floor_div (rint (now - initializedAt)) duration;
           nextRoundId = rint (currentRoundId + 1);
           nextPrebindDeadline =
             rint (rint (rint (rint (initializedAt + rint (nextRoundId * duration)) - lead)
               + margin) + grace)
       in Inr (if now < nextPrebindDeadline then nextRoundId else rint (nextRoundId + 1)))))))))))"

definition roundIdsToPrepare ::
  "jsval \<Rightarrow> jsval \<Rightarrow> jsval \<Rightarrow> jsval \<Rightarrow> jsval \<Rightarrow> int list res" where
  "roundIdsToPrepare now initializedAt roundDurationSeconds preparationLeadSeconds
       preparationSafetyMarginSeconds =
     require_safe ''now'' now (\<lambda>now.
     require_safe ''initializedAt'' initializedAt (\<lambda>initializedAt.
     require_safe ''roundDurationSeconds'' roundDurationSeconds (\<lambda>duration.
     require_safe ''preparationLeadSeconds''
       (with_default preparationLeadSeconds (IntV PROVIDER_PREPARATION_LEAD_SECONDS)) (\<lambda>lead.
     require_safe ''preparationSafetyMarginSeconds''
       (with_default preparationSafetyMarginSeconds
         (IntV PROVIDER_PREPARATION_SAFETY_MARGIN_SECONDS)) (\<lambda>margin.
     assert_ok (0 < duration) ''roundDurationSeconds must be positive'' (
     assert_ok (0 < lead \<and> lead < duration) ''preparationLeadSeconds must be inside one round'' (
     assert_ok (0 \<le> margin \<and> margin < lead)
       ''preparationSafetyMarginSeconds must fit inside the preparation window'' (
     if now < initializedAt then Inr []
     else
       let currentRound = num_floor_div (rint (now - initializedAt)) duration;
           nextRound = rint (currentRound + 1);
           nextPreparationStartsAt =
             rint (rint (rint (initializedAt + rint (nextRound * duration)) - lead) + margin)
       in Inr (if nextPreparationStartsAt \<le> now then [currentRound, nextRound]
               else [currentRound])))))))))"

section \<open>The schedule the code means: exact integers\<close>

definition scheduled_start :: "int \<Rightarrow> int \<Rightarrow> int \<Rightarrow> int" where
  "scheduled_start initializedAt duration r = initializedAt + r * duration"

text \<open>
  Range in which every intermediate Number is exact: non-negative Unix seconds below \<open>2\<^sup>5\<^sup>1\<close> and a
  duration below \<open>2\<^sup>5\<^sup>1\<close>.
\<close>

definition exact_times :: "int \<Rightarrow> int \<Rightarrow> int \<Rightarrow> bool" where
  "exact_times now initializedAt duration \<longleftrightarrow>
     0 \<le> initializedAt \<and> initializedAt \<le> now \<and> now \<le> 2 ^ 51 \<and> 0 < duration \<and> duration \<le> 2 ^ 51"

lemma current_round_exact:
  assumes "exact_times now ini dur"
  shows "num_floor_div (rint (now - ini)) dur = (now - ini) div dur"
    and "0 \<le> (now - ini) div dur" "(now - ini) div dur \<le> 2 ^ 51"
    and "rint ((now - ini) div dur + 1) = (now - ini) div dur + 1"
    and "rint ((now - ini) div dur + 1 + 1) = (now - ini) div dur + 1 + 1"
proof -
  let ?c = "(now - ini) div dur"
  have d: "rint (now - ini) = now - ini" using assms by (intro rint_small) (auto simp: exact_times_def)
  show "num_floor_div (rint (now - ini)) dur = ?c"
    unfolding d using assms by (intro num_floor_div_eq) (auto simp: exact_times_def)
  show c0: "0 \<le> ?c" using assms by (simp add: exact_times_def pos_imp_zdiv_nonneg_iff)
  have "?c \<le> (now - ini) div 1" using assms by (intro zdiv_mono2) (auto simp: exact_times_def)
  then show c1: "?c \<le> 2 ^ 51" using assms by (auto simp: exact_times_def)
  show "rint (?c + 1) = ?c + 1" "rint (?c + 1 + 1) = ?c + 1 + 1"
    using c0 c1 by (auto intro!: rint_small)
qed

lemma current_round_brackets:
  assumes "exact_times now ini dur"
  shows "scheduled_start ini dur ((now - ini) div dur) \<le> now"
    and "now < scheduled_start ini dur ((now - ini) div dur + 1)"
    and "scheduled_start ini dur ((now - ini) div dur + 1) \<le> now + dur"
proof -
  have d: "0 < dur" using assms by (simp add: exact_times_def)
  have "(now - ini) div dur * dur + (now - ini) mod dur = now - ini" by simp
  moreover have "0 \<le> (now - ini) mod dur" "(now - ini) mod dur < dur" using d by auto
  ultimately show "scheduled_start ini dur ((now - ini) div dur) \<le> now"
    "now < scheduled_start ini dur ((now - ini) div dur + 1)"
    "scheduled_start ini dur ((now - ini) div dur + 1) \<le> now + dur"
    unfolding scheduled_start_def distrib_right by linarith+
qed

lemma scheduled_start_mono: "0 < dur \<Longrightarrow> r \<le> r' \<Longrightarrow> scheduled_start ini dur r \<le> scheduled_start ini dur r'"
  by (simp add: scheduled_start_def mult_right_mono)

lemma scheduled_start_Suc: "scheduled_start ini dur (r + 1) = scheduled_start ini dur r + dur"
  by (simp add: scheduled_start_def distrib_right)

text \<open>The rounded start of the next round is exact in the range of \<open>exact_times\<close>.\<close>

lemma next_start_exact:
  assumes "exact_times now ini dur"
  defines "c \<equiv> (now - ini) div dur"
  shows "rint (ini + rint ((c + 1) * dur)) = scheduled_start ini dur (c + 1)"
proof -
  have m: "scheduled_start ini dur (c + 1) \<le> now + dur" "now < scheduled_start ini dur (c + 1)"
    using current_round_brackets[OF assms(1)] by (auto simp: c_def)
  have "rint ((c + 1) * dur) = (c + 1) * dur"
    using m assms(1) by (intro rint_small) (auto simp: scheduled_start_def exact_times_def)
  moreover have "rint (scheduled_start ini dur (c + 1)) = scheduled_start ini dur (c + 1)"
    using m assms(1) by (intro rint_small) (auto simp: exact_times_def)
  ultimately show ?thesis by (simp add: scheduled_start_def)
qed

lemma safe_exact_times:
  "exact_times now ini dur \<Longrightarrow> safe_num now \<and> safe_num ini
     \<and> safe_num dur"
  by (auto simp: exact_times_def safe_num_iff)

lemma firstSafeResume_eq:
  assumes "safe_num now" "safe_num ini" "safe_num dur"
    "safe_num lead" "safe_num margin" "safe_num grace"
    and "0 < dur" "0 < lead" "lead < dur" "0 \<le> margin" "0 < grace"
    and "num_floor_div (rint (now - ini)) dur = c" "rint (c + 1) = n"
    and "rint (ini + rint (n * dur)) = d" "rint (d - lead) = x" "rint (x + margin) = y"
    and "rint (y + grace) = z" "rint (margin + grace) = mg" "mg < lead" "rint (n + 1) = n'"
    and "ini \<le> now"
  shows "firstSafeResumeRoundId (IntV now) (IntV ini) (IntV dur) (IntV lead) (IntV margin)
    (IntV grace) = Inr (if now < z then n else n')"
  using assms by (simp add: firstSafeResumeRoundId_def with_default_def Let_def not_less)

text \<open>
  C21. After a pause the keeper resumes at the first round that can still be prebound: for every
  schedule with exact timestamps and a prebind deadline inside the preparation window, the call
  succeeds, and the returned id is the least round whose prebind deadline has not passed.
\<close>

theorem firstSafeResumeRoundId_least:
  assumes t: "exact_times now ini dur"
    and p: "0 < lead" "lead < dur" "0 \<le> margin" "0 < grace" "margin + grace < lead"
  shows "\<exists>r. firstSafeResumeRoundId (IntV now) (IntV ini) (IntV dur) (IntV lead) (IntV margin)
            (IntV grace) = Inr r
          \<and> (\<forall>r'. now < scheduled_start ini dur r' - lead + margin + grace \<longleftrightarrow> r \<le> r')"
proof -
  let ?c = "(now - ini) div dur"
  let ?d = "scheduled_start ini dur (?c + 1)"
  have dur: "0 < dur" "dur \<le> 2 ^ 51" "ini \<le> now" "0 \<le> now" "now \<le> 2 ^ 51"
    using t by (auto simp: exact_times_def)
  have br: "scheduled_start ini dur ?c \<le> now" "now < ?d" "?d \<le> now + dur"
    by (rule current_round_brackets[OF t])+
  have e: "rint (?d - lead) = ?d - lead" "rint (?d - lead + margin) = ?d - lead + margin"
    "rint (?d - lead + margin + grace) = ?d - lead + margin + grace" "rint (margin + grace) = margin + grace"
    using br dur p by (auto intro!: rint_small)
  have safe: "safe_num lead" "safe_num margin" "safe_num grace"
    using p dur by (auto simp: safe_num_iff)
  define r where "r = (if now < ?d - lead + margin + grace then ?c + 1 else ?c + 1 + 1)"
  have "firstSafeResumeRoundId (IntV now) (IntV ini) (IntV dur) (IntV lead) (IntV margin)
      (IntV grace) = Inr r"
    unfolding r_def
    by (rule firstSafeResume_eq[OF _ _ _ safe _ _ _ _ _ current_round_exact(1)[OF t]
          current_round_exact(4)[OF t] next_start_exact[OF t] e(1-4) _ current_round_exact(5)[OF t]])
      (use p dur safe_exact_times[OF t] in auto)
  moreover have "now < scheduled_start ini dur r' - lead + margin + grace \<longleftrightarrow> r \<le> r'" for r'
  proof -
    consider "r' \<le> ?c" | "r' = ?c + 1" | "?c + 2 \<le> r'" by linarith
    then show ?thesis
    proof cases
      case 1
      then show ?thesis using scheduled_start_mono[OF dur(1) 1, of ini] br p by (auto simp: r_def)
    next
      case 2
      then show ?thesis by (simp add: r_def)
    next
      case 3
      then have "?d + dur \<le> scheduled_start ini dur r'"
        using scheduled_start_mono[OF dur(1), of "?c + 1 + 1" r' ini]
          scheduled_start_Suc[of ini dur "?c + 1"] by auto
      then show ?thesis using 3 br p by (auto simp: r_def)
    qed
  qed
  ultimately show ?thesis by blast
qed

theorem firstSafeResumeRoundId_least_witness:
  "firstSafeResumeRoundId (IntV 1700000100) (IntV 1700000000) (IntV 65) Undef Undef (IntV 20)
     = Inr 3
   \<and> (\<exists>r. firstSafeResumeRoundId (IntV 1700000100) (IntV 1700000000) (IntV 65) (IntV 60) (IntV 2)
       (IntV 20) = Inr r
     \<and> (\<forall>r'. 1700000100 < scheduled_start 1700000000 65 r' - 60 + 2 + 20 \<longleftrightarrow> r \<le> r'))"
proof (rule conjI)
  show "firstSafeResumeRoundId (IntV 1700000100) (IntV 1700000000) (IntV 65) Undef Undef (IntV 20)
      = Inr 3"
    by code_simp
  show "\<exists>r. firstSafeResumeRoundId (IntV 1700000100) (IntV 1700000000) (IntV 65) (IntV 60) (IntV 2)
       (IntV 20) = Inr r
     \<and> (\<forall>r'. 1700000100 < scheduled_start 1700000000 65 r' - 60 + 2 + 20 \<longleftrightarrow> r \<le> r')"
    by (rule firstSafeResumeRoundId_least) (simp_all add: exact_times_def)
qed

text \<open>The prepared rounds, in exact integers: the current round, and the next one from its preparation start.\<close>

lemma roundIdsToPrepare_value:
  assumes t: "exact_times now ini dur"
    and p: "0 < lead" "lead < dur" "0 \<le> margin" "margin < lead"
  shows "roundIdsToPrepare (IntV now) (IntV ini) (IntV dur) (IntV lead) (IntV margin) =
    Inr (if scheduled_start ini dur ((now - ini) div dur + 1) - lead + margin \<le> now
         then [(now - ini) div dur, (now - ini) div dur + 1] else [(now - ini) div dur])"
proof -
  let ?c = "(now - ini) div dur"
  let ?d = "scheduled_start ini dur (?c + 1)"
  have dur: "0 < dur" "dur \<le> 2 ^ 51" "ini \<le> now" "0 \<le> now" "now \<le> 2 ^ 51"
    using t by (auto simp: exact_times_def)
  have br: "scheduled_start ini dur ?c \<le> now" "now < ?d" "?d \<le> now + dur"
    by (rule current_round_brackets[OF t])+
  have e: "rint (?d - lead) = ?d - lead" "rint (?d - lead + margin) = ?d - lead + margin"
    using br dur p by (auto intro!: rint_small)
  have safe: "safe_num lead" "safe_num margin"
    using p dur by (auto simp: safe_num_iff)
  show ?thesis
    using p dur safe safe_exact_times[OF t] current_round_exact[OF t] next_start_exact[OF t] e
    by (simp add: roundIdsToPrepare_def with_default_def Let_def not_less)
qed

text \<open>
  C22. The keeper prepares a round exactly from its preparation start (lead minus safety margin
  before its scheduled opening) until the next round opens: at every second of the schedule the
  returned list is duplicate-free and holds precisely the rounds whose interval contains it.
\<close>

theorem roundIdsToPrepare_exact:
  assumes t: "exact_times now ini dur"
    and p: "0 < lead" "lead < dur" "0 \<le> margin" "margin < lead"
  shows "\<exists>ids. roundIdsToPrepare (IntV now) (IntV ini) (IntV dur) (IntV lead) (IntV margin) = Inr ids
          \<and> distinct ids
          \<and> (\<forall>r. r \<in> set ids \<longleftrightarrow> scheduled_start ini dur r - lead + margin \<le> now
                               \<and> now < scheduled_start ini dur (r + 1))"
proof -
  let ?c = "(now - ini) div dur"
  let ?d = "scheduled_start ini dur (?c + 1)"
  have dur: "0 < dur" using t by (auto simp: exact_times_def)
  have br: "scheduled_start ini dur ?c \<le> now" "now < ?d" "?d \<le> now + dur"
    by (rule current_round_brackets[OF t])+
  define ids where "ids = (if ?d - lead + margin \<le> now then [?c, ?c + 1] else [?c])"
  have "roundIdsToPrepare (IntV now) (IntV ini) (IntV dur) (IntV lead) (IntV margin) = Inr ids"
    unfolding ids_def by (rule roundIdsToPrepare_value[OF t p])
  moreover have "r \<in> set ids \<longleftrightarrow> scheduled_start ini dur r - lead + margin \<le> now
      \<and> now < scheduled_start ini dur (r + 1)" for r
  proof -
    consider "r + 1 \<le> ?c" | "r = ?c" | "r = ?c + 1" | "?c + 1 + 1 \<le> r" by linarith
    then show ?thesis
    proof cases
      case 1
      then show ?thesis using scheduled_start_mono[OF dur 1, of ini] br by (auto simp: ids_def)
    next
      case 2
      then show ?thesis using br p by (auto simp: ids_def)
    next
      case 3
      then show ?thesis using br dur scheduled_start_Suc[of ini dur "?c + 1"] by (auto simp: ids_def)
    next
      case 4
      then have "?d + dur \<le> scheduled_start ini dur r"
        using scheduled_start_mono[OF dur 4, of ini] scheduled_start_Suc[of ini dur "?c + 1"] by simp
      then show ?thesis using 4 br p by (auto simp: ids_def)
    qed
  qed
  moreover have "distinct ids" by (simp add: ids_def)
  ultimately show ?thesis by blast
qed

theorem roundIdsToPrepare_exact_witness:
  "roundIdsToPrepare (IntV 1700000070) (IntV 1700000000) (IntV 65) Undef Undef = Inr [1]
   \<and> roundIdsToPrepare (IntV 1700000072) (IntV 1700000000) (IntV 65) Undef Undef = Inr [1, 2]
   \<and> (\<exists>ids. roundIdsToPrepare (IntV 1700000072) (IntV 1700000000) (IntV 65) (IntV 60) (IntV 2)
          = Inr ids \<and> distinct ids
        \<and> (\<forall>r. r \<in> set ids \<longleftrightarrow> scheduled_start 1700000000 65 r - 60 + 2 \<le> 1700000072
               \<and> 1700000072 < scheduled_start 1700000000 65 (r + 1)))"
proof (intro conjI)
  show "roundIdsToPrepare (IntV 1700000070) (IntV 1700000000) (IntV 65) Undef Undef = Inr [1]"
    by code_simp
  show "roundIdsToPrepare (IntV 1700000072) (IntV 1700000000) (IntV 65) Undef Undef = Inr [1, 2]"
    by code_simp
  show "\<exists>ids. roundIdsToPrepare (IntV 1700000072) (IntV 1700000000) (IntV 65) (IntV 60) (IntV 2)
          = Inr ids \<and> distinct ids
        \<and> (\<forall>r. r \<in> set ids \<longleftrightarrow> scheduled_start 1700000000 65 r - 60 + 2 \<le> 1700000072
               \<and> 1700000072 < scheduled_start 1700000000 65 (r + 1))"
    by (rule roundIdsToPrepare_exact) (simp_all add: exact_times_def)
qed

text \<open>A settlement window accepted by the keeper is exactly the gap between betting and round end.\<close>

lemma requireExactSettlementWindow_ok:
  "requireExactSettlementWindow (IntV rd) (IntV bd) (IntV late) = Inr w
   \<Longrightarrow> bd < rd \<and> late = w \<and> w = rint (rd - bd)"
  by (auto simp: requireExactSettlementWindow_def res_simps Let_def)

lemma settlementConfirmed_iff:
  "settlementConfirmedWithinResultWindow (IntV c) (IntV d) = Inr b
   \<Longrightarrow> b \<longleftrightarrow> c < d"
  by (auto simp: settlementConfirmedWithinResultWindow_def res_simps)

text \<open>
  Before initialization the resume round is always round 0, also when the prebind deadline of round 0 has already
  passed.
\<close>

lemma resume_before_start:
  "firstSafeResumeRoundId (IntV 1690) (IntV 1700) (IntV 65) (IntV 60) (IntV 2) (IntV 20) = Inr 0
   \<and> \<not> 1690 < scheduled_start 1700 65 0 - 60 + 2 + 20"
proof
  show "firstSafeResumeRoundId (IntV 1690) (IntV 1700) (IntV 65) (IntV 60) (IntV 2) (IntV 20) = Inr 0" by code_simp
qed (simp add: scheduled_start_def)

end
