(* ===== verification/Auto_Plan.thy ===== *)
theory Auto_Plan
  imports Js_Values
begin

text \<open>
  \<open>Protocol/scripts/auto-plan-policy.mjs\<close>: the funding ceiling of an Auto-round plan and the
  keeper's decision whether a stored plan can be executed in a round. A plan is the decoded account
  object; its integer fields are BN objects, its authority a public key.
\<close>

definition BET_RECEIPT_ACCOUNT_BYTES :: int where
  "BET_RECEIPT_ACCOUNT_BYTES = 468"

definition AUTO_PLAN_FUNDING_BPS :: int where
  "AUTO_PLAN_FUNDING_BPS = 9000"

definition BPS_DENOMINATOR :: int where
  "BPS_DENOMINATOR = 10000"

definition maxAutoPlanFundingLamports :: "jsval \<Rightarrow> jsval \<Rightarrow> int res" where
  "maxAutoPlanFundingLamports walletBalanceLamports feeReserveLamports =
     then_res (nonneg_bigint walletBalanceLamports ''wallet balance'') (\<lambda>walletBalance.
     then_res (nonneg_bigint (with_default feeReserveLamports (Big 0)) ''fee reserve'') (\<lambda>feeReserve.
     if walletBalance \<le> feeReserve then Inr 0
     else Inr (big_div ((walletBalance - feeReserve) * AUTO_PLAN_FUNDING_BPS) BPS_DENOMINATOR)))"

record auto_plan_evaluation =
  executable :: bool
  reason :: string
  perRoundLamports :: "int option"
  receiptRentLamports :: "int option"
  requiredLamports :: "int option"
  trackedBalanceLamports :: "int option"
  shortfallLamports :: "int option"
  nextNonce :: "int option"

text \<open>An evaluation with only \<open>executable: false\<close> and a reason.\<close>

definition not_executable :: "string \<Rightarrow> auto_plan_evaluation" where
  "not_executable why = \<lparr> executable = False, reason = why, perRoundLamports = None,
     receiptRentLamports = None, requiredLamports = None, trackedBalanceLamports = None,
     shortfallLamports = None, nextNonce = None \<rparr>"

text \<open>\<open>plan.authority?.equals?.(authority)\<close>\<close>

fun key_equals :: "jsval \<Rightarrow> string \<Rightarrow> bool" where
  "key_equals (Key a) b = (a = b)"
| "key_equals _ b = False"

text \<open>\<open>(plan.amounts || [])\<close>: elements of an array, none for a falsy value.\<close>

fun elements :: "jsval \<Rightarrow> jsval list res" where
  "elements (Arr xs) = Inr xs"
| "elements v = (if truthy v then Inl (TypeError ''reduce is not a function'') else Inr [])"

definition sum_amounts :: "jsval list \<Rightarrow> int res" where
  "sum_amounts xs = fold_res
     (\<lambda>amount sum. then_res (nonneg_bigint amount ''plan amount'') (\<lambda>a. Inr (sum + a))) xs 0"

definition evaluateAutoPlan :: "jsval \<Rightarrow> string \<Rightarrow> jsval \<Rightarrow> jsval \<Rightarrow> auto_plan_evaluation res" where
  "evaluateAutoPlan plan authority roundId receiptRent =
     (if \<not> truthy plan then Inr (not_executable ''plan-account-missing'')
      else if \<not> key_equals (opt_member plan ''authority'') authority
        then Inr (not_executable ''authority-mismatch'')
      else if \<not> truthy (opt_member plan ''active'') then Inr (not_executable ''inactive'')
      else
        then_res (elements (opt_member plan ''amounts'')) (\<lambda>amounts.
        then_res (sum_amounts amounts) (\<lambda>perRound.
        if perRound = 0
        then Inr ((not_executable ''zero-per-round-amount'')\<lparr> perRoundLamports := Some perRound \<rparr>)
        else
          then_res (nonneg_bigint (opt_member plan ''balanceLamports'') ''plan balance'') (\<lambda>tracked.
          then_res (nonneg_bigint receiptRent ''receipt rent'') (\<lambda>rent.
          let required = perRound + rent in
          if tracked < required
          then Inr ((not_executable ''insufficient-plan-balance'')\<lparr> perRoundLamports := Some perRound,
            receiptRentLamports := Some rent, requiredLamports := Some required,
            trackedBalanceLamports := Some tracked, shortfallLamports := Some (required - tracked) \<rparr>)
          else
            then_res (nonneg_bigint (opt_member plan ''lastRound'') ''last round'') (\<lambda>lastRound.
            then_res (nonneg_bigint roundId ''round id'') (\<lambda>rid.
            if lastRound = rid
            then Inr ((not_executable ''already-executed-this-round'')\<lparr>
              perRoundLamports := Some perRound, requiredLamports := Some required,
              trackedBalanceLamports := Some tracked \<rparr>)
            else
              then_res (nonneg_bigint (opt_member plan ''nextNonce'') ''next nonce'') (\<lambda>nonce.
              Inr \<lparr> executable = True, reason = ''ready'', perRoundLamports = Some perRound,
                receiptRentLamports = Some rent, requiredLamports = Some required,
                trackedBalanceLamports = Some tracked, shortfallLamports = None,
                nextNonce = Some nonce \<rparr>))))))))"

definition publicAutoPlanDiagnostic :: "jsval \<Rightarrow> auto_plan_evaluation \<Rightarrow> (string \<times> string) list" where
  "publicAutoPlanDiagnostic authority evaluation =
     [(''event'', if executable evaluation then ''auto-plan-ready'' else ''auto-plan-skipped''),
      (''authority'', case authority of Key a \<Rightarrow> a | _ \<Rightarrow> to_str (js_or authority (Str ''''))),
      (''reason'', reason evaluation)]
     @ concat (map (\<lambda>(key, v). case v of None \<Rightarrow> [] | Some n \<Rightarrow> [(key, show_int n)])
         [(''perRoundLamports'', perRoundLamports evaluation),
          (''receiptRentLamports'', receiptRentLamports evaluation),
          (''requiredLamports'', requiredLamports evaluation),
          (''trackedBalanceLamports'', trackedBalanceLamports evaluation),
          (''shortfallLamports'', shortfallLamports evaluation),
          (''nextNonce'', nextNonce evaluation)])"

section \<open>Properties\<close>

lemma sum_amounts_fold:
  "list_all (\<lambda>n. 0 \<le> n) ns \<Longrightarrow>
   fold_res (\<lambda>amount sum. then_res (nonneg_bigint amount ''plan amount'') (\<lambda>a. Inr (sum + a)))
     (map BN ns) s = Inr (s + sum_list ns)"
  by (induction ns arbitrary: s) simp_all

lemma sum_amounts_BN [simp]: "list_all (\<lambda>n. 0 \<le> n) ns \<Longrightarrow> sum_amounts (map BN ns) = Inr (sum_list ns)"
  using sum_amounts_fold[of ns 0] by (simp add: sum_amounts_def)

text \<open>
  The funding ceiling never exceeds 90 percent of the wallet balance above the fee reserve, and
  it is the largest integer that does not: no rounding loses or creates a lamport.
\<close>

theorem maxAutoPlanFunding_ceiling:
  assumes "0 \<le> wallet" "0 \<le> reserve"
  shows "\<exists>m. maxAutoPlanFundingLamports (Big wallet) (Big reserve) = Inr m \<and> 0 \<le> m
          \<and> (\<forall>x. x \<le> m \<longleftrightarrow> x \<le> 0 \<or> x * 10000 \<le> (wallet - reserve) * 9000)"
proof (cases "wallet \<le> reserve")
  case True
  have "(wallet - reserve) * 9000 \<le> 0" using True by simp
  then have "\<forall>x::int. x \<le> 0 \<longleftrightarrow> x \<le> 0 \<or> x * 10000 \<le> (wallet - reserve) * 9000" by auto
  then show ?thesis
    using True assms by (auto simp: maxAutoPlanFundingLamports_def with_default_def)
next
  case False
  let ?m = "(wallet - reserve) * 9000 div 10000"
  have "0 \<le> (wallet - reserve) * 9000" using False by simp
  then have "0 \<le> ?m" by (simp add: pos_imp_zdiv_nonneg_iff)
  moreover have "x \<le> ?m \<longleftrightarrow> x * 10000 \<le> (wallet - reserve) * 9000" for x
    by (rule le_div_int_iff) simp
  ultimately show ?thesis
    using False assms
    by (force simp: maxAutoPlanFundingLamports_def with_default_def AUTO_PLAN_FUNDING_BPS_def
        BPS_DENOMINATOR_def)
qed

theorem maxAutoPlanFunding_ceiling_witness:
  "maxAutoPlanFundingLamports (Big 1000000001) (Big 1) = Inr 900000000
   \<and> (\<exists>m. maxAutoPlanFundingLamports (Big 1000000001) (Big 1) = Inr m \<and> 0 \<le> m
        \<and> (\<forall>x. x \<le> m \<longleftrightarrow> x \<le> 0 \<or> x * 10000 \<le> (1000000001 - 1) * 9000))"
proof (rule conjI)
  show "maxAutoPlanFundingLamports (Big 1000000001) (Big 1) = Inr 900000000" by code_simp
  show "\<exists>m. maxAutoPlanFundingLamports (Big 1000000001) (Big 1) = Inr m \<and> 0 \<le> m
        \<and> (\<forall>x. x \<le> m \<longleftrightarrow> x \<le> 0 \<or> x * 10000 \<le> (1000000001 - 1) * 9000)"
    by (rule maxAutoPlanFunding_ceiling) simp_all
qed

text \<open>The account object of a well-formed plan.\<close>

definition plan_object :: "string \<Rightarrow> bool \<Rightarrow> int list \<Rightarrow> int \<Rightarrow> int \<Rightarrow> int \<Rightarrow> jsval" where
  "plan_object auth act amounts balance lastRound nonce =
     Obj [(''authority'', Key auth), (''active'', Bool act), (''amounts'', Arr (map BN amounts)),
          (''balanceLamports'', BN balance), (''lastRound'', BN lastRound), (''nextNonce'', BN nonce)]"



end
