(* ===== verification/Referral_Index.thy ===== *)
theory Referral_Index
  imports Js_Values
begin

text \<open>
  \<open>Protocol/scripts/referral-index-policy.mjs\<close>: the referral read model. The public-key constructor
  of the Solana client is a parameter \<open>pk\<close>: the canonical base58 text of a value, or \<open>None\<close> where the
  constructor throws; \<open>dflt\<close> is the text of its default key.
\<close>

definition REFERRAL_PROJECTION_VERSION :: int where
  "REFERRAL_PROJECTION_VERSION = 1"

definition asString :: "jsval \<Rightarrow> string" where
  "asString v = (if nullish v then ''0'' else to_str v)"

definition u64 :: "jsval \<Rightarrow> string \<Rightarrow> int res" where
  "u64 v label = then_res (bigint_of_string (asString v)) (\<lambda>parsed.
     assert_ok (0 \<le> parsed \<and> parsed \<le> U64_MAX) (label @ '' must fit in a Solana u64'') (Inr parsed))"

type_synonym pk_lib = "jsval \<Rightarrow> string option"

definition canonicalReferralAddress :: "pk_lib \<Rightarrow> jsval \<Rightarrow> string \<Rightarrow> string res" where
  "canonicalReferralAddress pk v label = (case pk v of
     None \<Rightarrow> Inl (Error (label @ '' must be a canonical Solana public key'')) | Some a \<Rightarrow> Inr a)"

definition optionalNonDefaultAddress ::
  "pk_lib \<Rightarrow> string \<Rightarrow> jsval \<Rightarrow> string \<Rightarrow> string option res" where
  "optionalNonDefaultAddress pk dflt v label =
     (if nullish v then Inr None
      else then_res (canonicalReferralAddress pk v label) (\<lambda>address.
        Inr (if address = dflt then None else Some address)))"

definition compactReferralCode :: "pk_lib \<Rightarrow> jsval \<Rightarrow> string res" where
  "compactReferralCode pk authority =
     then_res (canonicalReferralAddress pk authority ''referral-code authority'')
       (\<lambda>a. Inr (slice_last 10 a))"

record registration_row =
  registration_signature :: string
  registration_event_index :: jsval
  authority :: string
  referrer :: "string option"
  registration_slot :: jsval

definition minerRegistrationProjection ::
  "pk_lib \<Rightarrow> string \<Rightarrow> jsval \<Rightarrow> jsval \<Rightarrow> jsval \<Rightarrow> jsval \<Rightarrow> registration_row res" where
  "minerRegistrationProjection pk dflt data signature slot eventIndex =
     then_res (member data ''authority'') (\<lambda>a.
     then_res (canonicalReferralAddress pk a ''registered miner'') (\<lambda>auth.
     then_res (optionalNonDefaultAddress pk dflt (opt_member data ''referrer'') ''registered referrer'')
       (\<lambda>ref.
     assert_ok (ref \<noteq> Some auth) ''MinerRegistered cannot attribute a miner to itself''
     (Inr \<lparr> registration_signature = to_str signature, registration_event_index = eventIndex,
        authority = auth, referrer = ref, registration_slot = slot \<rparr>))))"

text \<open>Truthiness of a string or null.\<close>

definition some_text :: "string option \<Rightarrow> bool" where
  "some_text a = (case a of None \<Rightarrow> False | Some s \<Rightarrow> s \<noteq> [])"

record claim_row =
  claim_signature :: string
  claim_event_index :: jsval
  routing_event_index :: jsval
  routing_audited :: bool
  claimant :: string
  referral_wallet :: "string option"
  admin_fee_wallet :: "string option"
  gross_base_units :: string
  net_base_units :: string
  fee_base_units :: string
  passive_base_units :: string
  referral_base_units :: string
  admin_base_units :: string
  claim_slot :: jsval

text \<open>The \<open>if (routingData)\<close> block: the emitted referrer and the administrator's wallet.\<close>

definition routed_recipients ::
  "pk_lib \<Rightarrow> string \<Rightarrow> jsval \<Rightarrow> string \<Rightarrow> int \<Rightarrow> int \<Rightarrow> int \<Rightarrow> (string option \<times> string option) res" where
  "routed_recipients pk dflt routingData claimer passive referral admin =
     (if \<not> truthy routingData then Inr (None, None)
      else
        then_res (canonicalReferralAddress pk (opt_member routingData ''claimant'') ''routed claimant'')
          (\<lambda>routedClaimant.
        assert_ok (routedClaimant = claimer) ''ClaimFeeRoutedV2 claimant must match MyneClaimed'' (
        then_res (u64 (opt_member routingData ''passiveBaseUnits'') ''routed passive_base_units'') (\<lambda>p.
        assert_ok (p = passive) ''ClaimFeeRoutedV2 passive fee must match MyneClaimed'' (
        then_res (u64 (opt_member routingData ''referralBaseUnits'') ''routed referral_base_units'') (\<lambda>r.
        assert_ok (r = referral) ''ClaimFeeRoutedV2 referral fee must match MyneClaimed'' (
        then_res (u64 (opt_member routingData ''adminBaseUnits'') ''routed admin_base_units'') (\<lambda>a.
        assert_ok (a = admin) ''ClaimFeeRoutedV2 admin fee must match MyneClaimed'' (
        then_res (optionalNonDefaultAddress pk dflt (opt_member routingData ''referralWallet'')
          ''routed referral wallet'') (\<lambda>emitted.
        then_res (canonicalReferralAddress pk (opt_member routingData ''adminFeeWallet'')
          ''routed admin fee wallet'') (\<lambda>wallet.
        Inr (emitted, Some wallet))))))))))))"

definition myneClaimProjection ::
  "pk_lib \<Rightarrow> string \<Rightarrow> jsval \<Rightarrow> jsval \<Rightarrow> jsval \<Rightarrow> jsval \<Rightarrow> jsval \<Rightarrow> jsval \<Rightarrow> jsval \<Rightarrow> claim_row res" where
  "myneClaimProjection pk dflt data routingData mappedReferrer signature slot eventIndex
       routingEventIndex =
     then_res (member data ''authority'') (\<lambda>auth.
     then_res (canonicalReferralAddress pk auth ''MYNE claimant'') (\<lambda>claimer.
     then_res (u64 (opt_member data ''grossBaseUnits'') ''gross_base_units'') (\<lambda>gross.
     then_res (u64 (opt_member data ''netBaseUnits'') ''net_base_units'') (\<lambda>net.
     then_res (u64 (opt_member data ''feeBaseUnits'') ''fee_base_units'') (\<lambda>fee.
     then_res (u64 (opt_member data ''referralBaseUnits'') ''referral_base_units'') (\<lambda>referral.
     then_res (u64 (opt_member data ''adminBaseUnits'') ''admin_base_units'') (\<lambda>admin.
     assert_ok (gross = net + fee) ''MyneClaimed gross must equal net plus fee'' (
     assert_ok (referral + admin \<le> fee) ''MyneClaimed direct fee legs cannot exceed the total fee'' (
     let passive = fee - referral - admin in
     then_res (optionalNonDefaultAddress pk dflt mappedReferrer ''indexed referrer'') (\<lambda>registered.
     then_res (routed_recipients pk dflt routingData claimer passive referral admin)
       (\<lambda>(emitted, adminFeeWallet).
     assert_ok (some_text registered \<and> some_text emitted \<longrightarrow> emitted = registered)
       ''ClaimFeeRoutedV2 referral wallet disagrees with permanent MinerRegistered attribution'' (
     let referralWallet = (case emitted of None \<Rightarrow> registered | Some w \<Rightarrow> Some w) in
     assert_ok (0 < referral \<longrightarrow> some_text referralWallet)
       ''Positive referral credit has no auditable recipient'' (
     assert_ok (0 < referral \<and> truthy routingData \<longrightarrow> some_text emitted)
       ''ClaimFeeRoutedV2 omitted a positive referral recipient'' (
     assert_ok (\<not> (0 < admin \<and> some_text referralWallet))
       ''Admin fallback and a permanent referrer cannot both receive the direct fee leg''
     (Inr \<lparr> claim_signature = to_str signature, claim_event_index = eventIndex,
        routing_event_index = (if truthy routingData then with_default routingEventIndex Null else Null),
        routing_audited = truthy routingData, claimant = claimer, referral_wallet = referralWallet,
        admin_fee_wallet = adminFeeWallet, gross_base_units = show_int gross,
        net_base_units = show_int net, fee_base_units = show_int fee,
        passive_base_units = show_int passive, referral_base_units = show_int referral,
        admin_base_units = show_int admin, claim_slot = slot \<rparr>)))))))))))))))"

section \<open>Properties\<close>

lemma u64_range: "u64 v l = Inr n \<Longrightarrow> 0 \<le> n \<and> n \<le> U64_MAX"
  by (auto simp: u64_def res_simps)

lemma some_text_Some: "some_text w \<Longrightarrow> w \<noteq> None"
  by (cases w) (simp_all add: some_text_def)

text \<open>What a projected claim row says, as a predicate of the row alone.\<close>

definition claim_row_conserves :: "claim_row \<Rightarrow> bool" where
  "claim_row_conserves row \<longleftrightarrow> (\<exists>gross net passive referral admin.
     gross_base_units row = show_int gross \<and> net_base_units row = show_int net
     \<and> fee_base_units row = show_int (gross - net)
     \<and> passive_base_units row = show_int passive \<and> referral_base_units row = show_int referral
     \<and> admin_base_units row = show_int admin
     \<and> gross = net + passive + referral + admin
     \<and> (\<forall>x \<in> {gross, net, passive, referral, admin}. 0 \<le> x \<and> x \<le> U64_MAX)
     \<and> (0 < referral \<longrightarrow> referral_wallet row \<noteq> None)
     \<and> (0 < admin \<longrightarrow> \<not> some_text (referral_wallet row)))"

text \<open>
  C17. Every claim the indexer accepts conserves the claimed amount: gross equals net plus the passive,
  referral and administrator legs, each a u64, the printed columns are these numbers, a positive
  referral leg has a recipient, and the administrator leg is never paid beside a referrer.
\<close>

theorem myneClaimProjection_conserves:
  assumes "myneClaimProjection pk dflt data routing mapped sig slot ei rei = Inr row"
  shows "claim_row_conserves row"
  using assms unfolding myneClaimProjection_def Let_def split_beta res_simps
  apply (elim exE conjE)
  apply (drule sum.inject(2)[THEN iffD1])
  apply (drule u64_range)+
  apply hypsubst
  unfolding claim_row_conserves_def claim_row.simps
  subgoal for auth claimer gross net fee referral admin reg em
    by (rule exI[of _ "net + fee"], rule exI[of _ net], rule exI[of _ "fee - referral - admin"],
        rule exI[of _ referral], rule exI[of _ admin]) (auto dest: some_text_Some)
  done

definition text_pk :: pk_lib where
  "text_pk v = (case v of Str s \<Rightarrow> Some s | _ \<Rightarrow> None)"

definition sample_claim :: jsval where
  "sample_claim = Obj [(''authority'', Str ''alice''), (''grossBaseUnits'', BN 1000),
     (''netBaseUnits'', BN 900), (''feeBaseUnits'', BN 100), (''referralBaseUnits'', BN 10),
     (''adminBaseUnits'', BN 0)]"

theorem myneClaimProjection_conserves_witness:
  "\<exists>row. myneClaimProjection text_pk ''1'' sample_claim Null (Str ''bob'') (Str ''sig'') (IntV 7)
       (IntV 0) Undef = Inr row \<and> claim_row_conserves row \<and> passive_base_units row = ''90''"
proof -
  have "ok_with (\<lambda>row. passive_base_units row = ''90'') (myneClaimProjection text_pk ''1'' sample_claim
     Null (Str ''bob'') (Str ''sig'') (IntV 7) (IntV 0) Undef)" by code_simp
  then show ?thesis using myneClaimProjection_conserves by (blast dest: ok_withD)
qed

text \<open>
  A registration never attributes a miner to itself: whatever the event holds, an accepted
  registration row has a referrer different from its authority, and never the default address.
\<close>

theorem minerRegistration_no_self_referral:
  assumes "minerRegistrationProjection pk dflt data sig slot ei = Inr row"
  shows "referrer row \<noteq> Some (authority row) \<and> referrer row \<noteq> Some dflt"
  using assms
  by (auto simp: minerRegistrationProjection_def optionalNonDefaultAddress_def res_simps
      split: if_splits)

definition sample_registration :: jsval where
  "sample_registration = Obj [(''authority'', Str ''alice''), (''referrer'', Str ''bob'')]"

theorem minerRegistration_no_self_referral_witness:
  "referrer \<lparr> registration_signature = ''s'', registration_event_index = IntV 0, authority = ''alice'',
      referrer = Some ''bob'', registration_slot = IntV 3 \<rparr> \<noteq> Some ''alice''"
proof -
  have "minerRegistrationProjection text_pk ''1'' sample_registration (Str ''s'') (IntV 3) (IntV 0)
     = Inr \<lparr> registration_signature = ''s'', registration_event_index = IntV 0, authority = ''alice'',
      referrer = Some ''bob'', registration_slot = IntV 3 \<rparr>"
    by (simp add: minerRegistrationProjection_def sample_registration_def member_def text_pk_def
        canonicalReferralAddress_def optionalNonDefaultAddress_def)
  from minerRegistration_no_self_referral[OF this] show ?thesis by simp
qed

end
