(* ===== verification/Anchor_Events.thy ===== *)
theory Anchor_Events
  imports Js_Values
begin

text \<open>
  \<open>Protocol/scripts/anchor-event-data.mjs\<close>: the parser boundary where decoded Anchor events, whose
  fields carry the snake-case names of the IDL, get the camel-case aliases the projections read.
\<close>

definition is_lower :: "char \<Rightarrow> bool" where
  "is_lower c = (97 \<le> (of_char c :: nat) \<and> (of_char c :: nat) \<le> 122)"

definition is_upper :: "char \<Rightarrow> bool" where
  "is_upper c = (65 \<le> (of_char c :: nat) \<and> (of_char c :: nat) \<le> 90)"

definition to_upper :: "char \<Rightarrow> char" where
  "to_upper c = (if is_lower c then char_of ((of_char c :: nat) - 32) else c)"

text \<open>\<open>key.replace(/_([a-z0-9])/g, (_match, character) => character.toUpperCase())\<close>\<close>

fun camelCase :: "string \<Rightarrow> string" where
  "camelCase [] = []"
| "camelCase [c] = [c]"
| "camelCase (c # d # cs) =
     (if c = CHR ''_'' \<and> (is_lower d \<or> is_digit d) then to_upper d # camelCase cs
      else c # camelCase (d # cs))"

definition normalizeAnchorEventName :: "jsval \<Rightarrow> string res" where
  "normalizeAnchorEventName name = (case to_str name of
       [] \<Rightarrow> Inl (AssertionError ''Anchor event name is invalid'')
     | c # cs \<Rightarrow>
         assert_ok ((is_lower c \<or> is_upper c) \<and> list_all (\<lambda>x. is_lower x \<or> is_upper x \<or> is_digit x) cs)
           ''Anchor event name is invalid'' (Inr (to_upper c # cs)))"

text \<open>\<open>{ ...data }\<close>, then every alias that is not yet a key, in the order of the entries.\<close>

fun add_aliases :: "(string \<times> jsval) list \<Rightarrow> (string \<times> jsval) list \<Rightarrow> (string \<times> jsval) list" where
  "add_aliases [] acc = acc"
| "add_aliases ((key, v) # rest) acc =
     add_aliases rest (if camelCase key \<in> fst ` set acc then acc else acc @ [(camelCase key, v)])"

definition normalizeAnchorEventData :: "jsval \<Rightarrow> jsval res" where
  "normalizeAnchorEventData data = (case data of
       Obj fs \<Rightarrow> Inr (Obj (add_aliases fs fs))
     | v \<Rightarrow> if is_object v then Inr v
             else Inl (AssertionError ''Anchor event data must be an object''))"

section \<open>Properties\<close>

lemma add_aliases_keeps: "map_of acc k = Some v \<Longrightarrow> map_of (add_aliases es acc) k = Some v"
  by (induction es acc rule: add_aliases.induct) (auto simp: map_add_Some_iff)

lemma add_aliases_total:
  "k \<in> fst ` set es \<Longrightarrow> map_of (add_aliases es acc) (camelCase k) \<noteq> None"
proof (induction es acc rule: add_aliases.induct)
  case (1 acc)
  then show ?case by simp
next
  case (2 key v rest acc)
  let ?acc = "if camelCase key \<in> fst ` set acc then acc else acc @ [(camelCase key, v)]"
  show ?case
  proof (cases "k = key")
    case True
    have "map_of ?acc (camelCase key) \<noteq> None"
      by (auto simp: map_of_eq_None_iff map_add_def split: option.splits)
    then obtain w where "map_of ?acc (camelCase key) = Some w" by blast
    then have "map_of (add_aliases rest ?acc) (camelCase key) = Some w" by (rule add_aliases_keeps)
    then show ?thesis using True by simp
  next
    case False
    then have "k \<in> fst ` set rest" using 2 by auto
    then show ?thesis using 2(1) by simp
  qed
qed

lemma add_aliases_sound:
  "map_of (add_aliases es acc) k = Some v \<Longrightarrow> map_of acc k = Some v
     \<or> (k \<notin> fst ` set acc \<and> (\<exists>key. (key, v) \<in> set es \<and> camelCase key = k))"
proof (induction es acc rule: add_aliases.induct)
  case (1 acc)
  then show ?case by simp
next
  case (2 key v rest acc)
  then show ?case
    by (auto simp: map_add_Some_iff map_of_eq_None_iff split: if_splits)
qed

text \<open>
  Normalising a decoded event keeps every field it has and makes each field readable under its
  camel-case alias, so an event that carries \<open>round_id\<close> can never be read as having no \<open>roundId\<close>; an
  alias invented by the normalisation carries the value of a field with that alias.
\<close>

theorem normalizeAnchorEventData_aliases:
  "\<exists>gs. normalizeAnchorEventData (Obj fs) = Inr (Obj gs)
     \<and> (\<forall>k v. map_of fs k = Some v \<longrightarrow> map_of gs k = Some v \<and> map_of gs (camelCase k) \<noteq> None)
     \<and> (\<forall>k v. map_of gs k = Some v \<and> k \<notin> fst ` set fs \<longrightarrow>
            (\<exists>key. (key, v) \<in> set fs \<and> camelCase key = k))"
proof (rule exI[of _ "add_aliases fs fs"], intro conjI allI impI)
  show "normalizeAnchorEventData (Obj fs) = Inr (Obj (add_aliases fs fs))"
    by (simp add: normalizeAnchorEventData_def)
next
  fix k v assume kv: "map_of fs k = Some v"
  show "map_of (add_aliases fs fs) k = Some v" using kv by (rule add_aliases_keeps)
next
  fix k v assume kv: "map_of fs k = Some v"
  show "map_of (add_aliases fs fs) (camelCase k) \<noteq> None"
    using kv by (intro add_aliases_total) (force dest: map_of_SomeD)
next
  fix k v assume "map_of (add_aliases fs fs) k = Some v \<and> k \<notin> fst ` set fs"
  then show "\<exists>key. (key, v) \<in> set fs \<and> camelCase key = k"
    using add_aliases_sound[of fs fs k v] by (auto dest: map_of_SomeD) (force dest: map_of_SomeD)
qed

theorem normalizeAnchorEventData_aliases_witness:
  "normalizeAnchorEventData (Obj [(''round_id'', BN 7)])
     = Inr (Obj [(''round_id'', BN 7), (''roundId'', BN 7)])
   \<and> (\<exists>gs. normalizeAnchorEventData (Obj [(''round_id'', BN 7)]) = Inr (Obj gs)
       \<and> map_of gs (camelCase ''round_id'') \<noteq> None)"
proof (rule conjI)
  show "normalizeAnchorEventData (Obj [(''round_id'', BN 7)])
     = Inr (Obj [(''round_id'', BN 7), (''roundId'', BN 7)])" by code_simp
  show "\<exists>gs. normalizeAnchorEventData (Obj [(''round_id'', BN 7)]) = Inr (Obj gs)
       \<and> map_of gs (camelCase ''round_id'') \<noteq> None"
    using normalizeAnchorEventData_aliases[of "[(''round_id'', BN 7)]"] map_of_Cons_code(2)
    by (metis (no_types, lifting))
qed

text \<open>A normalised name is invariant under normalisation.\<close>

lemma to_upper_upper: "is_upper c \<Longrightarrow> to_upper c = c"
  by (auto simp: to_upper_def is_upper_def is_lower_def)

end
