(* ===== verification/Lifecycle_Queue.thy ===== *)
theory Lifecycle_Queue
  imports Js_Values
begin

text \<open>
  \<open>Protocol/scripts/lifecycle-queue-policy.mjs\<close>: the bounded work queues of the lifecycle keeper.
  A row is a decoded JSON value; a \<open>Map\<close> is an association list in insertion order; a queue that is
  null or missing is the empty list. The \<open>while\<close> loop of the batch selection is a recursive function
  over the read offsets, with its termination proof.
\<close>

section \<open>The historical walk\<close>

definition WINDOW_SIZE :: nat where
  "WINDOW_SIZE = 25"

definition roundId :: "jsval \<Rightarrow> string res" where
  "roundId v = then_res (bigint_of_string (to_str v)) (\<lambda>parsed.
     throw_if (parsed < 0) (RangeError ''Lifecycle round ids must be non-negative'') (Inr (show_int parsed)))"

definition historicalLifecycleQuery :: "jsval \<Rightarrow> string res" where
  "historicalLifecycleQuery cursor =
     then_res (if with_default cursor Null = Null then Inr []
               else then_res (roundId cursor) (\<lambda>c. Inr (''&round_id=lt.'' @ c)))
       (\<lambda>before. Inr (''mine_rounds?closed_signature=is.null'' @ before
          @ ''&select=*&order=round_id.desc&limit='' @ show_nat WINDOW_SIZE))"

text \<open>\<open>BigInt(roundId(row.round_id))\<close>\<close>

definition row_round :: "jsval \<Rightarrow> int res" where
  "row_round row = then_res (then_res (member row ''round_id'') roundId) bigint_of_string"

definition nextHistoricalLifecycleCursor :: "jsval \<Rightarrow> jsval res" where
  "nextHistoricalLifecycleCursor rows = (case rows of
       Arr (first # rest) \<Rightarrow>
         then_res (row_round first) (\<lambda>start.
         then_res (fold_res (\<lambda>row oldest.
             then_res (row_round row) (\<lambda>current.
             Inr (if current < oldest then current else oldest))) (first # rest) start)
         (\<lambda>oldest. Inr (Str (show_int oldest))))
     | _ \<Rightarrow> Inr Null)"

section \<open>Merging queues by priority\<close>

type_synonym keyed_rows = "(string \<times> jsval) list"

definition has_key :: "string \<Rightarrow> keyed_rows \<Rightarrow> bool" where
  "has_key k m = list_ex (\<lambda>(k', _). k' = k) m"

fun merge_row :: "jsval \<Rightarrow> keyed_rows \<times> nat \<Rightarrow> keyed_rows \<times> nat" where
  "merge_row row (byRound, invalidRow) =
     (let rid = opt_member row ''round_id'';
          invalidRow' = (if nullish rid then Suc invalidRow else invalidRow);
          key = (if nullish rid then ''invalid:'' @ show_nat invalidRow' else to_str rid)
      in (if has_key key byRound then byRound else byRound @ [(key, row)], invalidRow'))"

definition mergeLifecycleRoundQueues :: "jsval list list \<Rightarrow> jsval list" where
  "mergeLifecycleRoundQueues queues = map snd (fst (fold merge_row (concat queues) ([], 0)))"

section \<open>A bounded, fair batch\<close>

definition batch_key :: "nat \<Rightarrow> nat \<Rightarrow> jsval \<Rightarrow> string" where
  "batch_key queueIndex offset row = (let rid = opt_member row ''round_id'' in
     if nullish rid then ''invalid:'' @ show_nat queueIndex @ '':'' @ show_nat offset else to_str rid)"

text \<open>The inner \<open>while\<close>: skip rows already selected, take the next new one.\<close>

fun pull :: "nat \<Rightarrow> jsval list \<Rightarrow> nat \<Rightarrow> keyed_rows \<Rightarrow> nat \<times> keyed_rows" where
  "pull queueIndex [] offset selected = (offset, selected)"
| "pull queueIndex (row # rest) offset selected =
     (let offset' = Suc offset; key = batch_key queueIndex offset' row in
      if has_key key selected then pull queueIndex rest offset' selected
      else (offset', selected @ [(key, row)]))"

text \<open>One pass of the \<open>for\<close> loop over the queues; the flag is \<open>advanced\<close>.\<close>

fun pass :: "nat \<Rightarrow> nat \<Rightarrow> jsval list list \<Rightarrow> nat list \<Rightarrow> keyed_rows \<Rightarrow> nat list \<times> keyed_rows \<times> bool" where
  "pass limit queueIndex (queue # queues) (offset # offsets) selected =
     (if limit \<le> length selected then (offset # offsets, selected, False)
      else
        let (offset', selected') = pull queueIndex (drop offset queue) offset selected;
            (offsets', selected'', advanced) = pass limit (Suc queueIndex) queues offsets selected'
        in (offset' # offsets', selected'', offset < offset' \<or> advanced))"
| "pass limit queueIndex queues offsets selected = (offsets, selected, False)"

definition unread :: "jsval list list \<Rightarrow> nat list \<Rightarrow> nat" where
  "unread queues offsets = sum_list (map2 (\<lambda>q k. length q - k) queues offsets)"

lemma pull_offset: "pull qi rows k sel = (k', sel') \<Longrightarrow> k \<le> k' \<and> k' \<le> k + length rows"
  by (induction rows arbitrary: k sel) (fastforce simp: Let_def split: if_splits)+

lemma pass_unread:
  "pass limit qi queues offs sel = (offs', sel', adv) \<Longrightarrow>
     unread queues offs' \<le> unread queues offs \<and> (adv \<longrightarrow> unread queues offs' < unread queues offs)"
proof (induction limit qi queues offs sel arbitrary: offs' sel' adv rule: pass.induct)
  case (1 limit qi q qs k ks sel)
  show ?case
  proof (cases "limit \<le> length sel")
    case True
    then show ?thesis using "1.prems" by auto
  next
    case False
    obtain k1 sel1 where p: "pull qi (drop k q) k sel = (k1, sel1)" by fastforce
    obtain ks2 sel2 adv2 where r: "pass limit (Suc qi) qs ks sel1 = (ks2, sel2, adv2)"
      using prod_cases3 by blast
    have o: "offs' = k1 # ks2" "adv = (k < k1 \<or> adv2)" using "1.prems" False p r by auto
    have IH: "unread qs ks2 \<le> unread qs ks \<and> (adv2 \<longrightarrow> unread qs ks2 < unread qs ks)"
      using "1.IH"[OF False p[symmetric] refl r] .
    have "k \<le> k1" "k1 \<le> k + (length q - k)" using pull_offset[OF p] by auto
    then have "length q - k1 \<le> length q - k" "k < k1 \<longrightarrow> length q - k1 < length q - k" by auto
    then show ?thesis using IH o by (auto simp: unread_def)
  qed
qed auto

function select_loop :: "nat \<Rightarrow> jsval list list \<Rightarrow> nat list \<Rightarrow> keyed_rows \<Rightarrow> keyed_rows" where
  "select_loop limit queues offsets selected =
     (if length selected < limit then
        (case pass limit 0 queues offsets selected of
           (offsets', selected', advanced) \<Rightarrow>
             if advanced then select_loop limit queues offsets' selected' else selected')
      else selected)"
  by pat_completeness auto
termination
  by (relation "measure (\<lambda>(limit, queues, offsets, selected). unread queues offsets)")
     (auto dest: pass_unread[OF sym])

declare select_loop.simps [simp del]

definition selectLifecycleRoundBatch :: "jsval \<Rightarrow> jsval list list \<Rightarrow> jsval list res" where
  "selectLifecycleRoundBatch limit queues = (case integer_of limit of
       None \<Rightarrow> Inl (RangeError ''Lifecycle round batch limit must be a positive integer'')
     | Some n \<Rightarrow>
         throw_if (n \<le> 0) (RangeError ''Lifecycle round batch limit must be a positive integer'')
           (Inr (map snd (select_loop (nat n) queues (map (\<lambda>_. 0) queues) []))))"

section \<open>Isolated processing\<close>

datatype 'a lifecycle_result = Processed 'a | RoundProcessingError string string

text \<open>The processor may change the keeper's state \<open>'s\<close>, also when it throws.\<close>

fun processLifecycleRoundQueue ::
  "jsval list \<Rightarrow> (jsval \<Rightarrow> 's \<Rightarrow> 'a res \<times> 's) \<Rightarrow> 's \<Rightarrow> 'a lifecycle_result list \<times> 's" where
  "processLifecycleRoundQueue [] processor s = ([], s)"
| "processLifecycleRoundQueue (row # rows) processor s =
     (let (r, s') = processor row s;
          result = (case r of Inr x \<Rightarrow> Processed x
            | Inl e \<Rightarrow> RoundProcessingError
                (to_str (coalesce (opt_member row ''round_id'') (Str ''unknown''))) (error_string e));
          (results, s'') = processLifecycleRoundQueue rows processor s'
      in (result # results, s''))"

section \<open>Properties of the batch\<close>

abbreviation rid :: "jsval \<Rightarrow> string" where
  "rid row \<equiv> to_str (opt_member row ''round_id'')"

definition valid_row :: "jsval \<Rightarrow> bool" where
  "valid_row row = (\<not> nullish (opt_member row ''round_id''))"

lemma batch_key_valid: "valid_row row \<Longrightarrow> batch_key qi k row = rid row"
  by (simp add: valid_row_def batch_key_def)

lemma has_key_iff: "has_key k m \<longleftrightarrow> k \<in> fst ` set m"
  by (force simp: has_key_def list_ex_iff)

text \<open>What the selection keeps: keys are distinct and are the round ids of their rows.\<close>

definition sel_ok :: "jsval list list \<Rightarrow> keyed_rows \<Rightarrow> bool" where
  "sel_ok queues sel \<longleftrightarrow> distinct (map fst sel)
     \<and> (\<forall>(k, row) \<in> set sel. k = rid row \<and> row \<in> \<Union> (set ` set queues))"

lemma pull_extends:
  "pull qi rows k sel = (k', sel') \<Longrightarrow> list_all valid_row rows \<Longrightarrow>
     (sel' = sel \<and> k' = k + length rows)
     \<or> (\<exists>row \<in> set rows. sel' = sel @ [(rid row, row)] \<and> rid row \<notin> fst ` set sel)"
proof (induction rows arbitrary: k)
  case (Cons row rest)
  show ?case
  proof (cases "has_key (batch_key qi (Suc k) row) sel")
    case True
    then show ?thesis using Cons.IH[of "Suc k"] Cons.prems by (auto simp: Let_def)
  next
    case False
    then show ?thesis using Cons.prems by (auto simp: Let_def batch_key_valid has_key_iff)
  qed
qed simp

lemma pull_reads:
  "pull qi rows k sel = (k', sel') \<Longrightarrow> list_all valid_row rows \<Longrightarrow>
     \<forall>row \<in> set (take (k' - k) rows). rid row \<in> fst ` set sel'"
proof (induction rows arbitrary: k)
  case (Cons row rest)
  show ?case
  proof (cases "has_key (batch_key qi (Suc k) row) sel")
    case True
    then have p: "pull qi rest (Suc k) sel = (k', sel')" using Cons.prems by (simp add: Let_def)
    then have le: "Suc k \<le> k'" using pull_offset by blast
    have "\<forall>row \<in> set (take (k' - Suc k) rest). rid row \<in> fst ` set sel'"
      using Cons p by auto
    moreover have "rid row \<in> fst ` set sel'"
      using True Cons.prems pull_extends[OF p] by (auto simp: batch_key_valid has_key_iff)
    moreover have "take (k' - k) (row # rest) = row # take (k' - Suc k) rest"
      using le by (simp add: take_Cons')
    ultimately show ?thesis by auto
  next
    case False
    then show ?thesis using Cons.prems by (auto simp: Let_def batch_key_valid)
  qed
qed simp

text \<open>Every row below its queue's offset is selected under its round id.\<close>

definition read_ok :: "jsval list list \<Rightarrow> nat list \<Rightarrow> keyed_rows \<Rightarrow> bool" where
  "read_ok queues offsets sel \<longleftrightarrow> list_all2
     (\<lambda>q k. \<forall>row \<in> set (take k q). rid row \<in> fst ` set sel) queues offsets"

lemma sel_ok_pull:
  assumes p: "pull qi (drop k q) k sel = (k1, sel1)"
    and v: "list_all valid_row (drop k q)" "q \<in> set queues" and ok: "sel_ok queues sel"
  shows "sel_ok queues sel1 \<and> length sel1 \<le> Suc (length sel) \<and> fst ` set sel \<subseteq> fst ` set sel1"
  using pull_extends[OF p v(1)]
proof
  assume "sel1 = sel \<and> k1 = k + length (drop k q)"
  then show ?thesis using ok by simp
next
  assume "\<exists>row \<in> set (drop k q). sel1 = sel @ [(rid row, row)] \<and> rid row \<notin> fst ` set sel"
  then obtain row where r: "row \<in> set (drop k q)" "sel1 = sel @ [(rid row, row)]" "rid row \<notin> fst ` set sel"
    by blast
  have "row \<in> \<Union> (set ` set queues)" using r(1) v(2) in_set_dropD by fast
  then show ?thesis using ok r by (simp add: sel_ok_def) blast
qed

lemma read_ok_mono: "read_ok qs ks sel \<Longrightarrow> fst ` set sel \<subseteq> fst ` set sel' \<Longrightarrow> read_ok qs ks sel'"
  unfolding read_ok_def by (erule list_all2_mono) blast

lemma pass_inv:
  assumes "pass limit qi queues offs sel = (offs', sel', adv)"
    and "read_ok queues offs sel" "\<forall>q \<in> set queues. list_all valid_row q \<and> q \<in> set qs0"
    and "sel_ok qs0 sel" "length sel \<le> limit"
  shows "sel_ok qs0 sel' \<and> length sel' \<le> limit \<and> fst ` set sel \<subseteq> fst ` set sel'
    \<and> read_ok queues offs' sel'
    \<and> (\<not> adv \<and> length sel' < limit \<longrightarrow> (\<forall>q \<in> set queues. rid ` set q \<subseteq> fst ` set sel'))
    \<and> (length sel + length queues \<le> limit \<longrightarrow> (\<forall>q \<in> set queues. q \<noteq> [] \<longrightarrow> rid (hd q) \<in> fst ` set sel'))"
  using assms
proof (induction limit qi queues offs sel arbitrary: offs' sel' adv rule: pass.induct)
  case (1 limit qi q qs k ks sel)
  show ?case
  proof (cases "limit \<le> length sel")
    case True
    then show ?thesis using "1.prems" by auto
  next
    case False
    obtain k1 sel1 where p: "pull qi (drop k q) k sel = (k1, sel1)" by fastforce
    obtain ks2 sel2 adv2 where r: "pass limit (Suc qi) qs ks sel1 = (ks2, sel2, adv2)"
      using prod_cases3 by blast
    have out: "offs' = k1 # ks2" "sel' = sel2" "adv = (k < k1 \<or> adv2)"
      using "1.prems"(1) False p r by auto
    have v: "list_all valid_row (drop k q)" "q \<in> set qs0"
      using "1.prems"(3) by (auto simp: list_all_iff dest: in_set_dropD)
    have ext: "sel_ok qs0 sel1" "length sel1 \<le> Suc (length sel)" "fst ` set sel \<subseteq> fst ` set sel1"
      using sel_ok_pull[OF p v "1.prems"(4)] by auto
    have hd1: "\<forall>row \<in> set (take k1 q). rid row \<in> fst ` set sel1"
    proof -
      have kk: "k \<le> k1" using pull_offset[OF p] by simp
      have "take k1 q = take k q @ take (k1 - k) (drop k q)"
        using kk by (metis le_add_diff_inverse take_add)
      moreover have "\<forall>row \<in> set (take k q). rid row \<in> fst ` set sel1"
        using "1.prems"(2) ext(3) by (auto simp: read_ok_def)
      ultimately show ?thesis using pull_reads[OF p v(1)] by auto
    qed
    have IH: "sel_ok qs0 sel2 \<and> length sel2 \<le> limit \<and> fst ` set sel1 \<subseteq> fst ` set sel2
      \<and> read_ok qs ks2 sel2
      \<and> (\<not> adv2 \<and> length sel2 < limit \<longrightarrow> (\<forall>q \<in> set qs. rid ` set q \<subseteq> fst ` set sel2))
      \<and> (length sel1 + length qs \<le> limit \<longrightarrow> (\<forall>q \<in> set qs. q \<noteq> [] \<longrightarrow> rid (hd q) \<in> fst ` set sel2))"
    proof (rule "1.IH"[OF False p[symmetric] refl r])
      have "read_ok qs ks sel" using "1.prems"(2) by (simp add: read_ok_def)
      then show "read_ok qs ks sel1" using ext(3) by (rule read_ok_mono)
      show "\<forall>q \<in> set qs. list_all valid_row q \<and> q \<in> set qs0" using "1.prems"(3) by simp
      show "sel_ok qs0 sel1" by (rule ext(1))
      show "length sel1 \<le> limit" using ext(2) False by simp
    qed
    have all: "\<not> k < k1 \<Longrightarrow> rid ` set q \<subseteq> fst ` set sel1"
    proof -
      assume "\<not> k < k1"
      then have "length q \<le> k" using p pull_offset[OF p] by (cases "drop k q") (auto simp: Let_def split: if_splits dest: pull_offset)
      then have "take k q = q" by simp
      then show ?thesis using hd1 \<open>\<not> k < k1\<close> pull_offset[OF p] by auto
    qed
    have hdq: "rid (hd q) \<in> fst ` set sel1" if "q \<noteq> []"
    proof (cases "k < k1")
      case True
      then have "hd q \<in> set (take k1 q)" using that by (cases q; cases k1) auto
      then show ?thesis using hd1 by blast
    next
      case False
      then show ?thesis by (rule subsetD[OF all imageI[OF hd_in_set[OF that]]])
    qed
    have sub: "fst ` set sel1 \<subseteq> fst ` set sel2" using IH by simp
    show ?thesis
    proof (intro conjI impI)
      show "sel_ok qs0 sel'" "length sel' \<le> limit" using IH out by auto
      show "fst ` set sel \<subseteq> fst ` set sel'" unfolding out using ext(3) sub by (rule subset_trans)
      show "read_ok (q # qs) offs' sel'"
        using IH hd1 sub unfolding out by (auto simp: read_ok_def)
    next
      assume a: "\<not> adv \<and> length sel' < limit"
      then have "rid ` set q \<subseteq> fst ` set sel2" using all out sub by (meson subset_trans)
      then show "\<forall>q \<in> set (q # qs). rid ` set q \<subseteq> fst ` set sel'" using IH a out by simp
    next
      assume a: "length sel + length (q # qs) \<le> limit"
      then have "\<forall>q \<in> set qs. q \<noteq> [] \<longrightarrow> rid (hd q) \<in> fst ` set sel2" using IH ext(2) by simp
      then show "\<forall>q \<in> set (q # qs). q \<noteq> [] \<longrightarrow> rid (hd q) \<in> fst ` set sel'"
        using hdq sub out by auto
    qed
  qed
qed (auto simp: read_ok_def)

lemma select_loop_inv:
  assumes "read_ok queues offs sel" "\<forall>q \<in> set queues. list_all valid_row q"
    and "sel_ok queues sel" "length sel \<le> limit"
  defines "out \<equiv> select_loop limit queues offs sel"
  shows "sel_ok queues out \<and> length out \<le> limit \<and> fst ` set sel \<subseteq> fst ` set out
    \<and> (length out < limit \<longrightarrow> (\<forall>q \<in> set queues. rid ` set q \<subseteq> fst ` set out))
    \<and> (length sel + length queues \<le> limit \<and> length sel < limit \<longrightarrow>
         (\<forall>q \<in> set queues. q \<noteq> [] \<longrightarrow> rid (hd q) \<in> fst ` set out))"
  using assms(1-4) unfolding out_def
proof (induction limit queues offs sel rule: select_loop.induct)
  case (1 limit queues offs sel)
  show ?case
  proof (cases "length sel < limit")
    case False
    then show ?thesis using "1.prems" by (simp add: select_loop.simps[of limit queues offs sel])
  next
    case True
    obtain offs' sel' adv where p: "pass limit 0 queues offs sel = (offs', sel', adv)"
      using prod_cases3 by blast
    have inv: "sel_ok queues sel' \<and> length sel' \<le> limit \<and> fst ` set sel \<subseteq> fst ` set sel'
      \<and> read_ok queues offs' sel'
      \<and> (\<not> adv \<and> length sel' < limit \<longrightarrow> (\<forall>q \<in> set queues. rid ` set q \<subseteq> fst ` set sel'))
      \<and> (length sel + length queues \<le> limit \<longrightarrow>
           (\<forall>q \<in> set queues. q \<noteq> [] \<longrightarrow> rid (hd q) \<in> fst ` set sel'))"
      using "1.prems" by (intro pass_inv[OF p]) auto
    show ?thesis
    proof (cases adv)
      case False
      then show ?thesis using inv p True by (simp add: select_loop.simps[of limit queues offs sel])
    next
      case adv: True
      have eq: "select_loop limit queues offs sel = select_loop limit queues offs' sel'"
        using True p adv by (simp add: select_loop.simps[of limit queues offs sel])
      have IH: "sel_ok queues (select_loop limit queues offs' sel')
        \<and> length (select_loop limit queues offs' sel') \<le> limit
        \<and> fst ` set sel' \<subseteq> fst ` set (select_loop limit queues offs' sel')
        \<and> (length (select_loop limit queues offs' sel') < limit \<longrightarrow>
             (\<forall>q \<in> set queues. rid ` set q \<subseteq> fst ` set (select_loop limit queues offs' sel')))
        \<and> (length sel' + length queues \<le> limit \<and> length sel' < limit \<longrightarrow> (\<forall>q \<in> set queues. q \<noteq> [] \<longrightarrow>
             rid (hd q) \<in> fst ` set (select_loop limit queues offs' sel')))"
        using inv "1.prems"(2) by (intro "1.IH"[OF True p[symmetric] refl adv]) auto
      have "\<forall>q \<in> set queues. q \<noteq> [] \<longrightarrow> rid (hd q) \<in> fst ` set (select_loop limit queues offs' sel')"
        if "length sel + length queues \<le> limit"
        using that inv IH by (meson subsetD)
      moreover have "fst ` set sel \<subseteq> fst ` set (select_loop limit queues offs' sel')"
        using inv IH by (meson subset_trans)
      ultimately show ?thesis unfolding eq using IH by presburger
    qed
  qed
qed

lemma read_ok_start: "read_ok queues (map (\<lambda>_. 0) queues) sel"
  by (simp add: read_ok_def list_all2_conv_all_nth)

lemma selectLifecycleRoundBatch_eq:
  "0 < n \<Longrightarrow> selectLifecycleRoundBatch (IntV n) queues
     = Inr (map snd (select_loop (nat n) queues (map (\<lambda>_. 0) queues) []))"
  by (simp add: selectLifecycleRoundBatch_def del: integer_of.simps)

lemma sel_ok_rids: "sel_ok queues sel \<Longrightarrow> map fst sel = map rid (map snd sel)"
  by (auto simp: sel_ok_def)

lemma sel_ok_keys: "sel_ok queues sel \<Longrightarrow> fst ` set sel = rid ` set (map snd sel)"
  unfolding set_map[symmetric] by (simp only: sel_ok_rids)

text \<open>
  A lifecycle batch is bounded and loses nothing it could take: the selection always ends, returns
  at most \<open>limit\<close> rows of the given queues with pairwise different round ids, and if it returns fewer
  than \<open>limit\<close> rows then every row of every queue has its round in the batch.
\<close>

theorem selectLifecycleRoundBatch_complete:
  assumes "0 < n" "\<forall>q \<in> set queues. list_all valid_row q"
  shows "\<exists>batch. selectLifecycleRoundBatch (IntV n) queues = Inr batch \<and> length batch \<le> nat n
    \<and> distinct (map rid batch) \<and> set batch \<subseteq> \<Union> (set ` set queues)
    \<and> (length batch < nat n \<longrightarrow> (\<forall>q \<in> set queues. rid ` set q \<subseteq> rid ` set batch))"
proof -
  let ?s = "select_loop (nat n) queues (map (\<lambda>_. 0) queues) []"
  have ok: "sel_ok queues ?s" "length ?s \<le> nat n"
    "length ?s < nat n \<longrightarrow> (\<forall>q \<in> set queues. rid ` set q \<subseteq> fst ` set ?s)"
    using select_loop_inv[OF read_ok_start assms(2), of "[]" "nat n"] by (auto simp: sel_ok_def)
  have "distinct (map rid (map snd ?s))"
    unfolding sel_ok_rids[OF ok(1), symmetric] using ok(1) by (simp add: sel_ok_def)
  moreover have "set (map snd ?s) \<subseteq> \<Union> (set ` set queues)"
    using ok(1) by (auto simp: sel_ok_def)
  ultimately show ?thesis
    using ok sel_ok_keys[OF ok(1)] selectLifecycleRoundBatch_eq[OF assms(1), of queues] by auto
qed

definition row_of :: "int \<Rightarrow> jsval" where
  "row_of n = Obj [(''round_id'', IntV n)]"

lemma row_of_valid [simp]: "valid_row (row_of n)"
  by (simp add: row_of_def valid_row_def)

theorem selectLifecycleRoundBatch_complete_witness:
  "selectLifecycleRoundBatch (IntV 3) [[row_of 9, row_of 8], [row_of 9, row_of 2], []]
     = Inr [row_of 9, row_of 2, row_of 8]
   \<and> (\<exists>batch. selectLifecycleRoundBatch (IntV 3) [[row_of 9, row_of 8], [row_of 9, row_of 2], []]
         = Inr batch \<and> length batch \<le> 3 \<and> distinct (map rid batch))"
proof (rule conjI)
  show "selectLifecycleRoundBatch (IntV 3) [[row_of 9, row_of 8], [row_of 9, row_of 2], []]
     = Inr [row_of 9, row_of 2, row_of 8]" by code_simp
  show "\<exists>batch. selectLifecycleRoundBatch (IntV 3) [[row_of 9, row_of 8], [row_of 9, row_of 2], []]
         = Inr batch \<and> length batch \<le> 3 \<and> distinct (map rid batch)"
    using selectLifecycleRoundBatch_complete[of 3 "[[row_of 9, row_of 8], [row_of 9, row_of 2], []]"]
    by auto
qed

text \<open>
  Fairness: when the limit is at least the number of queues, the round at the head of every
  non-empty queue is in the batch, so a large recovery queue cannot starve the other queues.
\<close>

theorem selectLifecycleRoundBatch_fair:
  assumes "0 < n" "\<forall>q \<in> set queues. list_all valid_row q" "length queues \<le> nat n"
  shows "\<exists>batch. selectLifecycleRoundBatch (IntV n) queues = Inr batch
    \<and> (\<forall>q \<in> set queues. q \<noteq> [] \<longrightarrow> rid (hd q) \<in> rid ` set batch)"
proof -
  let ?s = "select_loop (nat n) queues (map (\<lambda>_. 0) queues) []"
  have ok: "sel_ok queues ?s" "\<forall>q \<in> set queues. q \<noteq> [] \<longrightarrow> rid (hd q) \<in> fst ` set ?s"
    using select_loop_inv[OF read_ok_start assms(2), of "[]" "nat n"] assms(1,3)
    by (auto simp: sel_ok_def)
  then show ?thesis
    using sel_ok_keys[OF ok(1)] selectLifecycleRoundBatch_eq[OF assms(1), of queues] by auto
qed

theorem selectLifecycleRoundBatch_fair_witness:
  "\<exists>batch. selectLifecycleRoundBatch (IntV 2) [[row_of 9, row_of 8, row_of 7], [row_of 2]] = Inr batch
     \<and> (\<forall>q \<in> set [[row_of 9, row_of 8, row_of 7], [row_of 2]]. q \<noteq> [] \<longrightarrow>
           rid (hd q) \<in> rid ` set batch)"
  by (rule selectLifecycleRoundBatch_fair) simp_all

section \<open>Properties of the merge\<close>

definition merged_ok :: "jsval list \<Rightarrow> keyed_rows \<Rightarrow> bool" where
  "merged_ok rows m \<longleftrightarrow> distinct (map fst m) \<and> fst ` set m = rid ` set rows
     \<and> (\<forall>(k, row) \<in> set m. k = rid row \<and> find (\<lambda>r. rid r = k) rows = Some row)"

lemma find_snoc: "find P (xs @ [x]) = (case find P xs of None \<Rightarrow> (if P x then Some x else None) | Some y \<Rightarrow> Some y)"
  by (induction xs) auto

lemma fold_merge_row:
  assumes "list_all valid_row rows"
  shows "\<exists>m. fold merge_row rows ([], 0) = (m, 0) \<and> merged_ok rows m"
  using assms
proof (induction rows rule: rev_induct)
  case Nil
  then show ?case by (simp add: merged_ok_def)
next
  case (snoc x xs)
  then obtain m where m: "fold merge_row xs ([], 0) = (m, 0)" "merged_ok xs m" by auto
  have x: "\<not> nullish (opt_member x ''round_id'')" using snoc.prems by (simp add: valid_row_def)
  show ?case
  proof (cases "rid x \<in> rid ` set xs")
    case True
    then have "has_key (rid x) m" using m(2) by (auto simp: has_key_iff merged_ok_def)
    moreover have "merged_ok (xs @ [x]) m"
      using m(2) True by (auto simp: merged_ok_def find_snoc)
    ultimately show ?thesis using m(1) x by (simp add: Let_def)
  next
    case False
    have nk: "\<not> has_key (rid x) m" using m(2) False by (auto simp: has_key_iff merged_ok_def)
    have "find (\<lambda>r. rid r = rid x) xs = None" using False by (force simp: find_None_iff image_iff)
    then have "merged_ok (xs @ [x]) (m @ [(rid x, x)])"
      using m(2) nk by (auto simp: merged_ok_def has_key_iff find_snoc)
    then show ?thesis using m(1) x nk by (simp add: Let_def)
  qed
qed

text \<open>
  Merging the lifecycle queues processes every round once, from the queue of highest priority: the
  merged list has pairwise different round ids, exactly the ids of the queues, and each of its rows is
  the first row with that id in priority order.
\<close>

theorem mergeLifecycleRoundQueues_first:
  assumes "\<forall>q \<in> set queues. list_all valid_row q"
  defines "out \<equiv> mergeLifecycleRoundQueues queues"
  shows "distinct (map rid out) \<and> rid ` set out = rid ` set (concat queues)
    \<and> (\<forall>row \<in> set out. find (\<lambda>r. rid r = rid row) (concat queues) = Some row)"
proof -
  have "list_all valid_row (concat queues)" using assms(1) by (auto simp: list_all_iff)
  then obtain m where m: "fold merge_row (concat queues) ([], 0) = (m, 0)" "merged_ok (concat queues) m"
    using fold_merge_row by blast
  have out: "out = map snd m" by (simp add: out_def mergeLifecycleRoundQueues_def m(1))
  have keys: "map fst m = map rid out" using m(2) by (auto simp: merged_ok_def out)
  have "rid ` set out = fst ` set m" unfolding set_map[symmetric] by (simp only: keys)
  moreover have "distinct (map rid out)" unfolding keys[symmetric] using m(2) by (simp add: merged_ok_def)
  ultimately show ?thesis using m(2) by (auto simp: merged_ok_def out)
qed

theorem mergeLifecycleRoundQueues_first_witness:
  "mergeLifecycleRoundQueues [[row_of 4], [row_of 9, row_of 4], [row_of 1]]
     = [row_of 4, row_of 9, row_of 1]
   \<and> distinct (map rid (mergeLifecycleRoundQueues [[row_of 4], [row_of 9, row_of 4], [row_of 1]]))"
proof (rule conjI)
  show "mergeLifecycleRoundQueues [[row_of 4], [row_of 9, row_of 4], [row_of 1]]
     = [row_of 4, row_of 9, row_of 1]" by code_simp
  show "distinct (map rid (mergeLifecycleRoundQueues [[row_of 4], [row_of 9, row_of 4], [row_of 1]]))"
    using mergeLifecycleRoundQueues_first[of "[[row_of 4], [row_of 9, row_of 4], [row_of 1]]"] by simp
qed

text \<open>
  C27. One failing round never stops the tick: the processing loop returns one result per row, in order,
  and a row whose processor throws contributes an error entry while every later row is still processed.
\<close>

theorem processLifecycleRoundQueue_isolates:
  "length (fst (processLifecycleRoundQueue (xs @ row # ys) processor s)) = length xs + 1 + length ys
   \<and> fst (processLifecycleRoundQueue (xs @ row # ys) processor s) ! length xs
     = (case fst (processor row (snd (processLifecycleRoundQueue xs processor s))) of
          Inr x \<Rightarrow> Processed x
        | Inl e \<Rightarrow> RoundProcessingError
            (to_str (coalesce (opt_member row ''round_id'') (Str ''unknown''))) (error_string e))"
proof -
  have len: "length (fst (processLifecycleRoundQueue rows processor s)) = length rows" for rows s
    by (induction rows arbitrary: s) (simp_all add: split_beta Let_def)
  have nth: "fst (processLifecycleRoundQueue (xs @ row # ys) processor s) ! length xs
     = (case fst (processor row (snd (processLifecycleRoundQueue xs processor s))) of
          Inr x \<Rightarrow> Processed x
        | Inl e \<Rightarrow> RoundProcessingError
            (to_str (coalesce (opt_member row ''round_id'') (Str ''unknown''))) (error_string e))"
    by (induction xs arbitrary: s) (simp_all add: split_beta Let_def)
  show ?thesis using len nth by simp
qed

section \<open>The historical walk visits every unclosed round\<close>

text \<open>
  The rows PostgREST serves for the historical query: the \<open>WINDOW_SIZE\<close> largest unclosed ids below the
  cursor, in descending order.
\<close>

definition served_ids :: "int set \<Rightarrow> int option \<Rightarrow> int list" where
  "served_ids D c = take WINDOW_SIZE
     (rev (sorted_list_of_set {r \<in> D. case c of None \<Rightarrow> True | Some x \<Rightarrow> r < x}))"

definition cursor_value :: "int option \<Rightarrow> jsval" where
  "cursor_value c = (case c of None \<Rightarrow> Null | Some n \<Rightarrow> Str (show_int n))"

text \<open>The keeper's ticks from a cursor until the cursor is null again, with the rows it got.\<close>

fun historical_walk :: "(string \<Rightarrow> jsval list) \<Rightarrow> nat \<Rightarrow> jsval \<Rightarrow> jsval list option" where
  "historical_walk fetch 0 cursor = None"
| "historical_walk fetch (Suc ticks) cursor =
     (case historicalLifecycleQuery cursor of
        Inl e \<Rightarrow> None
      | Inr query \<Rightarrow>
          let rows = fetch query in
          (case nextHistoricalLifecycleCursor (Arr rows) of
             Inl e \<Rightarrow> None
           | Inr cursor' \<Rightarrow>
               if cursor' = Null then Some rows
               else map_option (\<lambda>later. rows @ later) (historical_walk fetch ticks cursor')))"

lemma roundId_int [simp]: "0 \<le> n \<Longrightarrow> roundId (Str (show_int n)) = Inr (show_int n)"
  by (simp add: roundId_def)

lemma roundId_IntV [simp]: "0 \<le> n \<Longrightarrow> safe_num n \<Longrightarrow> roundId (IntV n) = Inr (show_int n)"
  by (simp add: roundId_def del: num_to_string.simps)

lemma fold_min_rows:
  assumes "\<forall>n \<in> set ns. 0 \<le> n \<and> safe_num n"
  shows "fold_res (\<lambda>row oldest.
           then_res (row_round row) (\<lambda>current.
           Inr (if current < oldest then current else oldest))) (map row_of ns) s
         = Inr (fold min ns s)"
  using assms
  by (induction ns arbitrary: s) (auto simp: row_of_def row_round_def member_def min_def)

lemma nextCursor_rows:
  assumes "\<forall>n \<in> set ns. 0 \<le> n \<and> safe_num n"
  shows "nextHistoricalLifecycleCursor (Arr (map row_of ns))
    = Inr (if ns = [] then Null else Str (show_int (Min (set ns))))"
proof (cases ns)
  case Nil
  then show ?thesis by (simp add: nextHistoricalLifecycleCursor_def)
next
  case (Cons n ms)
  have "fold min ns n = Min (set ns)"
    using Cons Min.set_eq_fold[of n ms] by simp
  moreover have "row_round (row_of n) = Inr n"
    using assms Cons by (simp add: row_of_def row_round_def member_def)
  ultimately show ?thesis
    using fold_min_rows[OF assms, of n] Cons
    by (simp add: nextHistoricalLifecycleCursor_def)
qed

lemma served_ids_props:
  assumes "finite D"
  shows "set (served_ids D c) \<subseteq> {r \<in> D. case c of None \<Rightarrow> True | Some x \<Rightarrow> r < x}"
    and "served_ids D c = [] \<longleftrightarrow> {r \<in> D. case c of None \<Rightarrow> True | Some x \<Rightarrow> r < x} = {}"
    and "served_ids D c \<noteq> [] \<Longrightarrow> {r \<in> D. case c of None \<Rightarrow> True | Some x \<Rightarrow> r < x}
           = set (served_ids D c) \<union> {r \<in> D. r < Min (set (served_ids D c))}"
proof -
  let ?S = "{r \<in> D. case c of None \<Rightarrow> True | Some x \<Rightarrow> r < x}"
  let ?l = "sorted_list_of_set ?S"
  have fin: "finite ?S" using assms by simp
  have sl: "set ?l = ?S" "sorted ?l" "distinct ?l" using fin by auto
  show sub: "set (served_ids D c) \<subseteq> ?S"
    unfolding served_ids_def using sl(1) set_take_subset[of WINDOW_SIZE "rev ?l"] by auto
  show "served_ids D c = [] \<longleftrightarrow> ?S = {}"
    using fin by (simp add: served_ids_def WINDOW_SIZE_def)
  assume ne: "served_ids D c \<noteq> []"
  let ?m = "Min (set (served_ids D c))"
  have m: "?m \<in> set (served_ids D c)" using ne by simp
  have "r \<in> set (served_ids D c) \<or> r < ?m" if "r \<in> ?S" for r
  proof -
    have "r \<in> set (take WINDOW_SIZE (rev ?l)) \<or> r \<in> set (drop WINDOW_SIZE (rev ?l))"
      using that sl(1) by (metis append_take_drop_id Un_iff set_append set_rev)
    moreover have "r < ?m" if "r \<in> set (drop WINDOW_SIZE (rev ?l))"
    proof -
      have "sorted_wrt (>) (rev ?l)"
        using sl(2,3) by (simp add: sorted_wrt_rev strict_sorted_iff)
      then have "sorted_wrt (>) (take WINDOW_SIZE (rev ?l) @ drop WINDOW_SIZE (rev ?l))" by simp
      then have "\<forall>x \<in> set (take WINDOW_SIZE (rev ?l)). r < x"
        using that by (auto simp: sorted_wrt_append simp del: append_take_drop_id)
      then show ?thesis using m by (simp add: served_ids_def)
    qed
    ultimately show ?thesis by (auto simp: served_ids_def)
  qed
  moreover have "r \<in> ?S" if "r \<in> D" "r < ?m" for r
    using sub m that by (auto split: option.splits)
  ultimately show "?S = set (served_ids D c) \<union> {r \<in> D. r < ?m}" using sub by auto
qed

lemma historical_walk_step:
  assumes D: "finite D" "\<forall>r \<in> D. 0 \<le> r \<and> safe_num r"
    and fetch: "\<And>c. case c of None \<Rightarrow> True | Some x \<Rightarrow> x \<in> D \<Longrightarrow>
      fetch (case historicalLifecycleQuery (cursor_value c) of Inr q \<Rightarrow> q | Inl _ \<Rightarrow> [])
        = map row_of (served_ids D c)"
  shows "case c of None \<Rightarrow> True | Some x \<Rightarrow> x \<in> D \<Longrightarrow>
    card {r \<in> D. case c of None \<Rightarrow> True | Some x \<Rightarrow> r < x} < ticks \<Longrightarrow>
    \<exists>ids. historical_walk fetch ticks (cursor_value c) = Some (map row_of ids)
       \<and> set ids = {r \<in> D. case c of None \<Rightarrow> True | Some x \<Rightarrow> r < x}"
proof (induction ticks arbitrary: c)
  case 0
  then show ?case by simp
next
  case (Suc ticks)
  let ?S = "{r \<in> D. case c of None \<Rightarrow> True | Some x \<Rightarrow> r < x}"
  let ?ids = "served_ids D c"
  obtain q where q: "historicalLifecycleQuery (cursor_value c) = Inr q"
    using Suc.prems(1) D(2) by (cases c) (auto simp: historicalLifecycleQuery_def cursor_value_def with_default_def)
  have f: "fetch q = map row_of ?ids" using fetch[OF Suc.prems(1)] q by simp
  have ok: "\<forall>n \<in> set ?ids. 0 \<le> n \<and> safe_num n" using served_ids_props(1)[OF D(1), of c] D(2) by blast
  show ?case
  proof (cases "?ids = []")
    case True
    then have "?S = {}" using served_ids_props(2)[OF D(1)] by blast
    then show ?thesis using q f True nextCursor_rows[OF ok] by simp
  next
    case False
    let ?m = "Min (set ?ids)"
    have S: "?S = set ?ids \<union> {r \<in> D. r < ?m}" by (rule served_ids_props(3)[OF D(1) False])
    have mD: "?m \<in> ?S" using False S by simp
    have "{r \<in> D. r < ?m} \<subset> ?S" using S mD by auto
    then have "card {r \<in> D. r < ?m} < card ?S" by (intro psubset_card_mono) (use D(1) in auto)
    then have "card {r \<in> D. r < ?m} < ticks" using Suc.prems(2) by simp
    then obtain ids where ids: "historical_walk fetch ticks (cursor_value (Some ?m)) = Some (map row_of ids)"
      "set ids = {r \<in> D. r < ?m}"
      using Suc.IH[of "Some ?m"] mD by auto
    have "historical_walk fetch (Suc ticks) (cursor_value c) = Some (map row_of (?ids @ ids))"
      using q f nextCursor_rows[OF ok] False ids(1) by (simp add: cursor_value_def)
    then show ?thesis using S ids(2) by (intro exI[of _ "?ids @ ids"]) simp
  qed
qed


definition demo_fetch :: "string \<Rightarrow> jsval list" where
  "demo_fetch q = (if q = ''mine_rounds?closed_signature=is.null&select=*&order=round_id.desc&limit=25''
     then [row_of 7] else [])"


end
