(* ===== verification/Js_Bytes.thy ===== *)
theory Js_Bytes
  imports Js_Values "HOL-Library.Word"
begin

text \<open>
  Node buffers: a \<open>Buffer\<close> is a list of bytes. Little-endian reads and writes of unsigned 64-bit and
  32-bit integers, hexadecimal text in both directions, and the byte form of a text. A read outside the
  buffer and a write outside the range of the type throw a \<open>RangeError\<close>, as Node does.
\<close>

type_synonym byte = "8 word"
type_synonym bytes = "byte list"

lemma unat_byte: "unat (b :: byte) < 256"
  using unsigned_less[of b, where 'a = nat] by simp

section \<open>Little-endian integers\<close>

fun le_val :: "bytes \<Rightarrow> int" where
  "le_val [] = 0"
| "le_val (b # bs) = uint b + 256 * le_val bs"

fun le_bytes :: "nat \<Rightarrow> int \<Rightarrow> bytes" where
  "le_bytes 0 n = []"
| "le_bytes (Suc k) n = word_of_int (n mod 256) # le_bytes k (n div 256)"

definition readUIntLE :: "nat \<Rightarrow> bytes \<Rightarrow> nat \<Rightarrow> int res" where
  "readUIntLE width data offset =
     (if offset + width \<le> length data then Inr (le_val (take width (drop offset data)))
      else Inl (RangeError ''The value of offset is out of range''))"

definition writeBigUInt64LE :: "int \<Rightarrow> bytes res" where
  "writeBigUInt64LE n = (if 0 \<le> n \<and> n \<le> U64_MAX then Inr (le_bytes 8 n)
     else Inl (RangeError ''The value of value is out of range''))"

lemma le_bytes_length [simp]: "length (le_bytes k n) = k"
  by (induction k arbitrary: n) auto

lemma le_val_bounds: "0 \<le> le_val bs \<and> le_val bs < 256 ^ length bs"
proof (induction bs)
  case Nil
  then show ?case by simp
next
  case (Cons b bs)
  have "0 \<le> uint b" "uint b < 256" using uint_lt2p[of b] by auto
  then show ?case using Cons by simp
qed

lemma le_val_bytes: "0 \<le> n \<Longrightarrow> n < 256 ^ k \<Longrightarrow> le_val (le_bytes k n) = n"
proof (induction k arbitrary: n)
  case 0
  then show ?case by simp
next
  case (Suc k)
  have "uint (word_of_int (n mod 256) :: byte) = n mod 256"
    by (simp add: uint_word_of_int)
  moreover have "le_val (le_bytes k (n div 256)) = n div 256"
    using Suc.prems by (intro Suc.IH) auto
  ultimately show ?case by simp
qed

lemma le_val_inject: "length xs = length ys \<Longrightarrow> le_val xs = le_val ys \<Longrightarrow> xs = ys"
proof (induction xs ys rule: list_induct2)
  case (Cons x xs y ys)
  have xy: "0 \<le> uint x" "uint x < 256" "0 \<le> uint y" "uint y < 256"
    using uint_lt2p[of x] uint_lt2p[of y] by auto
  have eq: "uint x + 256 * le_val xs = uint y + 256 * le_val ys" using Cons.prems by simp
  have "(uint x + 256 * le_val xs) mod 256 = uint x" "(uint y + 256 * le_val ys) mod 256 = uint y"
    using xy by simp_all
  then have u: "uint x = uint y" using eq by simp
  then have "x = y" by (simp add: word_uint_eq_iff)
  then show ?case using eq Cons.IH by simp
qed simp

lemma readUIntLE_Inr [res_simps]:
  "readUIntLE w d k = Inr n \<longleftrightarrow> k + w \<le> length d \<and> n = le_val (take w (drop k d))"
  by (auto simp: readUIntLE_def)

lemma readUIntLE_nonneg: "readUIntLE w d k = Inr n \<Longrightarrow> 0 \<le> n \<and> n < 256 ^ w"
  using le_val_bounds[of "take w (drop k d)"] by (auto simp: res_simps)

lemma write_read_u64:
  "writeBigUInt64LE n = Inr bs \<Longrightarrow> readUIntLE 8 (bs @ more) 0 = Inr n \<and> length bs = 8"
  by (auto simp: writeBigUInt64LE_def readUIntLE_def U64_MAX_def le_val_bytes split: if_splits)

lemma write_u64_inject:
  "writeBigUInt64LE m = Inr bs \<Longrightarrow> writeBigUInt64LE n = Inr bs \<Longrightarrow> m = n"
  using write_read_u64[of m bs "[]"] write_read_u64[of n bs "[]"] by simp

section \<open>Text and hexadecimal\<close>

text \<open>The UTF-8 form of a text of 8-bit characters.\<close>

definition utf8 :: "char \<Rightarrow> bytes" where
  "utf8 c = (let n = (of_char c :: nat) in
     if n < 128 then [of_nat n] else [of_nat (192 + n div 64), of_nat (128 + n mod 64)])"

definition text_bytes :: "string \<Rightarrow> bytes" where
  "text_bytes s = concat (map utf8 s)"

definition hex_char :: "nat \<Rightarrow> char" where
  "hex_char d = (if d < 10 then char_of (48 + d) else char_of (87 + d))"

fun hex_of_bytes :: "bytes \<Rightarrow> string" where
  "hex_of_bytes [] = []"
| "hex_of_bytes (b # bs) = hex_char (unat b div 16) # hex_char (unat b mod 16) # hex_of_bytes bs"

text \<open>\<open>Buffer.from(text, 'hex')\<close>: stops at the first pair that is not hexadecimal.\<close>

fun bytes_of_hex :: "string \<Rightarrow> bytes" where
  "bytes_of_hex (a # b # r) = (case (hex_val a, hex_val b) of
     (Some x, Some y) \<Rightarrow> of_nat (16 * x + y) # bytes_of_hex r | _ \<Rightarrow> [])"
| "bytes_of_hex _ = []"

definition is_hex :: "char \<Rightarrow> bool" where
  "is_hex c = (hex_val c \<noteq> None)"

lemma hex_val_char: "d < 16 \<Longrightarrow> hex_val (hex_char d) = Some d"
  by (auto simp: hex_val.simps hex_char_def Let_def of_char_of)

lemma hex_round_trip [simp]: "bytes_of_hex (hex_of_bytes bs) = bs"
proof (induction bs)
  case (Cons b bs)
  have "unat b < 256" by (rule unat_byte)
  then have "unat b div 16 < 16" "unat b mod 16 < 16" by auto
  then show ?case using Cons by (simp add: hex_val_char)
qed simp

lemma hex_of_bytes_length [simp]: "length (hex_of_bytes bs) = 2 * length bs"
  by (induction bs) auto

lemma hex_of_bytes_is_hex: "list_all is_hex (hex_of_bytes bs)"
proof (induction bs)
  case (Cons b bs)
  have "unat b < 256" by (rule unat_byte)
  then have "unat b div 16 < 16" "unat b mod 16 < 16" by auto
  then show ?case using Cons by (simp add: is_hex_def hex_val_char)
qed simp

lemma hex_of_bytes_inject [simp]: "hex_of_bytes xs = hex_of_bytes ys \<longleftrightarrow> xs = ys"
  by (metis hex_round_trip)

end
