(* ===== verification/Js_Json.thy ===== *)
theory Js_Json
  imports Js_Values
begin

text \<open>
  \<open>JSON.parse\<close> and the printing of strings by \<open>JSON.stringify\<close>, for texts of 8-bit characters. The
  parser is the grammar of the language standard by recursive descent; its fuel is the length of the
  text, which every call consumes. An escape above \<open>\\u00ff\<close> has no character in this string model
  and is rejected.
\<close>

section \<open>Parsing\<close>

definition json_ws :: "char \<Rightarrow> bool" where
  "json_ws c = (of_char c \<in> {9, 10, 13, 32 :: nat})"

definition skip_ws :: "string \<Rightarrow> string" where
  "skip_ws s = dropWhile json_ws s"

fun unescape :: "char \<Rightarrow> char option" where
  "unescape c = (if c = CHR 0x22 then Some CHR 0x22
     else if c = CHR 0x5C then Some CHR 0x5C
     else if c = CHR ''/'' then Some CHR ''/''
     else if c = CHR ''b'' then Some CHR 0x08
     else if c = CHR ''f'' then Some CHR 0x0C
     else if c = CHR ''n'' then Some CHR 0x0A
     else if c = CHR ''r'' then Some CHR 0x0D
     else if c = CHR ''t'' then Some CHR 0x09 else None)"

definition code_unit :: "string \<Rightarrow> char option" where
  "code_unit h = (case nonempty_radix 16 h of None \<Rightarrow> None
     | Some n \<Rightarrow> if length h = 4 \<and> n < 256 then Some (char_of (nat n)) else None)"

text \<open>The text after an opening quote, to the closing one.\<close>

function json_string :: "string \<Rightarrow> (string \<times> string) option" where
  "json_string s = (case s of [] \<Rightarrow> None
     | c # r \<Rightarrow>
         if c = CHR 0x22 then Some ([], r)
         else if (of_char c :: nat) < 32 then None
         else if c = CHR 0x5C then
           (case r of [] \<Rightarrow> None
            | e # r' \<Rightarrow>
                if e = CHR ''u'' then
                  (case code_unit (take 4 r') of None \<Rightarrow> None
                   | Some x \<Rightarrow> map_option (\<lambda>(t, q). (x # t, q)) (json_string (drop 4 r')))
                else (case unescape e of None \<Rightarrow> None
                   | Some x \<Rightarrow> map_option (\<lambda>(t, q). (x # t, q)) (json_string r')))
         else map_option (\<lambda>(t, q). (c # t, q)) (json_string r))"
  by pat_completeness auto
termination by (relation "measure length") auto

declare json_string.simps [simp del]

definition digits_then :: "string \<Rightarrow> (string \<times> string) option" where
  "digits_then s = (let d = takeWhile is_digit s in if d = [] then None else Some (d, dropWhile is_digit s))"

text \<open>An unsigned number: digits without a leading zero, an optional fraction and exponent.\<close>

definition json_unsigned :: "string \<Rightarrow> (rat \<times> string) option" where
  "json_unsigned s = (case digits_then s of None \<Rightarrow> None
     | Some (w, r) \<Rightarrow>
         if length w > 1 \<and> hd w = CHR ''0'' then None
         else (case (case r of c # r' \<Rightarrow> if c = CHR ''.'' then digits_then r' else Some ([], r)
                     | [] \<Rightarrow> Some ([], r)) of
             None \<Rightarrow> None
           | Some (f, r2) \<Rightarrow>
               (case (case r2 of
                   e # r3 \<Rightarrow> if e \<in> {CHR ''e'', CHR ''E''} then
                       (case r3 of [] \<Rightarrow> None
                        | g # r4 \<Rightarrow>
                            if g = CHR ''-'' then map_option (\<lambda>(d, q). (- int (read_nat d), q)) (digits_then r4)
                            else map_option (\<lambda>(d, q). (int (read_nat d), q))
                              (digits_then (if g = CHR ''+'' then r4 else r3)))
                     else Some (0, r2)
                 | [] \<Rightarrow> Some (0, r2)) of
                  None \<Rightarrow> None
                | Some (x, q) \<Rightarrow>
                    Some (of_nat (read_nat (w @ f)) * 10 powi (x - int (length f)), q))))"

definition json_number :: "string \<Rightarrow> (jsval \<times> string) option" where
  "json_number s = (case s of
       [] \<Rightarrow> None
     | c # r \<Rightarrow> if c = CHR ''-'' then map_option (\<lambda>(x, q). (Num (num_of_rat (- x)), q)) (json_unsigned r)
         else map_option (\<lambda>(x, q). (Num (num_of_rat x), q)) (json_unsigned s))"

text \<open>Assigning a property: a repeated name keeps its place and takes the later value.\<close>

fun put_field :: "string \<Rightarrow> jsval \<Rightarrow> (string \<times> jsval) list \<Rightarrow> (string \<times> jsval) list" where
  "put_field k v [] = [(k, v)]"
| "put_field k v ((k', w) # fs) = (if k' = k then (k, v) # fs else (k', w) # put_field k v fs)"

fun json_value :: "nat \<Rightarrow> string \<Rightarrow> (jsval \<times> string) option"
  and json_elements :: "nat \<Rightarrow> jsval list \<Rightarrow> string \<Rightarrow> (jsval list \<times> string) option"
  and json_members :: "nat \<Rightarrow> (string \<times> jsval) list \<Rightarrow> string \<Rightarrow> ((string \<times> jsval) list \<times> string) option" where
  "json_value 0 s = None"
| "json_value (Suc n) s0 = (case skip_ws s0 of [] \<Rightarrow> None
     | c # r \<Rightarrow>
         if c = CHR 0x22 then map_option (\<lambda>(t, q). (Str t, q)) (json_string r)
         else if c = CHR ''['' then
           (case skip_ws r of [] \<Rightarrow> None
            | d # q \<Rightarrow> if d = CHR '']'' then Some (Arr [], q)
                else map_option (\<lambda>(xs, q). (Arr xs, q)) (json_elements n [] r))
         else if c = CHR ''{'' then
           (case skip_ws r of [] \<Rightarrow> None
            | d # q \<Rightarrow> if d = CHR ''}'' then Some (Obj [], q)
                else map_option (\<lambda>(fs, q). (Obj fs, q)) (json_members n [] r))
         else if take 4 (c # r) = ''true'' then Some (Bool True, drop 4 (c # r))
         else if take 5 (c # r) = ''false'' then Some (Bool False, drop 5 (c # r))
         else if take 4 (c # r) = ''null'' then Some (Null, drop 4 (c # r))
         else json_number (c # r))"
| "json_elements 0 xs s = None"
| "json_elements (Suc n) xs s = (case json_value n s of None \<Rightarrow> None
     | Some (v, r) \<Rightarrow> (case skip_ws r of [] \<Rightarrow> None
         | d # q \<Rightarrow> if d = CHR '','' then json_elements n (xs @ [v]) q
             else if d = CHR '']'' then Some (xs @ [v], q) else None))"
| "json_members 0 fs s = None"
| "json_members (Suc n) fs s0 = (case skip_ws s0 of [] \<Rightarrow> None
     | c # s1 \<Rightarrow> if c \<noteq> CHR 0x22 then None
         else (case json_string s1 of None \<Rightarrow> None
           | Some (k, s2) \<Rightarrow> (case skip_ws s2 of [] \<Rightarrow> None
             | d # s3 \<Rightarrow> if d \<noteq> CHR '':'' then None
               else (case json_value n s3 of None \<Rightarrow> None
                 | Some (v, s4) \<Rightarrow> (case skip_ws s4 of [] \<Rightarrow> None
                   | e # s5 \<Rightarrow> if e = CHR '','' then json_members n (put_field k v fs) s5
                       else if e = CHR ''}'' then Some (put_field k v fs, s5) else None)))))"

definition JSON_parse :: "string \<Rightarrow> jsval res" where
  "JSON_parse s = (case json_value (2 * length s + 2) s of
     Some (v, r) \<Rightarrow> if skip_ws r = [] then Inr v
       else Inl (SyntaxError ''Unexpected non-whitespace character after JSON'')
   | None \<Rightarrow> Inl (SyntaxError ''Unexpected end of JSON input''))"

section \<open>Printing\<close>

definition json_escape :: "char \<Rightarrow> string" where
  "json_escape c = (let n = (of_char c :: nat) in
     if c = CHR 0x22 then [CHR 0x5C, CHR 0x22]
     else if c = CHR 0x5C then [CHR 0x5C, CHR 0x5C]
     else if n = 8 then [CHR 0x5C, CHR ''b'']
     else if n = 9 then [CHR 0x5C, CHR ''t'']
     else if n = 10 then [CHR 0x5C, CHR ''n'']
     else if n = 12 then [CHR 0x5C, CHR ''f'']
     else if n = 13 then [CHR 0x5C, CHR ''r'']
     else if n < 32 then [CHR 0x5C, CHR ''u'', CHR ''0'', CHR ''0'',
       (if n < 16 then CHR ''0'' else CHR ''1''),
       (let d = n mod 16 in if d < 10 then char_of (48 + d) else char_of (87 + d))]
     else [c])"

definition json_quote :: "string \<Rightarrow> string" where
  "json_quote s = CHR 0x22 # concat (map json_escape s) @ [CHR 0x22]"

text \<open>\<open>JSON.stringify\<close> without indentation; \<open>None\<close> is a value it leaves out.\<close>

fun json_text :: "jsval \<Rightarrow> string option res" where
  "json_text Undef = Inr None"
| "json_text Null = Inr (Some ''null'')"
| "json_text (Bool b) = Inr (Some (if b then ''true'' else ''false''))"
| "json_text (Num (Fin x)) = Inr (Some (num_to_string (Fin x)))"
| "json_text (Num n) = Inr (Some ''null'')"
| "json_text (Big n) = Inl (TypeError ''Do not know how to serialize a BigInt'')"
| "json_text (Str s) = Inr (Some (json_quote s))"
| "json_text (Key s) = Inr (Some (json_quote s))"
| "json_text (BN n) = Inr (Some (json_quote (show_int n)))"
| "json_text (Arr xs) = then_res (map_res json_text xs) (\<lambda>ts.
     Inr (Some (''['' @ join '','' (map (\<lambda>t. case t of None \<Rightarrow> ''null'' | Some u \<Rightarrow> u) ts) @ '']'')))"
| "json_text (Obj fs) = then_res (map_res (\<lambda>(k, v). then_res (json_text v)
       (\<lambda>t. Inr (map_option (\<lambda>u. json_quote k @ '':'' @ u) t))) fs)
     (\<lambda>ts. Inr (Some (''{'' @ join '','' (concat (map (\<lambda>t. case t of None \<Rightarrow> [] | Some u \<Rightarrow> [u]) ts)) @ ''}'')))"

section \<open>Plain strings\<close>

definition plain :: "char \<Rightarrow> bool" where
  "plain c = (32 \<le> (of_char c :: nat) \<and> c \<noteq> CHR 0x22 \<and> c \<noteq> CHR 0x5C)"

lemma json_string_plain:
  "list_all plain s \<Longrightarrow> json_string (s @ CHR 0x22 # r) = Some (s, r)"
proof (induction s)
  case Nil
  show ?case by (simp add: json_string.simps)
next
  case (Cons c s)
  then show ?case by (simp add: json_string.simps[of "c # _"] plain_def)
qed

lemma json_quote_plain: "list_all plain s \<Longrightarrow> json_quote s = CHR 0x22 # s @ [CHR 0x22]"
proof -
  have "plain c \<Longrightarrow> json_escape c = [c]" for c by (auto simp: plain_def json_escape_def Let_def)
  then have "list_all plain s \<Longrightarrow> concat (map json_escape s) = s" by (induction s) auto
  then show "list_all plain s \<Longrightarrow> ?thesis" by (simp add: json_quote_def)
qed

lemma plain_digit: "is_digit c \<Longrightarrow> plain c"
  by (auto simp: plain_def is_digit_def)

lemma plain_show_nat [simp]: "list_all plain (show_nat n)"
  using all_digits_show_nat[of n] by (auto simp: all_digits_def list_all_iff plain_digit)

section \<open>Printed strings read back\<close>

lemma code_unit_low:
  "\<forall>n \<in> set [0..<32]. code_unit [CHR ''0'', CHR ''0'', (if n < 16 then CHR ''0'' else CHR ''1''),
    (let d = n mod 16 in if d < 10 then char_of (48 + d) else char_of (87 + d))] = Some (char_of n)"
  by code_simp

lemma json_string_backslash:
  "unescape e = Some x \<Longrightarrow> e \<noteq> CHR ''u'' \<Longrightarrow>
     json_string (CHR 0x5C # e # s) = map_option (\<lambda>(t, q). (x # t, q)) (json_string s)"
  by (subst json_string.simps) (simp del: unescape.simps)

lemma json_string_unit:
  "code_unit h = Some x \<Longrightarrow> length h = 4 \<Longrightarrow>
     json_string (CHR 0x5C # CHR ''u'' # h @ s) = map_option (\<lambda>(t, q). (x # t, q)) (json_string s)"
  by (subst json_string.simps) simp

lemma json_string_char:
  "plain c \<Longrightarrow> json_string (c # s) = map_option (\<lambda>(t, q). (c # t, q)) (json_string s)"
  by (subst json_string.simps) (simp add: plain_def)

lemma json_escape_named:
  "\<forall>c \<in> set [CHR 0x22, CHR 0x5C, CHR 0x08, CHR 0x09, CHR 0x0A, CHR 0x0C, CHR 0x0D].
     length (json_escape c) = 2 \<and> hd (json_escape c) = CHR 0x5C
     \<and> unescape (json_escape c ! 1) = Some c \<and> json_escape c ! 1 \<noteq> CHR ''u''"
  by code_simp

lemma json_string_escape:
  "json_string (json_escape c @ s) = map_option (\<lambda>(t, q). (c # t, q)) (json_string s)"
proof -
  let ?n = "of_char c :: nat"
  let ?named = "[CHR 0x22, CHR 0x5C, CHR 0x08, CHR 0x09, CHR 0x0A, CHR 0x0C, CHR 0x0D]"
  have named: "?n = of_char d \<longleftrightarrow> c = d" for d by (rule of_char_eq_iff)
  have ctl: "?n = 8 \<longleftrightarrow> c = CHR 0x08" "?n = 9 \<longleftrightarrow> c = CHR 0x09" "?n = 10 \<longleftrightarrow> c = CHR 0x0A"
    "?n = 12 \<longleftrightarrow> c = CHR 0x0C" "?n = 13 \<longleftrightarrow> c = CHR 0x0D"
    using named[of "CHR 0x08"] named[of "CHR 0x09"] named[of "CHR 0x0A"] named[of "CHR 0x0C"] named[of "CHR 0x0D"]
    by simp_all
  consider "c \<in> set ?named" | "c \<notin> set ?named" "?n < 32" | "c \<notin> set ?named" "\<not> ?n < 32" by blast
  then show ?thesis
  proof cases
    case 1
    then have e: "length (json_escape c) = 2" "hd (json_escape c) = CHR 0x5C"
      "unescape (json_escape c ! 1) = Some c" "json_escape c ! 1 \<noteq> CHR ''u''"
      using json_escape_named by blast+
    then obtain a b where ab: "json_escape c = [a, b]" by (auto simp: length_Suc_conv numeral_2_eq_2)
    then show ?thesis using json_string_backslash[of b c s] e by (simp del: unescape.simps)
  next
    case 2
    let ?h = "[CHR ''0'', CHR ''0'', (if ?n < 16 then CHR ''0'' else CHR ''1''),
      (let d = ?n mod 16 in if d < 10 then char_of (48 + d) else char_of (87 + d))]"
    have "json_escape c = CHR 0x5C # CHR ''u'' # ?h"
      using 2 unfolding json_escape_def Let_def ctl by simp
    moreover have "code_unit ?h = Some (char_of ?n)" 
      by (rule bspec[OF code_unit_low]) (use 2(2) in simp)
    ultimately show ?thesis using json_string_unit[of ?h c s] by simp
  next
    case 3
    then have "json_escape c = [c]" unfolding json_escape_def Let_def ctl by simp
    moreover have "plain c" using 3 by (simp add: plain_def)
    ultimately show ?thesis using json_string_char[of c s] by simp
  qed
qed

lemma json_string_quote: "json_string (tl (json_quote s) @ r) = Some (s, r)"
proof -
  have "json_string (concat (map json_escape s) @ CHR 0x22 # r) = Some (s, r)"
  proof (induction s)
    case Nil
    show ?case by (simp add: json_string.simps)
  next
    case (Cons c s)
    then show ?case by (simp add: json_string_escape)
  qed
  then show ?thesis by (simp add: json_quote_def)
qed

text \<open>A printed string is determined by the text up to where it ends.\<close>

lemma json_quote_append_inject:
  "json_quote s @ r = json_quote t @ q \<longleftrightarrow> s = t \<and> r = q"
proof
  assume "json_quote s @ r = json_quote t @ q"
  then have "tl (json_quote s) @ r = tl (json_quote t) @ q" by (simp add: json_quote_def)
  then have "json_string (tl (json_quote t) @ q) = Some (s, r)" using json_string_quote[of s r] by (simp only:)
  then show "s = t \<and> r = q" by (simp only: json_string_quote option.inject prod.inject simp_thms)
qed (simp only:)

lemma json_quote_inject [simp]: "json_quote s = json_quote t \<longleftrightarrow> s = t"
  using json_quote_append_inject[of s "[]" t "[]"] by simp

section \<open>What a parse leaves unread\<close>

lemma skip_ws_sub: "skip_ws s = c # r \<Longrightarrow> insert c (set r) \<subseteq> set s"
  using set_dropWhileD[of _ json_ws s] by (auto simp: skip_ws_def intro: list.set_intros)

lemma json_string_sub: "json_string s = Some (t, q) \<Longrightarrow> set q \<subseteq> set s"
proof (induction s arbitrary: t q rule: json_string.induct)
  case (1 s)
  note prem = "1.prems" and IH = "1.IH"
  show ?case
  proof (cases s)
    case (Cons c r)
    consider "c = CHR 0x22" | "c \<noteq> CHR 0x22" "c \<noteq> CHR 0x5C" | e r' where "c = CHR 0x5C" "r = e # r'" "e = CHR ''u''"
      | e r' where "c = CHR 0x5C" "r = e # r'" "e \<noteq> CHR ''u''"
      using prem unfolding Cons json_string.simps[of "c # r"] by (cases r) (auto split: if_splits)
    then show ?thesis
    proof cases
      case 3
      then obtain x t' where x: "code_unit (take 4 r') = Some x" "json_string (drop 4 r') = Some (t', q)"
        using prem unfolding Cons json_string.simps[of "c # r"] by (auto split: option.splits)
      have "\<not> (of_char c :: nat) < 32" using 3 by simp
      then have "set q \<subseteq> set (drop 4 r')"
        using IH(1)[OF Cons _ _ 3(1) 3(2) 3(3) x(1) x(2)] 3(1) by simp
      then show ?thesis using 3 Cons set_drop_subset[of 4 r'] by auto
    next
      case 4
      then obtain x t' where x: "unescape e = Some x" "json_string r' = Some (t', q)"
        using prem unfolding Cons json_string.simps[of "c # r"]
        by (auto split: option.splits simp del: unescape.simps)
      have "\<not> (of_char c :: nat) < 32" using 4 by simp
      then have "set q \<subseteq> set r'"
        using IH(2)[OF Cons _ _ 4(1) 4(2) 4(3) x(1) x(2)] 4(1) by simp
      then show ?thesis using 4 Cons by auto
    next
      case 2
      then obtain t' where n: "\<not> (of_char c :: nat) < 32" "json_string r = Some (t', q)"
        using prem unfolding Cons json_string.simps[of "c # r"] by (auto split: if_splits)
      then have "set q \<subseteq> set r" using IH(3)[OF Cons 2(1) n(1) 2(2) n(2)] by simp
      then show ?thesis using Cons by auto
    next
      case 1
      then show ?thesis using prem unfolding Cons json_string.simps[of "c # r"] by auto
    qed
  qed (use prem in \<open>simp add: json_string.simps\<close>)
qed

lemma digits_then_sub: "digits_then s = Some (d, q) \<Longrightarrow> set q \<subseteq> set s"
  using set_dropWhileD[of _ is_digit s] by (auto simp: digits_then_def Let_def split: if_splits)

lemma json_unsigned_sub: "json_unsigned s = Some (x, q) \<Longrightarrow> set q \<subseteq> set s"
  unfolding json_unsigned_def
  by (fastforce split: option.splits if_splits list.splits dest!: digits_then_sub)

lemma json_number_sub: "json_number s = Some (v, q) \<Longrightarrow> set q \<subseteq> set s"
  unfolding json_number_def
  by (fastforce split: list.splits if_splits dest!: json_unsigned_sub)

lemma json_rest:
  "json_value n s = Some (v, q) \<Longrightarrow> set q \<subseteq> set s"
  "json_elements n xs s = Some (ys, q) \<Longrightarrow> set q \<subseteq> set s"
  "json_members n fs s = Some (gs, q) \<Longrightarrow> set q \<subseteq> set s \<and> CHR ''}'' \<in> set s"
proof (induction n s and n xs s and n fs s arbitrary: v q and ys q and gs q
    rule: json_value_json_elements_json_members.induct)
  case (2 n s0)
  then obtain c r where c: "skip_ws s0 = c # r" by (cases "skip_ws s0") auto
  have r: "set r \<subseteq> set s0" using skip_ws_sub[OF c] by auto
  have d: "set (drop k r) \<subseteq> set s0" for k
    using set_drop_subset[of k r] skip_ws_sub[OF c] by auto
  consider "c = CHR 0x22" | "c = CHR ''[''" | "c = CHR ''{''" | "c \<notin> {CHR 0x22, CHR ''['', CHR ''{''}"
    by auto
  then show ?case
  proof cases
    case 1
    then show ?thesis using "2.prems" c r json_string_sub by fastforce
  next
    case x: 2
    then obtain d q' where dq: "skip_ws r = d # q'" using "2.prems" c by (cases "skip_ws r") auto
    have nq: "CHR ''['' \<noteq> CHR 0x22" by simp
    show ?thesis
    proof (cases "d = CHR '']''")
      case True
      then show ?thesis using "2.prems" c x dq r skip_ws_sub[OF dq] by auto
    next
      case False
      then obtain xs where "json_elements n [] r = Some (xs, q)" using "2.prems" c x dq by auto
      then show ?thesis using "2.IH"(1)[OF c _ x dq False] x r by auto
    qed
  next
    case x: 3
    then obtain d q' where dq: "skip_ws r = d # q'" using "2.prems" c by (cases "skip_ws r") auto
    show ?thesis
    proof (cases "d = CHR ''}''")
      case True
      then show ?thesis using "2.prems" c x dq r skip_ws_sub[OF dq] by auto
    next
      case False
      then obtain xs where "json_members n [] r = Some (xs, q)" using "2.prems" c x dq by auto
      then show ?thesis using "2.IH"(2)[OF c _ _ x dq False] x r by auto
    qed
  next
    case 4
    then show ?thesis using "2.prems" c json_number_sub[of "c # r" v q] skip_ws_sub[OF c]
      by (auto split: if_splits dest: subsetD[OF d])
  qed
next
  case (4 n xs s)
  then obtain w r where w: "json_value n s = Some (w, r)" by (cases "json_value n s") auto
  then obtain d q' where dq: "skip_ws r = d # q'" using "4.prems" by (cases "skip_ws r") auto
  have sub: "set q' \<subseteq> set s" using "4.IH"(1)[OF w] skip_ws_sub[OF dq] by auto
  show ?case
  proof (cases "d = CHR '',''")
    case True
    then have "json_elements n (xs @ [w]) q' = Some (ys, q)" using "4.prems" w dq by simp
    then show ?thesis using "4.IH"(2)[OF w refl dq True] sub by blast
  next
    case False
    then show ?thesis using "4.prems" w dq sub by (auto split: if_splits)
  qed
next
  case (6 n fs s0)
  then obtain c s1 where c: "skip_ws s0 = c # s1" by (cases "skip_ws s0") auto
  have c0: "\<not> c \<noteq> CHR 0x22" using "6.prems" c by (auto split: if_splits)
  obtain k s2 where k: "json_string s1 = Some (k, s2)" using "6.prems" c c0 by (auto split: option.splits)
  obtain d s3 where d: "skip_ws s2 = d # s3" using "6.prems" c c0 k by (auto split: list.splits)
  have d0: "\<not> d \<noteq> CHR '':''" using "6.prems" c c0 k d by (auto split: if_splits)
  obtain w s4 where w: "json_value n s3 = Some (w, s4)" using "6.prems" c c0 k d d0 by (auto split: option.splits)
  obtain e s5 where e: "skip_ws s4 = e # s5" using "6.prems" c c0 k d d0 w by (auto split: list.splits)
  have "set s4 \<subseteq> set s3" using "6.IH"(1)[OF c c0 k refl d d0 w] .
  then have sub: "insert e (set s5) \<subseteq> set s0"
    using skip_ws_sub[OF c] json_string_sub[OF k] skip_ws_sub[OF d] skip_ws_sub[OF e] by blast
  show ?case
  proof (cases "e = CHR '',''")
    case True
    then have "json_members n (put_field k w fs) s5 = Some (gs, q)" using "6.prems" c c0 k d d0 w e by simp
    then show ?thesis using "6.IH"(2)[OF c c0 k refl d d0 w refl e True] sub by blast
  next
    case False
    then show ?thesis using "6.prems" c c0 k d d0 w e sub by (auto split: if_splits)
  qed
qed auto

text \<open>A text that opens an object and never closes it is no JSON document.\<close>

lemma JSON_parse_unclosed:
  assumes "CHR ''}'' \<notin> set s"
  shows "\<exists>e. JSON_parse (CHR ''{'' # s) = Inl e"
proof -
  have "skip_ws (CHR ''{'' # s) = CHR ''{'' # s" by (simp add: skip_ws_def json_ws_def)
  moreover have "json_members n [] s = None" for n
    using json_rest(3)[of n "[]" s] assms by (cases "json_members n [] s") auto
  moreover have "skip_ws s = d # q \<Longrightarrow> d \<noteq> CHR ''}''" for d q using skip_ws_sub[of s d q] assms by auto
  ultimately have "json_value (Suc n) (CHR ''{'' # s) = None" for n by (auto split: list.splits)
  then have "json_value (2 * length (CHR ''{'' # s) + 2) (CHR ''{'' # s) = None"
    by (metis add_2_eq_Suc')
  then show ?thesis by (simp only: JSON_parse_def option.case) blast
qed

end
