(* ===== verification/Server_Randomness.thy ===== *)
theory Server_Randomness
  imports Js_Bytes Js_Json
begin

text \<open>
  \<open>Protocol/scripts/server-randomness-policy.mjs\<close>: the persisted preimage of the server randomness, its
  commitment, the encoded entropy slot and the scan of the SlotHashes sysvar. The digest function of
  \<open>node:crypto\<close> is a parameter. The creation of the reveal file is a step relation over the workers that
  race for it: each step is one file-system call of \<open>loadOrCreateServerReveal\<close>, a worker that crashes
  takes no further step and a restarted worker is a new one that starts by reading.
\<close>

section \<open>The reveal file\<close>

definition ends_with_slash :: "string \<Rightarrow> bool" where
  "ends_with_slash s = (s \<noteq> [] \<and> last s = CHR ''/'')"

definition revealPath :: "jsval \<Rightarrow> jsval \<Rightarrow> string res" where
  "revealPath stateDir roundId =
     (let given = to_str (js_or stateDir (Str []));
          root = (if ends_with_slash given then butlast given else given) in
      assert_ok (take 1 root = ''/'' \<and> root \<noteq> []) ''Server randomness state directory must be absolute'' (
      assert_ok (root \<noteq> ''/'') ''Server randomness state directory cannot be filesystem root'' (
      then_res (to_bigint roundId) (\<lambda>rid.
      assert_ok (0 \<le> rid) ''Round id must be non-negative'' (
      Inr (root @ ''/round-'' @ show_int rid @ ''.json''))))))"

definition parseRevealState :: "string \<Rightarrow> jsval \<Rightarrow> bytes res" where
  "parseRevealState txt roundId =
     then_res (JSON_parse txt) (\<lambda>state.
     then_res (member state ''version'') (\<lambda>version.
     assert_ok (version = IntV 1) ''Unsupported server randomness state version'' (
     then_res (to_bigint roundId) (\<lambda>rid.
     assert_ok (opt_member state ''roundId'' = Str (show_int rid)) ''Server randomness state round mismatch'' (
     case opt_member state ''revealHex'' of
       Str h \<Rightarrow> assert_ok (length h = 64 \<and> list_all is_hex h)
                 ''Server randomness reveal must be 32 bytes'' (Inr (bytes_of_hex h))
     | _ \<Rightarrow> Inl (AssertionError ''Server randomness reveal must be 32 bytes''))))))"

text \<open>The document \<open>loadOrCreateServerReveal\<close> writes.\<close>

definition reveal_text :: "int \<Rightarrow> bytes \<Rightarrow> string" where
  "reveal_text rid reveal =
     ''{'' @ json_quote ''version'' @ '':1,'' @ json_quote ''roundId'' @ '':'' @ json_quote (show_int rid)
     @ '','' @ json_quote ''revealHex'' @ '':'' @ json_quote (hex_of_bytes reveal) @ ''}'' @ [CHR 0x0A]"

section \<open>Racing workers\<close>

datatype reveal_phase =
    Reading
  | Opening bytes
  | Writing bytes nat
  | Syncing bytes
  | Rereading
  | Returned bytes
  | Failed js_error

text \<open>
  What the environment chooses at a step: nothing, the bytes of \<open>randomBytes(32)\<close>, how much of the text
  one \<open>write\<close> call takes, or an error of the file system other than \<open>ENOENT\<close> and \<open>EEXIST\<close>.
\<close>

datatype reveal_event = Proceed | Entropy bytes | Chunk nat | Fault js_error

definition finish :: "bytes res \<Rightarrow> reveal_phase" where
  "finish r = (case r of Inl e \<Rightarrow> Failed e | Inr b \<Rightarrow> Returned b)"

fun worker_step :: "int \<Rightarrow> reveal_event \<Rightarrow> reveal_phase \<Rightarrow> string option
    \<Rightarrow> (reveal_phase \<times> string option) option" where
  "worker_step rid Proceed Reading (Some c) = Some (finish (parseRevealState c (Big rid)), Some c)"
| "worker_step rid (Entropy r) Reading None = (if length r = 32 then Some (Opening r, None) else None)"
| "worker_step rid Proceed (Opening r) None = Some (Writing r 0, Some [])"
| "worker_step rid Proceed (Opening r) (Some c) = Some (Rereading, Some c)"
| "worker_step rid (Chunk k) (Writing r j) (Some c) =
     (if j < k \<and> k < length (reveal_text rid r) then Some (Writing r k, Some (take k (reveal_text rid r)))
      else if k = length (reveal_text rid r) then Some (Syncing r, Some (reveal_text rid r)) else None)"
| "worker_step rid Proceed (Syncing r) f = Some (Returned r, f)"
| "worker_step rid Proceed Rereading (Some c) = Some (finish (parseRevealState c (Big rid)), Some c)"
| "worker_step rid (Fault e) Reading f = Some (Failed e, f)"
| "worker_step rid (Fault e) (Opening r) f = Some (Failed e, f)"
| "worker_step rid (Fault e) (Writing r k) f = Some (Failed e, f)"
| "worker_step rid (Fault e) (Syncing r) f = Some (Failed e, f)"
| "worker_step rid (Fault e) Rereading f = Some (Failed e, f)"
| "worker_step rid _ _ _ = None"

record reveal_world =
  reveal_file :: "string option"
  workers :: "nat \<Rightarrow> reveal_phase"

text \<open>Any interleaving of \<open>loadOrCreateServerReveal\<close> calls for one round.\<close>

inductive reveal_reach :: "int \<Rightarrow> reveal_world \<Rightarrow> bool" for rid where
  start: "reveal_reach rid \<lparr>reveal_file = None, workers = (\<lambda>_. Reading)\<rparr>"
| step: "reveal_reach rid s \<Longrightarrow> worker_step rid ev (workers s i) (reveal_file s) = Some (p, f)
    \<Longrightarrow> reveal_reach rid (s\<lparr>reveal_file := f, workers := (workers s)(i := p)\<rparr>)"

text \<open>
  One call that runs without interference, as a function of the file system and the random bytes; the
  directory itself always exists after \<open>mkdir\<close> with \<open>recursive\<close>.
\<close>

definition loadOrCreateServerReveal ::
  "jsval \<Rightarrow> jsval \<Rightarrow> bytes \<Rightarrow> (string \<rightharpoonup> string) \<Rightarrow> bytes res \<times> (string \<rightharpoonup> string)" where
  "loadOrCreateServerReveal stateDir roundId random fs = (case revealPath stateDir roundId of
       Inl e \<Rightarrow> (Inl e, fs)
     | Inr path \<Rightarrow> (case fs path of
           Some c \<Rightarrow> (parseRevealState c roundId, fs)
         | None \<Rightarrow> (case to_bigint roundId of
               Inl e \<Rightarrow> (Inl e, fs(path \<mapsto> []))
             | Inr rid \<Rightarrow> (Inr random, fs(path \<mapsto> reveal_text rid random)))))"

section \<open>Commitment and entropy\<close>

definition SERVER_COMMIT_DOMAIN :: bytes where
  "SERVER_COMMIT_DOMAIN = text_bytes ''MYNE_SERVER_COMMIT_V1''"

definition serverRandomnessCommitment ::
  "(bytes \<Rightarrow> bytes) \<Rightarrow> bytes \<Rightarrow> bytes \<Rightarrow> jsval \<Rightarrow> bytes \<Rightarrow> bytes res" where
  "serverRandomnessCommitment sha256 programId mint roundId reveal =
     assert_ok (length reveal = 32) ''Server randomness reveal must be 32 bytes'' (
     then_res (to_bigint roundId) (\<lambda>rid.
     then_res (writeBigUInt64LE rid) (\<lambda>round.
     Inr (sha256 (SERVER_COMMIT_DOMAIN @ programId @ mint @ round @ reveal)))))"

definition SERVER_RANDOMNESS_SLOT_FLAG :: int where
  "SERVER_RANDOMNESS_SLOT_FLAG = 2 ^ 63"

definition SERVER_RANDOMNESS_PENDING :: int where
  "SERVER_RANDOMNESS_PENDING = 2 ^ 64 - 1"

definition SERVER_RANDOMNESS_SLOT_MASK :: int where
  "SERVER_RANDOMNESS_SLOT_MASK = SERVER_RANDOMNESS_SLOT_FLAG - 1"

definition decodeServerEntropySlot :: "jsval \<Rightarrow> int res" where
  "decodeServerEntropySlot v =
     then_res (bigint_of_value v) (\<lambda>encoded.
     assert_ok (encoded \<noteq> SERVER_RANDOMNESS_PENDING) ''Server entropy is not locked yet'' (
     assert_ok (and encoded SERVER_RANDOMNESS_SLOT_FLAG \<noteq> 0) ''Round is not in server randomness mode'' (
     let slot = and encoded SERVER_RANDOMNESS_SLOT_MASK in
     assert_ok (0 < slot) ''Encoded server entropy slot is invalid'' (Inr slot))))"

text \<open>The body of the scan: the oldest slot and the first slot at or after the target.\<close>

definition scan_entry :: "bytes \<Rightarrow> int \<Rightarrow> nat \<Rightarrow> int option \<times> int option \<Rightarrow> (int option \<times> int option) res" where
  "scan_entry data target index st =
     then_res (readUIntLE 8 data (8 + index * 40)) (\<lambda>slot.
     Inr (case fst st of None \<Rightarrow> Some slot | Some old \<Rightarrow> Some (if slot < old then slot else old),
          if target \<le> slot \<and> (case snd st of None \<Rightarrow> True | Some sel \<Rightarrow> slot < sel) then Some slot
          else snd st))"

definition serverEntropyAvailable :: "bytes \<Rightarrow> jsval \<Rightarrow> bool res" where
  "serverEntropyAvailable data targetSlot =
     then_res (to_bigint targetSlot) (\<lambda>target.
     assert_ok (0 < target) ''Server entropy target must be positive'' (
     assert_ok (8 \<le> length data) ''SlotHashes sysvar header is missing'' (
     then_res (readUIntLE 8 data 0) (\<lambda>count.
     assert_ok (count \<le> 512) ''SlotHashes sysvar entry count is invalid'' (
     assert_ok (8 + count * 40 \<le> int (length data)) ''SlotHashes sysvar data is truncated'' (
     then_res (fold_res (scan_entry data target) [0..<nat count] (None, None)) (\<lambda>(oldest, selected).
     case oldest of
       None \<Rightarrow> Inl (AssertionError ''SlotHashes sysvar contains no entries'')
     | Some old \<Rightarrow>
         assert_ok (old \<le> target) ''Server entropy target has aged out of SlotHashes''
           (Inr (selected \<noteq> None)))))))))"

section \<open>The persisted text parses back\<close>

lemma plain_hex: "is_hex c \<Longrightarrow> plain c"
  by (auto simp: plain_def is_hex_def hex_val.simps Let_def split: if_splits)

lemma plain_hex_of_bytes: "list_all plain (hex_of_bytes bs)"
  using hex_of_bytes_is_hex[of bs] by (auto simp: list_all_iff plain_hex)

lemma plain_show_int: "0 \<le> n \<Longrightarrow> list_all plain (show_int n)"
  by (simp add: show_int_def)

definition reveal_body :: "int \<Rightarrow> bytes \<Rightarrow> string" where
  "reveal_body rid r = CHR 0x22 # ''version'' @ CHR 0x22 # '':1,'' @ CHR 0x22 # ''roundId'' @ CHR 0x22 # '':''
     @ CHR 0x22 # show_int rid @ CHR 0x22 # '','' @ CHR 0x22 # ''revealHex'' @ CHR 0x22 # '':''
     @ CHR 0x22 # hex_of_bytes r @ [CHR 0x22]"

lemma quote_names:
  "json_quote ''version'' = CHR 0x22 # ''version'' @ [CHR 0x22]"
  "json_quote ''roundId'' = CHR 0x22 # ''roundId'' @ [CHR 0x22]"
  "json_quote ''revealHex'' = CHR 0x22 # ''revealHex'' @ [CHR 0x22]"
  by code_simp+

lemma reveal_text_body:
  "0 \<le> rid \<Longrightarrow> reveal_text rid r = CHR ''{'' # reveal_body rid r @ ''}'' @ [CHR 0x0A]"
  by (simp add: reveal_text_def reveal_body_def quote_names json_quote_plain plain_hex_of_bytes plain_show_int)

lemma json_number_one: "json_number (CHR ''1'' # CHR '','' # r) = Some (IntV 1, CHR '','' # r)"
proof -
  have n: "num_of_rat 1 = Fin 1" by code_simp
  have "digits_then (CHR ''1'' # CHR '','' # r) = Some (''1'', CHR '','' # r)"
    by (simp add: digits_then_def is_digit_def)
  moreover have "read_nat ''1'' = 1" by code_simp
  ultimately have "json_unsigned (CHR ''1'' # CHR '','' # r) = Some (1, CHR '','' # r)"
    by (simp add: json_unsigned_def)
  then show ?thesis using n by (simp add: json_number_def)
qed

lemma json_string_name:
  "json_string (CHR ''v'' # CHR ''e'' # CHR ''r'' # CHR ''s'' # CHR ''i'' # CHR ''o'' # CHR ''n'' # CHR 0x22 # r)
     = Some (''version'', r)"
  "json_string (CHR ''r'' # CHR ''o'' # CHR ''u'' # CHR ''n'' # CHR ''d'' # CHR ''I'' # CHR ''d'' # CHR 0x22 # r)
     = Some (''roundId'', r)"
  "json_string (CHR ''r'' # CHR ''e'' # CHR ''v'' # CHR ''e'' # CHR ''a'' # CHR ''l'' # CHR ''H'' # CHR ''e'' # CHR ''x'' # CHR 0x22 # r)
     = Some (''revealHex'', r)"
  using json_string_plain[of "''version''" r] json_string_plain[of "''roundId''" r]
    json_string_plain[of "''revealHex''" r]
  by (simp_all add: plain_def)

lemma skip_ws_nonspace: "\<not> json_ws c \<Longrightarrow> skip_ws (c # s) = c # s"
  by (simp add: skip_ws_def)

lemma not_ws [simp]:
  "\<not> json_ws CHR 0x22" "\<not> json_ws CHR '':''" "\<not> json_ws CHR '',''" "\<not> json_ws CHR ''1''"
  "\<not> json_ws CHR ''{''" "\<not> json_ws CHR ''}''"
  by (simp_all add: json_ws_def)

definition reveal_fields :: "int \<Rightarrow> bytes \<Rightarrow> (string \<times> jsval) list" where
  "reveal_fields rid r = [(''version'', IntV 1), (''roundId'', Str (show_int rid)),
     (''revealHex'', Str (hex_of_bytes r))]"

lemma json_members_body:
  assumes "0 \<le> rid" "6 \<le> n"
  shows "json_members n [] (reveal_body rid r @ CHR ''}'' # s) = Some (reveal_fields rid r, s)"
proof -
  obtain m where m: "n = 6 + m" using assms(2) le_Suc_ex by blast
  have n: "n = Suc (Suc (Suc (Suc (Suc (Suc m)))))" using m by simp
  show ?thesis
    using assms(1) unfolding n
    by (simp add: reveal_body_def skip_ws_nonspace json_string_name json_number_one json_string_plain
        plain_show_int plain_hex_of_bytes reveal_fields_def)
qed

lemma JSON_parse_reveal:
  assumes "0 \<le> rid" "skip_ws s = []"
  shows "JSON_parse (CHR ''{'' # reveal_body rid r @ CHR ''}'' # s) = Inr (Obj (reveal_fields rid r))"
proof -
  have hd: "skip_ws (reveal_body rid r @ CHR ''}'' # s) = CHR 0x22 # tl (reveal_body rid r @ CHR ''}'' # s)"
    by (simp add: reveal_body_def skip_ws_nonspace)
  let ?t = "CHR ''{'' # reveal_body rid r @ CHR ''}'' # s"
  have v: "json_value (Suc n) ?t = Some (Obj (reveal_fields rid r), s)" if "6 \<le> n" for n
    using json_members_body[OF assms(1) that, of r s] by (simp add: skip_ws_nonspace hd)
  have "6 \<le> 2 * length ?t + 1" by (simp add: reveal_body_def)
  then have "json_value (2 * length ?t + 2) ?t = Some (Obj (reveal_fields rid r), s)"
    using v[of "2 * length ?t + 1"] by (simp only: add_2_eq_Suc' add_Suc_right One_nat_def add_0_right)
  then show ?thesis using assms(2) by (simp only: JSON_parse_def option.case prod.case simp_thms if_True)
qed

lemma parseRevealState_text:
  assumes "0 \<le> rid" "length r = 32" "skip_ws s = []" "to_bigint v = Inr rid"
  shows "parseRevealState (CHR ''{'' # reveal_body rid r @ CHR ''}'' # s) v = Inr r"
  using assms hex_of_bytes_is_hex[of r]
  by (simp add: parseRevealState_def JSON_parse_reveal member_def reveal_fields_def)

text \<open>A prefix of the text is either rejected or already the whole document.\<close>

lemma hex_not_brace: "list_all is_hex s \<Longrightarrow> CHR ''}'' \<notin> set s"
  by (auto simp: list_all_iff is_hex_def hex_val.simps Let_def)

lemma digits_not_brace: "0 \<le> n \<Longrightarrow> CHR ''}'' \<notin> set (show_int n)"
  using all_digits_show_nat[of "nat n"] by (auto simp: show_int_def all_digits_def list_all_iff is_digit_def)

lemma reveal_body_no_brace: "0 \<le> rid \<Longrightarrow> CHR ''}'' \<notin> set (reveal_body rid r)"
  using hex_not_brace[OF hex_of_bytes_is_hex[of r]] by (simp add: reveal_body_def digits_not_brace)

lemma JSON_parse_empty: "\<exists>e. JSON_parse [] = Inl e"
  by (simp add: JSON_parse_def skip_ws_def numeral_2_eq_2)

lemma parse_torn:
  assumes rid: "0 \<le> rid" and r: "length r = 32"
    and ok: "parseRevealState (take k (reveal_text rid r)) (Big rid) = Inr x"
  shows "x = r"
proof -
  let ?b = "reveal_body rid r"
  have doc: "reveal_text rid r = CHR ''{'' # ?b @ CHR ''}'' # [CHR 0x0A]" using rid by (simp add: reveal_text_body)
  have ws: "skip_ws [CHR 0x0A] = []" "skip_ws [] = []" by (simp_all add: skip_ws_def json_ws_def)
  consider "k = 0" | m where "k = Suc m" "m \<le> length ?b" | "k = length ?b + 2" | "length ?b + 3 \<le> k"
  proof (cases k)
    case (Suc m)
    then show ?thesis using that by (cases "m \<le> length ?b") (auto simp: not_le dest: less_imp_Suc_add, fastforce)
  qed (use that in blast)
  then show ?thesis
  proof cases
    case 1
    then show ?thesis using ok JSON_parse_empty by (auto simp: parseRevealState_def res_simps)
  next
    case 2
    then have "take k (reveal_text rid r) = CHR ''{'' # take m ?b" by (simp add: doc)
    moreover have "CHR ''}'' \<notin> set (take m ?b)"
      using reveal_body_no_brace[OF rid] set_take_subset[of m ?b] by blast
    ultimately show ?thesis using ok JSON_parse_unclosed by (fastforce simp: parseRevealState_def res_simps)
  next
    case 3
    then have "take k (reveal_text rid r) = CHR ''{'' # ?b @ CHR ''}'' # []" by (simp add: doc)
    then show ?thesis using ok parseRevealState_text[OF rid r ws(2), of "Big rid"] by simp
  next
    case 4
    then have "take k (reveal_text rid r) = CHR ''{'' # ?b @ CHR ''}'' # [CHR 0x0A]" by (simp add: doc)
    then show ?thesis using ok parseRevealState_text[OF rid r ws(1), of "Big rid"] by simp
  qed
qed

lemma parse_whole: "0 \<le> rid \<Longrightarrow> length r = 32 \<Longrightarrow> to_bigint v = Inr rid \<Longrightarrow>
    parseRevealState (reveal_text rid r) v = Inr r"
  using parseRevealState_text[of rid r "[CHR 0x0A]" v]
  by (simp add: reveal_text_body skip_ws_def json_ws_def)

section \<open>All workers agree on the persisted reveal\<close>

text \<open>
  The invariant: without a file nobody is past opening it; with a file there are an owner and a reveal
  such that the file is a prefix of the reveal's document, only the owner writes, and whoever has
  returned has returned that reveal, which the file then parses to.
\<close>

fun phase_before :: "reveal_phase \<Rightarrow> bool" where
  "phase_before Reading = True"
| "phase_before (Opening r) = (length r = 32)"
| "phase_before (Failed e) = True"
| "phase_before _ = False"

fun phase_after :: "int \<Rightarrow> bytes \<Rightarrow> nat \<Rightarrow> bool \<Rightarrow> reveal_phase \<Rightarrow> bool" where
  "phase_after rid r k owner (Writing r' k') = (owner \<and> r' = r \<and> k' = k)"
| "phase_after rid r k owner (Syncing r') = (owner \<and> r' = r \<and> length (reveal_text rid r) \<le> k)"
| "phase_after rid r k owner (Returned r') =
     (r' = r \<and> parseRevealState (take k (reveal_text rid r)) (Big rid) = Inr r)"
| "phase_after rid r k owner (Opening r') = (length r' = 32)"
| "phase_after rid r k owner _ = True"

definition reveal_inv :: "int \<Rightarrow> reveal_world \<Rightarrow> bool" where
  "reveal_inv rid s \<longleftrightarrow> (case reveal_file s of
      None \<Rightarrow> (\<forall>i. phase_before (workers s i))
    | Some c \<Rightarrow> (\<exists>r k w. length r = 32 \<and> c = take k (reveal_text rid r)
         \<and> (\<forall>i. phase_after rid r k (i = w) (workers s i))))"

lemma reveal_invI:
  "reveal_file s = Some (take k (reveal_text rid r)) \<Longrightarrow> length r = 32
    \<Longrightarrow> (\<And>j. phase_after rid r k (j = w) (workers s j)) \<Longrightarrow> reveal_inv rid s"
  unfolding reveal_inv_def option.case
  by (simp only: option.case) (intro exI[of _ r] exI[of _ k] exI[of _ w], simp)

lemma reveal_invE:
  assumes "reveal_inv rid s" "reveal_file s = Some c"
  obtains r k w where "length r = 32" "c = take k (reveal_text rid r)"
    "\<And>j. phase_after rid r k (j = w) (workers s j)"
  using assms by (auto simp: reveal_inv_def)

lemma phase_after_mono:
  assumes "0 \<le> rid" "length r = 32" "k < k'" "phase_after rid r k False p"
  shows "phase_after rid r k' False p"
proof (cases p)
  case (Returned r')
  let ?t = "reveal_text rid r"
  have p: "parseRevealState (take k ?t) (Big rid) = Inr r" "r' = r" using assms(4) Returned by auto
  have "length (reveal_body rid r) + 2 \<le> k"
  proof (rule ccontr)
    assume n: "\<not> ?thesis"
    show False
    proof (cases k)
      case 0
      then show False using p(1) JSON_parse_empty by (auto simp: parseRevealState_def res_simps)
    next
      case (Suc m)
      then have "take k ?t = CHR ''{'' # take m (reveal_body rid r)" using n assms(1) by (simp add: reveal_text_body)
      moreover have "CHR ''}'' \<notin> set (take m (reveal_body rid r))"
        using reveal_body_no_brace[OF assms(1)] set_take_subset by fast
      ultimately show False using p(1) JSON_parse_unclosed by (fastforce simp: parseRevealState_def res_simps)
    qed
  qed
  then have "take k' ?t = ?t" using assms(1,3) by (simp add: reveal_text_body)
  then show ?thesis using parse_whole[OF assms(1,2), of "Big rid"] p Returned by simp
qed (use assms(4) in auto)

lemma phase_after_owner: "phase_after rid r k False p \<Longrightarrow> phase_after rid r k b p"
  by (cases p) auto

lemma phase_before_after: "phase_before p \<Longrightarrow> phase_after rid r k b p"
  by (cases p) auto

lemma finish_after:
  assumes "0 \<le> rid" "length r = 32"
  shows "phase_after rid r k b (finish (parseRevealState (take k (reveal_text rid r)) (Big rid)))"
  using parse_torn[OF assms] by (auto simp: finish_def split: sum.splits)

lemma reveal_inv_step:
  assumes rid: "0 \<le> rid" and inv: "reveal_inv rid s"
    and st: "worker_step rid ev (workers s i) (reveal_file s) = Some (p, f)"
  shows "reveal_inv rid (s\<lparr>reveal_file := f, workers := (workers s)(i := p)\<rparr>)"
proof (cases "reveal_file s")
  case None
  then have b: "phase_before (workers s j)" for j using inv by (simp add: reveal_inv_def)
  from st None b[of i]
  consider "f = None" "phase_before p" | r where "f = Some []" "p = Writing r 0" "length r = 32"
    by (cases "workers s i"; cases ev) (auto split: if_splits)
  then show ?thesis
  proof cases
    case 1
    then show ?thesis using b by (simp add: reveal_inv_def)
  next
    case 2
    then have "phase_after rid r 0 (j = i) (((workers s)(i := p)) j)" for j
      using phase_before_after[OF b[of j]] by simp
    then show ?thesis using 2 by (intro reveal_invI[of _ 0 rid r i]) simp_all
  qed
next
  case (Some c)
  then obtain r k w where r: "length r = 32" "c = take k (reveal_text rid r)"
    and a: "\<And>j. phase_after rid r k (j = w) (workers s j)" using reveal_invE[OF inv] by blast
  have same: ?thesis if "f = Some c" "phase_after rid r k (i = w) p"
    using that r a by (intro reveal_invI[of _ k rid r w]) simp_all
  have grow: ?thesis if "i = w" "f = Some (take k' (reveal_text rid r))" "k < k'" "phase_after rid r k' True p" for k'
  proof -
    have "phase_after rid r k' (j = w) (((workers s)(i := p)) j)" for j
      using that a[of j] phase_after_mono[OF rid r(1) that(3)] by auto
    then show ?thesis using that r by (intro reveal_invI[of _ k' rid r w]) simp_all
  qed
  show ?thesis
  proof (cases "workers s i")
    case (Writing r' j)
    then have o: "i = w" "r' = r" "j = k" using a[of i] by auto
    show ?thesis
    proof (cases ev)
      case (Chunk k')
      let ?n = "length (reveal_text rid r)"
      consider "k < k'" "k' < ?n" "p = Writing r k'" "f = Some (take k' (reveal_text rid r))"
        | "k' = ?n" "p = Syncing r" "f = Some (reveal_text rid r)"
        using st Some Writing o Chunk by (auto split: if_splits)
      then show ?thesis
      proof cases
        case 1
        then show ?thesis using grow[of k'] o by simp
      next
        case 2
        then show ?thesis using grow[of "max ?n (Suc k)"] o by simp
      qed
    qed (use st Some Writing same in auto)
  next
    case Reading
    then show ?thesis using st Some same finish_after[OF rid r(1), of k "i = w"] r(2) by (cases ev) auto
  next
    case Rereading
    then show ?thesis using st Some same finish_after[OF rid r(1), of k "i = w"] r(2) by (cases ev) auto
  next
    case (Syncing r')
    then have "r' = r" "take k (reveal_text rid r) = reveal_text rid r" using a[of i] by auto
    then show ?thesis using st Some Syncing same parse_whole[OF rid r(1), of "Big rid"] by (cases ev) auto
  qed (use st Some same in \<open>cases ev; auto\<close>)+
qed

lemma reveal_reach_inv: "reveal_reach rid s \<Longrightarrow> 0 \<le> rid \<Longrightarrow> reveal_inv rid s"
proof (induction rule: reveal_reach.induct)
  case start
  then show ?case by (simp add: reveal_inv_def)
next
  case (step s ev i p f)
  then show ?case using reveal_inv_step by blast
qed

text \<open>
  C8. Workers that race, crash at any point and restart converge on one reveal: in every reachable state a
  worker that has returned a reveal has returned the reveal to which the persisted file parses, so any
  two workers that return, return the same bytes, and the preimage of a published commitment is on disk.
  A file torn in the middle of its write is never accepted as another reveal.
\<close>

theorem reveal_workers_agree:
  assumes "reveal_reach rid s" "0 \<le> rid" "workers s i = Returned x"
  shows "(\<exists>c. reveal_file s = Some c \<and> parseRevealState c (Big rid) = Inr x)
    \<and> (\<forall>j y. workers s j = Returned y \<longrightarrow> y = x)"
proof -
  have inv: "reveal_inv rid s" using reveal_reach_inv assms by blast
  have "reveal_file s \<noteq> None"
    using inv assms(3) by (metis (no_types, lifting) option.simps(4) phase_before.simps(7) reveal_inv_def)
  then obtain c where f: "reveal_file s = Some c" by blast
  obtain r k w where c: "c = take k (reveal_text rid r)"
    and a: "\<And>j. phase_after rid r k (j = w) (workers s j)" using reveal_invE[OF inv f] by blast
  have "x = r" "parseRevealState c (Big rid) = Inr r" using a[of i] assms(3) c by auto
  moreover have "workers s j = Returned y \<Longrightarrow> y = r" for j y using a[of j] by auto
  ultimately show ?thesis using f by auto
qed

abbreviation demo_reveal :: bytes where
  "demo_reveal \<equiv> replicate 32 7"

lemma demo_race:
  "\<exists>s. reveal_reach 5 s \<and> workers s 0 = Returned demo_reveal \<and> workers s 1 = Returned demo_reveal"
proof -
  let ?t = "reveal_text 5 demo_reveal"
  let ?w0 = "\<lparr>reveal_file = None, workers = \<lambda>_. Reading\<rparr> :: reveal_world"
  let ?w1 = "?w0\<lparr>reveal_file := None, workers := (workers ?w0)(0 := Opening demo_reveal)\<rparr>"
  let ?w2 = "?w1\<lparr>reveal_file := None, workers := (workers ?w1)(1 := Opening (replicate 32 9))\<rparr>"
  let ?w3 = "?w2\<lparr>reveal_file := Some [], workers := (workers ?w2)(0 := Writing demo_reveal 0)\<rparr>"
  let ?w4 = "?w3\<lparr>reveal_file := Some [], workers := (workers ?w3)(1 := Rereading)\<rparr>"
  let ?w5 = "?w4\<lparr>reveal_file := Some ?t, workers := (workers ?w4)(0 := Syncing demo_reveal)\<rparr>"
  let ?w6 = "?w5\<lparr>reveal_file := Some ?t, workers := (workers ?w5)(1 := Returned demo_reveal)\<rparr>"
  let ?w7 = "?w6\<lparr>reveal_file := Some ?t, workers := (workers ?w6)(0 := Returned demo_reveal)\<rparr>"
  have p: "finish (parseRevealState ?t (Big 5)) = Returned demo_reveal"
    using parse_whole[of 5 demo_reveal "Big 5"] by (simp add: finish_def)
  have "reveal_reach 5 ?w0" by (rule reveal_reach.start)
  then have "reveal_reach 5 ?w1" by (rule reveal_reach.step[of _ _ "Entropy demo_reveal" 0]) simp
  then have "reveal_reach 5 ?w2" by (rule reveal_reach.step[of _ _ "Entropy (replicate 32 9)" 1]) simp
  then have "reveal_reach 5 ?w3" by (rule reveal_reach.step[of _ _ Proceed 0]) simp
  then have "reveal_reach 5 ?w4" by (rule reveal_reach.step[of _ _ Proceed 1]) simp
  then have "reveal_reach 5 ?w5" by (rule reveal_reach.step[of _ _ "Chunk (length ?t)" 0]) simp
  then have "reveal_reach 5 ?w6" by (rule reveal_reach.step[of _ _ Proceed 1]) (simp add: p)
  then have "reveal_reach 5 ?w7" by (rule reveal_reach.step[of _ _ Proceed 0]) simp
  then show ?thesis by (intro exI[of _ ?w7]) simp
qed

theorem reveal_workers_agree_witness:
  "\<exists>s c. reveal_reach 5 s \<and> workers s 0 = Returned demo_reveal \<and> workers s 1 = Returned demo_reveal
     \<and> reveal_file s = Some c \<and> parseRevealState c (Big 5) = Inr demo_reveal"
proof -
  obtain s where s: "reveal_reach 5 s" "workers s 0 = Returned demo_reveal" "workers s 1 = Returned demo_reveal"
    using demo_race by blast
  have "0 \<le> (5::int)" by simp
  from reveal_workers_agree[OF s(1) this s(2)]
  obtain c where "reveal_file s = Some c" "parseRevealState c (Big 5) = Inr demo_reveal" by (elim conjE exE)
  then show ?thesis using s by (intro exI[of _ s] exI[of _ c] conjI)
qed

text \<open>
  An owner that dies between creating the file and writing it leaves an empty file, which no later worker
  accepts and none replaces: every later call for that round throws.
\<close>

lemma empty_reveal_file_rejected:
  "\<exists>e. loadOrCreateServerReveal dir rid random fs = (Inl e, fs)"
  if "revealPath dir rid = Inr path" "fs path = Some []"
  using that JSON_parse_empty by (auto simp: loadOrCreateServerReveal_def parseRevealState_def)

section \<open>The commitment binds\<close>

text \<open>
  The commitment is binding: two calls that give the same digest were made for the same program, mint,
  round and reveal, when the hash does not collide on the two preimages and public keys are 32 bytes.
\<close>

theorem serverRandomnessCommitment_binds:
  assumes "serverRandomnessCommitment h p m (Big rid) x = Inr d"
    and "serverRandomnessCommitment h p' m' (Big rid') x' = Inr d"
    and "length p = 32" "length m = 32" "length p' = 32" "length m' = 32"
    and "\<And>a b. h a = h b \<Longrightarrow> length a = 125 \<Longrightarrow> length b = 125 \<Longrightarrow> a = b"
  shows "p = p' \<and> m = m' \<and> rid = rid' \<and> x = x' \<and> length x = 32"
proof -
  obtain b b' where b: "writeBigUInt64LE rid = Inr b" "h (SERVER_COMMIT_DOMAIN @ p @ m @ b @ x) = d" "length x = 32"
    and b': "writeBigUInt64LE rid' = Inr b'" "h (SERVER_COMMIT_DOMAIN @ p' @ m' @ b' @ x') = d" "length x' = 32"
    using assms(1,2) by (auto simp: serverRandomnessCommitment_def res_simps)
  have l: "length b = 8" "length b' = 8" using write_read_u64[OF b(1)] write_read_u64[OF b'(1)] by auto
  have dom: "length SERVER_COMMIT_DOMAIN = 21" by (simp add: SERVER_COMMIT_DOMAIN_def text_bytes_def utf8_def)
  have "p @ m @ b @ x = p' @ m' @ b' @ x'"
    using assms(7)[of "SERVER_COMMIT_DOMAIN @ p @ m @ b @ x" "SERVER_COMMIT_DOMAIN @ p' @ m' @ b' @ x'"]
      b b' l dom assms(3-6) by simp
  then have "p = p'" "m = m'" "b = b'" "x = x'" using assms(3-6) l by simp_all
  then show ?thesis using write_u64_inject[OF b(1)] b'(1) b(3) by simp
qed

theorem serverRandomnessCommitment_binds_witness:
  "\<exists>d. serverRandomnessCommitment id (replicate 32 1) (replicate 32 2) (Big 9) (replicate 32 3) = Inr d
     \<and> (\<forall>x rid. serverRandomnessCommitment id (replicate 32 1) (replicate 32 2) (Big rid) x = Inr d
         \<longrightarrow> rid = 9 \<and> x = replicate 32 3)"
proof -
  have ok: "is_ok (serverRandomnessCommitment id (replicate 32 1) (replicate 32 2) (Big 9) (replicate 32 3))"
    by (simp add: serverRandomnessCommitment_def writeBigUInt64LE_def U64_MAX_def)
  then obtain d where d: "serverRandomnessCommitment id (replicate 32 1) (replicate 32 2) (Big 9) (replicate 32 3) = Inr d"
    by (auto simp: is_ok_iff)
  have "rid = 9 \<and> x = replicate 32 3"
    if "serverRandomnessCommitment id (replicate 32 1) (replicate 32 2) (Big rid) x = Inr d" for x rid
    using serverRandomnessCommitment_binds[OF that d] by simp
  then show ?thesis using d by blast
qed

section \<open>Entropy slots\<close>

lemma and_flag_iff:
  assumes "0 \<le> e" "e < 2 ^ 64"
  shows "and e SERVER_RANDOMNESS_SLOT_FLAG \<noteq> 0 \<longleftrightarrow> 2 ^ 63 \<le> e"
proof -
  have "and e (2 ^ 63) \<noteq> 0 \<longleftrightarrow> bit e 63" using and_exp_eq_0_iff_not_bit[of e 63] by blast
  also have "\<dots> \<longleftrightarrow> odd (e div 2 ^ 63)" by (simp add: bit_iff_odd)
  also have "\<dots> \<longleftrightarrow> 2 ^ 63 \<le> e"
  proof (cases "e < 2 ^ 63")
    case True
    then show ?thesis using assms by simp
  next
    case False
    then have "e div 2 ^ 63 = 1" using assms by (intro int_div_pos_eq[of _ _ _ "e - 2 ^ 63"]) auto
    then show ?thesis using False by simp
  qed
  finally show ?thesis by (simp add: SERVER_RANDOMNESS_SLOT_FLAG_def)
qed

lemma and_mask_mod: "and e SERVER_RANDOMNESS_SLOT_MASK = e mod 2 ^ 63"
proof -
  have "SERVER_RANDOMNESS_SLOT_MASK = mask 63"
    by (simp add: SERVER_RANDOMNESS_SLOT_MASK_def SERVER_RANDOMNESS_SLOT_FLAG_def mask_eq_exp_minus_1)
  then show ?thesis using take_bit_eq_mask[of 63 e] take_bit_eq_mod[of 63 e] by presburger
qed

text \<open>
  Decoding a stored u64 entropy slot succeeds exactly for the encodings of a positive slot that are not
  the pending marker, and gives back the slot that the flag was added to.
\<close>

theorem decodeServerEntropySlot_exact:
  assumes "0 \<le> e" "e \<le> U64_MAX"
  shows "decodeServerEntropySlot (BN e) = Inr slot \<longleftrightarrow>
    e = SERVER_RANDOMNESS_SLOT_FLAG + slot \<and> 0 < slot \<and> slot < SERVER_RANDOMNESS_SLOT_MASK"
proof -
  have e: "e < 2 ^ 64" using assms(2) by (simp add: U64_MAX_def)
  have m: "e mod 2 ^ 63 = e - 2 ^ 63" if "2 ^ 63 \<le> e"
    using that e minus_mod_self2[of e "2 ^ 63"] mod_pos_pos_trivial[of "e - 2 ^ 63" "2 ^ 63"] by simp
  have "decodeServerEntropySlot (BN e) = Inr slot \<longleftrightarrow>
      e \<noteq> 2 ^ 64 - 1 \<and> 2 ^ 63 \<le> e \<and> 0 < e mod 2 ^ 63 \<and> slot = e mod 2 ^ 63"
    unfolding decodeServerEntropySlot_def Let_def
    using and_flag_iff[OF assms(1) e] and_mask_mod[of e]
    by (auto simp: res_simps SERVER_RANDOMNESS_PENDING_def)
  also have "\<dots> \<longleftrightarrow> e = 2 ^ 63 + slot \<and> 0 < slot \<and> slot < 2 ^ 63 - 1" using m e by auto
  finally show ?thesis by (simp add: SERVER_RANDOMNESS_SLOT_MASK_def SERVER_RANDOMNESS_SLOT_FLAG_def)
qed

theorem decodeServerEntropySlot_exact_witness:
  "decodeServerEntropySlot (BN (SERVER_RANDOMNESS_SLOT_FLAG + 42)) = Inr 42"
  by (rule decodeServerEntropySlot_exact[THEN iffD2])
     (simp_all add: SERVER_RANDOMNESS_SLOT_MASK_def SERVER_RANDOMNESS_SLOT_FLAG_def U64_MAX_def)

text \<open>The slot of the entry at an index of the sysvar.\<close>

definition entry_slot :: "bytes \<Rightarrow> nat \<Rightarrow> int" where
  "entry_slot data i = le_val (take 8 (drop (8 + i * 40) data))"

definition entry_count :: "bytes \<Rightarrow> int" where
  "entry_count data = le_val (take 8 data)"

definition min_opt :: "int set \<Rightarrow> int option" where
  "min_opt A = (if A = {} then None else Some (Min A))"

lemma min_opt_insert:
  "finite E \<Longrightarrow> (case min_opt E of None \<Rightarrow> Some x | Some old \<Rightarrow> Some (if x < old then x else old))
     = min_opt (insert x E)"
  by (cases "E = {}") (simp_all add: min_opt_def Min_insert min_def del: Min_ge_iff Min_le_iff Min_gr_iff Min_less_iff)

lemma min_opt_above:
  fixes t x :: int
  assumes "finite E"
  defines "G \<equiv> {y \<in> E. t \<le> y}"
  shows "(if t \<le> x \<and> (case min_opt G of None \<Rightarrow> True | Some sel \<Rightarrow> x < sel) then Some x else min_opt G)
    = min_opt {y \<in> insert x E. t \<le> y}"
proof -
  have "{y \<in> insert x E. t \<le> y} = (if t \<le> x then insert x G else G)" by (auto simp: G_def)
  moreover have "finite G" using assms(1) by (simp add: G_def)
  ultimately show ?thesis
    by (cases "G = {}"; cases "t \<le> x")
       (simp_all only: if_True if_False min_opt_def option.case simp_thms insert_not_empty Min_singleton
          Min_insert min_def, simp_all del: Min_ge_iff Min_le_iff Min_gr_iff Min_less_iff)
qed

lemma scan_entries:
  assumes "\<forall>i < n. 8 + i * 40 + 8 \<le> length data"
  shows "fold_res (scan_entry data target) [0..<n] (None, None) =
    Inr (min_opt (entry_slot data ` {..<n}), min_opt {x \<in> entry_slot data ` {..<n}. target \<le> x})"
  using assms
proof (induction n)
  case 0
  then show ?case by (simp add: min_opt_def)
next
  case (Suc n)
  have rd: "readUIntLE 8 data (8 + n * 40) = Inr (entry_slot data n)"
    using Suc.prems by (auto simp: readUIntLE_def entry_slot_def)
  have f: "finite (entry_slot data ` {..<n})" by simp
  have IH: "fold_res (scan_entry data target) [0..<n] (None, None) =
    Inr (min_opt (entry_slot data ` {..<n}), min_opt {x \<in> entry_slot data ` {..<n}. target \<le> x})"
    using Suc by simp
  have up: "[0..<Suc n] = [0..<n] @ [n]" by simp
  have one: "scan_entry data target n
      (min_opt (entry_slot data ` {..<n}), min_opt {x \<in> entry_slot data ` {..<n}. target \<le> x})
    = Inr (min_opt (entry_slot data ` {..<Suc n}), min_opt {x \<in> entry_slot data ` {..<Suc n}. target \<le> x})"
    unfolding scan_entry_def rd then_res_Ok fst_conv snd_conv min_opt_insert[OF f] min_opt_above[OF f]
      lessThan_Suc image_insert ..
  show ?case unfolding up fold_res_append IH then_res_Ok fold_res.simps one ..
qed

text \<open>
  C24. The SlotHashes scan answers exactly when the sysvar is complete, has between one and 512 entries and
  its oldest slot is not newer than the target; entropy is then available exactly when some entry has the
  target slot or a later one.
\<close>

theorem serverEntropyAvailable_exact:
  "serverEntropyAvailable data (Big target) = Inr available \<longleftrightarrow>
    0 < target \<and> 0 < entry_count data \<and> entry_count data \<le> 512 \<and> 8 + entry_count data * 40 \<le> int (length data)
    \<and> (\<exists>i < nat (entry_count data). entry_slot data i \<le> target)
    \<and> available = (\<exists>i < nat (entry_count data). target \<le> entry_slot data i)"
proof (cases "0 < target \<and> 8 \<le> length data \<and> entry_count data \<le> 512 \<and> 8 + entry_count data * 40 \<le> int (length data)")
  case False
  have "0 \<le> entry_count data" using le_val_bounds by (simp add: entry_count_def)
  then show ?thesis using False by (auto simp: serverEntropyAvailable_def res_simps entry_count_def)
next
  case True
  let ?n = "nat (entry_count data)" and ?E = "entry_slot data ` {..<nat (entry_count data)}"
  have c0: "0 \<le> entry_count data" using le_val_bounds by (simp add: entry_count_def)
  have "\<forall>i < ?n. 8 + i * 40 + 8 \<le> length data" using True c0 by auto
  note scan = scan_entries[OF this, of target]
  have rd: "readUIntLE 8 data 0 = Inr (entry_count data)" using True by (simp add: readUIntLE_def entry_count_def)
  have run: "serverEntropyAvailable data (Big target) =
    (case min_opt ?E of None \<Rightarrow> Inl (AssertionError ''SlotHashes sysvar contains no entries'')
     | Some old \<Rightarrow> assert_ok (old \<le> target) ''Server entropy target has aged out of SlotHashes''
         (Inr (min_opt {x \<in> ?E. target \<le> x} \<noteq> None)))"
    using True scan rd by (simp add: serverEntropyAvailable_def)
  have sel: "min_opt {x \<in> ?E. target \<le> x} \<noteq> None \<longleftrightarrow> (\<exists>i < ?n. target \<le> entry_slot data i)"
    by (auto simp: min_opt_def)
  show ?thesis
  proof (cases "entry_count data = 0")
    case z: True
    then show ?thesis using run by (simp add: min_opt_def)
  next
    case False
    then have ne: "?E \<noteq> {}" "0 < entry_count data" using c0 by (auto simp: lessThan_empty_iff)
    have "Min ?E \<le> target \<longleftrightarrow> (\<exists>i < ?n. entry_slot data i \<le> target)" using ne(1) by (subst Min_le_iff) auto
    then show ?thesis using run ne True sel by (auto simp: min_opt_def[of ?E] res_simps)
  qed
qed

end
