(* ===== verification/Round_Archive.thy ===== *)
theory Round_Archive
  imports Js_Bytes Js_Json "HOL-Library.Multiset"
begin

text \<open>
  \<open>Protocol/scripts/round-archive-policy.mjs\<close>: the evidence an archived round carries. The fee audit, the
  randomness proof of both providers, the canonical text of a snapshot and its construction from database
  rows. \<open>sha256\<close> of \<open>node:crypto\<close> is a parameter (bytes to bytes), and so is the locale's string
  comparison \<open>localeCompare\<close>, whose order depends on the host.
\<close>

section \<open>Scalars\<close>

definition textOrNull :: "jsval \<Rightarrow> jsval" where
  "textOrNull v = (if nullish v then Null else Str (to_str v))"

definition numberOrNull :: "jsval \<Rightarrow> jsval" where
  "numberOrNull v = (if nullish v then Null else Num (to_num v))"

definition SIGNED_BIGINT_MAX :: int where
  "SIGNED_BIGINT_MAX = 2 ^ 63 - 1"

text \<open>\<open>/^[0-9a-f]{64}$/\<close>\<close>

definition is_lower_hex :: "char \<Rightarrow> bool" where
  "is_lower_hex c = (let n = (of_char c :: nat) in (48 \<le> n \<and> n \<le> 57) \<or> (97 \<le> n \<and> n \<le> 102))"

definition HEX_32 :: "string \<Rightarrow> bool" where
  "HEX_32 s = (length s = 64 \<and> list_all is_lower_hex s)"

text \<open>\<open>/^[1-9](?:\.[0-9]+)?e\+[0-9]+$/\<close>\<close>

definition LEGACY_SCIENTIFIC_INTEGER :: "string \<Rightarrow> bool" where
  "LEGACY_SCIENTIFIC_INTEGER s = (case s of [] \<Rightarrow> False
     | c # r \<Rightarrow> is_digit c \<and> c \<noteq> CHR ''0'' \<and>
         (let t = (case r of d # f \<Rightarrow> if d = CHR ''.'' \<and> takeWhile is_digit f \<noteq> [] then dropWhile is_digit f else r
                   | [] \<Rightarrow> r)
          in take 2 t = ''e+'' \<and> all_digits (drop 2 t)))"

definition SERVER_COMMIT_DOMAIN :: bytes where
  "SERVER_COMMIT_DOMAIN = text_bytes ''MYNE_SERVER_COMMIT_V1''"

definition SERVER_OUTPUT_DOMAIN :: bytes where
  "SERVER_OUTPUT_DOMAIN = text_bytes ''MYNE_SERVER_OUTPUT_V1''"

definition SWITCHBOARD_PROVIDER_KIND :: string where
  "SWITCHBOARD_PROVIDER_KIND = ''switchboard''"

definition SERVER_PROVIDER_KIND :: string where
  "SERVER_PROVIDER_KIND = ''server_commit_reveal''"

definition missing :: "jsval \<Rightarrow> bool" where
  "missing v = (nullish v \<or> v = Str [])"

text \<open>\<open>BigInt(`0x${hex}`)\<close> of a text that matches \<open>HEX_32\<close>.\<close>

definition hex_int :: "string \<Rightarrow> int" where
  "hex_int h = (case nonempty_radix 16 h of None \<Rightarrow> 0 | Some n \<Rightarrow> n)"

definition canonicalRandomnessValue :: "jsval \<Rightarrow> jsval \<Rightarrow> jsval res" where
  "canonicalRandomnessValue v randomnessHex =
     (if missing v then
        (if missing randomnessHex then Inr Null else Inl (Error ''Round randomness numeric output is missing''))
      else case randomnessHex of
        Str h \<Rightarrow>
          throw_if (\<not> HEX_32 h) (Error ''Round randomness hex output is invalid'') (
          let exact = show_int (hex_int h); given = to_str v in
          if given = exact then Inr (Str exact)
          else if LEGACY_SCIENTIFIC_INTEGER given \<and> given = num_to_string (parse_number exact)
            then Inr (Str exact)
          else Inl (Error ''Round randomness numeric and hex outputs disagree''))
      | _ \<Rightarrow> Inl (Error ''Round randomness hex output is invalid''))"

section \<open>The fee audit\<close>

record round_fees =
  total_fee_lamports :: int
  staking_gross_lamports :: int
  staking_admin_lamports :: int
  staking_net_lamports :: int
  buyback_lamports :: int
  motherlode_fee_lamports :: int
  mining_admin_lamports :: int
  admin_total_lamports :: int
  admin_fee_wallet :: string

text \<open>One turn of the loop over \<open>FEE_AMOUNT_FIELDS\<close>.\<close>

definition fee_amount :: "jsval \<Rightarrow> string \<Rightarrow> int res" where
  "fee_amount rnd field = (let raw = opt_member rnd field in
     throw_if (missing raw) (Error (''Round fee audit is missing '' @ field)) (
     then_res (catch_res (bigint_of_string (to_str raw))
         (\<lambda>_. Inl (Error (''Round fee audit has invalid '' @ field)))) (\<lambda>n.
     throw_if (n < 0) (Error (''Round fee audit has negative '' @ field)) (Inr n))))"

definition requireRoundFeeAudit :: "jsval \<Rightarrow> round_fees res" where
  "requireRoundFeeAudit rnd =
     then_res (fee_amount rnd ''total_fee_lamports'') (\<lambda>total_fee.
     then_res (fee_amount rnd ''staking_gross_lamports'') (\<lambda>staking_gross.
     then_res (fee_amount rnd ''staking_admin_lamports'') (\<lambda>staking_admin.
     then_res (fee_amount rnd ''staking_net_lamports'') (\<lambda>staking_net.
     then_res (fee_amount rnd ''buyback_lamports'') (\<lambda>buyback.
     then_res (fee_amount rnd ''motherlode_fee_lamports'') (\<lambda>motherlode_fee.
     then_res (fee_amount rnd ''mining_admin_lamports'') (\<lambda>mining_admin.
     then_res (fee_amount rnd ''admin_total_lamports'') (\<lambda>admin_total.
     throw_if (\<not> truthy (textOrNull (opt_member rnd ''admin_fee_wallet'')))
       (Error ''Round fee audit is missing admin_fee_wallet'') (
     throw_if (staking_gross \<noteq> staking_net + staking_admin)
       (Error ''Round fee audit does not conserve the gross staking allocation'') (
     throw_if (admin_total \<noteq> mining_admin + staking_admin)
       (Error ''Round fee audit does not conserve the administrator allocation'') (
     throw_if (total_fee \<noteq> staking_net + staking_admin + buyback + motherlode_fee + mining_admin)
       (Error ''Round fee audit does not conserve the total mining fee'') (
     Inr \<lparr>total_fee_lamports = total_fee, staking_gross_lamports = staking_gross,
          staking_admin_lamports = staking_admin, staking_net_lamports = staking_net,
          buyback_lamports = buyback, motherlode_fee_lamports = motherlode_fee,
          mining_admin_lamports = mining_admin, admin_total_lamports = admin_total,
          admin_fee_wallet = to_str (opt_member rnd ''admin_fee_wallet'')\<rparr>))))))))))))"

section \<open>Canonical text\<close>

text \<open>\<open>Object.keys(value).sort()\<close> compares code units; property names are distinct.\<close>

fun code_lt :: "string \<Rightarrow> string \<Rightarrow> bool" where
  "code_lt xs [] = False"
| "code_lt [] (y # ys) = True"
| "code_lt (x # xs) (y # ys) = ((of_char x :: nat) < of_char y \<or> (x = y \<and> code_lt xs ys))"

definition code_le :: "string \<Rightarrow> string \<Rightarrow> bool" where
  "code_le a b = (code_lt a b \<or> a = b)"

fun insert_field :: "string \<times> 'a \<Rightarrow> (string \<times> 'a) list \<Rightarrow> (string \<times> 'a) list" where
  "insert_field f [] = [f]"
| "insert_field f (g # gs) = (if code_le (fst f) (fst g) then f # g # gs else g # insert_field f gs)"

definition sort_fields :: "(string \<times> 'a) list \<Rightarrow> (string \<times> 'a) list" where
  "sort_fields fs = foldr insert_field fs []"

text \<open>
  The result \<open>None\<close> is \<open>undefined\<close>: printed as such by the template of an object, and left empty by the
  \<open>join\<close> of an array. Objects of the Anchor and Solana clients do not occur in a snapshot.
\<close>

function canonicalJson :: "jsval \<Rightarrow> string option res" where
  "canonicalJson v = (case v of
       Arr xs \<Rightarrow> then_res (map_res canonicalJson xs) (\<lambda>ts.
         Inr (Some (''['' @ join '','' (map (\<lambda>t. case t of None \<Rightarrow> [] | Some u \<Rightarrow> u) ts) @ '']'')))
     | Obj fs \<Rightarrow> then_res (map_res (\<lambda>f. then_res (canonicalJson (snd f)) (\<lambda>t.
           Inr (fst f, json_quote (fst f) @ '':'' @ (case t of None \<Rightarrow> ''undefined'' | Some u \<Rightarrow> u)))) fs)
         (\<lambda>ts. Inr (Some (''{'' @ join '','' (map snd (sort_fields ts)) @ ''}'')))
     | _ \<Rightarrow> json_text v)"
  by pat_completeness auto
termination by (relation "measure size") (simp_all only: in_measure wf_measure size_elem size_field)

declare canonicalJson.simps [simp del]

section \<open>The randomness proof\<close>

definition requiredText :: "jsval \<Rightarrow> string \<Rightarrow> string res" where
  "requiredText v label = throw_if (\<not> truthy (textOrNull v))
     (Error (''Round randomness proof is missing '' @ label)) (Inr (to_str v))"

definition requiredHex32 :: "jsval \<Rightarrow> string \<Rightarrow> string res" where
  "requiredHex32 v label = then_res (requiredText v label) (\<lambda>t.
     throw_if (\<not> HEX_32 t) (Error (''Round randomness proof has invalid '' @ label)) (Inr t))"

definition requiredU64 :: "jsval \<Rightarrow> string \<Rightarrow> int res" where
  "requiredU64 v label =
     throw_if (missing v) (Error (''Round randomness proof is missing '' @ label)) (
     then_res (catch_res (bigint_of_string (to_str v))
         (\<lambda>_. Inl (Error (''Round randomness proof has invalid '' @ label)))) (\<lambda>parsed.
     throw_if (parsed < 0 \<or> U64_MAX < parsed)
       (Error (''Round randomness proof has out-of-range '' @ label)) (Inr parsed)))"

text \<open>An omitted option is \<open>Buffer.from([])\<close>.\<close>

definition bytes32 :: "bytes option \<Rightarrow> string \<Rightarrow> bytes res" where
  "bytes32 v label = (let data = (case v of None \<Rightarrow> [] | Some b \<Rightarrow> b) in
     throw_if (length data \<noteq> 32) (Error (label @ '' must contain exactly 32 bytes'')) (Inr data))"

definition u64Le :: "int \<Rightarrow> bytes res" where
  "u64Le n = writeBigUInt64LE n"

definition hashHex :: "(bytes \<Rightarrow> bytes) \<Rightarrow> bytes list \<Rightarrow> string" where
  "hashHex sha256 parts = hex_of_bytes (sha256 (concat parts))"

definition switchboard_proof :: "jsval \<Rightarrow> string \<Rightarrow> string \<Rightarrow> string \<Rightarrow> jsval res" where
  "switchboard_proof rnd providerKind outputHex settlementSignature =
     then_res (requiredText (opt_member rnd ''randomness_id'') ''randomness_account'') (\<lambda>account.
     then_res (requiredU64 (opt_member rnd ''randomness_commit_slot'') ''randomness_commit_slot'') (\<lambda>commitSlot.
     throw_if (commitSlot = 0 \<or> SIGNED_BIGINT_MAX < commitSlot)
       (Error ''Switchboard randomness_commit_slot is invalid or server-tagged'') (
     Inr (Obj [(''provider_kind'', Str providerKind), (''randomness_account'', Str account),
       (''randomness_commit_slot'', Str (show_int commitSlot)), (''randomness_hex'', Str outputHex),
       (''settlement_signature'', Str settlementSignature)]))))"

text \<open>The fields of a server proof, as read and checked from the round.\<close>

record server_proof =
  commitment_hex :: string
  reveal_hex :: string
  target_slot :: int
  entropy_slot :: int
  entropy_hash_hex :: string
  commitment_signature :: string
  commitment_tx_slot :: int
  lock_signature :: string
  lock_tx_slot :: int
  reveal_signature :: string
  reveal_tx_slot :: int
  settlement_slot :: int
  proof_round_id :: int

definition server_proof_fields :: "jsval \<Rightarrow> server_proof res" where
  "server_proof_fields rnd =
     then_res (requiredHex32 (opt_member rnd ''randomness_commitment_hex'') ''commitment_hex'') (\<lambda>commitmentHex.
     then_res (requiredHex32 (opt_member rnd ''randomness_reveal_hex'') ''reveal_hex'') (\<lambda>revealHex.
     then_res (requiredU64 (opt_member rnd ''randomness_target_slot'') ''target_slot'') (\<lambda>targetSlot.
     then_res (requiredU64 (opt_member rnd ''randomness_entropy_slot'') ''entropy_slot'') (\<lambda>entropySlot.
     then_res (requiredHex32 (opt_member rnd ''randomness_entropy_hash_hex'') ''entropy_hash_hex'') (\<lambda>entropyHashHex.
     then_res (requiredText (opt_member rnd ''randomness_commitment_signature'') ''commitment_signature'') (\<lambda>commitmentSignature.
     then_res (requiredU64 (opt_member rnd ''randomness_commitment_tx_slot'') ''commitment_tx_slot'') (\<lambda>commitmentTxSlot.
     then_res (requiredText (opt_member rnd ''randomness_lock_signature'') ''lock_signature'') (\<lambda>lockSignature.
     then_res (requiredU64 (opt_member rnd ''randomness_lock_tx_slot'') ''lock_tx_slot'') (\<lambda>lockTxSlot.
     then_res (requiredText (opt_member rnd ''randomness_reveal_signature'') ''reveal_signature'') (\<lambda>revealSignature.
     then_res (requiredU64 (opt_member rnd ''randomness_reveal_tx_slot'') ''reveal_tx_slot'') (\<lambda>revealTxSlot.
     then_res (requiredU64 (opt_member rnd ''settlement_slot'') ''settlement_slot'') (\<lambda>settlementSlot.
     then_res (requiredU64 (opt_member rnd ''round_id'') ''round_id'') (\<lambda>roundId.
     Inr \<lparr>commitment_hex = commitmentHex, reveal_hex = revealHex, target_slot = targetSlot,
          entropy_slot = entropySlot, entropy_hash_hex = entropyHashHex,
          commitment_signature = commitmentSignature, commitment_tx_slot = commitmentTxSlot,
          lock_signature = lockSignature, lock_tx_slot = lockTxSlot, reveal_signature = revealSignature,
          reveal_tx_slot = revealTxSlot, settlement_slot = settlementSlot,
          proof_round_id = roundId\<rparr>)))))))))))))"

definition server_proof_value :: "server_proof \<Rightarrow> string \<Rightarrow> string \<Rightarrow> string \<Rightarrow> jsval" where
  "server_proof_value p providerKind outputHex settlementSignature = Obj
     [(''provider_kind'', Str providerKind), (''commitment_hex'', Str (commitment_hex p)),
      (''reveal_hex'', Str (reveal_hex p)), (''target_slot'', Str (show_int (target_slot p))),
      (''entropy_slot'', Str (show_int (entropy_slot p))), (''entropy_hash_hex'', Str (entropy_hash_hex p)),
      (''randomness_hex'', Str outputHex), (''commitment_signature'', Str (commitment_signature p)),
      (''commitment_tx_slot'', Str (show_int (commitment_tx_slot p))), (''lock_signature'', Str (lock_signature p)),
      (''lock_tx_slot'', Str (show_int (lock_tx_slot p))), (''reveal_signature'', Str (reveal_signature p)),
      (''reveal_tx_slot'', Str (show_int (reveal_tx_slot p))),
      (''settlement_signature'', Str settlementSignature),
      (''settlement_slot'', Str (show_int (settlement_slot p)))]"

text \<open>The cryptographic part: the reveal opens the commitment and the output follows from the entropy.\<close>

definition check_server_digests ::
  "(bytes \<Rightarrow> bytes) \<Rightarrow> bytes option \<Rightarrow> bytes option \<Rightarrow> server_proof \<Rightarrow> string \<Rightarrow> unit res" where
  "check_server_digests sha256 programIdBytes mintBytes p outputHex =
     then_res (bytes32 programIdBytes ''programIdBytes'') (\<lambda>program.
     then_res (bytes32 mintBytes ''mintBytes'') (\<lambda>mint.
     let reveal = bytes_of_hex (reveal_hex p); entropyHash = bytes_of_hex (entropy_hash_hex p) in
     then_res (u64Le (proof_round_id p)) (\<lambda>roundBytes.
     throw_if (commitment_hex p \<noteq> hashHex sha256 [SERVER_COMMIT_DOMAIN, program, mint, roundBytes, reveal])
       (Error ''Server reveal does not match the pre-betting commitment'') (
     then_res (u64Le (entropy_slot p)) (\<lambda>entropySlotBytes.
     throw_if (outputHex \<noteq> hashHex sha256
         [SERVER_OUTPUT_DOMAIN, program, mint, roundBytes, reveal, entropySlotBytes, entropyHash])
       (Error ''Server randomness output does not match its archived entropy proof'') (Inr ()))))))"

definition requireRoundRandomnessProof ::
  "(bytes \<Rightarrow> bytes) \<Rightarrow> jsval \<Rightarrow> bytes option \<Rightarrow> bytes option \<Rightarrow> jsval res" where
  "requireRoundRandomnessProof sha256 rnd programIdBytes mintBytes =
     then_res (requiredText (opt_member rnd ''randomness_provider_kind'') ''provider_kind'') (\<lambda>providerKind.
     then_res (requiredHex32 (opt_member rnd ''randomness_hex'') ''randomness_hex'') (\<lambda>outputHex.
     then_res (requiredText (opt_member rnd ''settlement_signature'') ''settlement_signature'') (\<lambda>settlementSignature.
     if providerKind = SWITCHBOARD_PROVIDER_KIND
     then switchboard_proof rnd providerKind outputHex settlementSignature
     else
       throw_if (providerKind \<noteq> SERVER_PROVIDER_KIND)
         (Error (''Unsupported randomness provider_kind '' @ providerKind)) (
       throw_if (\<not> nullish (opt_member rnd ''randomness_id''))
         (Error ''Server commitment must not be stored as randomness_id'') (
       throw_if (\<not> nullish (opt_member rnd ''randomness_commit_slot''))
         (Error ''Server-tagged slot must not be stored as randomness_commit_slot'') (
       then_res (server_proof_fields rnd) (\<lambda>p.
       throw_if (target_slot p = 0 \<or> entropy_slot p < target_slot p)
         (Error ''Server entropy slot must be at or after a non-zero target slot'') (
       throw_if (lock_tx_slot p < commitment_tx_slot p \<or> reveal_tx_slot p < lock_tx_slot p)
         (Error ''Server randomness transactions are not in canonical order'') (
       throw_if (reveal_signature p \<noteq> settlementSignature \<or> reveal_tx_slot p \<noteq> settlement_slot p)
         (Error ''Server reveal and RoundSettled must be atomic in one transaction'') (
       then_res (check_server_digests sha256 programIdBytes mintBytes p outputHex) (\<lambda>_.
       Inr (server_proof_value p providerKind outputHex settlementSignature))))))))))))"

section \<open>Canonical rows\<close>

text \<open>Reading a property of \<open>null\<close> throws; afterwards a missing property is \<open>undefined\<close>.\<close>

definition canonicalRound :: "jsval \<Rightarrow> jsval res" where
  "canonicalRound rnd =
     then_res (member rnd ''round_id'') (\<lambda>_.
     then_res (canonicalRandomnessValue (opt_member rnd ''randomness_value'') (opt_member rnd ''randomness_hex''))
       (\<lambda>randomness_value. Inr (Obj
     [(''round_id'', textOrNull (opt_member rnd ''round_id'')),
      (''rent_payer'', textOrNull (opt_member rnd ''rent_payer'')),
      (''opened_at'', textOrNull (opt_member rnd ''opened_at'')),
      (''betting_ends_at'', textOrNull (opt_member rnd ''betting_ends_at'')),
      (''settles_at'', textOrNull (opt_member rnd ''settles_at'')),
      (''refund_at'', textOrNull (opt_member rnd ''refund_at'')),
      (''resolved'', Bool (truthy (opt_member rnd ''resolved''))),
      (''winning_square'', numberOrNull (opt_member rnd ''winning_square'')),
      (''jackpot_hit'', Bool (truthy (opt_member rnd ''jackpot_hit''))),
      (''single_miner_round'', Bool (truthy (opt_member rnd ''single_miner_round''))),
      (''winner'', textOrNull (opt_member rnd ''winner'')),
      (''total_wager_wei'', textOrNull (opt_member rnd ''total_wager_wei'')),
      (''winner_total_wei'', textOrNull (opt_member rnd ''winner_total_wei'')),
      (''pot_for_winners_wei'', textOrNull (opt_member rnd ''pot_for_winners_wei'')),
      (''bullion_for_winners_wei'', textOrNull (opt_member rnd ''bullion_for_winners_wei'')),
      (''payout_mul_wad'', textOrNull (opt_member rnd ''payout_mul_wad'')),
      (''total_fee_lamports'', textOrNull (opt_member rnd ''total_fee_lamports'')),
      (''staking_gross_lamports'', textOrNull (opt_member rnd ''staking_gross_lamports'')),
      (''staking_admin_lamports'', textOrNull (opt_member rnd ''staking_admin_lamports'')),
      (''staking_net_lamports'', textOrNull (opt_member rnd ''staking_net_lamports'')),
      (''buyback_lamports'', textOrNull (opt_member rnd ''buyback_lamports'')),
      (''motherlode_fee_lamports'', textOrNull (opt_member rnd ''motherlode_fee_lamports'')),
      (''mining_admin_lamports'', textOrNull (opt_member rnd ''mining_admin_lamports'')),
      (''admin_total_lamports'', textOrNull (opt_member rnd ''admin_total_lamports'')),
      (''admin_fee_wallet'', textOrNull (opt_member rnd ''admin_fee_wallet'')),
      (''randomness_id'', textOrNull (opt_member rnd ''randomness_id'')),
      (''randomness_value'', randomness_value),
      (''randomness_hex'', textOrNull (opt_member rnd ''randomness_hex'')),
      (''randomness_commit_slot'', textOrNull (opt_member rnd ''randomness_commit_slot'')),
      (''solo_sample'', textOrNull (opt_member rnd ''solo_sample'')),
      (''total_receipts'', textOrNull (opt_member rnd ''total_receipts'')),
      (''processed_receipts'', textOrNull (opt_member rnd ''processed_receipts'')),
      (''settlement_signature'', textOrNull (opt_member rnd ''settlement_signature'')),
      (''settlement_slot'', textOrNull (opt_member rnd ''settlement_slot''))])))"

definition canonicalBet :: "jsval \<Rightarrow> jsval res" where
  "canonicalBet bet = then_res (member bet ''round_id'') (\<lambda>_. Inr (Obj
     [(''round_id'', textOrNull (opt_member bet ''round_id'')),
      (''receipt'', textOrNull (opt_member bet ''receipt'')),
      (''bettor'', textOrNull (opt_member bet ''bettor'')),
      (''nonce'', textOrNull (opt_member bet ''nonce'')),
      (''square'', Num (to_num (opt_member bet ''square''))),
      (''amount_wei'', textOrNull (opt_member bet ''amount_wei'')),
      (''cumulative_start_wei'', textOrNull (opt_member bet ''cumulative_start_wei'')),
      (''reward_mode'', Num (to_num (opt_member bet ''reward_mode''))),
      (''deployment_signature'', textOrNull (opt_member bet ''deployment_signature'')),
      (''deployment_slot'', textOrNull (opt_member bet ''deployment_slot''))]))"

definition canonicalSettlement :: "jsval \<Rightarrow> jsval res" where
  "canonicalSettlement entry = then_res (member entry ''round_id'') (\<lambda>_. Inr (Obj
     [(''round_id'', textOrNull (opt_member entry ''round_id'')),
      (''receipt'', textOrNull (opt_member entry ''receipt'')),
      (''authority'', textOrNull (opt_member entry ''authority'')),
      (''nonce'', textOrNull (opt_member entry ''nonce'')),
      (''status'', textOrNull (opt_member entry ''status'')),
      (''sol_lamports'', textOrNull (opt_member entry ''sol_lamports'')),
      (''myne_base_units'', textOrNull (opt_member entry ''myne_base_units'')),
      (''motherlode_base_units'', textOrNull (opt_member entry ''motherlode_base_units'')),
      (''signature'', textOrNull (opt_member entry ''signature'')),
      (''slot'', textOrNull (opt_member entry ''slot''))]))"

definition canonicalBuyback :: "jsval \<Rightarrow> jsval res" where
  "canonicalBuyback entry = then_res (member entry ''round_id'') (\<lambda>_. Inr (Obj
     [(''round_id'', textOrNull (opt_member entry ''round_id'')),
      (''sequence'', Num (to_num (opt_member entry ''sequence''))),
      (''spend_lamports'', textOrNull (opt_member entry ''spend_lamports'')),
      (''expected_output_base_units'', textOrNull (opt_member entry ''expected_output_base_units'')),
      (''burned_base_units'', textOrNull (opt_member entry ''burned_base_units'')),
      (''swap_signature'', textOrNull (opt_member entry ''swap_signature'')),
      (''burn_signature'', textOrNull (opt_member entry ''burn_signature''))]))"

definition canonicalServerRandomnessProof :: "jsval \<Rightarrow> jsval" where
  "canonicalServerRandomnessProof rnd = Obj
     [(''provider_kind'', textOrNull (opt_member rnd ''randomness_provider_kind'')),
      (''commitment_hex'', textOrNull (opt_member rnd ''randomness_commitment_hex'')),
      (''reveal_hex'', textOrNull (opt_member rnd ''randomness_reveal_hex'')),
      (''target_slot'', textOrNull (opt_member rnd ''randomness_target_slot'')),
      (''entropy_slot'', textOrNull (opt_member rnd ''randomness_entropy_slot'')),
      (''entropy_hash_hex'', textOrNull (opt_member rnd ''randomness_entropy_hash_hex'')),
      (''randomness_hex'', textOrNull (opt_member rnd ''randomness_hex'')),
      (''commitment_signature'', textOrNull (opt_member rnd ''randomness_commitment_signature'')),
      (''commitment_tx_slot'', textOrNull (opt_member rnd ''randomness_commitment_tx_slot'')),
      (''lock_signature'', textOrNull (opt_member rnd ''randomness_lock_signature'')),
      (''lock_tx_slot'', textOrNull (opt_member rnd ''randomness_lock_tx_slot'')),
      (''reveal_signature'', textOrNull (opt_member rnd ''randomness_reveal_signature'')),
      (''reveal_tx_slot'', textOrNull (opt_member rnd ''randomness_reveal_tx_slot'')),
      (''settlement_signature'', textOrNull (opt_member rnd ''settlement_signature'')),
      (''settlement_slot'', textOrNull (opt_member rnd ''settlement_slot''))]"

section \<open>The snapshot\<close>

text \<open>
  \<open>Array.prototype.sort\<close> with a comparator that may throw. The language fixes the result (a stable sorted
  permutation) for a consistent comparator and leaves the sequence of comparisons open; this is the
  sequence of an insertion sort.
\<close>

fun insert_by :: "('a \<Rightarrow> 'a \<Rightarrow> int res) \<Rightarrow> 'a \<Rightarrow> 'a list \<Rightarrow> 'a list res" where
  "insert_by cmp x [] = Inr [x]"
| "insert_by cmp x (y # ys) = then_res (cmp x y) (\<lambda>d.
     if d \<le> 0 then Inr (x # y # ys) else then_res (insert_by cmp x ys) (\<lambda>zs. Inr (y # zs)))"

fun sort_by :: "('a \<Rightarrow> 'a \<Rightarrow> int res) \<Rightarrow> 'a list \<Rightarrow> 'a list res" where
  "sort_by cmp [] = Inr []"
| "sort_by cmp (x # xs) = then_res (sort_by cmp xs) (insert_by cmp x)"

text \<open>\<open>a.localeCompare(b)\<close>, and the sign of \<open>a - b\<close> (a NaN difference counts as equal).\<close>

definition text_order :: "(string \<Rightarrow> string \<Rightarrow> int) \<Rightarrow> jsval \<Rightarrow> jsval \<Rightarrow> int res" where
  "text_order localeCompare a b = (case a of Str x \<Rightarrow> Inr (localeCompare x (to_str b))
     | _ \<Rightarrow> Inl (TypeError ''Cannot read properties: localeCompare''))"

definition number_order :: "jsval \<Rightarrow> jsval \<Rightarrow> int" where
  "number_order a b = (if num_lt (to_num a) (to_num b) then - 1
     else if num_lt (to_num b) (to_num a) then 1 else 0)"

definition bet_order :: "(string \<Rightarrow> string \<Rightarrow> int) \<Rightarrow> jsval \<Rightarrow> jsval \<Rightarrow> int res" where
  "bet_order lc left right =
     then_res (text_order lc (opt_member left ''receipt'') (opt_member right ''receipt'')) (\<lambda>d.
     Inr (if d \<noteq> 0 then d else number_order (opt_member left ''square'') (opt_member right ''square'')))"

definition settlement_order :: "(string \<Rightarrow> string \<Rightarrow> int) \<Rightarrow> jsval \<Rightarrow> jsval \<Rightarrow> int res" where
  "settlement_order lc left right =
     then_res (text_order lc (opt_member left ''receipt'') (opt_member right ''receipt'')) (\<lambda>d.
     if d \<noteq> 0 then Inr d else text_order lc (opt_member left ''status'') (opt_member right ''status''))"

definition buyback_order :: "jsval \<Rightarrow> jsval \<Rightarrow> int res" where
  "buyback_order left right = Inr (number_order (opt_member left ''sequence'') (opt_member right ''sequence''))"

definition buildArchiveSnapshot ::
  "(string \<Rightarrow> string \<Rightarrow> int) \<Rightarrow> jsval \<Rightarrow> jsval \<Rightarrow> jsval list \<Rightarrow> jsval list \<Rightarrow> jsval list \<Rightarrow> jsval res" where
  "buildArchiveSnapshot lc program rnd bets settlements buybacks =
     then_res (then_res (map_res canonicalBet bets) (sort_by (bet_order lc))) (\<lambda>canonicalBets.
     then_res (then_res (map_res canonicalSettlement settlements) (sort_by (settlement_order lc)))
       (\<lambda>canonicalSettlements.
     then_res (then_res (map_res canonicalBuyback buybacks) (sort_by buyback_order)) (\<lambda>canonicalBuybacks.
     then_res (member rnd ''randomness_provider_kind'') (\<lambda>kind.
     then_res (canonicalRound rnd) (\<lambda>canonical.
     let version = (if kind = Str SERVER_PROVIDER_KIND then 3 else 2);
         snapshot = [(''version'', IntV version), (''program'', Str (to_str program)), (''round'', canonical),
           (''bets'', Arr canonicalBets), (''settlements'', Arr canonicalSettlements),
           (''buybacks'', Arr canonicalBuybacks)] in
     Inr (Obj (if version = 3
       then snapshot @ [(''randomness_proof'', canonicalServerRandomnessProof rnd)] else snapshot)))))))"

definition archiveHash :: "(bytes \<Rightarrow> bytes) \<Rightarrow> jsval \<Rightarrow> string res" where
  "archiveHash sha256 snapshot = then_res (canonicalJson snapshot) (\<lambda>t. case t of
       None \<Rightarrow> Inl (TypeError ''The data argument must be of type string'')
     | Some u \<Rightarrow> Inr (hex_of_bytes (sha256 (text_bytes u))))"

section \<open>The fee audit conserves\<close>

lemma fee_amount_Inr [res_simps]:
  "fee_amount rnd field = Inr n \<longleftrightarrow>
     \<not> missing (opt_member rnd field) \<and> bigint_of_string (to_str (opt_member rnd field)) = Inr n \<and> 0 \<le> n"
  by (auto simp: fee_amount_def Let_def res_simps)

text \<open>
  C16. An accepted fee audit conserves the mining fee: the total is exactly what stakers, the buyback and the
  motherlode receive plus what the administrator receives, the gross staking allocation is its net part
  plus its administrator part, every amount is the non-negative integer the row holds, and a fee
  recipient is named.
\<close>

theorem requireRoundFeeAudit_conserves:
  assumes "requireRoundFeeAudit rnd = Inr f"
  shows "total_fee_lamports f
      = staking_net_lamports f + buyback_lamports f + motherlode_fee_lamports f + admin_total_lamports f
    \<and> staking_gross_lamports f = staking_net_lamports f + staking_admin_lamports f
    \<and> 0 \<le> staking_net_lamports f \<and> 0 \<le> buyback_lamports f \<and> 0 \<le> motherlode_fee_lamports f
    \<and> 0 \<le> admin_total_lamports f \<and> staking_gross_lamports f \<le> total_fee_lamports f
    \<and> bigint_of_string (to_str (opt_member rnd ''total_fee_lamports'')) = Inr (total_fee_lamports f)
    \<and> admin_fee_wallet f \<noteq> []"
  using assms unfolding requireRoundFeeAudit_def res_simps
  apply (elim exE conjE)
  apply (drule sum.inject(2)[THEN iffD1])
  apply hypsubst
  apply (simp add: textOrNull_def split: if_splits)
  done

definition audit_row :: jsval where
  "audit_row = Obj [(''total_fee_lamports'', Str ''110''), (''staking_gross_lamports'', Str ''50''),
     (''staking_admin_lamports'', Str ''5''), (''staking_net_lamports'', Str ''45''),
     (''buyback_lamports'', Str ''30''), (''motherlode_fee_lamports'', Str ''20''),
     (''mining_admin_lamports'', Str ''10''), (''admin_total_lamports'', Str ''15''),
     (''admin_fee_wallet'', Str ''Fee1'')]"

theorem requireRoundFeeAudit_conserves_witness:
  "\<exists>f. requireRoundFeeAudit audit_row = Inr f \<and> total_fee_lamports f = 110
     \<and> staking_net_lamports f + buyback_lamports f + motherlode_fee_lamports f + admin_total_lamports f = 110"
proof -
  have "ok_with (\<lambda>f. total_fee_lamports f = 110) (requireRoundFeeAudit audit_row)" by code_simp
  then obtain f where f: "requireRoundFeeAudit audit_row = Inr f" "total_fee_lamports f = 110"
    using ok_withD by blast
  then show ?thesis using requireRoundFeeAudit_conserves[OF f(1)] by auto
qed

section \<open>Randomness values and proofs\<close>

text \<open>
  The archived randomness value is never anything but the decimal form of the committed 32-byte output:
  a row is accepted when it holds that decimal or the exact rounded rendering of it that early workers
  stored, and in both cases the lossless decimal is what the archive keeps.
\<close>

theorem canonicalRandomnessValue_exact:
  "canonicalRandomnessValue v (Str h) = Inr r \<longleftrightarrow>
     (missing v \<and> h = [] \<and> r = Null)
     \<or> (\<not> missing v \<and> HEX_32 h \<and> r = Str (show_int (hex_int h))
        \<and> (to_str v = show_int (hex_int h)
           \<or> (LEGACY_SCIENTIFIC_INTEGER (to_str v)
              \<and> to_str v = num_to_string (parse_number (show_int (hex_int h))))))"
proof -
  have "missing (Str h) \<longleftrightarrow> h = []" by (simp add: missing_def)
  then show ?thesis
    unfolding canonicalRandomnessValue_def Let_def
    by (cases "missing v") (auto simp: res_simps)
qed

lemma requiredText_Inr [res_simps]:
  "requiredText v l = Inr t \<longleftrightarrow> \<not> nullish v \<and> t = to_str v \<and> t \<noteq> []"
  by (auto simp: requiredText_def textOrNull_def res_simps)

lemma requiredHex32_Inr [res_simps]:
  "requiredHex32 v l = Inr t \<longleftrightarrow> \<not> nullish v \<and> t = to_str v \<and> HEX_32 t"
  by (auto simp: requiredHex32_def res_simps HEX_32_def)

lemma requiredU64_Inr [res_simps]:
  "requiredU64 v l = Inr n \<longleftrightarrow>
     \<not> missing v \<and> bigint_of_string (to_str v) = Inr n \<and> 0 \<le> n \<and> n \<le> U64_MAX"
  by (auto simp: requiredU64_def res_simps not_less)

lemma bytes32_Inr [res_simps]: "bytes32 v l = Inr b \<longleftrightarrow> v = Some b \<and> length b = 32"
  by (auto simp: bytes32_def Let_def res_simps split: option.splits)

lemma check_server_digests_Inr:
  "check_server_digests h pb mb p outHex = Inr () \<longleftrightarrow>
     (\<exists>program mint r e. pb = Some program \<and> length program = 32 \<and> mb = Some mint \<and> length mint = 32
        \<and> u64Le (proof_round_id p) = Inr r \<and> u64Le (entropy_slot p) = Inr e
        \<and> commitment_hex p = hashHex h [SERVER_COMMIT_DOMAIN, program, mint, r, bytes_of_hex (reveal_hex p)]
        \<and> outHex = hashHex h [SERVER_OUTPUT_DOMAIN, program, mint, r, bytes_of_hex (reveal_hex p), e,
             bytes_of_hex (entropy_hash_hex p)])"
  unfolding check_server_digests_def Let_def res_simps by auto

text \<open>
  C10. An accepted server proof is sound: the round's stored randomness output is the domain-separated hash
  of the revealed preimage with the entropy the proof names, the preimage opens the stored pre-betting
  commitment for this program, mint and round, the entropy slot is not before the non-zero target slot,
  and commitment, lock and reveal are in slot order with the reveal in the settlement transaction.
\<close>

theorem server_randomness_proof_sound:
  assumes "requireRoundRandomnessProof h rnd pb mb = Inr out"
    and "to_str (opt_member rnd ''randomness_provider_kind'') = SERVER_PROVIDER_KIND"
  shows "\<exists>p program mint r e. server_proof_fields rnd = Inr p \<and> pb = Some program \<and> mb = Some mint
    \<and> writeBigUInt64LE (proof_round_id p) = Inr r \<and> writeBigUInt64LE (entropy_slot p) = Inr e
    \<and> to_str (opt_member rnd ''randomness_commitment_hex'')
        = hashHex h [SERVER_COMMIT_DOMAIN, program, mint, r, bytes_of_hex (reveal_hex p)]
    \<and> to_str (opt_member rnd ''randomness_hex'')
        = hashHex h [SERVER_OUTPUT_DOMAIN, program, mint, r, bytes_of_hex (reveal_hex p), e,
            bytes_of_hex (entropy_hash_hex p)]
    \<and> 0 < target_slot p \<and> target_slot p \<le> entropy_slot p
    \<and> commitment_tx_slot p \<le> lock_tx_slot p \<and> lock_tx_slot p \<le> reveal_tx_slot p
    \<and> reveal_tx_slot p = settlement_slot p
    \<and> reveal_signature p = to_str (opt_member rnd ''settlement_signature'')"
proof -
  have ne: "SERVER_PROVIDER_KIND \<noteq> SWITCHBOARD_PROVIDER_KIND"
    by (simp add: SERVER_PROVIDER_KIND_def SWITCHBOARD_PROVIDER_KIND_def)
  obtain p where p: "server_proof_fields rnd = Inr p"
    and s: "\<not> (target_slot p = 0 \<or> entropy_slot p < target_slot p)"
      "\<not> (lock_tx_slot p < commitment_tx_slot p \<or> reveal_tx_slot p < lock_tx_slot p)"
      "\<not> (reveal_signature p \<noteq> to_str (opt_member rnd ''settlement_signature'') \<or> reveal_tx_slot p \<noteq> settlement_slot p)"
    and d: "check_server_digests h pb mb p (to_str (opt_member rnd ''randomness_hex'')) = Inr ()"
    using assms ne unfolding requireRoundRandomnessProof_def by (auto simp: res_simps split: if_splits)
  have f: "commitment_hex p = to_str (opt_member rnd ''randomness_commitment_hex'')" "0 \<le> target_slot p"
    using p unfolding server_proof_fields_def res_simps by auto
  show ?thesis using p s f d[unfolded check_server_digests_Inr u64Le_def] by fastforce
qed

definition proof_row :: jsval where
  "proof_row = (let z = Str (replicate 64 CHR ''0'') in Obj
     [(''round_id'', Str ''7''), (''randomness_provider_kind'', Str ''server_commit_reveal''),
      (''randomness_hex'', z), (''randomness_value'', Str ''0''), (''settlement_signature'', Str ''sig''), (''randomness_commitment_hex'', z),
      (''randomness_reveal_hex'', z), (''randomness_target_slot'', Str ''90''),
      (''randomness_entropy_slot'', Str ''91''), (''randomness_entropy_hash_hex'', z),
      (''randomness_commitment_signature'', Str ''c''), (''randomness_commitment_tx_slot'', Str ''80''),
      (''randomness_lock_signature'', Str ''l''), (''randomness_lock_tx_slot'', Str ''85''),
      (''randomness_reveal_signature'', Str ''sig''), (''randomness_reveal_tx_slot'', Str ''95''),
      (''settlement_slot'', Str ''95'')])"

definition zero_hash :: "bytes \<Rightarrow> bytes" where
  "zero_hash b = replicate 32 0"

theorem server_randomness_proof_sound_witness:
  "\<exists>out p. requireRoundRandomnessProof zero_hash proof_row (Some (replicate 32 1)) (Some (replicate 32 2)) = Inr out
     \<and> server_proof_fields proof_row = Inr p \<and> 0 < target_slot p \<and> target_slot p \<le> entropy_slot p"
proof -
  have ok: "is_ok (requireRoundRandomnessProof zero_hash proof_row (Some (replicate 32 1)) (Some (replicate 32 2)))"
    by code_simp
  then obtain out where o:
    "requireRoundRandomnessProof zero_hash proof_row (Some (replicate 32 1)) (Some (replicate 32 2)) = Inr out"
    by (auto simp: is_ok_iff)
  have "to_str (opt_member proof_row ''randomness_provider_kind'') = SERVER_PROVIDER_KIND" by code_simp
  from server_randomness_proof_sound[OF o this] o show ?thesis by blast
qed

section \<open>Sorting rows\<close>

text \<open>
  What the archive relies on in a comparator: on the rows it is called with it does not throw, it is a
  total preorder, and rows it calls equal have the same key. Sorting is then determined by the set of
  rows, whatever the order the database returned them in.
\<close>

locale row_order =
  fixes ok :: "'a \<Rightarrow> bool" and cmp :: "'a \<Rightarrow> 'a \<Rightarrow> int res" and key :: "'a \<Rightarrow> 'k"
  assumes cmp_total: "ok x \<Longrightarrow> ok y \<Longrightarrow> \<exists>d. cmp x y = Inr d"
    and cmp_flip: "ok x \<Longrightarrow> ok y \<Longrightarrow> cmp x y = Inr d \<Longrightarrow> cmp y x = Inr e \<Longrightarrow> 0 < d \<Longrightarrow> e \<le> 0"
    and cmp_trans: "ok x \<Longrightarrow> ok y \<Longrightarrow> ok z \<Longrightarrow> cmp x y = Inr d \<Longrightarrow> d \<le> 0 \<Longrightarrow> cmp y z = Inr e \<Longrightarrow> e \<le> 0
      \<Longrightarrow> \<exists>f. cmp x z = Inr f \<and> f \<le> 0"
    and cmp_key: "ok x \<Longrightarrow> ok y \<Longrightarrow> cmp x y = Inr d \<Longrightarrow> d \<le> 0 \<Longrightarrow> cmp y x = Inr e \<Longrightarrow> e \<le> 0 \<Longrightarrow> key x = key y"
begin

abbreviation le :: "'a \<Rightarrow> 'a \<Rightarrow> bool" where
  "le x y \<equiv> \<exists>d. cmp x y = Inr d \<and> d \<le> 0"

lemma insert_by_sorts:
  assumes "ok x" "\<forall>y \<in> set ys. ok y" "sorted_wrt le ys"
  shows "\<exists>zs. insert_by cmp x ys = Inr zs \<and> mset zs = add_mset x (mset ys) \<and> sorted_wrt le zs"
  using assms
proof (induction ys)
  case (Cons y ys)
  obtain d where d: "cmp x y = Inr d" using cmp_total Cons.prems by fastforce
  show ?case
  proof (cases "d \<le> 0")
    case True
    have "le x z" if z: "z \<in> set (y # ys)" for z
    proof (cases "z = y")
      case False
      then obtain e where "cmp y z = Inr e" "e \<le> 0" using z Cons.prems(3) by auto
      then show ?thesis using cmp_trans[of x y z d e] Cons.prems z d True by auto
    qed (use d True in auto)
    then show ?thesis using d True Cons.prems by simp
  next
    case False
    obtain zs where zs: "insert_by cmp x ys = Inr zs" "mset zs = add_mset x (mset ys)" "sorted_wrt le zs"
      using Cons by auto
    obtain e where e: "cmp y x = Inr e" using cmp_total Cons.prems by fastforce
    have "e \<le> 0" using cmp_flip[of x y d e] d e False Cons.prems by auto
    moreover have "set zs = insert x (set ys)" using zs(2) by (metis set_mset_add_mset_insert set_mset_mset)
    ultimately have "sorted_wrt le (y # zs)" using zs(3) Cons.prems(3) e by auto
    then show ?thesis using d False zs by (auto intro!: exI[of _ "y # zs"])
  qed
qed simp

lemma sort_by_sorts:
  "\<forall>x \<in> set xs. ok x \<Longrightarrow> \<exists>ys. sort_by cmp xs = Inr ys \<and> mset ys = mset xs \<and> sorted_wrt le ys"
proof (induction xs)
  case (Cons x xs)
  then obtain ys where ys: "sort_by cmp xs = Inr ys" "mset ys = mset xs" "sorted_wrt le ys" by auto
  have "\<forall>y \<in> set ys. ok y" using ys(2) Cons.prems by (metis list.set_intros(2) set_mset_mset)
  then show ?case using insert_by_sorts[of x ys] ys Cons.prems by auto
qed simp

lemma sorted_unique:
  "sorted_wrt le xs \<Longrightarrow> sorted_wrt le ys \<Longrightarrow> mset xs = mset ys \<Longrightarrow> \<forall>x \<in> set xs. ok x \<Longrightarrow> inj_on key (set xs)
     \<Longrightarrow> xs = ys"
proof (induction xs arbitrary: ys)
  case (Cons x xs)
  then obtain y ys' where y: "ys = y # ys'" by (cases ys) auto
  have s: "set (x # xs) = set ys" using Cons.prems(3) by (metis set_mset_mset)
  have "x = y"
  proof (rule ccontr)
    assume n: "x \<noteq> y"
    then have "x \<in> set ys'" "y \<in> set xs" using s y by auto
    then have "le x y" "le y x" using Cons.prems(1,2) y by auto
    moreover have "ok x" "ok y" using Cons.prems(4) \<open>y \<in> set xs\<close> by auto
    ultimately have "key x = key y" using cmp_key by blast
    then show False using n Cons.prems(5) \<open>y \<in> set xs\<close> by (auto dest: inj_onD)
  qed
  then show ?case using Cons y by (auto simp: inj_on_def)
qed simp

lemma canonical_sort_order_free:
  assumes perm: "mset xs' = mset xs" and rows: "\<And>x. x \<in> set xs \<Longrightarrow> f x = Inr (g x) \<and> ok (g x)"
    and keys: "distinct (map (\<lambda>x. key (g x)) xs)"
  shows "then_res (map_res f xs') (sort_by cmp) = then_res (map_res f xs) (sort_by cmp)"
proof -
  have m: "map_res f zs = Inr (map g zs)" if "set zs \<subseteq> set xs" for zs
    using that rows map_res_const[of g zs] map_res_cong[of zs zs f "\<lambda>x. Inr (g x)"] by auto
  have set: "set xs' = set xs" using perm by (metis set_mset_mset)
  have ok: "\<forall>y \<in> set (map g xs). ok y" "\<forall>y \<in> set (map g xs'). ok y" using rows set by auto
  obtain a where a: "sort_by cmp (map g xs) = Inr a" "mset a = mset (map g xs)" "sorted_wrt le a"
    using sort_by_sorts[OF ok(1)] by blast
  obtain b where b: "sort_by cmp (map g xs') = Inr b" "mset b = mset (map g xs')" "sorted_wrt le b"
    using sort_by_sorts[OF ok(2)] by blast
  have "set b = g ` set xs" using b(2) set by (metis set_map set_mset_mset)
  moreover have "inj_on key (g ` set xs)" using keys by (auto simp: distinct_map inj_on_def)
  moreover have "mset b = mset a" using a(2) b(2) perm by simp
  ultimately have "b = a" using sorted_unique[OF b(3) a(3)] ok(1) by simp
  then show ?thesis using a(1) b(1) m[of xs] m[of xs'] set by simp
qed

end

section \<open>The orders of the archive\<close>

lemma num_lt_irrefl: "\<not> num_lt a a"
  by (cases a) auto

lemma num_lt_trans: "num_lt a b \<Longrightarrow> num_lt b c \<Longrightarrow> num_lt a c"
  by (cases a; cases b; cases c) auto

lemma num_lt_total: "a \<noteq> NaN \<Longrightarrow> b \<noteq> NaN \<Longrightarrow> num_lt a b \<or> a = b \<or> num_lt b a"
  by (cases a; cases b) auto

lemma number_order_le:
  "a \<noteq> NaN \<Longrightarrow> b \<noteq> NaN \<Longrightarrow> number_order (Num a) (Num b) \<le> 0 \<longleftrightarrow> num_lt a b \<or> a = b"
  using num_lt_total[of a b] num_lt_irrefl num_lt_trans[of a b a] by (auto simp: number_order_def)

text \<open>
  The host's collation, as the language documents \<open>localeCompare\<close>: a consistent three-way comparison;
  texts it does not tell apart are the same receipt address or status name.
\<close>

locale collation =
  fixes lc :: "string \<Rightarrow> string \<Rightarrow> int"
  assumes lc_flip: "0 < lc x y \<longleftrightarrow> lc y x < 0"
    and lc_trans: "lc x y \<le> 0 \<Longrightarrow> lc y z \<le> 0 \<Longrightarrow> lc x z \<le> 0"
    and lc_zero: "lc x y = 0 \<longleftrightarrow> x = y"
begin

lemma lc_antisym: "lc x y \<le> 0 \<Longrightarrow> lc y x \<le> 0 \<Longrightarrow> x = y"
  using lc_flip[of x y] lc_flip[of y x] lc_zero[of x y] by linarith

end

definition bet_sort_key :: "jsval \<Rightarrow> jsval \<times> jsnum" where
  "bet_sort_key row = (opt_member row ''receipt'', to_num (opt_member row ''square''))"

definition sortable_bet :: "jsval \<Rightarrow> bool" where
  "sortable_bet row = (is_str (opt_member row ''receipt'')
     \<and> (\<exists>n. opt_member row ''square'' = Num n \<and> n \<noteq> NaN))"

definition settlement_sort_key :: "jsval \<Rightarrow> jsval \<times> jsval" where
  "settlement_sort_key row = (opt_member row ''receipt'', opt_member row ''status'')"

definition sortable_settlement :: "jsval \<Rightarrow> bool" where
  "sortable_settlement row = (is_str (opt_member row ''receipt'') \<and> is_str (opt_member row ''status''))"

definition buyback_sort_key :: "jsval \<Rightarrow> jsnum" where
  "buyback_sort_key row = to_num (opt_member row ''sequence'')"

definition sortable_buyback :: "jsval \<Rightarrow> bool" where
  "sortable_buyback row = (\<exists>n. opt_member row ''sequence'' = Num n \<and> n \<noteq> NaN)"

lemma is_str_iff: "is_str v \<longleftrightarrow> (\<exists>s. v = Str s)"
  by (cases v) auto

interpretation buybacks: row_order sortable_buyback buyback_order buyback_sort_key
proof
  fix x y z :: jsval and d e :: int
  assume x: "sortable_buyback x" and y: "sortable_buyback y"
  then obtain a b where ab: "opt_member x ''sequence'' = Num a" "a \<noteq> NaN" "opt_member y ''sequence'' = Num b" "b \<noteq> NaN"
    by (auto simp: sortable_buyback_def)
  show "\<exists>d. buyback_order x y = Inr d" by (simp add: buyback_order_def)
  show "e \<le> 0" if "buyback_order x y = Inr d" "buyback_order y x = Inr e" "0 < d"
    using that ab number_order_le[of a b] number_order_le[of b a] num_lt_total[of a b]
    by (auto simp: buyback_order_def)
  show "buyback_sort_key x = buyback_sort_key y"
    if "buyback_order x y = Inr d" "d \<le> 0" "buyback_order y x = Inr e" "e \<le> 0"
    using that ab number_order_le[of a b] number_order_le[of b a] num_lt_trans[of a b a] num_lt_irrefl[of a]
    by (auto simp: buyback_order_def buyback_sort_key_def)
  assume "sortable_buyback z"
  then obtain c where c: "opt_member z ''sequence'' = Num c" "c \<noteq> NaN" by (auto simp: sortable_buyback_def)
  show "\<exists>f. buyback_order x z = Inr f \<and> f \<le> 0"
    if "buyback_order x y = Inr d" "d \<le> 0" "buyback_order y z = Inr e" "e \<le> 0"
    using that ab c number_order_le[of a b] number_order_le[of b c] number_order_le[of a c] num_lt_trans[of a b c]
    by (auto simp: buyback_order_def)
qed

context collation
begin

lemma bet_order_le:
  assumes "opt_member x ''receipt'' = Str r" "opt_member x ''square'' = Num a" "a \<noteq> NaN"
    "opt_member y ''receipt'' = Str s" "opt_member y ''square'' = Num b" "b \<noteq> NaN"
  shows "\<exists>d. bet_order lc x y = Inr d \<and> (d \<le> 0 \<longleftrightarrow> (lc r s \<le> 0 \<and> r \<noteq> s) \<or> (r = s \<and> (num_lt a b \<or> a = b)))"
  using assms lc_zero[of r s] number_order_le[of a b] by (auto simp: bet_order_def text_order_def)

lemma settlement_order_le:
  assumes "opt_member x ''receipt'' = Str r" "opt_member x ''status'' = Str a"
    "opt_member y ''receipt'' = Str s" "opt_member y ''status'' = Str b"
  shows "\<exists>d. settlement_order lc x y = Inr d \<and> (d \<le> 0 \<longleftrightarrow> (lc r s \<le> 0 \<and> r \<noteq> s) \<or> (r = s \<and> lc a b \<le> 0))"
  using assms lc_zero[of r s] by (auto simp: settlement_order_def text_order_def)

lemma lc_total: "lc x y \<le> 0 \<or> lc y x \<le> 0"
  using lc_flip[of x y] by linarith

lemma lc_strict_trans: "lc x y \<le> 0 \<Longrightarrow> x \<noteq> y \<Longrightarrow> lc y z \<le> 0 \<Longrightarrow> lc x z \<le> 0 \<and> x \<noteq> z"
  using lc_trans[of x y z] lc_antisym[of x y] by blast

end

sublocale collation \<subseteq> bets: row_order sortable_bet "bet_order lc" bet_sort_key
proof
  fix x y z :: jsval and d e :: int
  assume x: "sortable_bet x" and y: "sortable_bet y"
  then obtain r a s b where xy: "opt_member x ''receipt'' = Str r" "opt_member x ''square'' = Num a" "a \<noteq> NaN"
    "opt_member y ''receipt'' = Str s" "opt_member y ''square'' = Num b" "b \<noteq> NaN"
    by (auto simp: sortable_bet_def is_str_iff)
  note le = bet_order_le[OF xy] bet_order_le[OF xy(4-6) xy(1-3)]
  show "\<exists>d. bet_order lc x y = Inr d" using le by blast
  show "e \<le> 0" if "bet_order lc x y = Inr d" "bet_order lc y x = Inr e" "0 < d"
    using that le num_lt_total[OF xy(3) xy(6)] lc_total[of r s] by auto
  show "bet_sort_key x = bet_sort_key y" if "bet_order lc x y = Inr d" "d \<le> 0" "bet_order lc y x = Inr e" "e \<le> 0"
    using that le xy lc_antisym[of r s] num_lt_trans[of a b a] num_lt_irrefl[of a] by (auto simp: bet_sort_key_def)
  assume "sortable_bet z"
  then obtain t c where z: "opt_member z ''receipt'' = Str t" "opt_member z ''square'' = Num c" "c \<noteq> NaN"
    by (auto simp: sortable_bet_def is_str_iff)
  note le' = bet_order_le[OF xy(4-6) z] bet_order_le[OF xy(1-3) z]
  show "\<exists>f. bet_order lc x z = Inr f \<and> f \<le> 0"
    if "bet_order lc x y = Inr d" "d \<le> 0" "bet_order lc y z = Inr e" "e \<le> 0"
    using that le(1) le' lc_strict_trans[of r s t] num_lt_trans[of a b c] by auto
qed

sublocale collation \<subseteq> settlements: row_order sortable_settlement "settlement_order lc" settlement_sort_key
proof
  fix x y z :: jsval and d e :: int
  assume x: "sortable_settlement x" and y: "sortable_settlement y"
  then obtain r a s b where xy: "opt_member x ''receipt'' = Str r" "opt_member x ''status'' = Str a"
    "opt_member y ''receipt'' = Str s" "opt_member y ''status'' = Str b"
    by (auto simp: sortable_settlement_def is_str_iff)
  note le = settlement_order_le[OF xy] settlement_order_le[OF xy(3,4) xy(1,2)]
  show "\<exists>d. settlement_order lc x y = Inr d" using le by blast
  show "e \<le> 0" if "settlement_order lc x y = Inr d" "settlement_order lc y x = Inr e" "0 < d"
    using that le lc_total[of r s] lc_total[of a b] by auto
  show "settlement_sort_key x = settlement_sort_key y"
    if "settlement_order lc x y = Inr d" "d \<le> 0" "settlement_order lc y x = Inr e" "e \<le> 0"
    using that le xy lc_antisym[of r s] lc_antisym[of a b] by (auto simp: settlement_sort_key_def)
  assume "sortable_settlement z"
  then obtain t c where z: "opt_member z ''receipt'' = Str t" "opt_member z ''status'' = Str c"
    by (auto simp: sortable_settlement_def is_str_iff)
  note le' = settlement_order_le[OF xy(3,4) z] settlement_order_le[OF xy(1,2) z]
  show "\<exists>f. settlement_order lc x z = Inr f \<and> f \<le> 0"
    if "settlement_order lc x y = Inr d" "d \<le> 0" "settlement_order lc y z = Inr e" "e \<le> 0"
    using that le(1) le' lc_strict_trans[of r s t] lc_trans[of a b c] by auto
qed

text \<open>The default order of \<open>Array.prototype.sort\<close>, by code units, is a collation.\<close>

definition code_compare :: "string \<Rightarrow> string \<Rightarrow> int" where
  "code_compare a b = (if a = b then 0 else if code_lt a b then - 1 else 1)"

lemma code_lt_irrefl [simp]: "\<not> code_lt a a"
  by (induction a) auto

lemma code_lt_trans: "code_lt a b \<Longrightarrow> code_lt b c \<Longrightarrow> code_lt a c"
proof (induction a b arbitrary: c rule: code_lt.induct)
  case (2 y ys)
  then show ?case by (cases c) auto
next
  case (3 x xs y ys)
  then show ?case by (cases c) auto
qed simp

lemma code_lt_total: "code_lt a b \<or> a = b \<or> code_lt b a"
proof (induction a b rule: code_lt.induct)
  case (1 xs)
  then show ?case by (cases xs) auto
next
  case (3 x xs y ys)
  have "(of_char x :: nat) < of_char y \<or> x = y \<or> (of_char y :: nat) < of_char x"
    by (metis of_char_eq_iff linorder_neqE_nat)
  then show ?case using 3 by auto
qed simp

interpretation code_units: collation code_compare
proof
  fix x y z :: string
  show "0 < code_compare x y \<longleftrightarrow> code_compare y x < 0"
    using code_lt_total[of x y] code_lt_trans[of x y x] by (auto simp: code_compare_def)
  show "code_compare x z \<le> 0" if "code_compare x y \<le> 0" "code_compare y z \<le> 0"
    using that code_lt_trans[of x y z] by (auto simp: code_compare_def split: if_splits)
  show "code_compare x y = 0 \<longleftrightarrow> x = y" by (auto simp: code_compare_def)
qed

section \<open>A snapshot does not depend on the order of the rows\<close>

definition bet_key :: "jsval \<Rightarrow> string \<times> jsnum" where
  "bet_key b = (to_str (opt_member b ''receipt''), to_num (opt_member b ''square''))"

definition settlement_key :: "jsval \<Rightarrow> string \<times> string" where
  "settlement_key e = (to_str (opt_member e ''receipt''), to_str (opt_member e ''status''))"

definition buyback_key :: "jsval \<Rightarrow> jsnum" where
  "buyback_key e = to_num (opt_member e ''sequence'')"

text \<open>Rows as the index stores them: the columns of the sort key are present.\<close>

definition bet_row :: "jsval \<Rightarrow> bool" where
  "bet_row b = (\<not> nullish (opt_member b ''receipt'') \<and> to_num (opt_member b ''square'') \<noteq> NaN)"

definition settlement_row :: "jsval \<Rightarrow> bool" where
  "settlement_row e = (\<not> nullish (opt_member e ''receipt'') \<and> \<not> nullish (opt_member e ''status''))"

definition buyback_row :: "jsval \<Rightarrow> bool" where
  "buyback_row e = (\<not> nullish e \<and> to_num (opt_member e ''sequence'') \<noteq> NaN)"

definition the_row :: "jsval res \<Rightarrow> jsval" where
  "the_row r = (case r of Inl _ \<Rightarrow> Null | Inr v \<Rightarrow> v)"

lemma opt_member_nullish [simp]: "nullish v \<Longrightarrow> opt_member v k = Undef"
  by (cases v) (auto simp: nullish_def)

lemma canonical_bet_row:
  assumes "bet_row b"
  shows "canonicalBet b = Inr (the_row (canonicalBet b)) \<and> sortable_bet (the_row (canonicalBet b))"
    and "bet_sort_key (the_row (canonicalBet b)) = (Str (fst (bet_key b)), snd (bet_key b))"
proof -
  have "\<not> nullish b" using assms by (auto simp: bet_row_def)
  then show "canonicalBet b = Inr (the_row (canonicalBet b)) \<and> sortable_bet (the_row (canonicalBet b))"
    and "bet_sort_key (the_row (canonicalBet b)) = (Str (fst (bet_key b)), snd (bet_key b))"
    using assms by (simp_all add: canonicalBet_def member_def the_row_def sortable_bet_def bet_sort_key_def
        bet_row_def bet_key_def textOrNull_def)
qed

lemma canonical_settlement_row:
  assumes "settlement_row b"
  shows "canonicalSettlement b = Inr (the_row (canonicalSettlement b))
      \<and> sortable_settlement (the_row (canonicalSettlement b))"
    and "settlement_sort_key (the_row (canonicalSettlement b))
      = (Str (fst (settlement_key b)), Str (snd (settlement_key b)))"
proof -
  have "\<not> nullish b" using assms by (auto simp: settlement_row_def)
  then show "canonicalSettlement b = Inr (the_row (canonicalSettlement b))
      \<and> sortable_settlement (the_row (canonicalSettlement b))"
    and "settlement_sort_key (the_row (canonicalSettlement b))
      = (Str (fst (settlement_key b)), Str (snd (settlement_key b)))"
    using assms by (simp_all add: canonicalSettlement_def member_def the_row_def sortable_settlement_def
        settlement_sort_key_def settlement_row_def settlement_key_def textOrNull_def)
qed

lemma canonical_buyback_row:
  assumes "buyback_row b"
  shows "canonicalBuyback b = Inr (the_row (canonicalBuyback b)) \<and> sortable_buyback (the_row (canonicalBuyback b))"
    and "buyback_sort_key (the_row (canonicalBuyback b)) = buyback_key b"
  using assms by (simp_all add: canonicalBuyback_def member_def the_row_def sortable_buyback_def
      buyback_sort_key_def buyback_row_def buyback_key_def)

lemma distinct_keys:
  "distinct (map k xs) \<Longrightarrow> (\<And>x. x \<in> set xs \<Longrightarrow> k' x = h (k x)) \<Longrightarrow> inj h \<Longrightarrow> distinct (map k' xs)"
  by (auto simp: distinct_map inj_on_def dest: injD)

context collation
begin

lemma sorted_bets_order_free:
  assumes "mset bets' = mset bets" "\<forall>b \<in> set bets. bet_row b" "distinct (map bet_key bets)"
  shows "then_res (map_res canonicalBet bets') (sort_by (bet_order lc))
    = then_res (map_res canonicalBet bets) (sort_by (bet_order lc))"
proof (rule bets.canonical_sort_order_free[where g = "\<lambda>b. the_row (canonicalBet b)", OF assms(1)])
  show "canonicalBet x = Inr (the_row (canonicalBet x)) \<and> sortable_bet (the_row (canonicalBet x))"
    if "x \<in> set bets" for x using canonical_bet_row(1) assms(2) that by blast
  show "distinct (map (\<lambda>x. bet_sort_key (the_row (canonicalBet x))) bets)"
    by (rule distinct_keys[OF assms(3), where h = "\<lambda>p. (Str (fst p), snd p)"])
       (use assms(2) canonical_bet_row(2) in \<open>auto simp: inj_on_def prod_eq_iff\<close>)
qed

lemma sorted_settlements_order_free:
  assumes "mset rows' = mset rows" "\<forall>b \<in> set rows. settlement_row b" "distinct (map settlement_key rows)"
  shows "then_res (map_res canonicalSettlement rows') (sort_by (settlement_order lc))
    = then_res (map_res canonicalSettlement rows) (sort_by (settlement_order lc))"
proof (rule settlements.canonical_sort_order_free[where g = "\<lambda>b. the_row (canonicalSettlement b)", OF assms(1)])
  show "canonicalSettlement x = Inr (the_row (canonicalSettlement x))
      \<and> sortable_settlement (the_row (canonicalSettlement x))"
    if "x \<in> set rows" for x using canonical_settlement_row(1) assms(2) that by blast
  show "distinct (map (\<lambda>x. settlement_sort_key (the_row (canonicalSettlement x))) rows)"
    by (rule distinct_keys[OF assms(3), where h = "\<lambda>p. (Str (fst p), Str (snd p))"])
       (use assms(2) canonical_settlement_row(2) in \<open>auto simp: inj_on_def prod_eq_iff\<close>)
qed

end

lemma sorted_buybacks_order_free:
  assumes "mset rows' = mset rows" "\<forall>b \<in> set rows. buyback_row b" "distinct (map buyback_key rows)"
  shows "then_res (map_res canonicalBuyback rows') (sort_by buyback_order)
    = then_res (map_res canonicalBuyback rows) (sort_by buyback_order)"
proof (rule buybacks.canonical_sort_order_free[where g = "\<lambda>b. the_row (canonicalBuyback b)", OF assms(1)])
  show "canonicalBuyback x = Inr (the_row (canonicalBuyback x)) \<and> sortable_buyback (the_row (canonicalBuyback x))"
    if "x \<in> set rows" for x using canonical_buyback_row(1) assms(2) that by blast
  show "distinct (map (\<lambda>x. buyback_sort_key (the_row (canonicalBuyback x))) rows)"
    by (rule distinct_keys[OF assms(3), where h = id])
       (use assms(2) canonical_buyback_row(2) in \<open>auto\<close>)
qed

text \<open>
  C25. The archive of a round, and so its hash, is determined by the rows of the round: however the database
  orders the bets, settlements and buybacks it returns, the snapshot is the same, for every collation of
  the host, when no two bets share a receipt and square, no two settlements a receipt and status, and no
  two buybacks a sequence number.
\<close>

theorem buildArchiveSnapshot_order_free:
  assumes "collation lc"
    and "mset bets' = mset bets" "\<forall>b \<in> set bets. bet_row b" "distinct (map bet_key bets)"
    and "mset settlements' = mset settlements" "\<forall>e \<in> set settlements. settlement_row e"
      "distinct (map settlement_key settlements)"
    and "mset buybacks' = mset buybacks" "\<forall>e \<in> set buybacks. buyback_row e" "distinct (map buyback_key buybacks)"
  shows "buildArchiveSnapshot lc program rnd bets' settlements' buybacks'
    = buildArchiveSnapshot lc program rnd bets settlements buybacks"
  unfolding buildArchiveSnapshot_def
    collation.sorted_bets_order_free[OF assms(1-4)] collation.sorted_settlements_order_free[OF assms(1) assms(5-7)]
    sorted_buybacks_order_free[OF assms(8-10)] ..

definition demo_bet :: "string \<Rightarrow> int \<Rightarrow> jsval" where
  "demo_bet receipt square = Obj [(''round_id'', Str ''7''), (''receipt'', Str receipt), (''square'', IntV square),
     (''amount_wei'', Str ''100'')]"

definition demo_settlement :: "string \<Rightarrow> string \<Rightarrow> jsval" where
  "demo_settlement receipt status = Obj [(''round_id'', Str ''7''), (''receipt'', Str receipt),
     (''status'', Str status)]"

theorem buildArchiveSnapshot_order_free_witness:
  "is_ok (buildArchiveSnapshot code_compare (Str ''prog'') proof_row
      [demo_bet ''B'' 3, demo_bet ''A'' 9, demo_bet ''A'' 2]
      [demo_settlement ''B'' ''claimed'', demo_settlement ''A'' ''accrued''] [])
   \<and> buildArchiveSnapshot code_compare (Str ''prog'') proof_row [demo_bet ''B'' 3, demo_bet ''A'' 9, demo_bet ''A'' 2]
      [demo_settlement ''B'' ''claimed'', demo_settlement ''A'' ''accrued''] []
   = buildArchiveSnapshot code_compare (Str ''prog'') proof_row [demo_bet ''A'' 2, demo_bet ''A'' 9, demo_bet ''B'' 3]
      [demo_settlement ''A'' ''accrued'', demo_settlement ''B'' ''claimed''] []"
proof (rule conjI)
  show "is_ok (buildArchiveSnapshot code_compare (Str ''prog'') proof_row
      [demo_bet ''B'' 3, demo_bet ''A'' 9, demo_bet ''A'' 2]
      [demo_settlement ''B'' ''claimed'', demo_settlement ''A'' ''accrued''] [])" by code_simp
qed (rule buildArchiveSnapshot_order_free,
     simp_all add: code_units.collation_axioms demo_bet_def demo_settlement_def bet_row_def settlement_row_def
        bet_key_def settlement_key_def)

end
