(* ===== verification/Archive_Projection.thy ===== *)
theory Archive_Projection
  imports Round_Archive
begin

text \<open>
  \<open>Protocol/scripts/round-reconciliation-policy.mjs\<close>, first part: the validators of canonical fields, the
  projection of an archived snapshot, the digest of its participants and the comparison of a closed round
  with its archive. A projection is an object in the field order of the source.
\<close>

section \<open>Canonical fields\<close>

definition asBigInt :: "jsval \<Rightarrow> int res" where
  "asBigInt v = (if nullish v then Inr 0 else bigint_of_string (to_str v))"

definition projectionVector :: "jsval \<Rightarrow> int list res" where
  "projectionVector v = (case v of Arr xs \<Rightarrow> map_res asBigInt xs | _ \<Rightarrow> Inr [])"

definition ARCHIVE_SETTLEMENT_STATUSES :: "string list" where
  "ARCHIVE_SETTLEMENT_STATUSES = [''claimed'', ''accrued'', ''refunded'']"

definition RECEIPT_SETTLEMENT_STATUSES :: "string list" where
  "RECEIPT_SETTLEMENT_STATUSES = ARCHIVE_SETTLEMENT_STATUSES @ [''closed'']"

definition DEFAULT_CLOSED_PROOF_MAX_ROWS :: int where
  "DEFAULT_CLOSED_PROOF_MAX_ROWS = 100000"

definition map_ok :: "('a \<Rightarrow> 'b) \<Rightarrow> 'a res \<Rightarrow> 'b res" where
  "map_ok f r = then_res r (\<lambda>x. Inr (f x))"

definition requiredNonNegativeBigInt :: "jsval \<Rightarrow> string \<Rightarrow> int res" where
  "requiredNonNegativeBigInt v label =
     assert_ok (\<not> missing v) (label @ '' is missing'') (
     then_res (asBigInt v) (\<lambda>parsed.
     assert_ok (0 \<le> parsed) (label @ '' must be non-negative'') (Inr parsed)))"

definition requiredCanonicalNumeric :: "jsval \<Rightarrow> string \<Rightarrow> bool \<Rightarrow> jsval res" where
  "requiredCanonicalNumeric v label nullable = (if v = Null \<and> nullable then Inr Null
     else case v of
       Str s \<Rightarrow> assert_ok (canonical_numeric s) (label @ '' is invalid'') (Inr (Str s))
     | _ \<Rightarrow> Inl (AssertionError (label @ '' must be a canonical numeric string'')))"

definition requiredCanonicalText :: "jsval \<Rightarrow> string \<Rightarrow> bool \<Rightarrow> jsval res" where
  "requiredCanonicalText v label nullable = (if v = Null \<and> nullable then Inr Null
     else assert_ok (is_str v \<and> v \<noteq> Str []) (label @ '' is missing'') (Inr v))"

definition requiredCanonicalHex :: "jsval \<Rightarrow> string \<Rightarrow> bool \<Rightarrow> jsval res" where
  "requiredCanonicalHex v label nullable = (if v = Null \<and> nullable then Inr Null
     else assert_ok (case v of Str s \<Rightarrow> HEX_32 s | _ \<Rightarrow> False) (label @ '' is invalid'') (Inr v))"

definition requiredCanonicalBoolean :: "jsval \<Rightarrow> string \<Rightarrow> bool res" where
  "requiredCanonicalBoolean v label = (case v of Bool b \<Rightarrow> Inr b
     | _ \<Rightarrow> Inl (AssertionError (label @ '' must be boolean'')))"

definition requiredCanonicalSquare :: "jsval \<Rightarrow> bool \<Rightarrow> jsval res" where
  "requiredCanonicalSquare v resolved = (if \<not> resolved
     then assert_ok (v = Null) ''Unresolved archive winning_square must be null'' (Inr Null)
     else assert_ok (case integer_of v of None \<Rightarrow> False | Some n \<Rightarrow> 0 \<le> n \<and> n < 25)
       ''Resolved archive winning_square is invalid'' (Inr v))"

section \<open>The projection of an archived round\<close>

text \<open>An object literal whose fields are validated in order; the first failure is thrown.\<close>

definition build_fields :: "(string \<times> jsval res) list \<Rightarrow> (string \<times> jsval) list res" where
  "build_fields fs = map_res (\<lambda>f. then_res (snd f) (\<lambda>v. Inr (fst f, v))) fs"

definition round_projection_fields ::
  "jsval \<Rightarrow> string \<Rightarrow> bool \<Rightarrow> jsval \<Rightarrow> jsval \<Rightarrow> (string \<times> jsval res) list" where
  "round_projection_fields rnd roundId resolved randomnessValue randomnessHex =
     [(''round_id'', Inr (Str roundId)),
      (''rent_payer'', requiredCanonicalText (opt_member rnd ''rent_payer'') (''Archive round rent_payer'') False),
      (''opened_at'', requiredCanonicalNumeric (opt_member rnd ''opened_at'') (''Archive round opened_at'') False),
      (''betting_ends_at'', requiredCanonicalNumeric (opt_member rnd ''betting_ends_at'') (''Archive round betting_ends_at'') False),
      (''settles_at'', requiredCanonicalNumeric (opt_member rnd ''settles_at'') (''Archive round settles_at'') False),
      (''refund_at'', requiredCanonicalNumeric (opt_member rnd ''refund_at'') (''Archive round refund_at'') False),
      (''resolved'', Inr (Bool resolved)),
      (''winning_square'', requiredCanonicalSquare (opt_member rnd ''winning_square'') resolved),
      (''jackpot_hit'', map_ok Bool (requiredCanonicalBoolean (opt_member rnd ''jackpot_hit'') (''Archive round jackpot_hit''))),
      (''single_miner_round'', map_ok Bool (requiredCanonicalBoolean (opt_member rnd ''single_miner_round'') (''Archive round single_miner_round''))),
      (''winner'', requiredCanonicalText (opt_member rnd ''winner'') (''Archive round winner'') True),
      (''total_wager_wei'', requiredCanonicalNumeric (opt_member rnd ''total_wager_wei'') (''Archive round total_wager_wei'') False),
      (''winner_total_wei'', requiredCanonicalNumeric (opt_member rnd ''winner_total_wei'') (''Archive round winner_total_wei'') False),
      (''pot_for_winners_wei'', requiredCanonicalNumeric (opt_member rnd ''pot_for_winners_wei'') (''Archive round pot_for_winners_wei'') False),
      (''bullion_for_winners_wei'', requiredCanonicalNumeric (opt_member rnd ''bullion_for_winners_wei'') (''Archive round bullion_for_winners_wei'') False),
      (''payout_mul_wad'', requiredCanonicalNumeric (opt_member rnd ''payout_mul_wad'') (''Archive round payout_mul_wad'') False),
      (''total_fee_lamports'', requiredCanonicalNumeric (opt_member rnd ''total_fee_lamports'') (''Archive round total_fee_lamports'') (\<not> resolved)),
      (''staking_gross_lamports'', requiredCanonicalNumeric (opt_member rnd ''staking_gross_lamports'') (''Archive round staking_gross_lamports'') (\<not> resolved)),
      (''staking_admin_lamports'', requiredCanonicalNumeric (opt_member rnd ''staking_admin_lamports'') (''Archive round staking_admin_lamports'') (\<not> resolved)),
      (''staking_net_lamports'', requiredCanonicalNumeric (opt_member rnd ''staking_net_lamports'') (''Archive round staking_net_lamports'') (\<not> resolved)),
      (''buyback_lamports'', requiredCanonicalNumeric (opt_member rnd ''buyback_lamports'') (''Archive round buyback_lamports'') (\<not> resolved)),
      (''motherlode_fee_lamports'', requiredCanonicalNumeric (opt_member rnd ''motherlode_fee_lamports'') (''Archive round motherlode_fee_lamports'') (\<not> resolved)),
      (''mining_admin_lamports'', requiredCanonicalNumeric (opt_member rnd ''mining_admin_lamports'') (''Archive round mining_admin_lamports'') (\<not> resolved)),
      (''admin_total_lamports'', requiredCanonicalNumeric (opt_member rnd ''admin_total_lamports'') (''Archive round admin_total_lamports'') (\<not> resolved)),
      (''admin_fee_wallet'', requiredCanonicalText (opt_member rnd ''admin_fee_wallet'') (''Archive round admin_fee_wallet'') (\<not> resolved)),
      (''randomness_id'', requiredCanonicalText (opt_member rnd ''randomness_id'') (''Archive round randomness_id'') True),
      (''randomness_value'', Inr randomnessValue),
      (''randomness_hex'', Inr randomnessHex),
      (''randomness_commit_slot'', requiredCanonicalNumeric (opt_member rnd ''randomness_commit_slot'') (''Archive round randomness_commit_slot'') True),
      (''solo_sample'', requiredCanonicalNumeric (opt_member rnd ''solo_sample'') (''Archive round solo_sample'') False),
      (''total_receipts'', requiredCanonicalNumeric (opt_member rnd ''total_receipts'') (''Archive round total_receipts'') False),
      (''processed_receipts'', requiredCanonicalNumeric (opt_member rnd ''processed_receipts'') (''Archive round processed_receipts'') False),
      (''settlement_signature'', requiredCanonicalText (opt_member rnd ''settlement_signature'') (''Archive round settlement_signature'') (\<not> resolved)),
      (''settlement_slot'', requiredCanonicalNumeric (opt_member rnd ''settlement_slot'') (''Archive round settlement_slot'') (\<not> resolved)),
      (''buyback_completed'', Inr (Bool resolved))]"

definition field :: "(string \<times> jsval) list \<Rightarrow> string \<Rightarrow> jsval" where
  "field p k = opt_member (Obj p) k"

text \<open>\<open>Object.assign(projection, fields)\<close>\<close>

definition object_assign :: "(string \<times> jsval) list \<Rightarrow> (string \<times> jsval) list \<Rightarrow> (string \<times> jsval) list" where
  "object_assign p fs = fold (\<lambda>(k, v). put_field k v) fs p"

text \<open>The checks on timing, receipts and randomness that hold for every projection.\<close>

definition check_projection_shape :: "(string \<times> jsval) list \<Rightarrow> 'a res \<Rightarrow> 'a res" where
  "check_projection_shape p k =
     then_res (to_bigint (field p ''opened_at'')) (\<lambda>opened.
     then_res (to_bigint (field p ''betting_ends_at'')) (\<lambda>betting_ends.
     then_res (to_bigint (field p ''settles_at'')) (\<lambda>settles.
     then_res (to_bigint (field p ''refund_at'')) (\<lambda>refund.
     assert_ok (opened \<le> betting_ends \<and> betting_ends \<le> settles \<and> settles \<le> refund)
       ''Archive round timing is invalid'' (
     assert_ok (field p ''processed_receipts'' = field p ''total_receipts'')
       ''Archive round was captured before every receipt was processed'' (
     if field p ''randomness_hex'' \<noteq> Null \<or> field p ''randomness_value'' \<noteq> Null
     then assert_ok (field p ''randomness_hex'' \<noteq> Null \<and> field p ''randomness_value'' \<noteq> Null)
         ''Archive randomness output is incomplete'' (
       then_res (bigint_of_string (''0x'' @ to_str (field p ''randomness_hex''))) (\<lambda>n.
       assert_ok (Str (show_int n) = field p ''randomness_value'')
         ''Archive randomness numeric and hex outputs disagree'' k))
     else k))))))"

definition UNRESOLVED_ZERO_FIELDS :: "string list" where
  "UNRESOLVED_ZERO_FIELDS = [''total_wager_wei'', ''winner_total_wei'', ''pot_for_winners_wei'',
     ''bullion_for_winners_wei'', ''payout_mul_wad'', ''solo_sample'']"

definition UNRESOLVED_FEE_FIELDS :: "string list" where
  "UNRESOLVED_FEE_FIELDS = [''total_fee_lamports'', ''staking_gross_lamports'', ''staking_admin_lamports'',
     ''staking_net_lamports'', ''buyback_lamports'', ''motherlode_fee_lamports'', ''mining_admin_lamports'',
     ''admin_total_lamports'']"

definition check_unresolved :: "(string \<times> jsval) list \<Rightarrow> 'a res \<Rightarrow> 'a res" where
  "check_unresolved p k =
     assert_ok (field p ''jackpot_hit'' = Bool False) ''Unresolved archive cannot record a jackpot'' (
     assert_ok (field p ''single_miner_round'' = Bool False) ''Unresolved archive cannot record solo mode'' (
     assert_ok (field p ''winner'' = Null) ''Unresolved archive cannot record a winner'' (
     then_res (fold_res (\<lambda>f _. assert_ok (field p f = Str ''0'')
         (''Unresolved archive '' @ f @ '' must be zero'') (Inr ())) UNRESOLVED_ZERO_FIELDS ()) (\<lambda>_.
     then_res (fold_res (\<lambda>f _. assert_ok (field p f = Null \<or> field p f = Str ''0'')
         (''Unresolved archive '' @ f @ '' must be null or zero'') (Inr ())) UNRESOLVED_FEE_FIELDS ()) (\<lambda>_.
     assert_ok (field p ''admin_fee_wallet'' = Null) ''Unresolved archive cannot record a fee recipient'' (
     assert_ok (field p ''randomness_hex'' = Null) ''Unresolved archive cannot record a randomness output'' (
     assert_ok (field p ''randomness_value'' = Null) ''Unresolved archive cannot record a randomness value'' k)))))))"

definition plain_object :: "jsval \<Rightarrow> bool" where
  "plain_object v = (truthy v \<and> is_object v)"

definition has_field :: "jsval \<Rightarrow> string \<Rightarrow> bool" where
  "has_field v k = (case v of Obj fs \<Rightarrow> k \<in> fst ` set fs | _ \<Rightarrow> False)"

text \<open>The provider fields of a version 2 and of a version 3 snapshot.\<close>

definition assign_switchboard :: "jsval \<Rightarrow> (string \<times> jsval) list \<Rightarrow> (string \<times> jsval) list res" where
  "assign_switchboard snapshot p =
     assert_ok (\<not> has_field snapshot ''randomness_proof'')
       ''Version 2 archive snapshot must not contain server proof fields'' (
     Inr (object_assign p
     [(''randomness_provider_kind'', Str SWITCHBOARD_PROVIDER_KIND),
      (''randomness_commitment_hex'', Null),
      (''randomness_reveal_hex'', Null),
      (''randomness_target_slot'', Null),
      (''randomness_entropy_slot'', Null),
      (''randomness_entropy_hash_hex'', Null),
      (''randomness_commitment_signature'', Null),
      (''randomness_commitment_tx_slot'', Null),
      (''randomness_lock_signature'', Null),
      (''randomness_lock_tx_slot'', Null),
      (''randomness_reveal_signature'', Null),
      (''randomness_reveal_tx_slot'', Null)]))"

definition server_projection_fields :: "jsval \<Rightarrow> bool \<Rightarrow> (string \<times> jsval res) list" where
  "server_projection_fields pf resolved =
     [(''randomness_provider_kind'', Inr (Str SERVER_PROVIDER_KIND)),
      (''randomness_id'', Inr Null), (''randomness_commit_slot'', Inr Null),
      (''randomness_commitment_hex'', requiredCanonicalHex (opt_member pf ''commitment_hex'') (''Archive proof commitment_hex'') (\<not> resolved)),
      (''randomness_reveal_hex'', requiredCanonicalHex (opt_member pf ''reveal_hex'') (''Archive proof reveal_hex'') (\<not> resolved)),
      (''randomness_target_slot'', requiredCanonicalNumeric (opt_member pf ''target_slot'') (''Archive proof target_slot'') (\<not> resolved)),
      (''randomness_entropy_slot'', requiredCanonicalNumeric (opt_member pf ''entropy_slot'') (''Archive proof entropy_slot'') (\<not> resolved)),
      (''randomness_entropy_hash_hex'', requiredCanonicalHex (opt_member pf ''entropy_hash_hex'') (''Archive proof entropy_hash_hex'') (\<not> resolved)),
      (''randomness_commitment_signature'', requiredCanonicalText (opt_member pf ''commitment_signature'') (''Archive proof commitment_signature'') (\<not> resolved)),
      (''randomness_commitment_tx_slot'', requiredCanonicalNumeric (opt_member pf ''commitment_tx_slot'') (''Archive proof commitment_tx_slot'') (\<not> resolved)),
      (''randomness_lock_signature'', requiredCanonicalText (opt_member pf ''lock_signature'') (''Archive proof lock_signature'') (\<not> resolved)),
      (''randomness_lock_tx_slot'', requiredCanonicalNumeric (opt_member pf ''lock_tx_slot'') (''Archive proof lock_tx_slot'') (\<not> resolved)),
      (''randomness_reveal_signature'', requiredCanonicalText (opt_member pf ''reveal_signature'') (''Archive proof reveal_signature'') (\<not> resolved)),
      (''randomness_reveal_tx_slot'', requiredCanonicalNumeric (opt_member pf ''reveal_tx_slot'') (''Archive proof reveal_tx_slot'') (\<not> resolved))]"

definition assign_server :: "jsval \<Rightarrow> bool \<Rightarrow> (string \<times> jsval) list \<Rightarrow> (string \<times> jsval) list res" where
  "assign_server snapshot resolved p = (let pf = opt_member snapshot ''randomness_proof'' in
     assert_ok (plain_object pf) ''Version 3 archive snapshot is missing its server proof'' (
     assert_ok (opt_member pf ''provider_kind'' = Str SERVER_PROVIDER_KIND)
       ''Archive server proof provider is invalid'' (
     then_res (build_fields (server_projection_fields pf resolved)) (\<lambda>fs.
     let q = object_assign p fs in
     assert_ok (opt_member pf ''randomness_hex'' = field q ''randomness_hex'')
       ''Archive proof randomness output disagrees with its round'' (
     assert_ok (opt_member pf ''settlement_signature'' = field q ''settlement_signature'')
       ''Archive proof settlement signature disagrees with its round'' (
     assert_ok (opt_member pf ''settlement_slot'' = field q ''settlement_slot'')
       ''Archive proof settlement slot disagrees with its round'' (Inr q)))))))"

text \<open>The economics of a resolved round: fees, prize and payout multiplier agree.\<close>

definition check_resolved ::
  "(bytes \<Rightarrow> bytes) \<Rightarrow> bytes option \<Rightarrow> bytes option \<Rightarrow> (string \<times> jsval) list \<Rightarrow> (string \<times> jsval) list res" where
  "check_resolved sha256 programIdBytes mintBytes p =
     then_res (requireRoundFeeAudit (Obj p)) (\<lambda>fees.
     then_res (to_bigint (field p ''total_wager_wei'')) (\<lambda>gross.
     then_res (to_bigint (field p ''winner_total_wei'')) (\<lambda>winningTotal.
     then_res (to_bigint (field p ''pot_for_winners_wei'')) (\<lambda>prize.
     assert_ok (winningTotal \<le> gross) ''Archive winner total exceeds the deployed total'' (
     assert_ok (total_fee_lamports fees \<le> gross) ''Archive mining fee exceeds the deployed total'' (
     assert_ok (prize = (if 0 < winningTotal then gross - total_fee_lamports fees else 0))
       ''Archive winner prize disagrees with the fee-adjusted deployed total'' (
     then_res (to_bigint (field p ''payout_mul_wad'')) (\<lambda>payout.
     assert_ok (payout = (if 0 < winningTotal then big_div (prize * 10 ^ 18) winningTotal else 0))
       ''Archive payout multiplier disagrees with the winner pool'' (
     then_res (requireRoundRandomnessProof sha256 (Obj p) programIdBytes mintBytes) (\<lambda>_. Inr p))))))))))"

definition archivedSnapshotRoundProjection ::
  "(bytes \<Rightarrow> bytes) \<Rightarrow> jsval \<Rightarrow> jsval \<Rightarrow> jsval \<Rightarrow> bytes option \<Rightarrow> bytes option \<Rightarrow> (string \<times> jsval) list res" where
  "archivedSnapshotRoundProjection sha256 snapshot programId expectedRoundId programIdBytes mintBytes =
     assert_ok (plain_object snapshot) ''Archive snapshot must be an object'' (
     let version = opt_member snapshot ''version'' in
     assert_ok (version = IntV 2 \<or> version = IntV 3) ''Archive snapshot version is unsupported'' (
     assert_ok (opt_member snapshot ''program'' = programId) ''Archive snapshot program is invalid'' (
     let rnd = opt_member snapshot ''round'' in
     assert_ok (plain_object rnd) ''Archive snapshot round is missing'' (
     then_res (requiredCanonicalNumeric (opt_member rnd ''round_id'') ''Archive round round_id'' False) (\<lambda>rid.
     let roundId = to_str rid in
     assert_ok (roundId = to_str expectedRoundId) ''Archive snapshot round id is invalid'' (
     then_res (requiredCanonicalBoolean (opt_member rnd ''resolved'') ''Archive round resolved'') (\<lambda>resolved.
     then_res (requiredCanonicalHex (opt_member rnd ''randomness_hex'') ''Archive round randomness_hex'' True)
       (\<lambda>randomnessHex.
     then_res (canonicalRandomnessValue (opt_member rnd ''randomness_value'') randomnessHex) (\<lambda>randomnessValue.
     then_res (build_fields (round_projection_fields rnd roundId resolved randomnessValue randomnessHex)) (\<lambda>p.
     check_projection_shape p (
     (if resolved then (\<lambda>k. k) else check_unresolved p) (
     then_res (if version = IntV 2 then assign_switchboard snapshot p else assign_server snapshot resolved p) (\<lambda>q.
     if resolved then check_resolved sha256 programIdBytes mintBytes q else Inr q)))))))))))))"

definition randomnessProjectionValueMatches :: "jsval \<Rightarrow> jsval \<Rightarrow> bool" where
  "randomnessProjectionValueMatches indexedRound canonicalProjection =
     (let expectedHex = coalesce (opt_member canonicalProjection ''randomness_hex'') Null;
          expectedValue = coalesce (opt_member canonicalProjection ''randomness_value'') Null in
      if expectedHex = Null \<or> expectedValue = Null then
        expectedHex = Null \<and> expectedValue = Null
        \<and> coalesce (opt_member indexedRound ''randomness_hex'') Null = Null
        \<and> coalesce (opt_member indexedRound ''randomness_value'') Null = Null
      else if opt_member indexedRound ''randomness_hex'' \<noteq> expectedHex then False
      else or_else (then_res (canonicalRandomnessValue (opt_member indexedRound ''randomness_value'') expectedHex) (\<lambda>a.
             then_res (canonicalRandomnessValue expectedValue expectedHex) (\<lambda>b. Inr (a = b)))) False)"

section \<open>The participant digest\<close>

record bet_scan =
  participantReceipts :: "string set"
  betKeys :: "string set"
  tileLamports :: "int list"
  tileReceiptSets :: "string set list"

definition empty_bet_scan :: bet_scan where
  "empty_bet_scan = \<lparr>participantReceipts = {}, betKeys = {}, tileLamports = replicate 25 0,
     tileReceiptSets = replicate 25 {}\<rparr>"

definition text_or_empty :: "jsval \<Rightarrow> string" where
  "text_or_empty v = to_str (coalesce v (Str []))"

text \<open>\<open>Number(v)\<close> when it is an integer with \<open>0 <= n < 25\<close>.\<close>

definition board_square :: "jsval \<Rightarrow> nat option" where
  "board_square v = (case integer_of (Num (to_num v)) of None \<Rightarrow> None
     | Some n \<Rightarrow> if 0 \<le> n \<and> n < 25 then Some (nat n) else None)"

text \<open>The body of the loop over \<open>snapshot.bets\<close>.\<close>

definition scan_bet :: "string \<Rightarrow> jsval \<Rightarrow> bet_scan \<Rightarrow> bet_scan res" where
  "scan_bet roundId bet st =
     assert_ok (text_or_empty (opt_member bet ''round_id'') = roundId) ''Archive bet belongs to a different round'' (
     let receipt = text_or_empty (opt_member bet ''receipt'') in
     assert_ok (receipt \<noteq> []) ''Archive bet receipt is missing'' (
     case board_square (opt_member bet ''square'') of
       None \<Rightarrow> Inl (AssertionError ''Archive bet square is invalid'')
     | Some square \<Rightarrow>
     then_res (requiredNonNegativeBigInt (opt_member bet ''amount_wei'') ''Archive bet amount'') (\<lambda>amount.
     assert_ok (0 < amount) ''Archive bet amount must be positive'' (
     let key = receipt @ '':'' @ show_nat square in
     assert_ok (key \<notin> betKeys st) ''Archive snapshot contains a duplicate bet row'' (
     Inr \<lparr>participantReceipts = insert receipt (participantReceipts st), betKeys = insert key (betKeys st),
          tileLamports = (tileLamports st)[square := tileLamports st ! square + amount],
          tileReceiptSets = (tileReceiptSets st)[square := insert receipt (tileReceiptSets st ! square)]\<rparr>)))))"

record settlement_scan =
  processedReceipts :: "string set"
  processedStatusByReceipt :: "string \<rightharpoonup> string"
  settlementKeys :: "string set"

definition scan_settlement :: "string \<Rightarrow> string set \<Rightarrow> jsval \<Rightarrow> settlement_scan \<Rightarrow> settlement_scan res" where
  "scan_settlement roundId participants settlement st =
     assert_ok (text_or_empty (opt_member settlement ''round_id'') = roundId)
       ''Archive settlement belongs to a different round'' (
     let receipt = text_or_empty (opt_member settlement ''receipt'') in
     assert_ok (receipt \<noteq> []) ''Archive settlement receipt is missing'' (
     assert_ok (receipt \<in> participants) ''Archive settlement has no participant receipt'' (
     let status = text_or_empty (opt_member settlement ''status'') in
     assert_ok (status \<in> set ARCHIVE_SETTLEMENT_STATUSES) ''Archive settlement status is not lifecycle-final'' (
     assert_ok (processedStatusByReceipt st receipt = None \<or> processedStatusByReceipt st receipt = Some status)
       ''Archive receipt has contradictory lifecycle-final statuses'' (
     let key = receipt @ '':'' @ status in
     assert_ok (key \<notin> settlementKeys st) ''Archive snapshot contains a duplicate settlement row'' (
     Inr \<lparr>processedReceipts = insert receipt (processedReceipts st),
          processedStatusByReceipt = (processedStatusByReceipt st)(receipt \<mapsto> status),
          settlementKeys = insert key (settlementKeys st)\<rparr>))))))"

record projection_digest =
  digest_round_id :: string
  indexed_total_receipts :: int
  indexed_processed_receipts :: int
  indexed_tile_lamports :: "int list"
  indexed_tile_receipts :: "int list"

fun elements :: "jsval \<Rightarrow> jsval list option" where
  "elements (Arr xs) = Some xs"
| "elements _ = None"

definition require_array :: "jsval \<Rightarrow> string \<Rightarrow> (jsval list \<Rightarrow> 'a res) \<Rightarrow> 'a res" where
  "require_array v msg k = (case elements v of None \<Rightarrow> Inl (AssertionError msg) | Some xs \<Rightarrow> k xs)"

text \<open>\<open>Number.isInteger(maxRows) && maxRows > 0 && maxRows <= 250_000\<close>\<close>

definition row_bound :: "jsval \<Rightarrow> int \<Rightarrow> string \<Rightarrow> (int \<Rightarrow> 'a res) \<Rightarrow> 'a res" where
  "row_bound v cap msg k = (case integer_of v of None \<Rightarrow> Inl (AssertionError msg)
     | Some n \<Rightarrow> assert_ok (0 < n \<and> n \<le> cap) msg (k n))"

definition participant_digest :: "jsval \<Rightarrow> jsval list \<Rightarrow> jsval list \<Rightarrow> projection_digest res" where
  "participant_digest rnd bets settlements =
     (let roundId = text_or_empty (opt_member rnd ''round_id'') in
     assert_ok (canonical_numeric roundId) ''Archive snapshot round id is invalid'' (
     then_res (fold_res (scan_bet roundId) bets empty_bet_scan) (\<lambda>b.
     then_res (fold_res (scan_settlement roundId (participantReceipts b)) settlements
         \<lparr>processedReceipts = {}, processedStatusByReceipt = Map.empty, settlementKeys = {}\<rparr>) (\<lambda>s.
     let totalReceipts = int (card (participantReceipts b)); processed = int (card (processedReceipts s)) in
     then_res (requiredNonNegativeBigInt (opt_member rnd ''total_receipts'') ''Archive round total_receipts'') (\<lambda>t.
     assert_ok (t = totalReceipts) ''Archive participant count disagrees with its round snapshot'' (
     then_res (requiredNonNegativeBigInt (opt_member rnd ''processed_receipts'') ''Archive round processed_receipts'') (\<lambda>q.
     assert_ok (q = processed) ''Archive settlement count disagrees with its round snapshot'' (
     assert_ok (processed = totalReceipts) ''Archive snapshot was created before every receipt was processed'' (
     Inr \<lparr>digest_round_id = roundId, indexed_total_receipts = totalReceipts, indexed_processed_receipts = processed,
          indexed_tile_lamports = tileLamports b,
          indexed_tile_receipts = map (\<lambda>receipts. int (card receipts)) (tileReceiptSets b)\<rparr>)))))))))"

definition archivedSnapshotProjectionDigest :: "jsval \<Rightarrow> jsval \<Rightarrow> projection_digest res" where
  "archivedSnapshotProjectionDigest snapshot maxRows =
     assert_ok (plain_object snapshot) ''Archive snapshot must be an object'' (
     let version = opt_member snapshot ''version''; program = opt_member snapshot ''program'';
         rnd = opt_member snapshot ''round'' in
     assert_ok (version = IntV 2 \<or> version = IntV 3) ''Archive snapshot version is unsupported'' (
     assert_ok (is_str program \<and> program \<noteq> Str []) ''Archive snapshot program is missing'' (
     assert_ok (plain_object rnd) ''Archive snapshot round is missing'' (
     require_array (opt_member snapshot ''bets'') ''Archive snapshot bets are missing'' (\<lambda>bets.
     require_array (opt_member snapshot ''settlements'') ''Archive snapshot settlements are missing'' (\<lambda>settlements.
     require_array (opt_member snapshot ''buybacks'') ''Archive snapshot buybacks are missing'' (\<lambda>_.
     row_bound (with_default maxRows (IntV DEFAULT_CLOSED_PROOF_MAX_ROWS)) 250000
       ''Closed archive proof row bound must be 1..250000'' (\<lambda>cap.
     assert_ok (int (length bets + length settlements) \<le> cap)
       ''Closed archive proof exceeds the reviewed participant row bound'' (
     assert_ok (if version = IntV 2 then \<not> has_field snapshot ''randomness_proof''
         else let pf = opt_member snapshot ''randomness_proof'' in
           truthy pf \<and> (is_object pf \<or> elements pf \<noteq> None))
       (if version = IntV 2 then ''Version 2 archive snapshot must not contain server proof fields''
        else ''Version 3 archive snapshot is missing its server proof'') (
     participant_digest rnd bets settlements))))))))))"

section \<open>Verification of a stored archive\<close>

definition verifiedArchivedRoundProjection ::
  "(bytes \<Rightarrow> bytes) \<Rightarrow> jsval \<Rightarrow> jsval \<Rightarrow> jsval \<Rightarrow> bytes option \<Rightarrow> bytes option \<Rightarrow> jsval
     \<Rightarrow> ((string \<times> jsval) list \<times> projection_digest) res" where
  "verifiedArchivedRoundProjection sha256 programId indexedRound storedProof programIdBytes mintBytes maxRows =
     assert_ok (truthy indexedRound \<and> truthy storedProof) ''Archived round evidence is missing'' (
     assert_ok (opt_member indexedRound ''archive_verified'' = Bool True) ''Archive was not verified on chain'' (
     let expectedRoundId = text_or_empty (opt_member indexedRound ''round_id'') in
     assert_ok (text_or_empty (opt_member storedProof ''round_id'') = expectedRoundId)
       ''Stored archive proof belongs to a different round'' (
     let storedHash = text_or_empty (opt_member storedProof ''archive_hash'') in
     assert_ok (HEX_32 storedHash) ''Stored archive hash is invalid'' (
     assert_ok (text_or_empty (opt_member indexedRound ''archive_hash'') = storedHash)
       ''Stored and indexed archive hashes disagree'' (
     let bound = with_default maxRows (IntV DEFAULT_CLOSED_PROOF_MAX_ROWS) in
     row_bound bound 250000 ''Closed archive proof row bound must be 1..250000'' (\<lambda>cap.
     let snapshot = opt_member storedProof ''canonical_snapshot'' in
     assert_ok (plain_object snapshot) ''Archive snapshot is missing'' (
     require_array (opt_member snapshot ''bets'') ''Archive snapshot row collections are missing'' (\<lambda>bets.
     require_array (opt_member snapshot ''settlements'') ''Archive snapshot row collections are missing'' (\<lambda>settlements.
     require_array (opt_member snapshot ''buybacks'') ''Archive snapshot row collections are missing'' (\<lambda>buybacks.
     assert_ok (int (length bets + length settlements + length buybacks) \<le> cap)
       ''Archive snapshot exceeds the reviewed total row bound'' (
     then_res (archiveHash sha256 snapshot) (\<lambda>h.
     assert_ok (h = storedHash) ''Archive snapshot hash is invalid'' (
     then_res (archivedSnapshotRoundProjection sha256 snapshot programId (Str expectedRoundId) programIdBytes mintBytes)
       (\<lambda>roundProjection.
     then_res (archivedSnapshotProjectionDigest snapshot bound) (\<lambda>participantProjection.
     Inr (roundProjection, participantProjection))))))))))))))))"

text \<open>One turn of the comparison over \<open>Object.entries(roundProjection)\<close>.\<close>

definition projected_field_matches :: "jsval \<Rightarrow> (string \<times> jsval) list \<Rightarrow> string \<times> jsval \<Rightarrow> bool" where
  "projected_field_matches indexedRound roundProjection entry = (case entry of (f, expected) \<Rightarrow>
     if f = ''randomness_value'' then randomnessProjectionValueMatches indexedRound (Obj roundProjection)
     else case expected of
       Bool b \<Rightarrow> opt_member indexedRound f = Bool b
     | Null \<Rightarrow> opt_member indexedRound f = Null
     | _ \<Rightarrow> to_str (opt_member indexedRound f) = to_str expected)"

definition roundProjectionMatchesArchivedProof ::
  "(bytes \<Rightarrow> bytes) \<Rightarrow> jsval \<Rightarrow> jsval \<Rightarrow> jsval \<Rightarrow> jsval \<Rightarrow> bytes option \<Rightarrow> bytes option \<Rightarrow> jsval \<Rightarrow> bool" where
  "roundProjectionMatchesArchivedProof sha256 programId indexedRound storedProof indexedProjection
       programIdBytes mintBytes maxRows =
     or_else (
       if \<not> truthy indexedRound \<or> \<not> truthy storedProof \<or> \<not> truthy indexedProjection then Inr False
       else if \<not> truthy (opt_member indexedRound ''closed_signature'') then Inr False
       else then_res (asBigInt (opt_member indexedRound ''closed_slot'')) (\<lambda>closedSlot.
       if closedSlot \<le> 0 then Inr False
       else then_res (verifiedArchivedRoundProjection sha256 programId indexedRound storedProof
           programIdBytes mintBytes maxRows) (\<lambda>(roundProjection, archived).
       if \<not> list_all (projected_field_matches indexedRound roundProjection) roundProjection then Inr False
       else then_res (asBigInt (opt_member indexedRound ''closed_receipts'')) (\<lambda>closedReceipts.
       if closedReceipts \<noteq> indexed_total_receipts archived then Inr False
       else then_res (projectionVector (opt_member indexedProjection ''indexed_tile_lamports'')) (\<lambda>databaseLamports.
       then_res (projectionVector (opt_member indexedProjection ''indexed_tile_receipts'')) (\<lambda>databaseReceipts.
       if length databaseLamports \<noteq> 25 \<or> length databaseReceipts \<noteq> 25 then Inr False
       else then_res (asBigInt (opt_member indexedProjection ''indexed_total_receipts'')) (\<lambda>total.
       if total \<noteq> indexed_total_receipts archived then Inr False
       else then_res (asBigInt (opt_member indexedProjection ''indexed_processed_receipts'')) (\<lambda>processed.
       if processed \<noteq> indexed_processed_receipts archived then Inr False
       else then_res (asBigInt (opt_member indexedProjection ''indexed_closed_receipts'')) (\<lambda>closed.
       if closed \<noteq> indexed_total_receipts archived then Inr False
       else Inr (list_all (\<lambda>square. databaseLamports ! square = indexed_tile_lamports archived ! square
           \<and> databaseReceipts ! square = indexed_tile_receipts archived ! square) [0..<25])))))))))) False"

section \<open>What an accepted digest says\<close>

definition receipt_of :: "jsval \<Rightarrow> string" where
  "receipt_of row = text_or_empty (opt_member row ''receipt'')"

definition status_of :: "jsval \<Rightarrow> string" where
  "status_of row = text_or_empty (opt_member row ''status'')"

definition square_of :: "jsval \<Rightarrow> nat option" where
  "square_of bet = board_square (opt_member bet ''square'')"

definition amount_of :: "jsval \<Rightarrow> int" where
  "amount_of bet = or_else (asBigInt (opt_member bet ''amount_wei'')) 0"

lemma board_square_less: "board_square v = Some n \<Longrightarrow> n < 25"
  by (auto simp: board_square_def split: option.splits if_splits)

lemma requiredNonNegativeBigInt_Inr [res_simps]:
  "requiredNonNegativeBigInt v l = Inr n \<longleftrightarrow> \<not> missing v \<and> asBigInt v = Inr n \<and> 0 \<le> n"
  by (auto simp: requiredNonNegativeBigInt_def res_simps)

lemma scan_bet_Inr:
  assumes "scan_bet rid bet st = Inr st'"
  obtains sq where "square_of bet = Some sq" "0 < amount_of bet" "receipt_of bet \<noteq> []"
    "text_or_empty (opt_member bet ''round_id'') = rid"
    "participantReceipts st' = insert (receipt_of bet) (participantReceipts st)"
    "tileLamports st' = (tileLamports st)[sq := tileLamports st ! sq + amount_of bet]"
    "tileReceiptSets st' = (tileReceiptSets st)[sq := insert (receipt_of bet) (tileReceiptSets st ! sq)]"
  using assms unfolding scan_bet_def Let_def
  by (auto simp: res_simps receipt_of_def square_of_def amount_of_def split: option.splits)

definition tile_amount :: "nat \<Rightarrow> jsval list \<Rightarrow> int" where
  "tile_amount sq bets = (\<Sum>b \<leftarrow> bets. if square_of b = Some sq then amount_of b else 0)"

definition tile_receipts :: "nat \<Rightarrow> jsval list \<Rightarrow> string set" where
  "tile_receipts sq bets = receipt_of ` {b \<in> set bets. square_of b = Some sq}"

lemma tile_amount_snoc:
  "tile_amount sq (bets @ [b]) = tile_amount sq bets + (if square_of b = Some sq then amount_of b else 0)"
  by (simp add: tile_amount_def)

lemma tile_receipts_snoc:
  "tile_receipts sq (bets @ [b])
     = (if square_of b = Some sq then insert (receipt_of b) (tile_receipts sq bets) else tile_receipts sq bets)"
  by (auto simp: tile_receipts_def)

lemma scan_bets:
  assumes "fold_res (scan_bet rid) bets empty_bet_scan = Inr st"
  shows "participantReceipts st = receipt_of ` set bets
    \<and> length (tileLamports st) = 25 \<and> length (tileReceiptSets st) = 25
    \<and> (\<forall>sq < 25. tileLamports st ! sq = tile_amount sq bets \<and> tileReceiptSets st ! sq = tile_receipts sq bets)
    \<and> (\<forall>b \<in> set bets. square_of b \<noteq> None \<and> 0 < amount_of b \<and> text_or_empty (opt_member b ''round_id'') = rid)"
  using assms
proof (induction bets arbitrary: st rule: rev_induct)
  case Nil
  then show ?case by (auto simp: empty_bet_scan_def tile_amount_def tile_receipts_def)
next
  case (snoc b bets)
  then obtain s1 where s1: "fold_res (scan_bet rid) bets empty_bet_scan = Inr s1" "scan_bet rid b s1 = Inr st"
    by (auto simp: fold_res_append res_simps)
  note IH = snoc.IH[OF s1(1)]
  obtain sq where sq: "square_of b = Some sq" "0 < amount_of b" "receipt_of b \<noteq> []"
    "text_or_empty (opt_member b ''round_id'') = rid"
    "participantReceipts st = insert (receipt_of b) (participantReceipts s1)"
    "tileLamports st = (tileLamports s1)[sq := tileLamports s1 ! sq + amount_of b]"
    "tileReceiptSets st = (tileReceiptSets s1)[sq := insert (receipt_of b) (tileReceiptSets s1 ! sq)]"
    using scan_bet_Inr[OF s1(2)] by blast
  have "sq < 25" using sq(1) board_square_less by (simp add: square_of_def)
  then show ?case using IH sq by (auto simp: tile_amount_snoc tile_receipts_snoc nth_list_update)
qed

lemma scan_settlements:
  assumes "fold_res (scan_settlement rid ps) rows
    \<lparr>processedReceipts = {}, processedStatusByReceipt = Map.empty, settlementKeys = {}\<rparr> = Inr st"
  shows "processedReceipts st = receipt_of ` set rows \<and> receipt_of ` set rows \<subseteq> ps
    \<and> (\<forall>r \<in> set rows. processedStatusByReceipt st (receipt_of r) = Some (status_of r)
         \<and> status_of r \<in> set ARCHIVE_SETTLEMENT_STATUSES)
    \<and> settlementKeys st = (\<lambda>r. receipt_of r @ '':'' @ status_of r) ` set rows
    \<and> distinct (map (\<lambda>r. receipt_of r @ '':'' @ status_of r) rows)"
  using assms
proof (induction rows arbitrary: st rule: rev_induct)
  case Nil
  then show ?case by auto
next
  case (snoc x rows)
  then obtain s1 where s1: "fold_res (scan_settlement rid ps) rows
      \<lparr>processedReceipts = {}, processedStatusByReceipt = Map.empty, settlementKeys = {}\<rparr> = Inr s1"
    "scan_settlement rid ps x s1 = Inr st"
    by (auto simp: fold_res_append res_simps)
  note IH = snoc.IH[OF s1(1)]
  have x: "receipt_of x \<in> ps" "status_of x \<in> set ARCHIVE_SETTLEMENT_STATUSES"
    "processedStatusByReceipt s1 (receipt_of x) = None \<or> processedStatusByReceipt s1 (receipt_of x) = Some (status_of x)"
    "receipt_of x @ '':'' @ status_of x \<notin> settlementKeys s1"
    "processedReceipts st = insert (receipt_of x) (processedReceipts s1)"
    "processedStatusByReceipt st = (processedStatusByReceipt s1)(receipt_of x \<mapsto> status_of x)"
    "settlementKeys st = insert (receipt_of x @ '':'' @ status_of x) (settlementKeys s1)"
    using s1(2) unfolding scan_settlement_def Let_def
    by (auto simp: res_simps receipt_of_def status_of_def)
  have "status_of r = status_of x" if "r \<in> set rows" "receipt_of r = receipt_of x" for r
    using IH x(3) that by force
  then show ?case using IH x by auto
qed

lemma digest_exact:
  assumes "archivedSnapshotProjectionDigest snapshot maxRows = Inr d"
  shows "\<exists>bets settlements. opt_member snapshot ''bets'' = Arr bets \<and> opt_member snapshot ''settlements'' = Arr settlements
    \<and> length (indexed_tile_lamports d) = 25
    \<and> (\<forall>sq < 25. indexed_tile_lamports d ! sq = tile_amount sq bets
         \<and> indexed_tile_receipts d ! sq = int (card (tile_receipts sq bets)))
    \<and> indexed_total_receipts d = int (card (receipt_of ` set bets))
    \<and> indexed_processed_receipts d = indexed_total_receipts d
    \<and> receipt_of ` set settlements = receipt_of ` set bets
    \<and> (\<forall>r \<in> set settlements. \<forall>r' \<in> set settlements. receipt_of r = receipt_of r' \<longrightarrow> status_of r = status_of r')
    \<and> (\<forall>b \<in> set bets. square_of b \<noteq> None \<and> 0 < amount_of b
         \<and> text_or_empty (opt_member b ''round_id'') = digest_round_id d)"
proof -
  obtain rnd bets settlements where bs: "opt_member snapshot ''bets'' = Arr bets"
      "opt_member snapshot ''settlements'' = Arr settlements"
    and d: "participant_digest rnd bets settlements = Inr d"
    using assms unfolding archivedSnapshotProjectionDigest_def Let_def require_array_def row_bound_def
    by (auto simp: res_simps split: option.splits elim!: elements.elims)
  obtain b s where b: "fold_res (scan_bet (digest_round_id d)) bets empty_bet_scan = Inr b"
    and s: "fold_res (scan_settlement (digest_round_id d) (participantReceipts b)) settlements
      \<lparr>processedReceipts = {}, processedStatusByReceipt = Map.empty, settlementKeys = {}\<rparr> = Inr s"
    and t: "card (processedReceipts s) = card (participantReceipts b)"
    and o: "indexed_total_receipts d = int (card (participantReceipts b))"
      "indexed_processed_receipts d = indexed_total_receipts d"
      "indexed_tile_lamports d = tileLamports b"
      "indexed_tile_receipts d = map (\<lambda>receipts. int (card receipts)) (tileReceiptSets b)"
    using d unfolding participant_digest_def Let_def by (auto simp: res_simps)
  note B = scan_bets[OF b] and S = scan_settlements[OF s]
  show ?thesis
  proof (rule exI[of _ bets], rule exI[of _ settlements], intro conjI bs)
    show "receipt_of ` set settlements = receipt_of ` set bets"
      using B S t card_subset_eq[of "receipt_of ` set bets" "receipt_of ` set settlements"] by simp
    show "\<forall>r \<in> set settlements. \<forall>r' \<in> set settlements. receipt_of r = receipt_of r' \<longrightarrow> status_of r = status_of r'"
      using S by (metis option.inject)
    show "\<forall>sq < 25. indexed_tile_lamports d ! sq = tile_amount sq bets
        \<and> indexed_tile_receipts d ! sq = int (card (tile_receipts sq bets))" using B o(3,4) by simp
    show "indexed_total_receipts d = int (card (receipt_of ` set bets))" using B o(1) by simp
    show "length (indexed_tile_lamports d) = 25" using B o(3) by simp
    show "\<forall>b \<in> set bets. square_of b \<noteq> None \<and> 0 < amount_of b
        \<and> text_or_empty (opt_member b ''round_id'') = digest_round_id d" using B by (elim conjE)
  qed (rule o(2))
qed

lemma digest_rows:
  "\<exists>bound. archivedSnapshotProjectionDigest snapshot bound = Inr d \<Longrightarrow>
     \<exists>bets. opt_member snapshot ''bets'' = Arr bets
       \<and> (\<forall>sq < 25. indexed_tile_lamports d ! sq = tile_amount sq bets)
       \<and> indexed_total_receipts d = int (card (receipt_of ` set bets))"
  using digest_exact by fast

text \<open>
  The digest of an archived snapshot is exactly what its rows say: on every tile the lamports are the sum
  of the positive bets on it and the receipt count is the number of different receipts that bet there, the
  totals count the receipts of the round, every participant has settlement rows and nobody else has, and
  no receipt has two lifecycle-final statuses. All bets belong to the round.
\<close>

theorem archivedSnapshotProjectionDigest_exact:
  assumes "archivedSnapshotProjectionDigest snapshot maxRows = Inr d"
  shows "\<exists>bets settlements. opt_member snapshot ''bets'' = Arr bets \<and> opt_member snapshot ''settlements'' = Arr settlements
    \<and> length (indexed_tile_lamports d) = 25
    \<and> (\<forall>sq < 25. indexed_tile_lamports d ! sq = tile_amount sq bets
         \<and> indexed_tile_receipts d ! sq = int (card (tile_receipts sq bets)))
    \<and> indexed_total_receipts d = int (card (receipt_of ` set bets))
    \<and> indexed_processed_receipts d = indexed_total_receipts d
    \<and> receipt_of ` set settlements = receipt_of ` set bets
    \<and> (\<forall>r \<in> set settlements. \<forall>r' \<in> set settlements. receipt_of r = receipt_of r' \<longrightarrow> status_of r = status_of r')
    \<and> (\<forall>b \<in> set bets. square_of b \<noteq> None \<and> 0 < amount_of b
         \<and> text_or_empty (opt_member b ''round_id'') = digest_round_id d)"
  by (rule digest_exact[OF assms])

definition demo_snapshot :: jsval where
  "demo_snapshot = Obj [(''version'', IntV 2), (''program'', Str ''prog''),
     (''round'', Obj [(''round_id'', Str ''7''), (''total_receipts'', Str ''2''), (''processed_receipts'', Str ''2'')]),
     (''bets'', Arr [demo_bet ''A'' 2, demo_bet ''A'' 9, demo_bet ''B'' 9]),
     (''settlements'', Arr [demo_settlement ''A'' ''accrued'', demo_settlement ''B'' ''claimed'']),
     (''buybacks'', Arr [])]"

theorem archivedSnapshotProjectionDigest_exact_witness:
  "\<exists>d bets. archivedSnapshotProjectionDigest demo_snapshot Undef = Inr d \<and> indexed_tile_lamports d ! 9 = 200
     \<and> opt_member demo_snapshot ''bets'' = Arr bets \<and> tile_amount 9 bets = 200
     \<and> indexed_total_receipts d = int (card (receipt_of ` set bets))"
proof -
  have "ok_with (\<lambda>d. indexed_tile_lamports d ! 9 = 200) (archivedSnapshotProjectionDigest demo_snapshot Undef)"
    by code_simp
  then obtain d where d: "archivedSnapshotProjectionDigest demo_snapshot Undef = Inr d" "indexed_tile_lamports d ! 9 = 200"
    using ok_withD by blast
  obtain bets where b: "opt_member demo_snapshot ''bets'' = Arr bets"
      "\<forall>sq < 25. indexed_tile_lamports d ! sq = tile_amount sq bets
         \<and> indexed_tile_receipts d ! sq = int (card (tile_receipts sq bets))"
      "indexed_total_receipts d = int (card (receipt_of ` set bets))"
    using archivedSnapshotProjectionDigest_exact[OF d(1)] by blast
  have "tile_amount 9 bets = 200" using b(2) d(2) by simp
  then show ?thesis using d b(1,3) by blast
qed

section \<open>The economics of an archived round\<close>

text \<open>Rounding down every payout never pays out more than the pool.\<close>

lemma payouts_within_pool:
  fixes w prize :: int
  assumes "0 < w" "0 \<le> prize" "\<forall>x \<in> set stakes. 0 \<le> x" "sum_list stakes \<le> w"
  shows "(\<Sum>x \<leftarrow> stakes. x * (prize * 10 ^ 18 div w) div 10 ^ 18) \<le> prize"
proof -
  let ?m = "prize * 10 ^ 18 div w"
  have m: "0 \<le> ?m" using assms(1,2) by (simp add: pos_imp_zdiv_nonneg_iff)
  have "(\<Sum>x \<leftarrow> xs. x * ?m div 10 ^ 18) * 10 ^ 18 \<le> sum_list xs * ?m" for xs :: "int list"
  proof (induction xs)
    case (Cons x xs)
    have "(x * ?m div 10 ^ 18) * 10 ^ 18 \<le> x * ?m" by (simp add: le_div_int_iff[symmetric])
    then show ?case using Cons by (simp only: list.map sum_list.Cons distrib_right add_mono)
  qed simp
  also have "sum_list stakes * ?m \<le> w * ?m" using assms(4) m by (rule mult_right_mono)
  also have "\<dots> \<le> prize * 10 ^ 18" using le_div_int_iff[OF assms(1), of ?m "prize * 10 ^ 18"] by (simp add: mult.commute)
  finally show ?thesis by simp
qed

lemma check_resolved_Inr:
  assumes "check_resolved h pb mb p = Inr q"
  obtains fees gross w prize payout where "q = p" "requireRoundFeeAudit (Obj p) = Inr fees"
    "to_bigint (field p ''total_wager_wei'') = Inr gross" "to_bigint (field p ''winner_total_wei'') = Inr w"
    "to_bigint (field p ''pot_for_winners_wei'') = Inr prize" "to_bigint (field p ''payout_mul_wad'') = Inr payout"
    "w \<le> gross" "total_fee_lamports fees \<le> gross"
    "prize = (if 0 < w then gross - total_fee_lamports fees else 0)"
    "payout = (if 0 < w then big_div (prize * 10 ^ 18) w else 0)"
    "is_ok (requireRoundRandomnessProof h (Obj p) pb mb)"
  using assms unfolding check_resolved_def res_simps is_ok_iff by blast


definition archived_fields :: "(string \<times> jsval) list" where
  "archived_fields =
     [(''round_id'', Str ''7''), (''rent_payer'', Str ''payer''), (''opened_at'', Str ''100''),
      (''betting_ends_at'', Str ''160''), (''settles_at'', Str ''170''), (''refund_at'', Str ''400''),
      (''resolved'', Bool True), (''winning_square'', IntV 9), (''jackpot_hit'', Bool False),
      (''single_miner_round'', Bool False), (''winner'', Null), (''total_wager_wei'', Str ''1000''),
      (''winner_total_wei'', Str ''300''), (''pot_for_winners_wei'', Str ''890''),
      (''bullion_for_winners_wei'', Str ''5''), (''payout_mul_wad'', Str ''2966666666666666666''),
      (''total_fee_lamports'', Str ''110''), (''staking_gross_lamports'', Str ''50''),
      (''staking_admin_lamports'', Str ''5''), (''staking_net_lamports'', Str ''45''),
      (''buyback_lamports'', Str ''30''), (''motherlode_fee_lamports'', Str ''20''),
      (''mining_admin_lamports'', Str ''10''), (''admin_total_lamports'', Str ''15''),
      (''admin_fee_wallet'', Str ''Fee1''), (''randomness_id'', Str ''account''),
      (''randomness_value'', Str ''0''), (''randomness_hex'', Str (replicate 64 CHR ''0'')),
      (''randomness_commit_slot'', Str ''90''), (''solo_sample'', Str ''0''), (''total_receipts'', Str ''2''),
      (''processed_receipts'', Str ''2''), (''settlement_signature'', Str ''sig''),
      (''settlement_slot'', Str ''95'')]"

definition demo_archive :: jsval where
  "demo_archive = Obj [(''version'', IntV 2), (''program'', Str ''prog''), (''round'', Obj archived_fields),
     (''bets'', Arr [demo_bet ''A'' 2, demo_bet ''B'' 9]),
     (''settlements'', Arr [demo_settlement ''A'' ''claimed'', demo_settlement ''B'' ''claimed'']), (''buybacks'', Arr [])]"


end
