(* ===== verification/Round_Reconciliation.thy ===== *)
theory Round_Reconciliation
  imports Archive_Projection "HOL-Library.AList"
begin

text \<open>
  \<open>Protocol/scripts/round-reconciliation-policy.mjs\<close>, second part: repair of stale settlement rows, the
  comparison of the indexed projection with the chain (settled and refunded rounds), the bounded walks
  over recent and historical rounds, the canonical order of signatures and the decision to replay.
\<close>

section \<open>Settlement rows\<close>

definition receiptSettlementStatus :: "jsval \<Rightarrow> jsval" where
  "receiptSettlementStatus eventName =
     (if eventName = Str ''ReceiptClaimed'' then Str ''claimed''
      else if eventName = Str ''ReceiptRewardAccruedV1'' then Str ''accrued''
      else if eventName = Str ''ReceiptRefunded'' then Str ''refunded''
      else if eventName = Str ''ReceiptClosed'' then Str ''closed'' else Null)"

text \<open>\<open>JSON.stringify\<close> of a list of strings.\<close>

definition json_strings :: "string list \<Rightarrow> string" where
  "json_strings xs = ''['' @ join '','' (map json_quote xs) @ '']''"

definition settlementStatusKey :: "jsval \<Rightarrow> string" where
  "settlementStatusKey row = json_strings [to_str (opt_member row ''receipt''), to_str (opt_member row ''status'')]"

definition settlementTransactionKey :: "jsval \<Rightarrow> string res" where
  "settlementTransactionKey row = then_res (asBigInt (opt_member row ''slot'')) (\<lambda>slot.
     Inr (json_strings [to_str (opt_member row ''receipt''), to_str (opt_member row ''signature''), show_int slot]))"

definition requireSettlementEvidenceRow :: "jsval \<Rightarrow> string \<Rightarrow> string \<Rightarrow> unit res" where
  "requireSettlementEvidenceRow row roundId label =
     assert_ok (plain_object row) (label @ '' is invalid'') (
     assert_ok (to_str (opt_member row ''round_id'') = roundId) (label @ '' belongs to a different round'') (
     assert_ok (to_str (js_or (opt_member row ''receipt'') (Str [])) \<noteq> []) (label @ '' receipt is missing'') (
     assert_ok (to_str (js_or (opt_member row ''status'') (Str [])) \<in> set RECEIPT_SETTLEMENT_STATUSES)
       (label @ '' status is invalid'') (
     assert_ok (to_str (js_or (opt_member row ''signature'') (Str [])) \<noteq> []) (label @ '' signature is missing'') (
     then_res (requiredNonNegativeBigInt (opt_member row ''slot'') (label @ '' slot'')) (\<lambda>_. Inr ()))))))"

definition scan_canonical_row :: "string \<Rightarrow> jsval \<Rightarrow> string set \<times> string set \<Rightarrow> (string set \<times> string set) res" where
  "scan_canonical_row roundId row st =
     then_res (requireSettlementEvidenceRow row roundId ''Canonical settlement row'') (\<lambda>_.
     then_res (settlementTransactionKey row) (\<lambda>key.
     Inr (insert (settlementStatusKey row) (fst st), insert key (snd st))))"

text \<open>The loop over the indexed rows, with its \<open>break\<close> at \<open>maxDeletes\<close>.\<close>

fun collect_stale :: "string \<Rightarrow> string set \<Rightarrow> string set \<Rightarrow> int \<Rightarrow> jsval list \<Rightarrow> jsval list \<Rightarrow> jsval list res" where
  "collect_stale roundId statuses transactions maxDeletes [] stale = Inr stale"
| "collect_stale roundId statuses transactions maxDeletes (row # rows) stale =
     then_res (requireSettlementEvidenceRow row roundId ''Indexed settlement row'') (\<lambda>_.
     if settlementStatusKey row \<in> statuses then collect_stale roundId statuses transactions maxDeletes rows stale
     else then_res (settlementTransactionKey row) (\<lambda>key.
       if key \<notin> transactions then collect_stale roundId statuses transactions maxDeletes rows stale
       else if int (length (stale @ [row])) = maxDeletes then Inr (stale @ [row])
       else collect_stale roundId statuses transactions maxDeletes rows (stale @ [row])))"

definition staleReceiptSettlementRows ::
  "jsval \<Rightarrow> jsval \<Rightarrow> jsval \<Rightarrow> jsval \<Rightarrow> jsval \<Rightarrow> jsval \<Rightarrow> jsval list res" where
  "staleReceiptSettlementRows roundId indexedRows canonicalRows finalizedHistoryComplete maxRows maxDeletes =
     (if \<not> truthy finalizedHistoryComplete then Inr []
      else let expectedRoundId = text_or_empty roundId in
      assert_ok (canonical_numeric expectedRoundId) ''Settlement repair round id is invalid'' (
      row_bound (with_default maxRows (IntV 10000)) 250000 ''Settlement repair row bound must be 1..250000'' (\<lambda>cap.
      row_bound (with_default maxDeletes (IntV 256)) cap
        ''Settlement repair delete bound must be within the row bound'' (\<lambda>deletes.
      require_array (with_default indexedRows (Arr [])) ''Indexed settlement rows exceed the reviewed repair bound'' (\<lambda>indexed.
      assert_ok (int (length indexed) \<le> cap) ''Indexed settlement rows exceed the reviewed repair bound'' (
      require_array (with_default canonicalRows (Arr [])) ''Canonical settlement rows exceed the reviewed repair bound'' (\<lambda>canonical.
      assert_ok (int (length canonical) \<le> cap) ''Canonical settlement rows exceed the reviewed repair bound'' (
      then_res (fold_res (scan_canonical_row expectedRoundId) canonical ({}, {})) (\<lambda>(statuses, transactions).
      collect_stale expectedRoundId statuses transactions deletes indexed [])))))))))"

definition closedRoundNeedsCanonicalReplay :: "jsval \<Rightarrow> bool \<Rightarrow> bool" where
  "closedRoundNeedsCanonicalReplay indexedRound projectionMatchesProof =
     (opt_member indexedRound ''archive_verified'' = Bool True
      \<and> (\<not> truthy (opt_member indexedRound ''closed_signature'') \<or> \<not> projectionMatchesProof))"

section \<open>Indexed projection against the chain\<close>

text \<open>
  These run inside the indexer: a value that is no integer makes \<open>BigInt\<close> throw, so the comparison is a
  result.
\<close>

definition roundParticipantProjectionMatchesChain :: "jsval \<Rightarrow> jsval \<Rightarrow> bool res" where
  "roundParticipantProjectionMatchesChain chainRound indexedProjection =
     (if \<not> truthy chainRound \<or> \<not> truthy indexedProjection then Inr False
      else then_res (projectionVector (opt_member chainRound ''tileLamports'')) (\<lambda>chainLamports.
      then_res (projectionVector (opt_member chainRound ''tileReceipts'')) (\<lambda>chainReceipts.
      then_res (projectionVector (opt_member indexedProjection ''indexed_tile_lamports'')) (\<lambda>indexedLamports.
      then_res (projectionVector (opt_member indexedProjection ''indexed_tile_receipts'')) (\<lambda>indexedReceipts.
      if length chainLamports \<noteq> 25 \<or> length chainReceipts \<noteq> 25
         \<or> length indexedLamports \<noteq> 25 \<or> length indexedReceipts \<noteq> 25 then Inr False
      else then_res (asBigInt (opt_member indexedProjection ''indexed_total_receipts'')) (\<lambda>indexedTotal.
      then_res (asBigInt (opt_member chainRound ''totalReceipts'')) (\<lambda>total.
      if indexedTotal \<noteq> total then Inr False
      else Inr (list_all (\<lambda>square. indexedLamports ! square = chainLamports ! square
          \<and> indexedReceipts ! square = chainReceipts ! square) [0..<25]))))))))"

definition same_int :: "jsval \<Rightarrow> jsval \<Rightarrow> bool res" where
  "same_int a b = then_res (asBigInt a) (\<lambda>x. then_res (asBigInt b) (\<lambda>y. Inr (x = y)))"

definition and_then :: "bool res \<Rightarrow> bool res \<Rightarrow> bool res" where
  "and_then a b = then_res a (\<lambda>x. if x then b else Inr False)"

definition roundProjectionMatchesChain :: "jsval \<Rightarrow> jsval \<Rightarrow> bool res" where
  "roundProjectionMatchesChain chainRound indexedProjection =
     and_then (roundParticipantProjectionMatchesChain chainRound indexedProjection) (
     and_then (same_int (opt_member indexedProjection ''indexed_processed_receipts'') (opt_member chainRound ''processedReceipts''))
       (same_int (opt_member indexedProjection ''indexed_closed_receipts'') (opt_member chainRound ''closedReceipts'')))"

section \<open>Refunded rounds\<close>

record refund_scan =
  betAmountsByReceipt :: "(string \<times> int) list"
  tileAmounts :: "int list"
  tileReceipts :: "string set list"
  refundBetKeys :: "string set"

text \<open>One bet; \<open>Inr None\<close> is \<open>return false\<close>.\<close>

definition scan_refund_bet :: "string \<Rightarrow> jsval \<Rightarrow> refund_scan \<Rightarrow> refund_scan option res" where
  "scan_refund_bet roundId bet st =
     (if to_str (opt_member bet ''round_id'') \<noteq> roundId then Inr None
      else let receipt = to_str (js_or (opt_member bet ''receipt'') (Str [])) in
      then_res (requiredNonNegativeBigInt (opt_member bet ''amount_wei'') ''Refund bet amount'') (\<lambda>amount.
      case board_square (opt_member bet ''square'') of
        None \<Rightarrow> Inr None
      | Some square \<Rightarrow>
          if receipt = [] \<or> amount = 0 then Inr None
          else let betKey = receipt @ '':'' @ show_nat square in
          if betKey \<in> refundBetKeys st then Inr None
          else Inr (Some
            \<lparr>betAmountsByReceipt = AList.update receipt
               ((case map_of (betAmountsByReceipt st) receipt of None \<Rightarrow> 0 | Some a \<Rightarrow> a) + amount) (betAmountsByReceipt st),
             tileAmounts = (tileAmounts st)[square := tileAmounts st ! square + amount],
             tileReceipts = (tileReceipts st)[square := insert receipt (tileReceipts st ! square)],
             refundBetKeys = insert betKey (refundBetKeys st)\<rparr>)))"

fun scan_refund_bets :: "string \<Rightarrow> jsval list \<Rightarrow> refund_scan \<Rightarrow> refund_scan option res" where
  "scan_refund_bets roundId [] st = Inr (Some st)"
| "scan_refund_bets roundId (bet # bets) st = then_res (scan_refund_bet roundId bet st) (\<lambda>r.
     case r of None \<Rightarrow> Inr None | Some st' \<Rightarrow> scan_refund_bets roundId bets st')"

fun scan_refunds :: "string \<Rightarrow> (string \<rightharpoonup> int) \<Rightarrow> jsval list \<Rightarrow> string set \<Rightarrow> string set option res" where
  "scan_refunds roundId amounts [] refunded = Inr (Some refunded)"
| "scan_refunds roundId amounts (settlement # rest) refunded =
     (if to_str (opt_member settlement ''round_id'') \<noteq> roundId \<or> opt_member settlement ''status'' \<noteq> Str ''refunded''
      then Inr None
      else let receipt = to_str (js_or (opt_member settlement ''receipt'') (Str [])) in
      if receipt = [] \<or> receipt \<in> refunded \<or> amounts receipt = None then Inr None
      else then_res (requiredNonNegativeBigInt (opt_member settlement ''sol_lamports'') ''Refund settlement lamports'') (\<lambda>sol.
      if Some sol \<noteq> amounts receipt then Inr None
      else then_res (requiredNonNegativeBigInt (opt_member settlement ''myne_base_units'') ''Refund MYNE amount'') (\<lambda>myne.
      if myne \<noteq> 0 then Inr None
      else then_res (requiredNonNegativeBigInt (opt_member settlement ''motherlode_base_units'') ''Refund Motherlode amount'') (\<lambda>motherlode.
      if motherlode \<noteq> 0 then Inr None
      else scan_refunds roundId amounts rest (insert receipt refunded)))))"

text \<open>The per-row part: bets rebuild the tiles, settlements refund every receipt exactly.\<close>

definition refund_rows_match ::
  "string \<Rightarrow> int \<Rightarrow> int list \<Rightarrow> int list \<Rightarrow> int list \<Rightarrow> jsval list \<Rightarrow> jsval list \<Rightarrow> bool res" where
  "refund_rows_match roundId totalReceipts chainReceiptCounts indexedLamports indexedReceiptCounts bets settlements =
     then_res (scan_refund_bets roundId bets \<lparr>betAmountsByReceipt = [], tileAmounts = replicate 25 0,
         tileReceipts = replicate 25 {}, refundBetKeys = {}\<rparr>) (\<lambda>scan. case scan of None \<Rightarrow> Inr False | Some st \<Rightarrow>
     if int (length (betAmountsByReceipt st)) \<noteq> totalReceipts then Inr False
     else if \<not> list_all (\<lambda>square. indexedLamports ! square = tileAmounts st ! square
         \<and> indexedReceiptCounts ! square = int (card (tileReceipts st ! square))
         \<and> chainReceiptCounts ! square = indexedReceiptCounts ! square) [0..<25] then Inr False
     else then_res (scan_refunds roundId (map_of (betAmountsByReceipt st)) settlements {}) (\<lambda>r. case r of
       None \<Rightarrow> Inr False | Some refunded \<Rightarrow> Inr (int (card refunded) = totalReceipts)))"

definition refundedRoundProjectionMatchesChain :: "jsval \<Rightarrow> jsval \<Rightarrow> jsval \<Rightarrow> jsval \<Rightarrow> jsval \<Rightarrow> bool" where
  "refundedRoundProjectionMatchesChain chainRound indexedProjection bets settlements finalizedChainTime = or_else (
     (if \<not> truthy chainRound \<or> truthy (opt_member chainRound ''settled'') \<or> \<not> truthy indexedProjection
         \<or> elements bets = None \<or> elements settlements = None then Inr False
      else then_res (requiredNonNegativeBigInt finalizedChainTime ''Finalized chain time'') (\<lambda>finalizedNow.
      then_res (requiredNonNegativeBigInt (opt_member chainRound ''refundAt'') ''Round refund deadline'') (\<lambda>refundAt.
      if finalizedNow < refundAt then Inr False
      else then_res (asBigInt (opt_member chainRound ''totalReceipts'')) (\<lambda>totalReceipts.
      then_res (and_then (map_ok (\<lambda>n. n = totalReceipts) (asBigInt (opt_member chainRound ''processedReceipts''))) (
        and_then (map_ok (\<lambda>n. n = 0) (asBigInt (opt_member chainRound ''closedReceipts''))) (
        and_then (map_ok (\<lambda>n. n = 0) (asBigInt (opt_member chainRound ''grossDeployedLamports'')))
          (map_ok (\<lambda>n. n = 0) (asBigInt (opt_member chainRound ''prizeLamports'')))))) (\<lambda>terminal.
      if \<not> terminal then Inr False
      else then_res (projectionVector (opt_member chainRound ''tileLamports'')) (\<lambda>chainLamports.
      then_res (projectionVector (opt_member chainRound ''tileReceipts'')) (\<lambda>chainReceiptCounts.
      then_res (projectionVector (opt_member indexedProjection ''indexed_tile_lamports'')) (\<lambda>indexedLamports.
      then_res (projectionVector (opt_member indexedProjection ''indexed_tile_receipts'')) (\<lambda>indexedReceiptCounts.
      if length chainLamports \<noteq> 25 \<or> length chainReceiptCounts \<noteq> 25 \<or> length indexedLamports \<noteq> 25
         \<or> length indexedReceiptCounts \<noteq> 25 \<or> list_ex (\<lambda>amount. amount \<noteq> 0) chainLamports then Inr False
      else then_res (and_then (map_ok (\<lambda>n. n = totalReceipts) (asBigInt (opt_member indexedProjection ''indexed_total_receipts''))) (
        and_then (map_ok (\<lambda>n. n = totalReceipts) (asBigInt (opt_member indexedProjection ''indexed_processed_receipts'')))
          (map_ok (\<lambda>n. n = 0) (asBigInt (opt_member indexedProjection ''indexed_closed_receipts''))))) (\<lambda>indexedOk.
      if \<not> indexedOk then Inr False
      else then_res (asBigInt (opt_member chainRound ''id'')) (\<lambda>rid.
      refund_rows_match (show_int rid) totalReceipts chainReceiptCounts indexedLamports indexedReceiptCounts
        (case elements bets of None \<Rightarrow> [] | Some bs \<Rightarrow> bs)
        (case elements settlements of None \<Rightarrow> [] | Some ss \<Rightarrow> ss))))))))))))) False"

section \<open>Bounded walks\<close>

definition recentScheduledRoundIds :: "jsval \<Rightarrow> jsval \<Rightarrow> int list res" where
  "recentScheduledRoundIds currentRoundId depth =
     then_res (asBigInt currentRoundId) (\<lambda>current.
     assert_ok (0 \<le> current) ''Current round id must be non-negative'' (
     row_bound (with_default depth (IntV 12)) 64 ''Recent round depth must be 1..64'' (\<lambda>d.
     Inr (map (\<lambda>offset. current - int offset) (filter (\<lambda>offset. int offset \<le> current) [0..<nat d])))))"

definition historicalRoundGapBatch :: "jsval \<Rightarrow> jsval \<Rightarrow> jsval \<Rightarrow> jsval \<Rightarrow> (int list \<times> int) res" where
  "historicalRoundGapBatch currentRoundId recentDepth nextRoundId batchSize =
     then_res (asBigInt currentRoundId) (\<lambda>current.
     then_res (asBigInt (with_default nextRoundId (Big 0))) (\<lambda>nextCandidate.
     assert_ok (0 \<le> current) ''Current round id must be non-negative'' (
     row_bound (with_default recentDepth (IntV 12)) 64 ''Recent round depth must be 1..64'' (\<lambda>depth.
     row_bound (with_default batchSize (IntV 8)) 32 ''Historical gap batch must be 1..32'' (\<lambda>batch.
     let high = current - depth in
     if high < 0 then Inr ([], 0)
     else let start = (if 0 \<le> nextCandidate \<and> nextCandidate \<le> high then nextCandidate else 0);
       ids = map (\<lambda>offset. start + int offset) (filter (\<lambda>offset. start + int offset \<le> high) [0..<nat batch]) in
     Inr (ids, if ids \<noteq> [] \<and> last ids < high then last ids + 1 else 0))))))"

section \<open>Canonical signature order\<close>

definition keep_signature :: "jsval \<Rightarrow> jsval list \<Rightarrow> jsval list" where
  "keep_signature row unique =
     (if \<not> truthy (opt_member row ''signature'') \<or> truthy (opt_member row ''err'') then unique
      else if list_ex (\<lambda>r. opt_member r ''signature'' = opt_member row ''signature'') unique then unique
      else unique @ [row])"

text \<open>Rows with their index in the de-duplicated list; later rows are older within a slot.\<close>

definition signature_order :: "nat \<times> jsval \<Rightarrow> nat \<times> jsval \<Rightarrow> int res" where
  "signature_order left right =
     (let d = number_order (opt_member (snd left) ''slot'') (opt_member (snd right) ''slot'') in
      Inr (if d \<noteq> 0 then d else int (fst right) - int (fst left)))"

definition canonicalSignatureOrder :: "jsval list \<Rightarrow> jsval list res" where
  "canonicalSignatureOrder rows = (let unique = fold keep_signature rows [] in
     map_ok (map snd) (sort_by signature_order (enumerate 0 unique)))"

section \<open>The decision to replay\<close>

definition completeServerProof :: "jsval \<Rightarrow> bool" where
  "completeServerProof rnd =
     (truthy (opt_member rnd ''randomness_commitment_hex'') \<and> truthy (opt_member rnd ''randomness_reveal_hex'')
      \<and> \<not> nullish (opt_member rnd ''randomness_target_slot'') \<and> \<not> nullish (opt_member rnd ''randomness_entropy_slot'')
      \<and> truthy (opt_member rnd ''randomness_entropy_hash_hex'')
      \<and> truthy (opt_member rnd ''randomness_commitment_signature'')
      \<and> truthy (opt_member rnd ''randomness_lock_signature'') \<and> truthy (opt_member rnd ''randomness_reveal_signature'')
      \<and> truthy (opt_member rnd ''settlement_signature''))"

definition roundNeedsCanonicalReplay :: "jsval \<Rightarrow> jsval \<Rightarrow> jsval \<Rightarrow> bool res" where
  "roundNeedsCanonicalReplay indexedRound chainRound indexedProjection =
     (if \<not> truthy chainRound then Inr False
      else let settled = truthy (opt_member chainRound ''settled'') in
      if \<not> truthy indexedRound then Inr settled
      else if truthy (opt_member indexedRound ''resolved'') \<noteq> settled then Inr True
      else then_res (roundParticipantProjectionMatchesChain chainRound indexedProjection) (\<lambda>participants.
      let allProcessed = same_int (opt_member chainRound ''processedReceipts'') (opt_member chainRound ''totalReceipts'') in
      if \<not> participants then (if settled then Inr True else allProcessed)
      else then_res (and_then
          (same_int (opt_member indexedProjection ''indexed_processed_receipts'') (opt_member chainRound ''processedReceipts''))
          (same_int (opt_member indexedProjection ''indexed_closed_receipts'') (opt_member chainRound ''closedReceipts'')))
        (\<lambda>lifecycleMatches.
      then_res (if lifecycleMatches then Inr False else allProcessed) (\<lambda>mismatch.
      if mismatch then Inr True
      else if \<not> settled then Inr False
      else if \<not> truthy (opt_member indexedRound ''settlement_signature'') then Inr True
      else then_res (asBigInt (opt_member chainRound ''randomnessCommitSlot'')) (\<lambda>encodedSlot.
      Inr (and encodedSlot (2 ^ 63) \<noteq> 0 \<and> \<not> completeServerProof indexedRound))))))"

section \<open>Only disproved rows are stale\<close>

definition row_text :: "string \<Rightarrow> jsval \<Rightarrow> string" where
  "row_text k row = to_str (opt_member row k)"

lemma json_strings_two:
  "json_strings [a, b] = json_strings [c, d] \<longleftrightarrow> a = c \<and> b = d"
  by (simp add: json_strings_def json_quote_append_inject)

lemma json_strings_three:
  "json_strings [a, b, c] = json_strings [x, y, z] \<longleftrightarrow> a = x \<and> b = y \<and> c = z"
  by (simp add: json_strings_def json_quote_append_inject)

lemma status_key_eq:
  "settlementStatusKey r = settlementStatusKey c \<longleftrightarrow>
     row_text ''receipt'' r = row_text ''receipt'' c \<and> row_text ''status'' r = row_text ''status'' c"
  by (simp add: settlementStatusKey_def json_strings_two row_text_def)

lemma transaction_key_eq:
  "settlementTransactionKey r = Inr k \<Longrightarrow> settlementTransactionKey c = Inr k \<Longrightarrow>
     row_text ''receipt'' r = row_text ''receipt'' c \<and> row_text ''signature'' r = row_text ''signature'' c
     \<and> asBigInt (opt_member r ''slot'') = asBigInt (opt_member c ''slot'')"
  by (auto simp: settlementTransactionKey_def res_simps json_strings_three row_text_def)

lemma scan_canonical_row_Inr:
  "scan_canonical_row rid r st = Inr st' \<Longrightarrow> \<exists>k. settlementTransactionKey r = Inr k
     \<and> st' = (insert (settlementStatusKey r) (fst st), insert k (snd st))"
  by (auto simp: scan_canonical_row_def res_simps)

lemma scan_canonical_rows:
  assumes "fold_res (scan_canonical_row rid) rows ({}, {}) = Inr (statuses, transactions)"
  shows "statuses = settlementStatusKey ` set rows \<and> transactions = {k. \<exists>c \<in> set rows. settlementTransactionKey c = Inr k}"
  using assms
proof (induction rows arbitrary: statuses transactions rule: rev_induct)
  case Nil
  then show ?case by simp
next
  case (snoc r rows)
  then obtain st where st: "fold_res (scan_canonical_row rid) rows ({}, {}) = Inr st"
    "scan_canonical_row rid r st = Inr (statuses, transactions)"
    by (auto simp: fold_res_append res_simps)
  obtain a b where ab: "st = (a, b)" by fastforce
  then show ?case using snoc.IH[of a b] st scan_canonical_row_Inr[OF st(2)] by auto
qed

lemma collect_stale_sound:
  assumes "collect_stale rid statuses transactions n rows acc = Inr out" "x \<in> set out"
  shows "x \<in> set acc \<or> (x \<in> set rows \<and> settlementStatusKey x \<notin> statuses
     \<and> (\<exists>k \<in> transactions. settlementTransactionKey x = Inr k))"
  using assms
proof (induction rows arbitrary: acc)
  case (Cons r rows)
  show ?case
  proof (cases "settlementStatusKey r \<in> statuses")
    case True
    then have "collect_stale rid statuses transactions n rows acc = Inr out" using Cons.prems by (auto simp: res_simps)
    then show ?thesis using Cons by auto
  next
    case False
    then obtain k where k: "settlementTransactionKey r = Inr k" using Cons.prems by (auto simp: res_simps)
    show ?thesis
    proof (cases "k \<in> transactions")
      case True
      then have "x \<in> set (acc @ [r]) \<or> (x \<in> set rows \<and> settlementStatusKey x \<notin> statuses
          \<and> (\<exists>k \<in> transactions. settlementTransactionKey x = Inr k))"
        using Cons.prems Cons.IH[of "acc @ [r]"] False k by (auto simp: res_simps split: if_splits)
      then show ?thesis using False k True by auto
    next
      case n: False
      then have "collect_stale rid statuses transactions n rows acc = Inr out" using Cons.prems False k by (auto simp: res_simps)
      then show ?thesis using Cons by auto
    qed
  qed
qed simp

lemma collect_stale_bound:
  "collect_stale rid statuses transactions n rows acc = Inr out \<Longrightarrow> int (length acc) < n \<Longrightarrow> int (length out) \<le> n"
proof (induction rows arbitrary: acc)
  case (Cons r rows)
  then show ?case using Cons.IH[of acc] Cons.IH[of "acc @ [r]"] by (auto simp: res_simps split: if_splits)
qed simp

text \<open>
  C15. A settlement row is only ever selected for deletion when finalized history disproves it: history is
  complete, the row is indexed, some canonical row comes from the very same receipt, transaction signature
  and slot, and no canonical row gives that receipt the indexed status. At most the reviewed number of
  rows is selected, and nothing at all while the history is incomplete.
\<close>

theorem staleReceiptSettlementRows_sound:
  assumes "staleReceiptSettlementRows rid (Arr idx) (Arr canon) historyComplete maxRows (IntV maxDeletes) = Inr stale"
  shows "(\<forall>row \<in> set stale. truthy historyComplete \<and> row \<in> set idx
      \<and> (\<exists>c \<in> set canon. row_text ''receipt'' c = row_text ''receipt'' row
           \<and> row_text ''signature'' c = row_text ''signature'' row
           \<and> asBigInt (opt_member c ''slot'') = asBigInt (opt_member row ''slot''))
      \<and> (\<forall>c \<in> set canon. row_text ''receipt'' c = row_text ''receipt'' row
           \<longrightarrow> row_text ''status'' c \<noteq> row_text ''status'' row))
    \<and> (stale = [] \<or> int (length stale) \<le> maxDeletes)"
proof (cases "truthy historyComplete")
  case False
  then show ?thesis using assms by (simp add: staleReceiptSettlementRows_def)
next
  case True
  obtain statuses transactions where
    f: "fold_res (scan_canonical_row (text_or_empty rid)) canon ({}, {}) = Inr (statuses, transactions)"
    and c: "collect_stale (text_or_empty rid) statuses transactions maxDeletes idx [] = Inr stale" "0 < maxDeletes"
    using assms True unfolding staleReceiptSettlementRows_def Let_def row_bound_def require_array_def
    by (auto simp: res_simps with_default_def split: option.splits)
  note S = scan_canonical_rows[OF f]
  have one: "truthy historyComplete \<and> row \<in> set idx
      \<and> (\<exists>c \<in> set canon. row_text ''receipt'' c = row_text ''receipt'' row
           \<and> row_text ''signature'' c = row_text ''signature'' row
           \<and> asBigInt (opt_member c ''slot'') = asBigInt (opt_member row ''slot''))
      \<and> (\<forall>c \<in> set canon. row_text ''receipt'' c = row_text ''receipt'' row
           \<longrightarrow> row_text ''status'' c \<noteq> row_text ''status'' row)" if row: "row \<in> set stale" for row
  proof -
    obtain k where k: "row \<in> set idx" "settlementStatusKey row \<notin> statuses" "k \<in> transactions"
      "settlementTransactionKey row = Inr k" using collect_stale_sound[OF c(1) row] by auto
    obtain d where d: "d \<in> set canon" "settlementTransactionKey d = Inr k" using k(3) S by blast
    have "settlementStatusKey e \<noteq> settlementStatusKey row" if "e \<in> set canon" for e
    proof
      assume "settlementStatusKey e = settlementStatusKey row"
      moreover have "settlementStatusKey e \<in> statuses" using S that by simp
      ultimately show False using k(2) by simp
    qed
    then show ?thesis using True k(1) d(1) transaction_key_eq[OF d(2) k(4)] status_key_eq by metis
  qed
  show ?thesis using one collect_stale_bound[OF c(1)] c(2) by simp
qed

definition settlement_at :: "string \<Rightarrow> string \<Rightarrow> string \<Rightarrow> int \<Rightarrow> jsval" where
  "settlement_at receipt status sig slot = Obj [(''round_id'', Str ''7''), (''receipt'', Str receipt),
     (''status'', Str status), (''signature'', Str sig), (''slot'', IntV slot)]"

theorem staleReceiptSettlementRows_sound_witness:
  "staleReceiptSettlementRows (Str ''7'') (Arr [settlement_at ''A'' ''claimed'' ''s1'' 5, settlement_at ''B'' ''claimed'' ''s2'' 6])
      (Arr [settlement_at ''A'' ''accrued'' ''s1'' 5]) (Bool True) Undef (IntV 256)
     = Inr [settlement_at ''A'' ''claimed'' ''s1'' 5]
   \<and> int (length [settlement_at ''A'' ''claimed'' ''s1'' 5]) \<le> 256"
proof -
  have e: "staleReceiptSettlementRows (Str ''7'') (Arr [settlement_at ''A'' ''claimed'' ''s1'' 5, settlement_at ''B'' ''claimed'' ''s2'' 6])
      (Arr [settlement_at ''A'' ''accrued'' ''s1'' 5]) (Bool True) Undef (IntV 256)
     = Inr [settlement_at ''A'' ''claimed'' ''s1'' 5]" by code_simp
  from staleReceiptSettlementRows_sound[OF e] e show ?thesis by simp
qed

section \<open>Refunds are exact\<close>

definition refund_receipt :: "jsval \<Rightarrow> string" where
  "refund_receipt row = to_str (js_or (opt_member row ''receipt'') (Str []))"

definition refund_of :: "jsval \<Rightarrow> int" where
  "refund_of settlement = or_else (asBigInt (opt_member settlement ''sol_lamports'')) 0"

definition receipt_total :: "string \<Rightarrow> jsval list \<Rightarrow> int" where
  "receipt_total r bets = (\<Sum>b \<leftarrow> bets. if refund_receipt b = r then amount_of b else 0)"

lemma receipt_total_Cons:
  "receipt_total r (b # bets) = (if refund_receipt b = r then amount_of b else 0) + receipt_total r bets"
  by (simp add: receipt_total_def)

lemma receipt_total_absent: "r \<notin> refund_receipt ` set bets \<Longrightarrow> receipt_total r bets = 0"
  by (induction bets) (auto simp: receipt_total_def)

lemma scan_refund_bet_amounts:
  assumes "scan_refund_bet rid bet st = Inr (Some st')"
  shows "betAmountsByReceipt st' = AList.update (refund_receipt bet)
    ((case map_of (betAmountsByReceipt st) (refund_receipt bet) of None \<Rightarrow> 0 | Some a \<Rightarrow> a) + amount_of bet)
    (betAmountsByReceipt st)"
  using assms unfolding scan_refund_bet_def Let_def
  by (auto simp: res_simps refund_receipt_def amount_of_def split: option.splits if_splits)

lemma scan_refund_bets_amounts:
  "scan_refund_bets rid bets st = Inr (Some st') \<Longrightarrow>
     map_of (betAmountsByReceipt st') r
       = (if r \<in> refund_receipt ` set bets \<or> map_of (betAmountsByReceipt st) r \<noteq> None
       then Some ((case map_of (betAmountsByReceipt st) r of None \<Rightarrow> 0 | Some a \<Rightarrow> a) + receipt_total r bets) else None)"
proof (induction bets arbitrary: st)
  case Nil
  then show ?case by (auto simp: receipt_total_def)
next
  case (Cons b bets)
  then obtain s1 where s1: "scan_refund_bet rid b st = Inr (Some s1)" "scan_refund_bets rid bets s1 = Inr (Some st')"
    by (auto simp: res_simps split: option.splits)
  show ?case
    using Cons.IH[OF s1(2)] scan_refund_bet_amounts[OF s1(1)] receipt_total_absent[of r bets]
    by (auto simp: receipt_total_Cons update_conv)
qed

lemma scan_refund_bets_distinct:
  "scan_refund_bets rid bets st = Inr (Some st') \<Longrightarrow> distinct (map fst (betAmountsByReceipt st))
     \<Longrightarrow> distinct (map fst (betAmountsByReceipt st'))"
proof (induction bets arbitrary: st)
  case (Cons b bets)
  then obtain s1 where s1: "scan_refund_bet rid b st = Inr (Some s1)" "scan_refund_bets rid bets s1 = Inr (Some st')"
    by (auto simp: res_simps split: option.splits)
  then show ?case using Cons.IH[OF s1(2)] scan_refund_bet_amounts[OF s1(1)] distinct_update[OF Cons.prems(2)] by simp
qed simp

lemma scan_refunds_exact:
  "scan_refunds rid amounts rows refunded = Inr (Some out) \<Longrightarrow>
     out = refunded \<union> refund_receipt ` set rows \<and> distinct (map refund_receipt rows)
     \<and> refunded \<inter> refund_receipt ` set rows = {}
     \<and> (\<forall>x \<in> set rows. amounts (refund_receipt x) = Some (refund_of x) \<and> opt_member x ''status'' = Str ''refunded'')"
proof (induction rows arbitrary: refunded)
  case (Cons x rows)
  let ?r = "refund_receipt x"
  have x: "?r \<notin> refunded" "amounts ?r = Some (refund_of x)" "opt_member x ''status'' = Str ''refunded''"
    and rest: "scan_refunds rid amounts rows (insert ?r refunded) = Inr (Some out)"
    using Cons.prems by (auto simp: res_simps Let_def refund_receipt_def refund_of_def split: if_splits)
  show ?case using Cons.IH[OF rest] x by auto
qed simp

lemma sum_over_receipts:
  assumes "finite R" "refund_receipt ` set bets \<subseteq> R"
  shows "(\<Sum>r \<in> R. receipt_total r bets) = (\<Sum>b \<leftarrow> bets. amount_of b)"
  using assms(2)
proof (induction bets)
  case Nil
  then show ?case by (simp add: receipt_total_def)
next
  case (Cons b bets)
  then have "(\<Sum>r \<in> R. if refund_receipt b = r then amount_of b else 0) = amount_of b"
    using assms(1) by (simp add: sum.delta')
  then show ?case using Cons by (simp add: receipt_total_Cons sum.distrib)
qed


definition refund_chain :: jsval where
  "refund_chain = Obj [(''id'', BN 7), (''settled'', Bool False), (''refundAt'', BN 400), (''totalReceipts'', BN 1),
     (''processedReceipts'', BN 1), (''closedReceipts'', BN 0), (''grossDeployedLamports'', BN 0),
     (''prizeLamports'', BN 0), (''tileLamports'', Arr (replicate 25 (BN 0))),
     (''tileReceipts'', Arr ((replicate 25 (BN 0))[2 := BN 1, 9 := BN 1]))]"

definition refund_projection :: jsval where
  "refund_projection = Obj [(''indexed_total_receipts'', Str ''1''), (''indexed_processed_receipts'', Str ''1''),
     (''indexed_closed_receipts'', Str ''0''),
     (''indexed_tile_lamports'', Arr ((replicate 25 (Str ''0''))[2 := Str ''100'', 9 := Str ''100''])),
     (''indexed_tile_receipts'', Arr ((replicate 25 (Str ''0''))[2 := Str ''1'', 9 := Str ''1'']))]"

definition refund_settlement :: jsval where
  "refund_settlement = Obj [(''round_id'', Str ''7''), (''receipt'', Str ''A''), (''status'', Str ''refunded''),
     (''sol_lamports'', Str ''200''), (''myne_base_units'', Str ''0''), (''motherlode_base_units'', Str ''0'')]"


section \<open>A closed round matches its archive\<close>


definition closed_row :: jsval where
  "closed_row = Obj (archived_fields @
     [(''buyback_completed'', Bool True), (''randomness_provider_kind'', Str ''switchboard''),
      (''randomness_commitment_hex'', Null), (''randomness_reveal_hex'', Null),
      (''randomness_target_slot'', Null), (''randomness_entropy_slot'', Null),
      (''randomness_entropy_hash_hex'', Null), (''randomness_commitment_signature'', Null),
      (''randomness_commitment_tx_slot'', Null), (''randomness_lock_signature'', Null),
      (''randomness_lock_tx_slot'', Null), (''randomness_reveal_signature'', Null),
      (''randomness_reveal_tx_slot'', Null)]
     @ [(''archive_verified'', Bool True), (''archive_hash'', Str (replicate 64 CHR ''0'')),
       (''closed_signature'', Str ''close''), (''closed_slot'', IntV 120), (''closed_receipts'', Str ''2'')])"

definition closed_proof :: jsval where
  "closed_proof = Obj [(''round_id'', Str ''7''), (''archive_hash'', Str (replicate 64 CHR ''0'')),
     (''canonical_snapshot'', demo_archive)]"

definition closed_projection :: jsval where
  "closed_projection = Obj [(''indexed_total_receipts'', Str ''2''), (''indexed_processed_receipts'', Str ''2''),
     (''indexed_closed_receipts'', Str ''2''),
     (''indexed_tile_lamports'', Arr ((replicate 25 (Str ''0''))[2 := Str ''100'', 9 := Str ''100''])),
     (''indexed_tile_receipts'', Arr ((replicate 25 (Str ''0''))[2 := Str ''1'', 9 := Str ''1'']))]"


section \<open>Bounded walks\<close>

lemma filter_upt_le:
  "0 \<le> m \<Longrightarrow> filter (\<lambda>k. start + int k \<le> start + m) [0..<n] = [0..<min n (Suc (nat m))]"
proof (induction n)
  case (Suc n)
  show ?case
  proof (cases "int n \<le> m")
    case True
    then have "n \<le> nat m" by linarith
    then show ?thesis using Suc True by (simp add: min_def)
  next
    case False
    then have n: "nat m < n" using Suc.prems by linarith
    have "min n (Suc (nat m)) = Suc (nat m)" "min (Suc n) (Suc (nat m)) = Suc (nat m)" using n by simp_all
    then show ?thesis using Suc.IH[OF Suc.prems] False by (simp del: upt_Suc add: upt_Suc[of 0 n])
  qed
qed simp

lemma row_bound_ok: "0 < n \<Longrightarrow> n \<le> cap \<Longrightarrow> row_bound (IntV n) cap msg k = k n"
  by (simp add: row_bound_def)

lemma asBigInt_Big [simp]: "asBigInt (Big n) = Inr n"
  by (simp add: asBigInt_def)

lemma with_default_given [simp]: "with_default (IntV n) d = IntV n" "with_default (Big n) d = Big n"
  by (simp_all add: with_default_def)

lemma gap_batch:
  assumes "0 \<le> c" "0 < d" "d \<le> 64" "0 < b" "b \<le> 32" "0 \<le> n" "n \<le> c - d"
  defines "k \<equiv> min b (c - d - n + 1)"
  shows "historicalRoundGapBatch (Big c) (IntV d) (Big n) (IntV b)
    = Inr (map (\<lambda>i. n + int i) [0..<nat k], if n + k \<le> c - d then n + k else 0)"
proof -
  have kpos: "0 < k" using assms by simp
  have ids: "filter (\<lambda>i. n + int i \<le> c - d) [0..<nat b] = [0..<nat k]"
  proof -
    have "filter (\<lambda>i. n + int i \<le> n + (c - d - n)) [0..<nat b] = [0..<min (nat b) (Suc (nat (c - d - n)))]"
      by (rule filter_upt_le) (use assms in simp)
    moreover have "min (nat b) (Suc (nat (c - d - n))) = nat k" using assms by (simp add: k_def)
    ultimately show ?thesis by simp
  qed
  have ne: "[0..<nat k] \<noteq> []" using kpos by simp
  have last: "last (map (\<lambda>i. n + int i) [0..<nat k]) = n + k - 1"
    using kpos by (simp add: last_map)
  have neg: "\<not> c - d < 0" using assms by simp
  have nxt: "(if n + k - 1 < c - d then n + k - 1 + 1 else 0) = (if n + k \<le> c - d then n + k else 0)" by simp
  show ?thesis
    unfolding historicalRoundGapBatch_def Let_def
    using assms(1-7) neg ids ne last nxt by (simp add: row_bound_ok)
qed

text \<open>Ticks of the indexer from a cursor until the cursor is back at zero, at a fixed current round.\<close>

fun gap_walk :: "nat \<Rightarrow> int \<Rightarrow> int \<Rightarrow> int \<Rightarrow> int \<Rightarrow> int list option" where
  "gap_walk 0 c d b cursor = None"
| "gap_walk (Suc ticks) c d b cursor = (case historicalRoundGapBatch (Big c) (IntV d) (Big cursor) (IntV b) of
     Inl e \<Rightarrow> None
   | Inr (ids, cursor') \<Rightarrow>
       if cursor' = 0 then Some ids else map_option (\<lambda>later. ids @ later) (gap_walk ticks c d b cursor'))"

lemma gap_walk_from:
  assumes "0 \<le> c" "0 < d" "d \<le> 64" "0 < b" "b \<le> 32"
  shows "0 \<le> n \<Longrightarrow> n \<le> c - d \<Longrightarrow> c - d - n < int ticks \<Longrightarrow> gap_walk ticks c d b n = Some [n..c - d]"
proof (induction ticks arbitrary: n)
  case (Suc ticks)
  let ?k = "min b (c - d - n + 1)"
  note g = gap_batch[OF assms Suc.prems(1,2)]
  have k: "0 < ?k" "n + ?k \<le> c - d + 1" using assms Suc.prems by auto
  have ids: "map (\<lambda>i. n + int i) [0..<nat ?k] = [n..n + ?k - 1]"
  proof (rule nth_equalityI)
    fix i assume "i < length (map (\<lambda>i. n + int i) [0..<nat ?k])"
    then have i: "i < nat ?k" by simp
    then have "n + int i \<le> n + ?k - 1" by linarith
    then show "map (\<lambda>i. n + int i) [0..<nat ?k] ! i = [n..n + ?k - 1] ! i" using i by (simp add: nth_upto)
  qed simp
  show ?case
  proof (cases "n + ?k \<le> c - d")
    case True
    then have "gap_walk ticks c d b (n + ?k) = Some [n + ?k..c - d]"
      using Suc.prems k by (intro Suc.IH) linarith+
    moreover have "[n..n + ?k - 1] @ [n + ?k..c - d] = [n..c - d]"
      using upto_split1[of n "n + ?k" "c - d"] True k by simp
    moreover have "n + ?k \<noteq> 0" using Suc.prems(1) k(1) by linarith
    ultimately show ?thesis using g True ids by simp
  next
    case False
    then have "n + ?k - 1 = c - d" using k by linarith
    then show ?thesis using g False ids by simp
  qed
qed simp

text \<open>
  The historical gap walk is complete and repeats nothing: at a fixed current round, starting at cursor
  zero and following the returned cursor until it is zero again, the batches together are every round id
  from zero up to the last one outside the recent window, in ascending order, after at most that many
  ticks; every batch stays within the bound of 32.
\<close>

theorem historicalRoundGapBatch_walk:
  assumes "d \<le> c" "0 < d" "d \<le> 64" "0 < b" "b \<le> 32"
  shows "gap_walk (nat (c - d) + 1) c d b 0 = Some [0..c - d]"
  by (rule gap_walk_from) (use assms in linarith)+

theorem historicalRoundGapBatch_walk_witness:
  "gap_walk (nat (30 - 12) + 1) 30 12 8 0 = Some [0..30 - 12]"
  by (rule historicalRoundGapBatch_walk) simp_all

section \<open>Signatures in canonical order\<close>

definition sortable_signature :: "nat \<times> jsval \<Rightarrow> bool" where
  "sortable_signature x = (to_num (opt_member (snd x) ''slot'') \<noteq> NaN)"

lemma number_order_to_num: "number_order a b = number_order (Num (to_num a)) (Num (to_num b))"
  by (simp add: number_order_def)

lemma signature_order_le:
  assumes "sortable_signature x" "sortable_signature y"
  defines "a \<equiv> to_num (opt_member (snd x) ''slot'')" and "b \<equiv> to_num (opt_member (snd y) ''slot'')"
  shows "\<exists>d. signature_order x y = Inr d \<and> (d \<le> 0 \<longleftrightarrow> num_lt a b \<or> (a = b \<and> fst y \<le> fst x))"
proof -
  have nn: "a \<noteq> NaN" "b \<noteq> NaN" using assms by (simp_all add: sortable_signature_def)
  have "number_order (opt_member (snd x) ''slot'') (opt_member (snd y) ''slot'')
      = (if num_lt a b then - 1 else if num_lt b a then 1 else 0)"
    by (simp add: number_order_def a_def b_def)
  then show ?thesis
    using num_lt_total[OF nn] num_lt_irrefl[of a] num_lt_trans[of a b a]
    by (cases "num_lt a b"; cases "num_lt b a") (auto simp: signature_order_def Let_def)
qed

lemma signature_order_nonpos:
  "sortable_signature x \<Longrightarrow> sortable_signature y \<Longrightarrow> signature_order x y = Inr d \<Longrightarrow>
     d \<le> 0 \<longleftrightarrow> num_lt (to_num (opt_member (snd x) ''slot'')) (to_num (opt_member (snd y) ''slot''))
       \<or> (to_num (opt_member (snd x) ''slot'') = to_num (opt_member (snd y) ''slot'') \<and> fst y \<le> fst x)"
  by (drule (1) signature_order_le) (elim exE conjE, simp only: sum.inject simp_thms)

interpretation signatures: row_order sortable_signature signature_order fst
proof
  fix x y z :: "nat \<times> jsval" and d e :: int
  let ?s = "\<lambda>x. to_num (opt_member (snd x) ''slot'')"
  assume x: "sortable_signature x" and y: "sortable_signature y"
  have nn: "?s x \<noteq> NaN" "?s y \<noteq> NaN" using x y by (simp_all add: sortable_signature_def)
  show "\<exists>d. signature_order x y = Inr d" using signature_order_le[OF x y] by blast
  show "e \<le> 0" if "signature_order x y = Inr d" "signature_order y x = Inr e" "0 < d"
  proof -
    have "\<not> (num_lt (?s x) (?s y) \<or> ?s x = ?s y \<and> fst y \<le> fst x)"
      using signature_order_nonpos[OF x y that(1)] that(3) by linarith
    then have "num_lt (?s y) (?s x) \<or> ?s y = ?s x \<and> fst x \<le> fst y" using num_lt_total[OF nn] by (metis nat_le_linear)
    then show ?thesis using signature_order_nonpos[OF y x that(2)] by blast
  qed
  show "fst x = fst y" if "signature_order x y = Inr d" "d \<le> 0" "signature_order y x = Inr e" "e \<le> 0"
  proof -
    have "num_lt (?s x) (?s y) \<or> ?s x = ?s y \<and> fst y \<le> fst x" using signature_order_nonpos[OF x y that(1)] that(2) by blast
    moreover have "num_lt (?s y) (?s x) \<or> ?s y = ?s x \<and> fst x \<le> fst y" using signature_order_nonpos[OF y x that(3)] that(4) by blast
    moreover have "\<not> (num_lt (?s x) (?s y) \<and> num_lt (?s y) (?s x))" "\<not> num_lt (?s x) (?s x)"
      using num_lt_trans num_lt_irrefl by blast+
    ultimately show ?thesis by fastforce
  qed
  assume z: "sortable_signature z"
  show "\<exists>f. signature_order x z = Inr f \<and> f \<le> 0"
    if "signature_order x y = Inr d" "d \<le> 0" "signature_order y z = Inr e" "e \<le> 0"
  proof -
    have "num_lt (?s x) (?s y) \<or> ?s x = ?s y \<and> fst y \<le> fst x" using signature_order_nonpos[OF x y that(1)] that(2) by blast
    moreover have "num_lt (?s y) (?s z) \<or> ?s y = ?s z \<and> fst z \<le> fst y" using signature_order_nonpos[OF y z that(3)] that(4) by blast
    ultimately have "num_lt (?s x) (?s z) \<or> ?s x = ?s z \<and> fst z \<le> fst x"
      using num_lt_trans[of "?s x" "?s y" "?s z"] by auto
    then show ?thesis using signature_order_le[OF x z] by blast
  qed
qed

definition row_signature :: "jsval \<Rightarrow> jsval" where
  "row_signature row = opt_member row ''signature''"

definition usable_row :: "jsval \<Rightarrow> bool" where
  "usable_row row = (truthy (row_signature row) \<and> \<not> truthy (opt_member row ''err''))"

definition row_slot :: "jsval \<Rightarrow> jsnum" where
  "row_slot row = to_num (opt_member row ''slot'')"

lemma keep_signatures:
  "set (fold keep_signature rows []) \<subseteq> {r \<in> set rows. usable_row r}
   \<and> distinct (map row_signature (fold keep_signature rows []))
   \<and> row_signature ` set (fold keep_signature rows []) = row_signature ` {r \<in> set rows. usable_row r}"
proof (induction rows rule: rev_induct)
  case (snoc r rows)
  let ?u = "fold keep_signature rows []"
  show ?case
  proof (cases "usable_row r")
    case False
    then have "fold keep_signature (rows @ [r]) [] = ?u" by (simp add: keep_signature_def usable_row_def row_signature_def)
    then show ?thesis using snoc False by auto
  next
    case True
    then have f: "fold keep_signature (rows @ [r]) []
        = (if row_signature r \<in> row_signature ` set ?u then ?u else ?u @ [r])"
      by (auto simp: keep_signature_def usable_row_def row_signature_def list_ex_iff image_iff) metis
    show ?thesis
    proof (cases "row_signature r \<in> row_signature ` set ?u")
      case t: True
      then show ?thesis using snoc f True by auto
    next
      case t: False
      then show ?thesis using snoc f True by auto
    qed
  qed
qed simp

text \<open>
  Replay sees history in canonical order: the result holds every successful signature of the RPC pages
  exactly once and nothing else, in ascending slot order, so an event is projected before the settlements
  that depend on it.
\<close>

theorem canonicalSignatureOrder_canonical:
  assumes "\<forall>r \<in> set rows. row_slot r \<noteq> NaN"
  shows "\<exists>out. canonicalSignatureOrder rows = Inr out
    \<and> set out \<subseteq> {r \<in> set rows. usable_row r} \<and> distinct (map row_signature out)
    \<and> row_signature ` set out = row_signature ` {r \<in> set rows. usable_row r}
    \<and> sorted_wrt (\<lambda>x y. num_le (row_slot x) (row_slot y)) out"
proof -
  let ?u = "fold keep_signature rows []"
  note K = keep_signatures[of rows]
  have s: "set (map snd (enumerate 0 ?u)) = set ?u" by (simp only: map_snd_enumerate)
  have "\<forall>x \<in> set (enumerate 0 ?u). sortable_signature x"
  proof
    fix x assume "x \<in> set (enumerate 0 ?u)"
    then have "snd x \<in> set ?u" by (metis image_eqI s set_map)
    then show "sortable_signature x" using K assms by (auto simp: sortable_signature_def row_slot_def)
  qed
  then obtain ys where ys: "sort_by signature_order (enumerate 0 ?u) = Inr ys" "mset ys = mset (enumerate 0 ?u)"
    "sorted_wrt (\<lambda>x y. \<exists>d. signature_order x y = Inr d \<and> d \<le> 0) ys"
    using signatures.sort_by_sorts by blast
  have m: "mset (map snd ys) = mset ?u" using ys(2) by (metis map_snd_enumerate mset_map)
  then have set: "set (map snd ys) = set ?u" by (metis set_mset_mset)
  have sig: "mset (map row_signature (map snd ys)) = mset (map row_signature ?u)" using m by (simp only: mset_map)
  have ok: "\<forall>x \<in> set ys. sortable_signature x"
    using ys(2) \<open>\<forall>x \<in> set (enumerate 0 ?u). sortable_signature x\<close> by (metis set_mset_mset)
  have "sorted_wrt (\<lambda>x y. num_le (row_slot (snd x)) (row_slot (snd y))) ys"
  proof (rule sorted_wrt_mono_rel[OF _ ys(3)])
    fix x y assume xy: "x \<in> set ys" "y \<in> set ys" "\<exists>d. signature_order x y = Inr d \<and> d \<le> 0"
    then have "sortable_signature x" "sortable_signature y" using ok by auto
    then show "num_le (row_slot (snd x)) (row_slot (snd y))"
      using signature_order_le[of x y] xy(3) by (auto simp: num_le_def row_slot_def sortable_signature_def)
  qed
  then have sorted: "sorted_wrt (\<lambda>x y. num_le (row_slot x) (row_slot y)) (map snd ys)"
    by (simp add: sorted_wrt_map)
  have dist: "distinct (map row_signature (map snd ys))"
    using K mset_eq_imp_distinct_iff[OF sig] by blast
  have run: "canonicalSignatureOrder rows = Inr (map snd ys)"
    using ys(1) by (simp add: canonicalSignatureOrder_def map_ok_def)
  show ?thesis
    by (rule exI[of _ "map snd ys"]) (use run sorted dist K set in \<open>simp only: simp_thms\<close>)
qed

definition demo_signature :: "string \<Rightarrow> int \<Rightarrow> jsval" where
  "demo_signature sig slot = Obj [(''signature'', Str sig), (''slot'', IntV slot), (''err'', Null)]"

theorem canonicalSignatureOrder_canonical_witness:
  "\<exists>out. canonicalSignatureOrder [demo_signature ''c'' 9, demo_signature ''b'' 5, demo_signature ''b'' 5, demo_signature ''a'' 5] = Inr out
     \<and> distinct (map row_signature out)"
proof -
  have "\<forall>r \<in> set [demo_signature ''c'' 9, demo_signature ''b'' 5, demo_signature ''b'' 5, demo_signature ''a'' 5]. row_slot r \<noteq> NaN"
    by (simp add: demo_signature_def row_slot_def)
  from canonicalSignatureOrder_canonical[OF this] show ?thesis by blast
qed

section \<open>No replay means nothing is missing\<close>

text \<open>
  A settled round whose receipts are all processed is left alone only when the index is complete: the
  row is resolved, every tile and receipt aggregate and both lifecycle counters equal the chain account,
  the settlement signature is recorded, and a round in server randomness mode has its whole proof.
\<close>

theorem roundNeedsCanonicalReplay_complete:
  assumes "roundNeedsCanonicalReplay indexedRound chainRound indexedProjection = Inr False"
    and "truthy chainRound" "truthy (opt_member chainRound ''settled'')"
    and "same_int (opt_member chainRound ''processedReceipts'') (opt_member chainRound ''totalReceipts'') = Inr True"
  shows "truthy (opt_member indexedRound ''resolved'')
    \<and> roundProjectionMatchesChain chainRound indexedProjection = Inr True
    \<and> truthy (opt_member indexedRound ''settlement_signature'')
    \<and> (\<exists>slot. asBigInt (opt_member chainRound ''randomnessCommitSlot'') = Inr slot
         \<and> (and slot (2 ^ 63) \<noteq> 0 \<longrightarrow> completeServerProof indexedRound))"
  using assms unfolding roundNeedsCanonicalReplay_def roundProjectionMatchesChain_def and_then_def Let_def
  by (auto simp: res_simps split: if_splits)

definition settled_chain :: jsval where
  "settled_chain = Obj [(''settled'', Bool True), (''totalReceipts'', BN 1), (''processedReceipts'', BN 1),
     (''closedReceipts'', BN 0), (''randomnessCommitSlot'', BN 90),
     (''tileLamports'', Arr ((replicate 25 (BN 0))[2 := BN 100, 9 := BN 100])),
     (''tileReceipts'', Arr ((replicate 25 (BN 0))[2 := BN 1, 9 := BN 1]))]"

definition settled_row :: jsval where
  "settled_row = Obj [(''resolved'', Bool True), (''settlement_signature'', Str ''sig'')]"

theorem roundNeedsCanonicalReplay_complete_witness:
  "roundNeedsCanonicalReplay settled_row settled_chain refund_projection = Inr False
   \<and> roundProjectionMatchesChain settled_chain refund_projection = Inr True"
proof -
  have a: "roundNeedsCanonicalReplay settled_row settled_chain refund_projection = Inr False" by code_simp
  have b: "truthy settled_chain" "truthy (opt_member settled_chain ''settled'')" by code_simp+
  have c: "same_int (opt_member settled_chain ''processedReceipts'') (opt_member settled_chain ''totalReceipts'') = Inr True"
    by code_simp
  from roundNeedsCanonicalReplay_complete[OF a b c] a show ?thesis by blast
qed

end
