(* ===== verification/Buyback_Policy.thy ===== *)
theory Buyback_Policy
  imports Js_Json
begin

text \<open>
  \<open>Protocol/scripts/buyback-policy.mjs\<close>: what the buyback keeper may spend, which round it serves next,
  when a journaled swap can be abandoned, and the checks on Jupiter's quotes and transactions. The URL
  parser of the host is a parameter, as are the RPC read and the pause of the retry loop, which may
  change the keeper's state \<open>'s\<close>.
\<close>

section \<open>Constants and endpoints\<close>

definition NATIVE_SOL_MINT :: string where
  "NATIVE_SOL_MINT = ''So11111111111111111111111111111111111111112''"

definition METEORA_DLMM_LABEL :: string where
  "METEORA_DLMM_LABEL = ''Meteora DLMM''"

definition METEORA_DAMM_V2_LABEL :: string where
  "METEORA_DAMM_V2_LABEL = ''Meteora DAMM v2''"

definition METEORA_DLMM_PROGRAM_TEXT :: string where
  "METEORA_DLMM_PROGRAM_TEXT = ''LBUZKhRxPF3XUpBCjp4YzTKgLccjZhTSDM9YuVaPwxo''"

definition METEORA_DAMM_V2_PROGRAM_TEXT :: string where
  "METEORA_DAMM_V2_PROGRAM_TEXT = ''cpamdpZCGKUy5JxQXB4dcpGPiikHawvSWAd6mEn1sGG''"

definition OFFICIAL_JUPITER_HOSTS :: "string list" where
  "OFFICIAL_JUPITER_HOSTS = [''lite-api.jup.ag'', ''api.jup.ag'']"

definition JUPITER_PRIORITY_LEVELS :: "string list" where
  "JUPITER_PRIORITY_LEVELS = [''medium'', ''high'', ''veryHigh'']"

definition validateJupiterPriorityLevel :: "jsval \<Rightarrow> string res" where
  "validateJupiterPriorityLevel v =
     (let priorityLevel = to_str (js_or (with_default v (Str ''medium'')) (Str ''medium'')) in
      assert_ok (priorityLevel \<in> set JUPITER_PRIORITY_LEVELS)
        (''JUPITER_PRIORITY_LEVEL must be one of '' @ join '', '' JUPITER_PRIORITY_LEVELS) (Inr priorityLevel))"

record url =
  protocol :: string
  username :: string
  password :: string
  search :: string
  url_hash :: string
  pathname :: string
  hostname :: string
  href :: string

definition validateJupiterEndpoint :: "(jsval \<Rightarrow> url res) \<Rightarrow> jsval \<Rightarrow> string \<Rightarrow> bool \<Rightarrow> string res" where
  "validateJupiterEndpoint parse_url v expectedPath allowCustom =
     then_res (parse_url v) (\<lambda>endpoint.
     assert_ok (protocol endpoint = ''https:'') ''Jupiter endpoint must use HTTPS'' (
     assert_ok (username endpoint = []) ''Jupiter endpoint must not contain URL credentials'' (
     assert_ok (password endpoint = []) ''Jupiter endpoint must not contain URL credentials'' (
     assert_ok (search endpoint = []) ''Configure a Jupiter endpoint without query parameters'' (
     assert_ok (url_hash endpoint = []) ''Configure a Jupiter endpoint without a fragment'' (
     assert_ok (pathname endpoint = expectedPath) (''Jupiter endpoint path must be '' @ expectedPath) (
     assert_ok (hostname endpoint \<in> set OFFICIAL_JUPITER_HOSTS \<or> allowCustom)
       (''Unapproved Jupiter endpoint host: '' @ hostname endpoint) (Inr (href endpoint)))))))))"

section \<open>Spending\<close>

record spend =
  spendLamports :: jsnum
  skipped :: bool
  reason :: "string option"

definition calculateSpend :: "jsnum \<Rightarrow> jsnum \<Rightarrow> jsnum \<Rightarrow> jsnum \<Rightarrow> spend" where
  "calculateSpend balanceLamports reserveLamports maxSpendLamports minimumLamports =
     (let amount = num_min maxSpendLamports (num_max (Fin 0) (num_sub balanceLamports reserveLamports));
          below = num_lt amount minimumLamports in
      \<lparr>spendLamports = amount, skipped = below, reason = (if below then Some ''below-minimum'' else None)\<rparr>)"

definition positive_amount :: "jsval \<Rightarrow> bool res" where
  "positive_amount v = then_res (bigint_of_string (to_str (js_or v (IntV 0)))) (\<lambda>n. Inr (0 < n))"

definition nonempty_text :: "jsval \<Rightarrow> bool" where
  "nonempty_text v = (is_str v \<and> v \<noteq> Str [])"

definition isCompleteBuybackExecution :: "jsval \<Rightarrow> bool res" where
  "isCompleteBuybackExecution entry =
     (if \<not> truthy entry then Inr False
      else then_res (positive_amount (opt_member entry ''spendLamports'')) (\<lambda>a. if \<not> a then Inr False
      else then_res (positive_amount (opt_member entry ''expectedOutputBaseUnits'')) (\<lambda>b. if \<not> b then Inr False
      else then_res (positive_amount (opt_member entry ''burnedBaseUnits'')) (\<lambda>c.
        Inr (c \<and> nonempty_text (opt_member entry ''swapSignature'') \<and> nonempty_text (opt_member entry ''burnSignature''))))))"

section \<open>Transactions\<close>

text \<open>\<open>key?.toBase58?.()\<close> and \<open>v?.[0]\<close>, \<open>v?.length\<close>.\<close>

fun base58_of :: "jsval \<Rightarrow> jsval" where
  "base58_of (Key s) = Str s"
| "base58_of _ = Undef"

fun first_of :: "jsval \<Rightarrow> jsval" where
  "first_of (Arr (x # xs)) = x"
| "first_of _ = Undef"

fun length_of :: "jsval \<Rightarrow> jsval" where
  "length_of (Arr xs) = IntV (int (length xs))"
| "length_of (Str s) = IntV (int (length s))"
| "length_of _ = Undef"

fun byte_elements :: "jsval \<Rightarrow> jsval list" where
  "byte_elements (Arr xs) = xs"
| "byte_elements _ = []"

fun set_member :: "jsval \<Rightarrow> string \<Rightarrow> jsval \<Rightarrow> jsval" where
  "set_member (Obj fs) k v = Obj (put_field k v fs)"
| "set_member w k v = w"

definition refreshUnsignedV0TransactionBlockhash :: "jsval \<Rightarrow> jsval \<Rightarrow> jsval \<Rightarrow> jsval res" where
  "refreshUnsignedV0TransactionBlockhash transaction expectedPayer blockhash =
     (let message = opt_member transaction ''message'' in
     assert_ok (base58_of (first_of (opt_member message ''staticAccountKeys'')) = expectedPayer)
       ''Jupiter transaction fee payer changed unexpectedly'' (
     then_res (then_res (member transaction ''message'') (\<lambda>m. member m ''header'')) (\<lambda>header.
     assert_ok (opt_member header ''numRequiredSignatures'' = IntV 1)
       ''Jupiter transaction requires an unexpected signer'' (
     let signatures = opt_member transaction ''signatures'' in
     assert_ok (length_of signatures = IntV 1) ''Jupiter transaction signature layout changed'' (
     assert_ok (length_of (first_of signatures) = IntV 64) ''Jupiter transaction signature must be 64 bytes'' (
     assert_ok (list_all (\<lambda>byte. byte = IntV 0) (byte_elements (first_of signatures)))
       ''Jupiter transaction must be unsigned before its blockhash is refreshed'' (
     assert_ok (nonempty_text blockhash) ''Fresh blockhash is required'' (
     Inr (set_member transaction ''message'' (set_member message ''recentBlockhash'' blockhash))))))))))"

definition safe_nonneg :: "jsval \<Rightarrow> bool" where
  "safe_nonneg v = (case safe_int v of None \<Rightarrow> False | Some n \<Rightarrow> 0 \<le> n)"

definition pinLatestBlockhashContext :: "jsval \<Rightarrow> jsval \<Rightarrow> jsval res" where
  "pinLatestBlockhashContext response commitment =
     (let minContextSlot = opt_member (opt_member response ''context'') ''slot'';
          blockhash = opt_member (opt_member response ''value'') ''blockhash'';
          lastValidBlockHeight = opt_member (opt_member response ''value'') ''lastValidBlockHeight'' in
     assert_ok (safe_nonneg minContextSlot) ''Latest blockhash context slot is invalid'' (
     assert_ok (nonempty_text blockhash) ''Latest blockhash is invalid'' (
     assert_ok (safe_nonneg lastValidBlockHeight) ''Latest blockhash last-valid height is invalid'' (
     assert_ok (nonempty_text commitment) ''RPC commitment is required'' (
     Inr (Obj [(''latestBlockhash'', Obj [(''blockhash'', blockhash), (''lastValidBlockHeight'', lastValidBlockHeight)]),
       (''contextConfig'', Obj [(''commitment'', commitment), (''minContextSlot'', minContextSlot)])]))))))"

definition savedTransactionSendOptions :: "jsval \<Rightarrow> jsval \<Rightarrow> jsval res" where
  "savedTransactionSendOptions minContextSlot commitment =
     assert_ok (nonempty_text commitment) ''RPC commitment is required'' (
     assert_ok (nullish minContextSlot \<or> safe_nonneg minContextSlot) ''Saved transaction minimum context slot is invalid'' (
     Inr (Obj ([(''maxRetries'', IntV 3), (''skipPreflight'', Bool False), (''preflightCommitment'', commitment)]
       @ (if nullish minContextSlot then [] else [(''minContextSlot'', minContextSlot)])))))"

section \<open>Retrying a read\<close>

definition lower_char :: "char \<Rightarrow> char" where
  "lower_char c = (let n = (of_char c :: nat) in if 65 \<le> n \<and> n \<le> 90 then char_of (n + 32) else c)"

fun contains_text :: "string \<Rightarrow> string \<Rightarrow> bool" where
  "contains_text pat [] = (pat = [])"
| "contains_text pat (c # s) = (take (length pat) (c # s) = pat \<or> contains_text pat s)"

text \<open>\<open>/blockhash/i.test(message)\<close>\<close>

definition transient_blockhash :: "js_error \<Rightarrow> bool" where
  "transient_blockhash e = contains_text ''blockhash'' (map lower_char (error_message e))"

text \<open>The loop, with the attempts that are left after this one.\<close>

fun retry_read :: "('s \<Rightarrow> 'a res \<times> 's) \<Rightarrow> (nat \<Rightarrow> 's \<Rightarrow> 's) \<Rightarrow> nat \<Rightarrow> nat \<Rightarrow> 's \<Rightarrow> 'a res \<times> 's" where
  "retry_read read wait attempt 0 s = read s"
| "retry_read read wait attempt (Suc left) s = (case read s of
     (Inr x, s') \<Rightarrow> (Inr x, s')
   | (Inl e, s') \<Rightarrow> if transient_blockhash e then retry_read read wait (Suc attempt) left (wait attempt s') else (Inl e, s'))"

definition retryTransientBlockhashRead ::
  "('s \<Rightarrow> 'a res \<times> 's) \<Rightarrow> jsval \<Rightarrow> (nat \<Rightarrow> 's \<Rightarrow> 's) \<Rightarrow> 's \<Rightarrow> 'a res \<times> 's" where
  "retryTransientBlockhashRead read attempts wait s = (case safe_int (with_default attempts (IntV 4)) of
     None \<Rightarrow> (Inl (AssertionError ''Retry attempts are invalid''), s)
   | Some n \<Rightarrow> if 1 \<le> n \<and> n \<le> 10 then retry_read read wait 1 (nat n - 1) s
       else (Inl (AssertionError ''Retry attempts are invalid''), s))"

section \<open>Swaps and rounds\<close>

definition pendingSwapIsProvablyExpired :: "jsval \<Rightarrow> jsval \<Rightarrow> jsval \<Rightarrow> jsval \<Rightarrow> jsval \<Rightarrow> bool" where
  "pendingSwapIsProvablyExpired signatureStatus outputIncreased currentBlockHeight lastValidBlockHeight blockhashValid =
     (if truthy signatureStatus \<or> truthy outputIncreased then False
      else case (safe_int currentBlockHeight, safe_int lastValidBlockHeight) of
        (Some height, Some lastValid) \<Rightarrow> lastValid < height
      | _ \<Rightarrow> blockhashValid = Bool False)"

text \<open>\<open>total(balances)\<close>: the amounts of the entries of this mint and owner.\<close>

definition token_total :: "jsval \<Rightarrow> jsval \<Rightarrow> jsval list \<Rightarrow> int res" where
  "token_total mint owner balances =
     fold_res (\<lambda>entry sum. then_res (to_bigint (js_or (opt_member (opt_member entry ''uiTokenAmount'') ''amount'') (IntV 0)))
         (\<lambda>n. Inr (sum + n)))
       (filter (\<lambda>entry. opt_member entry ''mint'' = mint \<and> opt_member entry ''owner'' = owner) balances) 0"

definition purchasedTokenBaseUnits :: "jsval list \<Rightarrow> jsval list \<Rightarrow> jsval \<Rightarrow> jsval \<Rightarrow> int res" where
  "purchasedTokenBaseUnits preTokenBalances postTokenBalances mint owner =
     then_res (token_total mint owner preTokenBalances) (\<lambda>before.
     then_res (token_total mint owner postTokenBalances) (\<lambda>after.
     assert_ok (before < after) ''Confirmed swap transaction has no positive MYNE balance delta'' (Inr (after - before))))"

definition text_id :: "jsval \<Rightarrow> int res" where
  "text_id v = bigint_of_string (to_str v)"

definition needs_buyback :: "int \<Rightarrow> int \<Rightarrow> jsval \<Rightarrow> bool res" where
  "needs_buyback cursor current row =
     then_res (then_res (member row ''round_id'') text_id) (\<lambda>roundId.
     if \<not> (cursor \<le> roundId \<and> roundId \<le> current \<and> opt_member row ''resolved'' = Bool True
          \<and> opt_member row ''buyback_completed'' \<noteq> Bool True) then Inr False
     else positive_amount (opt_member row ''total_wager_wei''))"

text \<open>\<open>rows.filter(f)\<close> with a callback that may throw.\<close>

fun filter_res :: "('a \<Rightarrow> bool res) \<Rightarrow> 'a list \<Rightarrow> 'a list res" where
  "filter_res f [] = Inr []"
| "filter_res f (x # xs) = then_res (f x) (\<lambda>b. then_res (filter_res f xs) (\<lambda>ys. Inr (if b then x # ys else ys)))"

text \<open>The first row after the stable sort by round id.\<close>

fun oldest_row :: "jsval list \<Rightarrow> (int \<times> jsval) option res" where
  "oldest_row [] = Inr None"
| "oldest_row (row # rows) = then_res (text_id (opt_member row ''round_id'')) (\<lambda>n.
     then_res (oldest_row rows) (\<lambda>best. Inr (case best of
       None \<Rightarrow> Some (n, row) | Some (m, r) \<Rightarrow> Some (if m < n then (m, r) else (n, row)))))"

definition selectIndexedBuybackRound :: "jsval list \<Rightarrow> jsval \<Rightarrow> jsval \<Rightarrow> jsval res" where
  "selectIndexedBuybackRound rows cursorRound currentRound =
     then_res (text_id cursorRound) (\<lambda>cursor.
     then_res (text_id currentRound) (\<lambda>current.
     assert_ok (0 \<le> cursor \<and> 0 \<le> current) ''Buyback round bounds must be non-negative'' (
     if current < cursor then Inr Null
     else then_res (filter_res (needs_buyback cursor current) rows) (\<lambda>eligible.
       then_res (oldest_row eligible) (\<lambda>best. Inr (case best of None \<Rightarrow> Null | Some (n, row) \<Rightarrow> row))))))"

definition meteoraRouteForProgram :: "jsval \<Rightarrow> jsval res" where
  "meteoraRouteForProgram poolProgram = (let v = to_str poolProgram in
     if v = METEORA_DLMM_PROGRAM_TEXT
     then Inr (Obj [(''program'', Str v), (''label'', Str METEORA_DLMM_LABEL), (''kind'', Str ''dlmm'')])
     else if v = METEORA_DAMM_V2_PROGRAM_TEXT
     then Inr (Obj [(''program'', Str v), (''label'', Str METEORA_DAMM_V2_LABEL), (''kind'', Str ''damm-v2'')])
     else Inl (Error (''Unsupported registered Meteora program: '' @ v)))"

definition validateDirectMeteoraQuote :: "jsval \<Rightarrow> jsval \<Rightarrow> jsval \<Rightarrow> jsval \<Rightarrow> jsval \<Rightarrow> jsval \<Rightarrow> jsval res" where
  "validateDirectMeteoraQuote quote poolAddress inputLamports outputMint expectedAmmLabel maxPriceImpactPct =
     then_res (member quote ''inputMint'') (\<lambda>inputMint.
     assert_ok (inputMint = Str NATIVE_SOL_MINT) ''Quote input is not native SOL'' (
     assert_ok (opt_member quote ''outputMint'' = outputMint) ''Quote output is not MYNE'' (
     assert_ok (to_str (opt_member quote ''inAmount'') = to_str inputLamports) ''Quote input amount changed unexpectedly'' (
     then_res (to_bigint (js_or (opt_member quote ''outAmount'') (IntV 0))) (\<lambda>outAmount.
     assert_ok (0 < outAmount) ''Quote returned zero MYNE'' (
     let routePlan = opt_member quote ''routePlan''; cap = with_default maxPriceImpactPct (IntV 5) in
     assert_ok (length (byte_elements routePlan) = 1) ''Buyback must use one direct route'' (
     then_res (member (first_of routePlan) ''swapInfo'') (\<lambda>swapInfo.
     assert_ok (opt_member swapInfo ''ammKey'' = poolAddress) ''Quote does not use the registered Meteora pool'' (
     assert_ok (expectedAmmLabel = Str METEORA_DLMM_LABEL \<or> expectedAmmLabel = Str METEORA_DAMM_V2_LABEL)
       ''Expected Meteora route label is unsupported'' (
     assert_ok (opt_member swapInfo ''label'' = expectedAmmLabel) (''Quote route is not '' @ to_str expectedAmmLabel) (
     let priceImpactPct = to_num (opt_member quote ''priceImpactPct'') in
     assert_ok (is_finite priceImpactPct \<and> num_le priceImpactPct (to_num cap))
       (''Price impact exceeds '' @ to_str cap @ ''%'') (
     Inr (Obj [(''inputLamports'', Str (to_str inputLamports)), (''outputBaseUnits'', Str (to_str (opt_member quote ''outAmount''))),
       (''priceImpactPct'', Str (to_str (opt_member quote ''priceImpactPct'')))])))))))))))))"

section \<open>The next round to serve\<close>

definition row_id :: "jsval \<Rightarrow> int" where
  "row_id row = or_else (text_id (opt_member row ''round_id'')) 0"

lemma filter_res_Inr:
  "filter_res f xs = Inr ys \<Longrightarrow> ys = filter (\<lambda>x. f x = Inr True) xs \<and> (\<forall>x \<in> set xs. \<exists>b. f x = Inr b)"
proof (induction xs arbitrary: ys)
  case (Cons x xs)
  then obtain b zs where "f x = Inr b" "filter_res f xs = Inr zs" "ys = (if b then x # zs else zs)"
    by (auto simp: res_simps)
  then show ?case using Cons.IH[of zs] by auto
qed simp

lemma oldest_row_Inr:
  "oldest_row rows = Inr best \<Longrightarrow> (case best of None \<Rightarrow> rows = []
     | Some (n, row) \<Rightarrow> row \<in> set rows \<and> n = row_id row \<and> (\<forall>r \<in> set rows. n \<le> row_id r))"
proof (induction rows arbitrary: best)
  case Nil
  then show ?case by auto
next
  case (Cons r rows)
  then obtain n b where nb: "text_id (opt_member r ''round_id'') = Inr n" "oldest_row rows = Inr b"
    "best = (case b of None \<Rightarrow> Some (n, r) | Some (m, q) \<Rightarrow> Some (if m < n then (m, q) else (n, r)))"
    by (auto simp: res_simps)
  have "row_id r = n" using nb(1) by (simp add: row_id_def)
  then show ?case using Cons.IH[OF nb(2)] nb(3)
    by (cases b) (auto split: if_splits, meson linorder_not_less order_trans)
qed

lemma positive_amount_True:
  "positive_amount v = Inr True \<longleftrightarrow> (\<exists>n. bigint_of_string (to_str (js_or v (IntV 0))) = Inr n \<and> 0 < n)"
  by (auto simp: positive_amount_def res_simps)

lemma needs_buyback_True:
  "needs_buyback cursor current row = Inr True \<longleftrightarrow> \<not> nullish row
     \<and> (\<exists>n. text_id (opt_member row ''round_id'') = Inr n \<and> cursor \<le> n \<and> n \<le> current)
     \<and> opt_member row ''resolved'' = Bool True \<and> opt_member row ''buyback_completed'' \<noteq> Bool True
     \<and> positive_amount (opt_member row ''total_wager_wei'') = Inr True"
  by (auto simp: needs_buyback_def res_simps member_def split: if_splits)

text \<open>
  The buyback keeper serves rounds oldest first and only those that owe a buyback: the selected row is
  within the cursor and the current round, resolved, not yet bought back and with a positive wager, and no
  such row has a smaller round id; null is returned only when there is no such row.
\<close>

theorem selectIndexedBuybackRound_oldest:
  assumes "selectIndexedBuybackRound rows (Big cursor) (Big current) = Inr out"
  shows "(out = Null \<and> (\<forall>row \<in> set rows. needs_buyback cursor current row \<noteq> Inr True))
    \<or> (out \<in> set rows \<and> needs_buyback cursor current out = Inr True
       \<and> (\<forall>row \<in> set rows. needs_buyback cursor current row = Inr True \<longrightarrow> row_id out \<le> row_id row))"
proof (cases "current < cursor")
  case True
  then have "out = Null" using assms by (simp add: selectIndexedBuybackRound_def text_id_def res_simps)
  moreover have "needs_buyback cursor current row \<noteq> Inr True" for row using True by (auto simp: needs_buyback_True)
  ultimately show ?thesis by blast
next
  case False
  then obtain eligible best where e: "filter_res (needs_buyback cursor current) rows = Inr eligible"
    "oldest_row eligible = Inr best" "out = (case best of None \<Rightarrow> Null | Some (n, row) \<Rightarrow> row)"
    using assms by (auto simp: selectIndexedBuybackRound_def text_id_def res_simps)
  have f: "set eligible = {row \<in> set rows. needs_buyback cursor current row = Inr True}"
    using filter_res_Inr[OF e(1)] by simp
  show ?thesis
  proof (cases best)
    case None
    then have "set eligible = {}" using oldest_row_Inr[OF e(2)] by simp
    then have "\<forall>row \<in> set rows. needs_buyback cursor current row \<noteq> Inr True" unfolding f by blast
    then show ?thesis using e(3) None by simp
  next
    case (Some p)
    obtain n row where p: "p = (n, row)" by fastforce
    have o: "row \<in> set eligible" "n = row_id row" "\<forall>r \<in> set eligible. n \<le> row_id r"
      using oldest_row_Inr[OF e(2)] unfolding Some p option.case prod.case by blast+
    have out: "out = row" using e(3) Some p by simp
    have "out \<in> set rows" "needs_buyback cursor current out = Inr True" using o(1) unfolding f out by blast+
    moreover have "\<forall>r \<in> set rows. needs_buyback cursor current r = Inr True \<longrightarrow> row_id out \<le> row_id r"
      using o(2,3) unfolding f out by blast
    ultimately show ?thesis by blast
  qed
qed

definition buyback_demo :: "int \<Rightarrow> bool \<Rightarrow> jsval" where
  "buyback_demo n done_already = Obj [(''round_id'', IntV n), (''resolved'', Bool True),
     (''buyback_completed'', Bool done_already), (''total_wager_wei'', Str ''500'')]"

theorem selectIndexedBuybackRound_oldest_witness:
  "selectIndexedBuybackRound [buyback_demo 9 False, buyback_demo 4 True, buyback_demo 6 False] (Big 2) (Big 20)
     = Inr (buyback_demo 6 False)
   \<and> needs_buyback 2 20 (buyback_demo 6 False) = Inr True"
proof -
  have e: "selectIndexedBuybackRound [buyback_demo 9 False, buyback_demo 4 True, buyback_demo 6 False] (Big 2) (Big 20)
     = Inr (buyback_demo 6 False)" by code_simp
  have "buyback_demo 6 False \<noteq> Null" by (simp add: buyback_demo_def)
  with selectIndexedBuybackRound_oldest[OF e] e show ?thesis by blast
qed

section \<open>The spend keeps the reserve\<close>

lemma num_of_int_lt: "num_lt (Fin (of_int m)) (Fin (of_int n)) \<longleftrightarrow> m < n"
  by simp

text \<open>
  For exact lamport amounts the buyback never touches the reserve: it spends the smaller of the cap and
  the balance above the reserve, never a negative amount, and after any execution that is not skipped the
  balance that is left covers the reserve and at least the minimum was spent.
\<close>

theorem calculateSpend_keeps_reserve:
  fixes balance reserve cap minimum :: int
  assumes "safe_num balance" "safe_num reserve" "safe_num (balance - reserve)" "0 \<le> cap"
  defines "s \<equiv> calculateSpend (Fin (of_int balance)) (Fin (of_int reserve)) (Fin (of_int cap)) (Fin (of_int minimum))"
  shows "spendLamports s = Fin (of_int (min cap (max 0 (balance - reserve))))
    \<and> (\<not> skipped s \<and> 0 < minimum \<longrightarrow> reserve \<le> balance - min cap (max 0 (balance - reserve))
         \<and> minimum \<le> min cap (max 0 (balance - reserve)))"
proof -
  have sub: "num_sub (Fin (of_int balance)) (Fin (of_int reserve)) = Fin (of_int (balance - reserve))"
    using num_of_int_small[OF assms(3)] by (simp add: num_sub_def)
  have amount: "num_min (Fin (of_int cap)) (num_max (Fin 0) (Fin (of_int (balance - reserve))))
      = Fin (of_int (min cap (max 0 (balance - reserve))))"
    using num_of_int_lt[of 0 "balance - reserve"] num_of_int_lt[of "balance - reserve" cap] num_of_int_lt[of 0 cap]
    by (cases "0 < balance - reserve") (auto simp: num_min_def num_max_def)
  have skip: "skipped s \<longleftrightarrow> min cap (max 0 (balance - reserve)) < minimum"
    unfolding s_def calculateSpend_def Let_def sub amount by (simp only: spend.simps num_of_int_lt)
  have val: "spendLamports s = Fin (of_int (min cap (max 0 (balance - reserve))))"
    unfolding s_def calculateSpend_def Let_def sub amount by simp
  show ?thesis using skip val by auto
qed

theorem calculateSpend_keeps_reserve_witness:
  "spendLamports (calculateSpend (Fin (of_int 900)) (Fin (of_int 300)) (Fin (of_int 500)) (Fin (of_int 10)))
     = Fin (of_int (min 500 (max 0 (900 - 300))))"
  using calculateSpend_keeps_reserve[of 900 300 500 10] by (simp add: safe_num_iff)

section \<open>The retry loop\<close>

text \<open>The reads of the loop, one state per attempt.\<close>

fun read_state :: "('s \<Rightarrow> 'a res \<times> 's) \<Rightarrow> (nat \<Rightarrow> 's \<Rightarrow> 's) \<Rightarrow> nat \<Rightarrow> nat \<Rightarrow> 's \<Rightarrow> 's" where
  "read_state read wait attempt 0 s = s"
| "read_state read wait attempt (Suc k) s = read_state read wait (Suc attempt) k (wait attempt (snd (read s)))"

definition transient_until :: "('s \<Rightarrow> 'a res \<times> 's) \<Rightarrow> (nat \<Rightarrow> 's \<Rightarrow> 's) \<Rightarrow> nat \<Rightarrow> nat \<Rightarrow> 's \<Rightarrow> bool" where
  "transient_until read wait attempt k s =
     (\<forall>j < k. \<exists>e. fst (read (read_state read wait attempt j s)) = Inl e \<and> transient_blockhash e)"

lemma retry_read_spec:
  "\<exists>k \<le> left. retry_read read wait attempt left s = read (read_state read wait attempt k s)
     \<and> transient_until read wait attempt k s
     \<and> (k = left \<or> (case fst (read (read_state read wait attempt k s)) of Inr x \<Rightarrow> True | Inl e \<Rightarrow> \<not> transient_blockhash e))"
proof (induction left arbitrary: attempt s)
  case 0
  then show ?case by (simp add: transient_until_def)
next
  case (Suc left)
  obtain r s' where r: "read s = (r, s')" by fastforce
  show ?case
  proof (cases "\<exists>e. r = Inl e \<and> transient_blockhash e")
    case True
    then obtain e where e: "r = Inl e" "transient_blockhash e" by blast
    let ?s = "wait attempt s'"
    obtain k where k: "k \<le> left" "retry_read read wait (Suc attempt) left ?s = read (read_state read wait (Suc attempt) k ?s)"
      "transient_until read wait (Suc attempt) k ?s"
      "k = left \<or> (case fst (read (read_state read wait (Suc attempt) k ?s)) of Inr x \<Rightarrow> True | Inl e \<Rightarrow> \<not> transient_blockhash e)"
      using Suc.IH by blast
    have "transient_until read wait attempt (Suc k) s"
      unfolding transient_until_def
    proof (intro allI impI)
      fix j assume "j < Suc k"
      then show "\<exists>e. fst (read (read_state read wait attempt j s)) = Inl e \<and> transient_blockhash e"
        using e r k(3) by (cases j) (auto simp: transient_until_def)
    qed
    then show ?thesis using k e r by (intro exI[of _ "Suc k"]) auto
  next
    case False
    then show ?thesis using r by (intro exI[of _ 0]) (auto simp: transient_until_def split: sum.splits)
  qed
qed

text \<open>
  The blockhash retry is bounded and fails closed: it performs one to \<open>attempts\<close> reads, every read before
  the last failed only for the transient blockhash reason, the answer of the last read is returned
  unchanged, and reading stops early exactly at the first success or the first other error.
\<close>

theorem retryTransientBlockhashRead_bounded:
  assumes "1 \<le> n" "n \<le> 10"
  shows "\<exists>k < nat n. retryTransientBlockhashRead read (IntV n) wait s = read (read_state read wait 1 k s)
    \<and> transient_until read wait 1 k s
    \<and> (Suc k = nat n \<or> (case fst (read (read_state read wait 1 k s)) of Inr x \<Rightarrow> True | Inl e \<Rightarrow> \<not> transient_blockhash e))"
proof -
  have "safe_num n" using assms by (simp add: safe_num_iff)
  then have "retryTransientBlockhashRead read (IntV n) wait s = retry_read read wait 1 (nat n - 1) s"
    using assms by (simp add: retryTransientBlockhashRead_def with_default_def)
  moreover obtain k where k: "k \<le> nat n - 1" "retry_read read wait 1 (nat n - 1) s = read (read_state read wait 1 k s)"
    "transient_until read wait 1 k s"
    "k = nat n - 1 \<or> (case fst (read (read_state read wait 1 k s)) of Inr x \<Rightarrow> True | Inl e \<Rightarrow> \<not> transient_blockhash e)"
    using retry_read_spec[of "nat n - 1" read wait 1 s] by (elim exE conjE)
  moreover have "k < nat n" "k = nat n - 1 \<longrightarrow> Suc k = nat n" using k(1) assms by linarith+
  ultimately show ?thesis by (intro exI[of _ k] conjI) (simp_all only:, blast)
qed

definition flaky_read :: "nat \<Rightarrow> nat res \<times> nat" where
  "flaky_read n = (if n < 2 then Inl (Error ''Blockhash not found'') else Inr n, Suc n)"

theorem retryTransientBlockhashRead_bounded_witness:
  "retryTransientBlockhashRead flaky_read (IntV 4) (\<lambda>_ s. s) 0 = (Inr 2, 3)
   \<and> (\<exists>k < nat 4. retryTransientBlockhashRead flaky_read (IntV 4) (\<lambda>_ s. s) 0 = flaky_read (read_state flaky_read (\<lambda>_ s. s) 1 k 0))"
proof -
  have "retryTransientBlockhashRead flaky_read (IntV 4) (\<lambda>_ s. s) 0 = (Inr 2, 3)" by code_simp
  with retryTransientBlockhashRead_bounded[of 4 flaky_read "\<lambda>_ s. s" 0] show ?thesis by fastforce
qed

end
