(* ===== verification/Incident_Latch.thy ===== *)
theory Incident_Latch
  imports Js_Json
begin

text \<open>
  \<open>Protocol/scripts/round-deadline-incident-latch.mjs\<close>: the durable latch of missed round deadlines. The
  document is kept in memory and written as a whole; writes are queued, so a write that completes writes
  the document as it is then. The file is modelled by the document it holds; the functions of
  \<open>node:path\<close> are a parameter. \<open>Date.now()\<close> is an argument.
\<close>

section \<open>Paths\<close>

definition ROUND_DEADLINE_INCIDENT_FILE :: string where
  "ROUND_DEADLINE_INCIDENT_FILE = ''round-deadline-incidents.json''"

definition ROUND_DEADLINE_VIOLATION_STAGES :: "string list" where
  "ROUND_DEADLINE_VIOLATION_STAGES = [''prepare-deadline-missed'', ''next-prebind-deadline-missed'',
     ''lock-deadline-missed'', ''settlement-deadline-missed'']"

definition MAX_INCIDENT_FILE_BYTES :: int where
  "MAX_INCIDENT_FILE_BYTES = 1048576"

text \<open>\<open>/^[1-9A-HJ-NP-Za-km-z]{32,44}$/\<close>\<close>

definition is_base58 :: "char \<Rightarrow> bool" where
  "is_base58 c = (let n = (of_char c :: nat) in
     (49 \<le> n \<and> n \<le> 57) \<or> (65 \<le> n \<and> n \<le> 72) \<or> (74 \<le> n \<and> n \<le> 78) \<or> (80 \<le> n \<and> n \<le> 90)
     \<or> (97 \<le> n \<and> n \<le> 107) \<or> (109 \<le> n \<and> n \<le> 122))"

definition PROGRAM_ID_PATTERN :: "string \<Rightarrow> bool" where
  "PROGRAM_ID_PATTERN s = (32 \<le> length s \<and> length s \<le> 44 \<and> list_all is_base58 s)"

record path_lib =
  isAbsolute :: "string \<Rightarrow> bool"
  resolve :: "string list \<Rightarrow> string"
  parse_root :: "string \<Rightarrow> string"
  dirname :: "string \<Rightarrow> string"

definition safeRoundDeadlineIncidentPath :: "path_lib \<Rightarrow> jsval \<Rightarrow> (string \<times> string) res" where
  "safeRoundDeadlineIncidentPath lib dataDir = (case dataDir of
       Str dir \<Rightarrow>
         assert_ok (dir \<noteq> [] \<and> CHR 0x00 \<notin> set dir) ''Worker data directory is invalid'' (
         assert_ok (isAbsolute lib dir) ''Worker data directory must be absolute'' (
         let root = resolve lib [dir] in
         assert_ok (root \<noteq> parse_root lib root) ''Worker data directory cannot be the filesystem root'' (
         let path = resolve lib [root, ROUND_DEADLINE_INCIDENT_FILE] in
         assert_ok (dirname lib path = root) ''Round deadline incident path escaped the worker data directory'' (
         Inr (root, path)))))
     | _ \<Rightarrow> Inl (AssertionError ''Worker data directory must be a string''))"

section \<open>Incidents\<close>

record incident =
  inc_id :: string
  inc_program :: string
  inc_round :: int
  inc_stage :: string
  firstObservedAt :: int
  lastObservedAt :: int
  occurrences :: int
  outcome :: string
  clearedAt :: "int option"

definition incidentId :: "string \<Rightarrow> int \<Rightarrow> string \<Rightarrow> int \<Rightarrow> string" where
  "incidentId programId roundId stage firstObserved =
     programId @ '':'' @ show_int roundId @ '':'' @ stage @ '':'' @ show_int firstObserved"

definition nonneg_safe :: "jsval \<Rightarrow> string \<Rightarrow> (int \<Rightarrow> 'a res) \<Rightarrow> 'a res" where
  "nonneg_safe v msg k = (case safe_int v of None \<Rightarrow> Inl (AssertionError msg)
     | Some n \<Rightarrow> assert_ok (0 \<le> n) msg (k n))"

definition stage_of :: "jsval \<Rightarrow> (string \<Rightarrow> 'a res) \<Rightarrow> 'a res" where
  "stage_of v k = (case v of
       Str s \<Rightarrow> assert_ok (s \<in> set ROUND_DEADLINE_VIOLATION_STAGES) ''Incident stage is invalid'' (k s)
     | _ \<Rightarrow> Inl (AssertionError ''Incident stage is invalid''))"

definition cleared_time :: "jsval \<Rightarrow> int \<Rightarrow> int option res" where
  "cleared_time v latest = (if v = Null then Inr None
     else (case safe_int v of
         None \<Rightarrow> Inl (AssertionError ''Incident cleared timestamp is invalid'')
       | Some t \<Rightarrow> assert_ok (latest \<le> t) ''Incident cleared timestamp is invalid'' (Inr (Some t))))"

definition incident_outcome :: "jsval \<Rightarrow> (string \<Rightarrow> 'a res) \<Rightarrow> 'a res" where
  "incident_outcome v k = (case v of
       Str s \<Rightarrow> assert_ok (length s \<le> 512) ''Incident outcome is invalid'' (k s)
     | _ \<Rightarrow> Inl (AssertionError ''Incident outcome is invalid''))"

definition validateIncident :: "jsval \<Rightarrow> string \<Rightarrow> incident res" where
  "validateIncident v programId =
     assert_ok (truthy v \<and> is_object v) ''Incident is invalid'' (
     assert_ok (opt_member v ''programId'' = Str programId) ''Incident program id does not match this host'' (
     nonneg_safe (opt_member v ''roundId'') ''Incident round id is invalid'' (\<lambda>rid.
     stage_of (opt_member v ''stage'') (\<lambda>stage.
     nonneg_safe (opt_member v ''firstObservedAt'') ''Incident firstObservedAt is invalid'' (\<lambda>first.
     nonneg_safe (opt_member v ''lastObservedAt'') ''Incident lastObservedAt is invalid'' (\<lambda>latest.
     assert_ok (first \<le> latest) ''Incident timestamps are out of order'' (
     nonneg_safe (opt_member v ''occurrences'') ''Incident count is invalid'' (\<lambda>count.
     assert_ok (1 \<le> count) ''Incident count is invalid'' (
     incident_outcome (opt_member v ''outcome'') (\<lambda>out.
     then_res (cleared_time (opt_member v ''clearedAt'') latest) (\<lambda>cleared.
     assert_ok (opt_member v ''id'' = Str (incidentId programId rid stage first))
       ''Incident id does not match its immutable identity'' (
     Inr \<lparr>inc_id = incidentId programId rid stage first, inc_program = programId, inc_round = rid,
          inc_stage = stage, firstObservedAt = first, lastObservedAt = latest, occurrences = count,
          outcome = out, clearedAt = cleared\<rparr>))))))))))))"

text \<open>The object form of an incident, as \<open>JSON.stringify\<close> writes and \<open>JSON.parse\<close> reads it.\<close>

definition incident_value :: "incident \<Rightarrow> jsval" where
  "incident_value i = Obj [(''id'', Str (inc_id i)), (''programId'', Str (inc_program i)),
     (''roundId'', IntV (inc_round i)), (''stage'', Str (inc_stage i)),
     (''firstObservedAt'', IntV (firstObservedAt i)), (''lastObservedAt'', IntV (lastObservedAt i)),
     (''occurrences'', IntV (occurrences i)), (''outcome'', Str (outcome i)),
     (''clearedAt'', case clearedAt i of None \<Rightarrow> Null | Some t \<Rightarrow> IntV t)]"

definition emptyDocument :: "string \<Rightarrow> jsval" where
  "emptyDocument programId = Obj [(''version'', IntV 1), (''programId'', Str programId), (''incidents'', Arr [])]"

definition document_value :: "string \<Rightarrow> incident list \<Rightarrow> jsval" where
  "document_value programId incidents = Obj [(''version'', IntV 1), (''programId'', Str programId),
     (''incidents'', Arr (map incident_value incidents))]"

text \<open>What \<open>lstat\<close> and \<open>readFile\<close> find: no file, or a file with its size and parsed text.\<close>

record stored_file =
  regular :: bool
  file_size :: int
  file_json :: "jsval res"

definition check_incident :: "string \<Rightarrow> jsval \<Rightarrow> incident list \<Rightarrow> incident list res" where
  "check_incident programId v seen =
     then_res (validateIncident v programId) (\<lambda>i.
     assert_ok (inc_id i \<notin> set (map inc_id seen)) ''Round deadline incident file contains a duplicate id''
       (Inr (seen @ [i])))"

definition readIncidentDocument :: "stored_file option \<Rightarrow> string \<Rightarrow> incident list res" where
  "readIncidentDocument file programId = (case file of
       None \<Rightarrow> Inr []
     | Some f \<Rightarrow>
         assert_ok (regular f) ''Round deadline incident file must be a regular file'' (
         assert_ok (file_size f \<le> MAX_INCIDENT_FILE_BYTES) ''Round deadline incident file is unexpectedly large'' (
         then_res (file_json f) (\<lambda>parsed.
         assert_ok (opt_member parsed ''version'' = IntV 1) ''Round deadline incident file version is unsupported'' (
         assert_ok (opt_member parsed ''programId'' = Str programId)
           ''Round deadline incident file belongs to another program'' (
         case opt_member parsed ''incidents'' of
           Arr vs \<Rightarrow> fold_res (check_incident programId) vs []
         | _ \<Rightarrow> Inl (AssertionError ''Round deadline incident list is invalid'')))))))"

section \<open>The latch\<close>

text \<open>
  \<open>writeQueue\<close> holds the target revisions of the writes that have not started; \<open>inflight\<close> the target of the
  running write with the document it serialised; \<open>disk\<close> the document of the file.
\<close>

record latch =
  incidents :: "incident list"
  revision :: nat
  persistedRevision :: nat
  writeQueue :: "nat list"
  inflight :: "(nat \<times> incident list) option"
  disk :: "incident list"

definition activeIncidents :: "latch \<Rightarrow> incident list" where
  "activeIncidents s = filter (\<lambda>i. clearedAt i = None) (incidents s)"

definition history :: "latch \<Rightarrow> incident list" where
  "history s = incidents s"

definition createRoundDeadlineIncidentLatch ::
  "path_lib \<Rightarrow> jsval \<Rightarrow> string \<Rightarrow> (string \<Rightarrow> stored_file option) \<Rightarrow> latch res" where
  "createRoundDeadlineIncidentLatch lib dataDir programId fs =
     assert_ok (PROGRAM_ID_PATTERN programId) ''Incident latch program id is invalid'' (
     then_res (safeRoundDeadlineIncidentPath lib dataDir) (\<lambda>(root, path).
     then_res (readIncidentDocument (fs path) programId) (\<lambda>loaded.
     Inr \<lparr>incidents = loaded, revision = 0, persistedRevision = 0, writeQueue = [], inflight = None,
          disk = loaded\<rparr>)))"

text \<open>\<open>persist()\<close> appends a write for the current revision to the queue.\<close>

definition persist :: "latch \<Rightarrow> latch" where
  "persist s = s\<lparr>writeQueue := writeQueue s @ [revision s]\<rparr>"

text \<open>
  \<open>writeIncidentDocument\<close>. When the previous write is over, the next one opens its temporary file and
  serialises the document as it is then; it ends by failing before the rename, after the rename (the
  directory cannot be synced), or by succeeding.
\<close>

datatype write_end = FailedBeforeRename | FailedAfterRename | Written

definition write_begin :: "latch \<Rightarrow> latch" where
  "write_begin s = (case (inflight s, writeQueue s) of
       (None, target # rest) \<Rightarrow> s\<lparr>writeQueue := rest, inflight := Some (target, incidents s)\<rparr>
     | _ \<Rightarrow> s)"

definition write_finish :: "write_end \<Rightarrow> latch \<Rightarrow> latch" where
  "write_finish how s = (case inflight s of
       None \<Rightarrow> s
     | Some (target, serialised) \<Rightarrow>
         (let s' = s\<lparr>inflight := None\<rparr> in
          case how of
            FailedBeforeRename \<Rightarrow> s'
          | FailedAfterRename \<Rightarrow> s'\<lparr>disk := serialised\<rparr>
          | Written \<Rightarrow> s'\<lparr>disk := serialised, persistedRevision := max (persistedRevision s) target\<rparr>))"

definition same_active :: "int \<Rightarrow> string \<Rightarrow> incident \<Rightarrow> bool" where
  "same_active rid stage i = (inc_round i = rid \<and> inc_stage i = stage \<and> clearedAt i = None)"

definition new_incident :: "string \<Rightarrow> int \<Rightarrow> string \<Rightarrow> string \<Rightarrow> int \<Rightarrow> incident" where
  "new_incident programId rid stage outcomeText seen =
     \<lparr>inc_id = incidentId programId rid stage seen, inc_program = programId, inc_round = rid,
      inc_stage = stage, firstObservedAt = seen, lastObservedAt = seen, occurrences = 1,
      outcome = outcomeText, clearedAt = None\<rparr>"

definition flush :: "latch \<Rightarrow> latch" where
  "flush s = (if persistedRevision s < revision s then persist s else s)"

definition push_incident :: "incident \<Rightarrow> latch \<Rightarrow> latch" where
  "push_incident i s = persist (s\<lparr>incidents := incidents s @ [i], revision := Suc (revision s)\<rparr>)"

definition record_incident ::
  "string \<Rightarrow> jsval \<Rightarrow> jsval \<Rightarrow> jsval \<Rightarrow> jsval \<Rightarrow> latch \<Rightarrow> ((incident \<times> bool) \<times> latch) res" where
  "record_incident programId roundId stage outcomeText observedAt s =
     nonneg_safe roundId ''Incident round id is invalid'' (\<lambda>rid.
     stage_of stage (\<lambda>st.
     nonneg_safe observedAt ''Incident observation time is invalid'' (\<lambda>seen.
     let normalizedOutcome = take 512 (to_str (js_or outcomeText (Str []))) in
     (case find (same_active rid st) (incidents s) of
        Some i \<Rightarrow> Inr ((i, False), flush s)
      | None \<Rightarrow> (let i = new_incident programId rid st normalizedOutcome seen in
          Inr ((i, True), push_incident i s))))))"

text \<open>The first incident with the acknowledged id is the one that is cleared.\<close>

fun clear_first :: "string \<Rightarrow> int \<Rightarrow> incident list \<Rightarrow> incident list" where
  "clear_first k t [] = []"
| "clear_first k t (i # rest) = (if inc_id i = k then i\<lparr>clearedAt := Some t\<rparr> # rest else i # clear_first k t rest)"

definition clearExact :: "jsval \<Rightarrow> jsval \<Rightarrow> latch \<Rightarrow> ((incident \<times> bool) \<times> latch) res" where
  "clearExact acknowledgement clearTime s =
     assert_ok (is_str acknowledgement \<and> truthy acknowledgement) ''Incident acknowledgement is required'' (
     nonneg_safe clearTime ''Incident clear time is invalid'' (\<lambda>t.
     (case find (\<lambda>i. inc_id i = to_str acknowledgement) (incidents s) of
        None \<Rightarrow> Inl (AssertionError ''Incident acknowledgement does not match this incident history'')
      | Some i \<Rightarrow>
          (if clearedAt i \<noteq> None then Inr ((i, True), s)
           else assert_ok (lastObservedAt i \<le> t) ''Incident clear time precedes its last observation''
             (Inr ((i\<lparr>clearedAt := Some t\<rparr>, False),
               persist (s\<lparr>incidents := clear_first (to_str acknowledgement) t (incidents s),
                          revision := Suc (revision s)\<rparr>)))))))"

section \<open>Well-formed incidents\<close>

definition wf_incident :: "string \<Rightarrow> incident \<Rightarrow> bool" where
  "wf_incident programId i \<longleftrightarrow> inc_program i = programId \<and> 0 \<le> inc_round i \<and> safe_num (inc_round i)
     \<and> inc_stage i \<in> set ROUND_DEADLINE_VIOLATION_STAGES
     \<and> 0 \<le> firstObservedAt i \<and> firstObservedAt i \<le> lastObservedAt i \<and> safe_num (firstObservedAt i)
     \<and> safe_num (lastObservedAt i) \<and> 1 \<le> occurrences i \<and> safe_num (occurrences i)
     \<and> length (outcome i) \<le> 512
     \<and> (case clearedAt i of None \<Rightarrow> True | Some t \<Rightarrow> lastObservedAt i \<le> t \<and> safe_num t)
     \<and> inc_id i = incidentId programId (inc_round i) (inc_stage i) (firstObservedAt i)"

lemma nonneg_safe_Inr [res_simps]:
  "nonneg_safe v msg k = Inr y \<longleftrightarrow> (\<exists>n. v = IntV n \<and> safe_num n \<and> 0 \<le> n \<and> k n = Inr y)"
  by (auto simp: nonneg_safe_def safe_int_Some res_simps split: option.splits)

lemma nonneg_safe_ok [simp]: "safe_num n \<Longrightarrow> 0 \<le> n \<Longrightarrow> nonneg_safe (IntV n) msg k = k n"
  by (simp add: nonneg_safe_def)

lemma stage_of_Inr [res_simps]:
  "stage_of v k = Inr y \<longleftrightarrow> (\<exists>s. v = Str s \<and> s \<in> set ROUND_DEADLINE_VIOLATION_STAGES \<and> k s = Inr y)"
  by (auto simp: stage_of_def res_simps split: jsval.splits)

lemma incident_outcome_Inr [res_simps]:
  "incident_outcome v k = Inr y \<longleftrightarrow> (\<exists>s. v = Str s \<and> length s \<le> 512 \<and> k s = Inr y)"
  by (auto simp: incident_outcome_def res_simps split: jsval.splits)

lemma cleared_time_Inr [res_simps]:
  "cleared_time v latest = Inr c \<longleftrightarrow> (v = Null \<and> c = None) \<or>
     (\<exists>t. v = IntV t \<and> safe_num t \<and> latest \<le> t \<and> c = Some t)"
  by (auto simp: cleared_time_def safe_int_Some res_simps split: option.splits)

text \<open>Every accepted incident is well formed, and every well-formed one is accepted as written.\<close>

lemma validateIncident_wf: "validateIncident v programId = Inr i \<Longrightarrow> wf_incident programId i"
  by (auto simp: validateIncident_def res_simps wf_incident_def)

lemma validateIncident_value:
  "wf_incident programId i \<Longrightarrow> validateIncident (incident_value i) programId = Inr i"
  by (cases i) (auto simp: validateIncident_def incident_value_def wf_incident_def res_simps split: option.splits)

lemma check_incident_value:
  "wf_incident programId i \<Longrightarrow> check_incident programId (incident_value i) seen =
     (if inc_id i \<in> set (map inc_id seen)
      then Inl (AssertionError ''Round deadline incident file contains a duplicate id'') else Inr (seen @ [i]))"
  by (simp add: check_incident_def validateIncident_value)

lemma check_incidents_values:
  "\<forall>i \<in> set xs. wf_incident programId i \<Longrightarrow> distinct (map inc_id seen) \<Longrightarrow>
   fold_res (check_incident programId) (map incident_value xs) seen =
     (if distinct (map inc_id (seen @ xs)) then Inr (seen @ xs)
      else Inl (AssertionError ''Round deadline incident file contains a duplicate id''))"
  by (induction xs arbitrary: seen) (auto simp: check_incident_value)

lemma fold_check_incident_wf:
  assumes "fold_res (check_incident programId) vs [] = Inr xs"
  shows "\<forall>i \<in> set xs. wf_incident programId i"
  by (rule fold_res_inv[OF assms, where I = "\<lambda>ys. \<forall>i \<in> set ys. wf_incident programId i"])
     (auto simp: check_incident_def res_simps dest: validateIncident_wf)

definition stored_document :: "nat \<Rightarrow> string \<Rightarrow> incident list \<Rightarrow> stored_file" where
  "stored_document bytes programId xs =
     \<lparr>regular = True, file_size = int bytes, file_json = Inr (document_value programId xs)\<rparr>"

lemma readIncidentDocument_stored:
  assumes "\<forall>i \<in> set xs. wf_incident programId i" "int bytes \<le> MAX_INCIDENT_FILE_BYTES"
  shows "readIncidentDocument (Some (stored_document bytes programId xs)) programId =
    (if distinct (map inc_id xs) then Inr xs
     else Inl (AssertionError ''Round deadline incident file contains a duplicate id''))"
  using assms by (simp add: readIncidentDocument_def stored_document_def document_value_def check_incidents_values)

section \<open>The latch as a transition system\<close>

definition loaded_latch :: "incident list \<Rightarrow> latch" where
  "loaded_latch xs = \<lparr>incidents = xs, revision = 0, persistedRevision = 0, writeQueue = [],
     inflight = None, disk = xs\<rparr>"

text \<open>
  One life of the worker's latch after another: it starts without a file, runs its operations in any order
  while queued writes begin and end at any time, and may be restarted from the file at any moment.
\<close>

inductive latch_reach :: "string \<Rightarrow> latch \<Rightarrow> bool" for programId where
  Fresh: "latch_reach programId (loaded_latch [])"
| Record: "latch_reach programId s \<Longrightarrow>
    record_incident programId roundId stage outcomeText observedAt s = Inr (result, s') \<Longrightarrow>
    latch_reach programId s'"
| Clear: "latch_reach programId s \<Longrightarrow> clearExact acknowledgement clearTime s = Inr (result, s') \<Longrightarrow>
    latch_reach programId s'"
| Flush: "latch_reach programId s \<Longrightarrow> latch_reach programId (flush s)"
| Begin: "latch_reach programId s \<Longrightarrow> latch_reach programId (write_begin s)"
| Finish: "latch_reach programId s \<Longrightarrow> latch_reach programId (write_finish how s)"
| Restart: "latch_reach programId s \<Longrightarrow>
    readIncidentDocument (Some (stored_document bytes programId (disk s))) programId = Inr xs \<Longrightarrow>
    latch_reach programId (loaded_latch xs)"

definition one_active :: "incident list \<Rightarrow> bool" where
  "one_active xs \<longleftrightarrow> (\<forall>rid stage. length (filter (same_active rid stage) xs) \<le> 1)"

definition doc_ok :: "string \<Rightarrow> incident list \<Rightarrow> bool" where
  "doc_ok programId xs \<longleftrightarrow> (\<forall>i \<in> set xs. wf_incident programId i) \<and> one_active xs"

definition inflight_targets :: "latch \<Rightarrow> nat list" where
  "inflight_targets s = (case inflight s of None \<Rightarrow> [] | Some (target, _) \<Rightarrow> [target])"

definition queue_ok :: "latch \<Rightarrow> bool" where
  "queue_ok s \<longleftrightarrow> sorted (persistedRevision s # inflight_targets s @ writeQueue s @ [revision s])
     \<and> (case inflight s of None \<Rightarrow> True
        | Some (target, serialised) \<Rightarrow> target = revision s \<longrightarrow> serialised = incidents s)
     \<and> (persistedRevision s = revision s \<longrightarrow> disk s = incidents s)"

definition docs_ok :: "string \<Rightarrow> latch \<Rightarrow> bool" where
  "docs_ok programId s \<longleftrightarrow> doc_ok programId (incidents s) \<and> doc_ok programId (disk s)
     \<and> (case inflight s of None \<Rightarrow> True | Some (_, serialised) \<Rightarrow> doc_ok programId serialised)"

definition latch_inv :: "string \<Rightarrow> latch \<Rightarrow> bool" where
  "latch_inv programId s \<longleftrightarrow> docs_ok programId s \<and> queue_ok s"

lemmas latch_simps = latch_inv_def docs_ok_def queue_ok_def inflight_targets_def

lemma same_active_new [simp]:
  "same_active rid stage (new_incident programId rid' stage' out seen) \<longleftrightarrow> rid' = rid \<and> stage' = stage"
  by (simp add: same_active_def new_incident_def)

lemma one_active_push:
  "one_active xs \<Longrightarrow> find (same_active rid stage) xs = None \<Longrightarrow>
   one_active (xs @ [new_incident programId rid stage out seen])"
  by (auto simp: one_active_def find_None_iff filter_empty_conv)

lemma filter_clear_first:
  "length (filter (same_active rid stage) (clear_first k t xs)) \<le> length (filter (same_active rid stage) xs)"
  by (induction xs) (auto simp: same_active_def)

lemma one_active_clear: "one_active xs \<Longrightarrow> one_active (clear_first k t xs)"
  unfolding one_active_def by (meson filter_clear_first order_trans)

lemma wf_cleared:
  "wf_incident programId i \<Longrightarrow> lastObservedAt i \<le> t \<Longrightarrow> safe_num t \<Longrightarrow> wf_incident programId (i\<lparr>clearedAt := Some t\<rparr>)"
  by (simp add: wf_incident_def)

lemma wf_clear_first:
  "\<forall>i \<in> set xs. wf_incident programId i \<Longrightarrow> find (\<lambda>i. inc_id i = k) xs = Some j \<Longrightarrow>
   lastObservedAt j \<le> t \<Longrightarrow> safe_num t \<Longrightarrow> \<forall>i \<in> set (clear_first k t xs). wf_incident programId i"
  by (induction xs) (auto simp: wf_cleared split: if_splits)

lemma wf_new_incident:
  "safe_num rid \<Longrightarrow> 0 \<le> rid \<Longrightarrow> stage \<in> set ROUND_DEADLINE_VIOLATION_STAGES \<Longrightarrow> safe_num seen \<Longrightarrow> 0 \<le> seen \<Longrightarrow>
   length out \<le> 512 \<Longrightarrow> wf_incident programId (new_incident programId rid stage out seen)"
  by (simp add: wf_incident_def new_incident_def safe_num_def MAX_SAFE_INTEGER_def)

lemma latch_inv_flush: "latch_inv programId s \<Longrightarrow> latch_inv programId (flush s)"
  by (auto simp: latch_simps flush_def persist_def sorted_append split: option.splits)

text \<open>A change of the document raises the revision, so nothing written so far counts as current.\<close>

lemma latch_inv_change:
  assumes "latch_inv programId s" "doc_ok programId xs"
  shows "latch_inv programId (persist (s\<lparr>incidents := xs, revision := Suc (revision s)\<rparr>))"
  using assms
  by (cases "inflight s") (auto simp: latch_simps persist_def sorted_append intro: le_SucI)

lemma latch_inv_record:
  assumes "latch_inv programId s"
    "record_incident programId roundId stage outcomeText observedAt s = Inr (result, s')"
  shows "latch_inv programId s'"
proof -
  from assms(2) obtain rid st seen where args: "safe_num rid" "0 \<le> rid"
      "st \<in> set ROUND_DEADLINE_VIOLATION_STAGES" "safe_num seen" "0 \<le> seen"
    and s': "s' = (case find (same_active rid st) (incidents s) of Some i \<Rightarrow> flush s
      | None \<Rightarrow> push_incident (new_incident programId rid st
          (take 512 (to_str (js_or outcomeText (Str [])))) seen) s)"
    by (auto simp: record_incident_def res_simps Let_def split: option.splits)
  show ?thesis
  proof (cases "find (same_active rid st) (incidents s)")
    case None
    have "doc_ok programId (incidents s @ [new_incident programId rid st
          (take 512 (to_str (js_or outcomeText (Str [])))) seen])"
      using assms(1) None args by (simp add: doc_ok_def one_active_push wf_new_incident latch_inv_def docs_ok_def)
    then show ?thesis using s' None assms(1) by (simp add: push_incident_def latch_inv_change)
  next
    case (Some i)
    then show ?thesis using s' assms(1) by (simp add: latch_inv_flush)
  qed
qed

lemma latch_inv_clear:
  assumes "latch_inv programId s" "clearExact acknowledgement clearTime s = Inr (result, s')"
  shows "latch_inv programId s'"
proof -
  from assms(2) consider "s' = s"
    | t i where "safe_num t" "find (\<lambda>i. inc_id i = to_str acknowledgement) (incidents s) = Some i"
        "lastObservedAt i \<le> t"
        "s' = persist (s\<lparr>incidents := clear_first (to_str acknowledgement) t (incidents s),
                         revision := Suc (revision s)\<rparr>)"
    by (auto simp: clearExact_def res_simps split: option.splits if_splits)
  then show ?thesis
  proof cases
    case 1
    then show ?thesis using assms(1) by simp
  next
    case 2
    have "doc_ok programId (clear_first (to_str acknowledgement) t (incidents s))"
      using assms(1) wf_clear_first[OF _ 2(2,3,1)]
      by (simp add: doc_ok_def one_active_clear latch_inv_def docs_ok_def)
    then show ?thesis using 2(4) assms(1) by (simp add: latch_inv_change)
  qed
qed

lemma latch_inv_begin: "latch_inv programId s \<Longrightarrow> latch_inv programId (write_begin s)"
  by (auto simp: latch_simps write_begin_def split: option.splits list.splits)

lemma latch_inv_finish: "latch_inv programId s \<Longrightarrow> latch_inv programId (write_finish how s)"
  by (cases how) (auto simp: latch_simps write_finish_def Let_def max_def split: option.splits)

lemma latch_inv_loaded: "doc_ok programId xs \<Longrightarrow> latch_inv programId (loaded_latch xs)"
  by (simp add: latch_simps loaded_latch_def)

lemma read_back_same:
  assumes "readIncidentDocument (Some (stored_document bytes programId xs)) programId = Inr ys"
    and "\<forall>i \<in> set xs. wf_incident programId i"
  shows "ys = xs"
proof -
  have "int bytes \<le> MAX_INCIDENT_FILE_BYTES"
    using assms(1) by (auto simp: readIncidentDocument_def stored_document_def res_simps)
  then show ?thesis using assms readIncidentDocument_stored[OF assms(2)] by (auto split: if_splits)
qed

lemma latch_reach_inv: "latch_reach programId s \<Longrightarrow> latch_inv programId s"
proof (induction rule: latch_reach.induct)
  case Fresh
  show ?case by (rule latch_inv_loaded) (simp add: doc_ok_def one_active_def)
next
  case (Restart s bytes xs)
  then have "doc_ok programId (disk s)" by (simp add: latch_inv_def docs_ok_def)
  moreover from this have "xs = disk s"
    using read_back_same[OF Restart.hyps(2)] by (simp add: doc_ok_def)
  ultimately show ?case by (simp add: latch_inv_loaded)
qed (auto intro: latch_inv_record latch_inv_clear latch_inv_flush latch_inv_begin latch_inv_finish)

section \<open>What the latch guarantees\<close>

text \<open>
  C18. The deadline latch keeps its promises in every state it can reach, over any interleaving of records,
  acknowledgements, flushes, queued writes that succeed or fail on either side of the rename, and
  restarts from the file: every incident in memory is valid and each stage of a round has at most one
  active incident; the same holds of the document on disk; and once the persisted revision is the
  current one, the file holds exactly the incidents in memory.
\<close>

theorem incident_latch_invariant:
  assumes "latch_reach programId s"
  shows "(\<forall>i \<in> set (history s) \<union> set (disk s). wf_incident programId i)
    \<and> length (filter (same_active rid stage) (activeIncidents s)) \<le> 1
    \<and> length (filter (same_active rid stage) (disk s)) \<le> 1
    \<and> persistedRevision s \<le> revision s
    \<and> (persistedRevision s = revision s \<longrightarrow> disk s = history s)"
proof -
  have inv: "docs_ok programId s" "queue_ok s" using latch_reach_inv[OF assms] by (simp_all add: latch_inv_def)
  have "filter (same_active rid stage) (activeIncidents s) = filter (same_active rid stage) (incidents s)"
    by (auto simp: activeIncidents_def same_active_def intro: filter_cong)
  then have "length (filter (same_active rid stage) (activeIncidents s)) \<le> 1"
    using inv(1) by (simp add: docs_ok_def doc_ok_def one_active_def)
  moreover have "\<forall>i \<in> set (history s) \<union> set (disk s). wf_incident programId i"
    and "length (filter (same_active rid stage) (disk s)) \<le> 1"
    using inv(1) by (auto simp: docs_ok_def doc_ok_def one_active_def history_def)
  moreover have "persistedRevision s \<le> revision s" "persistedRevision s = revision s \<longrightarrow> disk s = history s"
    using inv(2) by (simp_all add: queue_ok_def history_def)
  ultimately show ?thesis by blast
qed

definition demo_program :: string where
  "demo_program = ''11111111111111111111111111111111''"

definition demo_stage :: string where
  "demo_stage = ''lock-deadline-missed''"

definition demo_latch :: latch where
  "demo_latch = push_incident (new_incident demo_program 7 demo_stage ''late'' 1000) (loaded_latch [])"

lemma demo_record:
  "find (same_active 7 demo_stage) (incidents s) = None \<Longrightarrow>
   record_incident demo_program (IntV 7) (Str demo_stage) (Str ''late'') (IntV 1000) s =
     Inr ((new_incident demo_program 7 demo_stage ''late'' 1000, True),
       push_incident (new_incident demo_program 7 demo_stage ''late'' 1000) s)"
proof -
  assume none: "find (same_active 7 demo_stage) (incidents s) = None"
  have st: "demo_stage \<in> set ROUND_DEADLINE_VIOLATION_STAGES"
    by (simp add: demo_stage_def ROUND_DEADLINE_VIOLATION_STAGES_def)
  have safe: "safe_num 7" "safe_num 1000" by (simp_all add: safe_num_def MAX_SAFE_INTEGER_def)
  show ?thesis
    using none st by (simp add: record_incident_def stage_of_def js_or_def Let_def
        nonneg_safe_ok[OF safe(1), simplified] nonneg_safe_ok[OF safe(2), simplified])
qed

lemma demo_latch_reach: "latch_reach demo_program demo_latch"
  unfolding demo_latch_def
  by (rule latch_reach.Record[OF latch_reach.Fresh demo_record]) (simp add: loaded_latch_def)

theorem incident_latch_invariant_witness:
  "latch_reach demo_program (write_finish Written (write_begin demo_latch))
   \<and> disk (write_finish Written (write_begin demo_latch)) = history demo_latch \<and> history demo_latch \<noteq> []"
proof -
  have r: "latch_reach demo_program (write_finish Written (write_begin demo_latch))"
    by (intro latch_reach.Finish latch_reach.Begin demo_latch_reach)
  have s: "write_finish Written (write_begin demo_latch) = demo_latch\<lparr>writeQueue := [],
      disk := incidents demo_latch, persistedRevision := 1\<rparr>"
    by (simp add: demo_latch_def push_incident_def persist_def loaded_latch_def write_begin_def write_finish_def)
  have "disk (write_finish Written (write_begin demo_latch)) = history (write_finish Written (write_begin demo_latch))"
    using incident_latch_invariant[OF r] unfolding s
    by (simp add: demo_latch_def push_incident_def persist_def loaded_latch_def)
  moreover have "history (write_finish Written (write_begin demo_latch)) = history demo_latch"
    unfolding s by (simp add: history_def)
  moreover have "history demo_latch \<noteq> []"
    by (simp add: demo_latch_def push_incident_def persist_def history_def)
  ultimately show ?thesis using r by simp
qed



text \<open>
  An incident that is recorded, acknowledged and recorded again with the same observation time gets the
  identifier of the first one: the document is written, and the next start of the worker refuses it.
\<close>

lemma clear_then_record_duplicates:
  assumes "clearExact (Str (inc_id (new_incident demo_program 7 demo_stage ''late'' 1000))) (IntV 1000) demo_latch = Inr (x, s)"
    "record_incident demo_program (IntV 7) (Str demo_stage) (Str ''late'') (IntV 1000) s = Inr (y, s')"
  shows "\<not> distinct (map inc_id (history s'))"
proof -
  have safe: "safe_num 1000" by (simp add: safe_num_def MAX_SAFE_INTEGER_def)
  have ne: "inc_id (new_incident demo_program 7 demo_stage ''late'' 1000) \<noteq> []"
    by (simp add: new_incident_def incidentId_def)
  have inc: "incidents s = [(new_incident demo_program 7 demo_stage ''late'' 1000)\<lparr>clearedAt := Some 1000\<rparr>]"
    using assms(1) ne
    by (auto simp: clearExact_def nonneg_safe_ok[OF safe, simplified] demo_latch_def push_incident_def persist_def loaded_latch_def
        new_incident_def res_simps)
  then have "find (same_active 7 demo_stage) (incidents s) = None" by (simp add: same_active_def)
  from demo_record[OF this] assms(2)
  have "s' = push_incident (new_incident demo_program 7 demo_stage ''late'' 1000) s" by simp
  then show ?thesis using inc by (simp add: history_def push_incident_def persist_def new_incident_def)
qed

end
