(* ===== verification/Event_Loop.thy ===== *)
theory Event_Loop
  imports Js_Json
begin

text \<open>
  \<open>Protocol/scripts/event-driven-loop.mjs\<close>: worker heartbeats, the wake signal of the event-driven
  workers, the bound on one worker cycle and the program log subscription. Timers and promises are
  explicit: a wait is identified by a number, the promises it has settled are logged in order, and a
  timer that fires is an event of its own. \<open>Date.now()\<close> is an argument.
\<close>

section \<open>Heartbeats\<close>

definition WORKER_HEARTBEAT_TYPE :: string where
  "WORKER_HEARTBEAT_TYPE = ''myne-worker-heartbeat-v1''"

definition HEARTBEAT_PHASES :: "string list" where
  "HEARTBEAT_PHASES = [''tick-start'', ''tick-complete'', ''tick-error'']"

definition is_phase :: "jsval \<Rightarrow> bool" where
  "is_phase v = (case v of Str s \<Rightarrow> s \<in> set HEARTBEAT_PHASES | _ \<Rightarrow> False)"

text \<open>\<open>Number.isFinite(v) && v >= 0\<close>\<close>

definition finite_time :: "jsval \<Rightarrow> bool" where
  "finite_time v = (case v of Num (Fin x) \<Rightarrow> 0 \<le> x | _ \<Rightarrow> False)"

text \<open>\<open>outcome == null ? null : String(outcome).slice(0, 160)\<close>\<close>

definition short_outcome :: "jsval \<Rightarrow> jsval" where
  "short_outcome v = (if nullish v then Null else Str (take 160 (to_str v)))"

definition createWorkerHeartbeat :: "jsval \<Rightarrow> jsval \<Rightarrow> jsval \<Rightarrow> jsval \<Rightarrow> jsval res" where
  "createWorkerHeartbeat worker phase outcome t =
     throw_if (\<not> is_str worker \<or> \<not> truthy worker) (TypeError ''Worker name is required'') (
     throw_if (\<not> is_phase phase) (TypeError ''Worker heartbeat phase is invalid'') (
     throw_if (\<not> finite_time t) (TypeError ''Worker heartbeat time is invalid'') (
     Inr (Obj [(''type'', Str WORKER_HEARTBEAT_TYPE), (''worker'', worker), (''phase'', phase),
       (''outcome'', short_outcome outcome), (''at'', t)]))))"

text \<open>The channel to the supervisor: absent or closed, delivering, or failing in \<open>send\<close>.\<close>

datatype ipc = Detached | Delivers | SendThrows

definition emitWorkerHeartbeat :: "ipc \<Rightarrow> jsval \<Rightarrow> jsval \<Rightarrow> jsval \<Rightarrow> jsval \<Rightarrow> (jsval \<times> jsval list) res" where
  "emitWorkerHeartbeat channel worker phase outcome t =
     then_res (createWorkerHeartbeat worker phase outcome t) (\<lambda>message.
     Inr (message, case channel of Detached \<Rightarrow> [] | Delivers \<Rightarrow> [message] | SendThrows \<Rightarrow> []))"

text \<open>The status object of a worker, \<open>None\<close> when it is missing; the result says whether the message counted.\<close>

definition recordWorkerHeartbeat ::
  "(string \<times> jsval) list option \<Rightarrow> jsval \<Rightarrow> string \<Rightarrow> jsval \<Rightarrow> bool \<times> (string \<times> jsval) list option" where
  "recordWorkerHeartbeat status message expectedWorker receivedAt = (case status of
       None \<Rightarrow> (False, None)
     | Some fs \<Rightarrow>
         if opt_member message ''type'' \<noteq> Str WORKER_HEARTBEAT_TYPE then (False, status)
         else if opt_member message ''worker'' \<noteq> Str expectedWorker \<or> \<not> is_phase (opt_member message ''phase'')
         then (False, status)
         else if \<not> finite_time receivedAt then (False, status)
         else (let phase = opt_member message ''phase'';
                   fs1 = put_field ''lastHeartbeatAt'' receivedAt fs;
                   fs2 = put_field ''lastHeartbeatPhase'' phase fs1;
                   fs3 = put_field ''lastOutcome'' (short_outcome (opt_member message ''outcome'')) fs2;
                   fs4 = (if phase = Str ''tick-complete'' then put_field ''lastCompletedAt'' receivedAt fs3 else fs3);
                   fs5 = (if phase = Str ''tick-error'' then put_field ''lastErrorAt'' receivedAt fs4 else fs4)
               in (True, Some fs5)))"

definition workerHeartbeatFresh :: "(string \<times> jsval) list option \<Rightarrow> jsval \<Rightarrow> jsval \<Rightarrow> bool" where
  "workerHeartbeatFresh status now maxAgeMs = (case status of None \<Rightarrow> False
     | Some fs \<Rightarrow>
       truthy (opt_member (Obj fs) ''running'') \<and>
       (case (opt_member (Obj fs) ''lastHeartbeatAt'', now, integer_of maxAgeMs) of
          (Num (Fin seen), Num (Fin n), Some limit) \<Rightarrow>
            0 < limit \<and>
            (let age = num_sub (Fin n) (Fin seen)
             in num_le (Fin 0) age \<and> num_le age (Fin (of_int limit)))
        | _ \<Rightarrow> False))"

section \<open>The wake signal\<close>

datatype reason = Event | Timeout

text \<open>
  \<open>unsettled\<close> are the waits whose promise is open (and whose timer runs); \<open>resolved\<close> logs every promise
  that was settled, with its reason.
\<close>

record wake =
  pending :: bool
  waiter :: "nat option"
  unsettled :: "nat list"
  resolved :: "(nat \<times> reason) list"

definition createWakeSignal :: wake where
  "createWakeSignal = \<lparr>pending = False, waiter = None, unsettled = [], resolved = []\<rparr>"

definition finish :: "nat \<Rightarrow> reason \<Rightarrow> wake \<Rightarrow> wake" where
  "finish w why s = (if w \<notin> set (unsettled s) then s
     else s\<lparr>unsettled := removeAll w (unsettled s), waiter := None,
            pending := (if why = Event then False else pending s),
            resolved := resolved s @ [(w, why)]\<rparr>)"

definition signal :: "wake \<Rightarrow> wake" where
  "signal s = (let s' = s\<lparr>pending := True\<rparr> in
     case waiter s' of None \<Rightarrow> s' | Some w \<Rightarrow> finish w Event s')"

definition wait :: "nat \<Rightarrow> wake \<Rightarrow> wake" where
  "wait w s = (if pending s then s\<lparr>pending := False, resolved := resolved s @ [(w, Event)]\<rparr>
     else s\<lparr>unsettled := w # unsettled s, waiter := Some w\<rparr>)"

datatype wake_event = Signal | Wait nat | TimerFires nat

fun wake_step :: "wake_event \<Rightarrow> wake \<Rightarrow> wake" where
  "wake_step Signal s = signal s"
| "wake_step (Wait w) s = wait w s"
| "wake_step (TimerFires w) s = finish w Timeout s"

definition wake_run :: "wake_event list \<Rightarrow> wake \<Rightarrow> wake" where
  "wake_run es s = fold wake_step es s"

text \<open>A worker waits again only after its previous wait has settled; a timer fires only while its wait is open.\<close>

fun wake_allowed :: "wake_event \<Rightarrow> wake \<Rightarrow> bool" where
  "wake_allowed Signal s = True"
| "wake_allowed (Wait w) s = (unsettled s = [])"
| "wake_allowed (TimerFires w) s = (w \<in> set (unsettled s))"

fun wake_trace :: "wake_event list \<Rightarrow> wake \<Rightarrow> bool" where
  "wake_trace [] s = True"
| "wake_trace (e # es) s = (wake_allowed e s \<and> wake_trace es (wake_step e s))"

section \<open>One worker cycle\<close>

datatype tick_event = TaskSettles "jsval res" | TickTimer

record tick =
  completed :: bool
  outcome :: "jsval res option"
  handler_calls :: nat
  timer_cleared :: bool

text \<open>\<open>onTimeout\<close> may throw: its own error is then the result.\<close>

definition tick_timeout :: "string \<Rightarrow> int \<Rightarrow> js_error option \<Rightarrow> tick \<Rightarrow> tick" where
  "tick_timeout worker timeoutMs handlerError s =
     (if completed s then s
      else s\<lparr>handler_calls := Suc (handler_calls s), completed := True, timer_cleared := True,
             outcome := Some (Inl (case handlerError of
               Some e \<Rightarrow> e
             | None \<Rightarrow> Error (worker @ '' tick exceeded '' @ show_int timeoutMs @ ''ms'')))\<rparr>)"

fun tick_step :: "string \<Rightarrow> int \<Rightarrow> js_error option \<Rightarrow> tick_event \<Rightarrow> tick \<Rightarrow> tick" where
  "tick_step worker timeoutMs handlerError (TaskSettles r) s =
     (if completed s then s else s\<lparr>completed := True, timer_cleared := True, outcome := Some r\<rparr>)"
| "tick_step worker timeoutMs handlerError TickTimer s = tick_timeout worker timeoutMs handlerError s"

definition runWorkerTick :: "jsval \<Rightarrow> jsval \<Rightarrow> js_error option \<Rightarrow> tick_event list \<Rightarrow> tick res" where
  "runWorkerTick worker timeoutMs handlerError events =
     throw_if (\<not> is_str worker \<or> \<not> truthy worker) (TypeError ''Worker name is required'') (
     case integer_of timeoutMs of
       None \<Rightarrow> Inl (TypeError ''Worker timeout must be positive'')
     | Some ms \<Rightarrow>
         throw_if (ms \<le> 0) (TypeError ''Worker timeout must be positive'') (
         Inr (fold (tick_step (to_str worker) ms handlerError) events
           \<lparr>completed = False, outcome = None, handler_calls = 0, timer_cleared = False\<rparr>)))"

section \<open>Program logs\<close>

text \<open>The delays after which the log callback signals: at once and at each follow-up, unless the transaction failed.\<close>

definition attachProgramWake :: "int list \<Rightarrow> jsval \<Rightarrow> int list" where
  "attachProgramWake followUpDelays logErr = (if truthy logErr then [] else 0 # followUpDelays)"

section \<open>No signal is lost\<close>

definition wake_inv :: "wake \<Rightarrow> bool" where
  "wake_inv s \<longleftrightarrow> (case waiter s of None \<Rightarrow> unsettled s = [] | Some w \<Rightarrow> unsettled s = [w] \<and> \<not> pending s)"

lemma wake_inv_step: "wake_inv s \<Longrightarrow> wake_allowed e s \<Longrightarrow> wake_inv (wake_step e s)"
  by (cases e; cases "waiter s") (auto simp: wake_inv_def signal_def wait_def finish_def)

lemma wake_trace_append:
  "wake_trace (es @ fs) s \<longleftrightarrow> wake_trace es s \<and> wake_trace fs (wake_run es s)"
  by (induction es arbitrary: s) (auto simp: wake_run_def)

lemma wake_inv_run: "wake_inv s \<Longrightarrow> wake_trace es s \<Longrightarrow> wake_inv (wake_run es s)"
  by (induction es arbitrary: s) (auto simp: wake_run_def wake_inv_step)

lemma wake_step_log: "\<exists>zs. resolved (wake_step e s) = resolved s @ zs"
  by (cases e) (auto simp: signal_def wait_def finish_def Let_def split: option.splits)

lemma wake_run_log: "\<exists>zs. resolved (wake_run es s) = resolved s @ zs"
proof (induction es arbitrary: s)
  case Nil
  show ?case by (simp add: wake_run_def)
next
  case (Cons e es)
  from wake_step_log[of e s] Cons[of "wake_step e s"] show ?case by (auto simp: wake_run_def)
qed

text \<open>A signal that found nobody waiting stays pending until the next wait takes it.\<close>

lemma pending_next_wait:
  assumes "wake_inv s" "pending s" "wake_trace es s" "Wait w \<in> set es"
  shows "\<exists>v zs. resolved (wake_run es s) = resolved s @ (v, Event) # zs"
  using assms
proof (induction es arbitrary: s)
  case Nil
  then show ?case by simp
next
  case (Cons e es)
  have idle: "waiter s = None" "unsettled s = []"
    using Cons.prems(1,2) by (auto simp: wake_inv_def split: option.splits)
  show ?case
  proof (cases e)
    case Signal
    then have step: "wake_step e s = s" using idle Cons.prems(2) by (simp add: signal_def)
    then show ?thesis using Cons.IH[of s] Cons.prems Signal by (simp add: wake_run_def)
  next
    case (Wait v)
    then have "resolved (wake_step e s) = resolved s @ [(v, Event)]"
      using Cons.prems(2) by (simp add: wait_def)
    then show ?thesis using wake_run_log[of es "wake_step e s"] by (auto simp: wake_run_def)
  next
    case (TimerFires v)
    then show ?thesis using Cons.prems(3) idle by simp
  qed
qed

text \<open>
  C19. The wake signal is lossless. Take any history of one worker that waits again only when its last wait has
  settled, with signals and timers at any moment. After every signal, the very next promise the worker
  gets settled is settled as an event, never as a timeout: at once when it was waiting, and by its
  next wait when it was busy.
\<close>

theorem wake_signal_lossless:
  assumes "wake_trace (es @ Signal # fs) createWakeSignal"
    and "waiter (wake_run es createWakeSignal) \<noteq> None \<or> (\<exists>w. Wait w \<in> set fs)"
  shows "\<exists>w rest. resolved (wake_run (es @ Signal # fs) createWakeSignal) =
    resolved (wake_run es createWakeSignal) @ (w, Event) # rest"
proof -
  define s where "s = wake_run es createWakeSignal"
  have tr: "wake_trace es createWakeSignal" "wake_trace fs (signal s)"
    using assms(1) by (simp_all add: wake_trace_append s_def)
  have "wake_inv createWakeSignal" by (simp add: wake_inv_def createWakeSignal_def)
  then have inv: "wake_inv s" using tr(1) unfolding s_def by (rule wake_inv_run)
  have run: "wake_run (es @ Signal # fs) createWakeSignal = wake_run fs (signal s)"
    by (simp add: wake_run_def s_def)
  show ?thesis
  proof (cases "waiter s")
    case None
    then have "signal s = s\<lparr>pending := True\<rparr>" by (simp add: signal_def)
    moreover have "wake_inv (s\<lparr>pending := True\<rparr>)" using inv None by (simp add: wake_inv_def)
    moreover obtain w where "Wait w \<in> set fs" using assms(2) None by (auto simp: s_def)
    ultimately show ?thesis
      using pending_next_wait[of "s\<lparr>pending := True\<rparr>" fs w] tr(2) unfolding run by (simp add: s_def)
  next
    case (Some w)
    then have "resolved (signal s) = resolved s @ [(w, Event)]"
      using inv by (simp add: wake_inv_def signal_def finish_def)
    then show ?thesis using wake_run_log[of fs "signal s"] unfolding run by (auto simp: s_def)
  qed
qed

theorem wake_signal_lossless_witness:
  "\<exists>w rest. resolved (wake_run [Wait 0, TimerFires 0, Signal, Wait 1] createWakeSignal) = [(0, Timeout)] @ (w, Event) # rest"
proof -
  have r: "resolved (wake_run [Wait 0, TimerFires 0] createWakeSignal) = [(0, Timeout)]"
    by (simp add: wake_run_def createWakeSignal_def wait_def finish_def)
  have t: "wake_trace ([Wait 0, TimerFires 0] @ Signal # [Wait 1]) createWakeSignal"
    by (simp add: createWakeSignal_def wait_def finish_def signal_def)
  show ?thesis using wake_signal_lossless[OF t] unfolding r by simp
qed

section \<open>A cycle ends\<close>

lemma tick_step_completed: "completed s \<Longrightarrow> tick_step worker ms h e s = s"
  by (cases e) (simp_all add: tick_timeout_def)

lemma tick_fold_completed: "completed s \<Longrightarrow> fold (tick_step worker ms h) es s = s"
  by (induction es) (simp_all add: tick_step_completed)

text \<open>Whatever comes first decides the cycle, and the handler runs only for a timeout.\<close>

lemma runWorkerTick_first:
  assumes "0 < ms" "worker \<noteq> []"
  shows "runWorkerTick (Str worker) (IntV ms) h (e # es) = Inr (case e of
      TaskSettles r \<Rightarrow> \<lparr>completed = True, outcome = Some r, handler_calls = 0, timer_cleared = True\<rparr>
    | TickTimer \<Rightarrow> \<lparr>completed = True, outcome = Some (Inl (case h of Some x \<Rightarrow> x
        | None \<Rightarrow> Error (worker @ '' tick exceeded '' @ show_int ms @ ''ms''))), handler_calls = 1,
        timer_cleared = True\<rparr>)"
  using assms by (cases e) (simp_all add: runWorkerTick_def tick_fold_completed tick_timeout_def)

section \<open>Freshness\<close>

lemma map_of_put_field: "map_of (put_field k v fs) = (map_of fs)(k \<mapsto> v)"
  by (induction k v fs rule: put_field.induct) auto

lemma finite_time_IntV [simp]: "finite_time (IntV n) \<longleftrightarrow> 0 \<le> n"
  by (simp add: finite_time_def)

text \<open>
  A heartbeat a worker creates is accepted by the supervisor's status for that worker, for that worker
  only, and makes it fresh exactly from the moment of reception until \<open>maxAgeMs\<close> later: a status that
  would be reported fresh before, or stale within, that window is impossible.
\<close>

theorem heartbeat_fresh_exact:
  assumes "createWorkerHeartbeat (Str worker) phase result t = Inr message"
    and "recordWorkerHeartbeat (Some fs) message expected (IntV received) = (counted, status')"
    and "0 \<le> received" "received < 2 ^ 52" "0 \<le> now" "now < 2 ^ 52" "0 < maxAge"
    and "map_of fs ''running'' = Some (Bool True)"
  shows "(counted \<longleftrightarrow> worker = expected) \<and> (\<not> counted \<longrightarrow> status' = Some fs) \<and>
    (counted \<longrightarrow> (workerHeartbeatFresh status' (IntV now) (IntV maxAge) \<longleftrightarrow> received \<le> now \<and> now \<le> received + maxAge))"
proof -
  have m: "opt_member message ''type'' = Str WORKER_HEARTBEAT_TYPE" "opt_member message ''worker'' = Str worker"
      "is_phase (opt_member message ''phase'')"
    using assms(1) by (auto simp: createWorkerHeartbeat_def res_simps)
  have counted: "counted \<longleftrightarrow> worker = expected" "\<not> counted \<longrightarrow> status' = Some fs"
    using assms(2,3) m by (auto simp: recordWorkerHeartbeat_def Let_def split: if_splits)
  have fresh: "workerHeartbeatFresh status' (IntV now) (IntV maxAge) \<longleftrightarrow> received \<le> now \<and> now \<le> received + maxAge"
    if c: "counted"
  proof -
    obtain fs' where fs': "status' = Some fs'" "map_of fs' ''running'' = Some (Bool True)"
        "map_of fs' ''lastHeartbeatAt'' = Some (IntV received)"
      using assms(2,3,8) m c counted(1)
      by (auto simp: recordWorkerHeartbeat_def Let_def map_of_put_field split: if_splits)
    have "safe_num (now - received)" using assms(3-6) by (simp add: safe_num_iff)
    then have age: "num_sub (Fin (of_int now)) (Fin (of_int received)) = Fin (of_int (now - received))"
      using num_of_int_small[of "now - received"] by (simp add: num_sub_def)
    show ?thesis
      using fs' assms(7) unfolding workerHeartbeatFresh_def
      by (simp add: age num_le_def del: of_int_diff) linarith
  qed
  show ?thesis using counted fresh by blast
qed

theorem heartbeat_fresh_exact_witness:
  "\<exists>message status'. createWorkerHeartbeat (Str ''indexer'') (Str ''tick-complete'') Null (IntV 5) = Inr message
   \<and> recordWorkerHeartbeat (Some [(''running'', Bool True)]) message ''indexer'' (IntV 7) = (True, status')
   \<and> workerHeartbeatFresh status' (IntV 10) (IntV 3) \<and> \<not> workerHeartbeatFresh status' (IntV 11) (IntV 3)"
proof -
  obtain message where m: "createWorkerHeartbeat (Str ''indexer'') (Str ''tick-complete'') Null (IntV 5) = Inr message"
    by (simp add: createWorkerHeartbeat_def is_phase_def HEARTBEAT_PHASES_def finite_time_def)
  obtain counted status' where
    r: "recordWorkerHeartbeat (Some [(''running'', Bool True)]) message ''indexer'' (IntV 7) = (counted, status')"
    by (metis surj_pair)
  have run: "map_of [(''running'', Bool True)] ''running'' = Some (Bool True)" by simp
  note exact = heartbeat_fresh_exact[OF m r _ _ _ _ _ run]
  have at10: "counted \<and> workerHeartbeatFresh status' (IntV 10) (IntV 3)" using exact[of 10 3] by simp
  have "\<not> workerHeartbeatFresh status' (IntV 11) (IntV 3)" using exact[of 11 3] at10 by simp
  then have "createWorkerHeartbeat (Str ''indexer'') (Str ''tick-complete'') Null (IntV 5) = Inr message
      \<and> recordWorkerHeartbeat (Some [(''running'', Bool True)]) message ''indexer'' (IntV 7) = (True, status')
      \<and> workerHeartbeatFresh status' (IntV 10) (IntV 3) \<and> \<not> workerHeartbeatFresh status' (IntV 11) (IntV 3)"
    using m r at10 by simp
  then show ?thesis by blast
qed

end
