(* ===== verification/Liquidity_Policy.thy ===== *)
theory Liquidity_Policy
  imports Js_Bytes
begin

text \<open>
  \<open>Protocol/scripts/mainnet-liquidity-policy.mjs\<close>: the inspection of a Meteora pool before it becomes the
  liquidity gate of the launch. A public key is its 32 bytes. The constructor of a key from its text, the
  derivation of program addresses, the reads of the RPC connection and the token account decoder belong
  to the Solana client libraries and are arguments.
\<close>

section \<open>Pool accounts\<close>

record key_lib =
  key_of_text :: "string \<Rightarrow> bytes"
  findProgramAddress :: "bytes list \<Rightarrow> bytes \<Rightarrow> bytes"

definition METEORA_DLMM_PROGRAM :: "key_lib \<Rightarrow> bytes" where
  "METEORA_DLMM_PROGRAM lib = key_of_text lib ''LBUZKhRxPF3XUpBCjp4YzTKgLccjZhTSDM9YuVaPwxo''"

definition METEORA_DAMM_V2_PROGRAM :: "key_lib \<Rightarrow> bytes" where
  "METEORA_DAMM_V2_PROGRAM lib = key_of_text lib ''cpamdpZCGKUy5JxQXB4dcpGPiikHawvSWAd6mEn1sGG''"

definition WRAPPED_SOL_MINT :: "key_lib \<Rightarrow> bytes" where
  "WRAPPED_SOL_MINT lib = key_of_text lib ''So11111111111111111111111111111111111111112''"

definition LB_PAIR_DISCRIMINATOR :: bytes where
  "LB_PAIR_DISCRIMINATOR = [33, 11, 49, 98, 181, 101, 177, 13]"

definition LB_PAIR_ACCOUNT_LEN :: nat where
  "LB_PAIR_ACCOUNT_LEN = 904"

definition DAMM_V2_POOL_DISCRIMINATOR :: bytes where
  "DAMM_V2_POOL_DISCRIMINATOR = [241, 154, 109, 4, 17, 177, 109, 188]"

definition DAMM_V2_POOL_ACCOUNT_LEN :: nat where
  "DAMM_V2_POOL_ACCOUNT_LEN = 1112"

definition DAMM_V2_TOKEN_VAULT_SEED :: bytes where
  "DAMM_V2_TOKEN_VAULT_SEED = text_bytes ''token_vault''"

record lb_offsets =
  o_activeId :: nat
  o_binStep :: nat
  o_status :: nat
  o_activationType :: nat
  o_tokenXMint :: nat
  o_tokenYMint :: nat
  o_reserveX :: nat
  o_reserveY :: nat
  o_activationPoint :: nat

definition OFFSETS :: lb_offsets where
  "OFFSETS = \<lparr>o_activeId = 76, o_binStep = 80, o_status = 82, o_activationType = 86, o_tokenXMint = 88,
     o_tokenYMint = 120, o_reserveX = 152, o_reserveY = 184, o_activationPoint = 816\<rparr>"

record damm_offsets =
  d_tokenAMint :: nat
  d_tokenBMint :: nat
  d_tokenAVault :: nat
  d_tokenBVault :: nat
  d_activationPoint :: nat
  d_activationType :: nat
  d_status :: nat
  d_poolType :: nat

definition DAMM_V2_OFFSETS :: damm_offsets where
  "DAMM_V2_OFFSETS = \<lparr>d_tokenAMint = 168, d_tokenBMint = 200, d_tokenAVault = 232, d_tokenBVault = 264,
     d_activationPoint = 472, d_activationType = 480, d_status = 481, d_poolType = 485\<rparr>"

definition publicKeyAt :: "bytes \<Rightarrow> nat \<Rightarrow> bytes" where
  "publicKeyAt data offset = take 32 (drop offset data)"

definition getInt32 :: "bytes \<Rightarrow> nat \<Rightarrow> int res" where
  "getInt32 data offset = then_res (readUIntLE 4 data offset) (\<lambda>n. Inr (if 2 ^ 31 \<le> n then n - 2 ^ 32 else n))"

text \<open>The fields both pool layouts share; \<open>activeId\<close> and \<open>binStep\<close> exist for a DLMM pair only, \<open>poolType\<close> for a DAMM pool only.\<close>

record pool_state =
  activeId :: "int option"
  binStep :: "int option"
  poolType :: "int option"
  status :: int
  activationType :: int
  activationPoint :: int
  tokenXMint :: bytes
  tokenYMint :: bytes
  reserveX :: bytes
  reserveY :: bytes

definition decodeMeteoraLbPair :: "bytes \<Rightarrow> pool_state res" where
  "decodeMeteoraLbPair data =
     assert_ok (length data = LB_PAIR_ACCOUNT_LEN) ''Meteora LbPair has an unsupported size'' (
     assert_ok (take (length LB_PAIR_DISCRIMINATOR) data = LB_PAIR_DISCRIMINATOR) ''Meteora account is not an LbPair'' (
     then_res (getInt32 data (o_activeId OFFSETS)) (\<lambda>active.
     then_res (readUIntLE 2 data (o_binStep OFFSETS)) (\<lambda>step.
     let st = uint (data ! o_status OFFSETS) in
     assert_ok (0 < step) ''Meteora LbPair bin step is invalid'' (
     assert_ok (st = 0) ''Meteora LbPair is not enabled'' (
     then_res (readUIntLE 8 data (o_activationPoint OFFSETS)) (\<lambda>point.
     Inr \<lparr>activeId = Some active, binStep = Some step, poolType = None, status = st,
          activationType = uint (data ! o_activationType OFFSETS), activationPoint = point,
          tokenXMint = publicKeyAt data (o_tokenXMint OFFSETS), tokenYMint = publicKeyAt data (o_tokenYMint OFFSETS),
          reserveX = publicKeyAt data (o_reserveX OFFSETS), reserveY = publicKeyAt data (o_reserveY OFFSETS)\<rparr>)))))))"

definition decodeMeteoraDammV2Pool :: "bytes \<Rightarrow> pool_state res" where
  "decodeMeteoraDammV2Pool data =
     assert_ok (length data = DAMM_V2_POOL_ACCOUNT_LEN) ''Meteora DAMM v2 Pool has an unsupported size'' (
     assert_ok (take (length DAMM_V2_POOL_DISCRIMINATOR) data = DAMM_V2_POOL_DISCRIMINATOR)
       ''Meteora account is not a DAMM v2 Pool'' (
     let st = uint (data ! d_status DAMM_V2_OFFSETS); kind = uint (data ! d_poolType DAMM_V2_OFFSETS);
         activation = uint (data ! d_activationType DAMM_V2_OFFSETS) in
     assert_ok (st = 0) ''Meteora DAMM v2 Pool is not enabled'' (
     assert_ok (kind = 0 \<or> kind = 1) ''Meteora DAMM v2 Pool type is unsupported'' (
     assert_ok (activation = 0 \<or> activation = 1) ''Meteora DAMM v2 activation type is unsupported'' (
     then_res (readUIntLE 8 data (d_activationPoint DAMM_V2_OFFSETS)) (\<lambda>point.
     Inr \<lparr>activeId = None, binStep = None, poolType = Some kind, status = st, activationType = activation,
          activationPoint = point, tokenXMint = publicKeyAt data (d_tokenAMint DAMM_V2_OFFSETS),
          tokenYMint = publicKeyAt data (d_tokenBMint DAMM_V2_OFFSETS),
          reserveX = publicKeyAt data (d_tokenAVault DAMM_V2_OFFSETS),
          reserveY = publicKeyAt data (d_tokenBVault DAMM_V2_OFFSETS)\<rparr>))))))"

section \<open>The inspection\<close>

definition expectedReserve :: "key_lib \<Rightarrow> bytes \<Rightarrow> bytes \<Rightarrow> bytes \<Rightarrow> bytes" where
  "expectedReserve lib poolProgram pool mint =
     findProgramAddress lib
       (if poolProgram = METEORA_DAMM_V2_PROGRAM lib then [DAMM_V2_TOKEN_VAULT_SEED, mint, pool] else [pool, mint])
       poolProgram"

record account_info =
  acc_owner :: bytes
  acc_executable :: bool
  acc_data :: bytes

record token_account =
  tok_mint :: bytes
  tok_amount :: int

text \<open>The reads of the connection at one commitment; every one may fail.\<close>

record connection =
  getAccountInfo :: "bytes \<Rightarrow> account_info option res"
  getAccount :: "bytes \<Rightarrow> token_account res"
  getSlot :: "int res"
  getBlockTime :: "int \<Rightarrow> int option res"

definition current_point :: "connection \<Rightarrow> int \<Rightarrow> int res" where
  "current_point conn activation = then_res (getSlot conn) (\<lambda>slot.
     if activation = 0 then Inr slot
     else then_res (getBlockTime conn slot) (\<lambda>t. Inr (case t of None \<Rightarrow> 0 | Some n \<Rightarrow> n)))"

definition check_active :: "connection \<Rightarrow> bool \<Rightarrow> pool_state \<Rightarrow> unit res" where
  "check_active conn damm pair =
     (if damm then then_res (current_point conn (activationType pair)) (\<lambda>point.
        assert_ok (activationPoint pair \<le> point) ''Meteora DAMM v2 Pool is not active yet'' (Inr ()))
      else if 0 < activationPoint pair then
        assert_ok (activationType pair = 0 \<or> activationType pair = 1) ''Meteora DLMM activation type is unsupported'' (
        then_res (current_point conn (activationType pair)) (\<lambda>point.
        assert_ok (activationPoint pair \<le> point) ''Meteora DLMM LbPair is not active yet'' (Inr ())))
      else Inr ())"

record pool_report =
  rep_pair :: pool_state
  poolProgram :: bytes
  poolKind :: string
  reserveXAmount :: int
  reserveYAmount :: int
  myneVault :: bytes
  solVault :: bytes
  myneAmount :: int
  solAmount :: int

definition pool_report_of ::
  "bool \<Rightarrow> bytes \<Rightarrow> pool_state \<Rightarrow> bool \<Rightarrow> token_account \<Rightarrow> token_account \<Rightarrow> pool_report" where
  "pool_report_of damm program pair myneIsX rx ry =
     \<lparr>rep_pair = pair, poolProgram = program, poolKind = (if damm then ''damm-v2'' else ''dlmm''),
      reserveXAmount = tok_amount rx, reserveYAmount = tok_amount ry,
      myneVault = (if myneIsX then reserveX pair else reserveY pair),
      solVault = (if myneIsX then reserveY pair else reserveX pair),
      myneAmount = (if myneIsX then tok_amount rx else tok_amount ry),
      solAmount = (if myneIsX then tok_amount ry else tok_amount rx)\<rparr>"

definition mints_are :: "pool_state \<Rightarrow> bytes \<Rightarrow> bytes \<Rightarrow> bool" where
  "mints_are pair x y = (tokenXMint pair = x \<and> tokenYMint pair = y)"

definition inspectMeteoraPool :: "key_lib \<Rightarrow> connection \<Rightarrow> bytes \<Rightarrow> bytes \<Rightarrow> pool_report res" where
  "inspectMeteoraPool lib conn pool myneMint =
     then_res (getAccountInfo conn pool) (\<lambda>found.
     case found of None \<Rightarrow> Inl (AssertionError ''Meteora pool account is unavailable'')
     | Some acc \<Rightarrow>
     assert_ok (\<not> acc_executable acc) ''Meteora pool account is unavailable'' (
     let program = acc_owner acc; damm = (program = METEORA_DAMM_V2_PROGRAM lib) in
     assert_ok (program = METEORA_DLMM_PROGRAM lib \<or> damm) ''Pool is not owned by a supported Meteora program'' (
     then_res (if damm then decodeMeteoraDammV2Pool (acc_data acc) else decodeMeteoraLbPair (acc_data acc)) (\<lambda>pair.
     let myneIsX = mints_are pair myneMint (WRAPPED_SOL_MINT lib);
         myneIsY = mints_are pair (WRAPPED_SOL_MINT lib) myneMint in
     assert_ok (myneIsX \<or> myneIsY) ''Meteora pool is not the exact MYNE/WSOL pair'' (
     then_res (getAccount conn (reserveX pair)) (\<lambda>rx.
     then_res (getAccount conn (reserveY pair)) (\<lambda>ry.
     assert_ok (tok_mint rx = tokenXMint pair) ''Meteora Token X reserve mint differs'' (
     assert_ok (tok_mint ry = tokenYMint pair) ''Meteora Token Y reserve mint differs'' (
     assert_ok (reserveX pair = expectedReserve lib program pool (tokenXMint pair)) ''Meteora Token X reserve PDA differs'' (
     assert_ok (reserveY pair = expectedReserve lib program pool (tokenYMint pair)) ''Meteora Token Y reserve PDA differs'' (
     then_res (check_active conn damm pair) (\<lambda>_.
     Inr (pool_report_of damm program pair myneIsX rx ry)))))))))))))"

section \<open>What an accepted pool is\<close>

lemma decode_lb_enabled: "decodeMeteoraLbPair data = Inr p \<Longrightarrow> status p = 0 \<and> poolType p = None"
  by (auto simp: decodeMeteoraLbPair_def res_simps Let_def)

lemma decode_damm_enabled: "decodeMeteoraDammV2Pool data = Inr p \<Longrightarrow> status p = 0 \<and> activationType p \<in> {0, 1}"
  by (auto simp: decodeMeteoraDammV2Pool_def res_simps Let_def)

text \<open>A check that passed: the pool's activation point, if it has one, is not after the current slot or time.\<close>

lemma check_active_ok:
  assumes "check_active conn damm pair = Inr u"
  shows "(\<not> damm \<and> activationPoint pair \<le> 0) \<or>
    (\<exists>point. current_point conn (activationType pair) = Inr point \<and> activationPoint pair \<le> point)"
  using assms by (auto simp: check_active_def res_simps split: if_splits)

lemma inspectMeteoraPool_Inr:
  assumes "inspectMeteoraPool lib conn pool myneMint = Inr r"
  shows "\<exists>(acc :: account_info) pair rx ry.
    (acc_owner acc = METEORA_DLMM_PROGRAM lib \<or> acc_owner acc = METEORA_DAMM_V2_PROGRAM lib) \<and> status pair = 0
    \<and> (mints_are pair myneMint (WRAPPED_SOL_MINT lib) \<or> mints_are pair (WRAPPED_SOL_MINT lib) myneMint)
    \<and> getAccount conn (reserveX pair) = Inr rx \<and> tok_mint rx = tokenXMint pair
    \<and> reserveX pair = expectedReserve lib (acc_owner acc) pool (tokenXMint pair)
    \<and> getAccount conn (reserveY pair) = Inr ry \<and> tok_mint ry = tokenYMint pair
    \<and> reserveY pair = expectedReserve lib (acc_owner acc) pool (tokenYMint pair)
    \<and> check_active conn (acc_owner acc = METEORA_DAMM_V2_PROGRAM lib) pair = Inr ()
    \<and> r = pool_report_of (acc_owner acc = METEORA_DAMM_V2_PROGRAM lib) (acc_owner acc) pair
        (mints_are pair myneMint (WRAPPED_SOL_MINT lib)) rx ry"
proof -
  from assms obtain found where f: "getAccountInfo conn pool = Inr found"
    by (auto simp: inspectMeteoraPool_def then_res_Inr)
  then obtain acc where acc: "found = Some acc"
    using assms by (cases found) (auto simp: inspectMeteoraPool_def)
  from assms[unfolded inspectMeteoraPool_def f acc Let_def then_res_Ok option.case assert_ok_Inr then_res_Inr]
  obtain pair rx ry u where
      own: "acc_owner acc = METEORA_DLMM_PROGRAM lib \<or> acc_owner acc = METEORA_DAMM_V2_PROGRAM lib"
    and dec: "(if acc_owner acc = METEORA_DAMM_V2_PROGRAM lib then decodeMeteoraDammV2Pool (acc_data acc)
        else decodeMeteoraLbPair (acc_data acc)) = Inr pair"
    and rest: "mints_are pair myneMint (WRAPPED_SOL_MINT lib) \<or> mints_are pair (WRAPPED_SOL_MINT lib) myneMint"
      "getAccount conn (reserveX pair) = Inr rx" "getAccount conn (reserveY pair) = Inr ry"
      "tok_mint rx = tokenXMint pair" "tok_mint ry = tokenYMint pair"
      "reserveX pair = expectedReserve lib (acc_owner acc) pool (tokenXMint pair)"
      "reserveY pair = expectedReserve lib (acc_owner acc) pool (tokenYMint pair)"
      "check_active conn (acc_owner acc = METEORA_DAMM_V2_PROGRAM lib) pair = Inr u"
      "Inr (pool_report_of (acc_owner acc = METEORA_DAMM_V2_PROGRAM lib) (acc_owner acc) pair
        (mints_are pair myneMint (WRAPPED_SOL_MINT lib)) rx ry) = (Inr r :: pool_report res)"
    by blast
  have st: "status pair = 0" using dec decode_lb_enabled decode_damm_enabled by (auto split: if_splits)
  show ?thesis
    by (rule exI[of _ acc], rule exI[of _ pair], rule exI[of _ rx], rule exI[of _ ry]) (use own st rest in simp)
qed

text \<open>
  C29. A pool that passes the inspection is the exact MYNE/WSOL pair: it belongs to one of the two Meteora
  programs and its layout is enabled, the two reserves are the derived vaults of this pool for the two
  mints and hold those mints, the reported MYNE and SOL vaults and amounts are those of the MYNE and
  the WSOL side whichever way round the pool stores them, and the pool is already active.
\<close>

theorem inspectMeteoraPool_exact_pair:
  assumes "inspectMeteoraPool lib conn pool myneMint = Inr r" "myneMint \<noteq> WRAPPED_SOL_MINT lib"
  shows "poolProgram r \<in> {METEORA_DLMM_PROGRAM lib, METEORA_DAMM_V2_PROGRAM lib} \<and> status (rep_pair r) = 0
    \<and> {tokenXMint (rep_pair r), tokenYMint (rep_pair r)} = {myneMint, WRAPPED_SOL_MINT lib}
    \<and> myneVault r = expectedReserve lib (poolProgram r) pool myneMint
    \<and> solVault r = expectedReserve lib (poolProgram r) pool (WRAPPED_SOL_MINT lib)
    \<and> getAccount conn (myneVault r) = Inr \<lparr>tok_mint = myneMint, tok_amount = myneAmount r\<rparr>
    \<and> getAccount conn (solVault r) = Inr \<lparr>tok_mint = WRAPPED_SOL_MINT lib, tok_amount = solAmount r\<rparr>
    \<and> ((poolProgram r = METEORA_DLMM_PROGRAM lib \<and> activationPoint (rep_pair r) \<le> 0)
       \<or> (\<exists>point. current_point conn (activationType (rep_pair r)) = Inr point \<and> activationPoint (rep_pair r) \<le> point))"
proof -
  from inspectMeteoraPool_Inr[OF assms(1)] obtain acc :: account_info and pair rx ry where
      own: "acc_owner acc = METEORA_DLMM_PROGRAM lib \<or> acc_owner acc = METEORA_DAMM_V2_PROGRAM lib"
    and st: "status pair = 0"
    and mints: "mints_are pair myneMint (WRAPPED_SOL_MINT lib) \<or> mints_are pair (WRAPPED_SOL_MINT lib) myneMint"
    and rx: "getAccount conn (reserveX pair) = Inr rx" "tok_mint rx = tokenXMint pair"
        "reserveX pair = expectedReserve lib (acc_owner acc) pool (tokenXMint pair)"
    and ry: "getAccount conn (reserveY pair) = Inr ry" "tok_mint ry = tokenYMint pair"
        "reserveY pair = expectedReserve lib (acc_owner acc) pool (tokenYMint pair)"
    and act: "check_active conn (acc_owner acc = METEORA_DAMM_V2_PROGRAM lib) pair = Inr ()"
    and r: "r = pool_report_of (acc_owner acc = METEORA_DAMM_V2_PROGRAM lib) (acc_owner acc) pair
        (mints_are pair myneMint (WRAPPED_SOL_MINT lib)) rx ry"
    by blast
  have tok: "\<lparr>tok_mint = tokenXMint pair, tok_amount = tok_amount rx\<rparr> = rx"
      "\<lparr>tok_mint = tokenYMint pair, tok_amount = tok_amount ry\<rparr> = ry"
    using rx(2) ry(2) by simp_all
  have act': "(acc_owner acc = METEORA_DLMM_PROGRAM lib \<and> activationPoint pair \<le> 0) \<or>
      (\<exists>point. current_point conn (activationType pair) = Inr point \<and> activationPoint pair \<le> point)"
    using check_active_ok[OF act] own by blast
  show ?thesis
  proof (cases "mints_are pair myneMint (WRAPPED_SOL_MINT lib)")
    case True
    then have "tokenXMint pair = myneMint" "tokenYMint pair = WRAPPED_SOL_MINT lib" by (simp_all add: mints_are_def)
    then show ?thesis using own st rx(1,3) ry(1,3) tok act' True unfolding r by (simp add: pool_report_of_def)
  next
    case False
    then have "tokenYMint pair = myneMint" "tokenXMint pair = WRAPPED_SOL_MINT lib"
      using mints False by (auto simp: mints_are_def)
    then show ?thesis
      using own st rx(1,3) ry(1,3) tok act' False unfolding r
      by (simp add: pool_report_of_def insert_commute) blast
  qed
qed

definition demo_lib :: key_lib where
  "demo_lib = \<lparr>key_of_text = (\<lambda>s. replicate 32 (if s = ''So11111111111111111111111111111111111111112'' then 9
       else if s = ''cpamdpZCGKUy5JxQXB4dcpGPiikHawvSWAd6mEn1sGG'' then 6 else 5)),
     findProgramAddress = (\<lambda>seeds program. last seeds)\<rparr>"

definition demo_pool_data :: bytes where
  "demo_pool_data = LB_PAIR_DISCRIMINATOR @ replicate 72 0 @ [20, 0] @ replicate 6 0 @ replicate 32 7
     @ replicate 32 9 @ replicate 32 7 @ replicate 32 9 @ replicate 688 0"

definition demo_connection :: connection where
  "demo_connection = \<lparr>getAccountInfo = (\<lambda>_. Inr (Some \<lparr>acc_owner = replicate 32 5,
       acc_executable = False, acc_data = demo_pool_data\<rparr>)),
     getAccount = (\<lambda>k. Inr \<lparr>tok_mint = k, tok_amount = (if k = replicate 32 7 then 500 else 90)\<rparr>),
     getSlot = Inr 10, getBlockTime = (\<lambda>_. Inr None)\<rparr>"

lemmas demo_layout = demo_pool_data_def LB_PAIR_DISCRIMINATOR_def OFFSETS_def

lemma demo_pool_fields:
  "length demo_pool_data = 904" "take 8 demo_pool_data = LB_PAIR_DISCRIMINATOR"
  "take 4 (drop 76 demo_pool_data) = replicate 4 0" "take 2 (drop 80 demo_pool_data) = [20, 0]"
  "take 8 (drop 816 demo_pool_data) = replicate 8 0" "demo_pool_data ! 82 = 0" "demo_pool_data ! 86 = 0"
  "publicKeyAt demo_pool_data 88 = replicate 32 7" "publicKeyAt demo_pool_data 120 = replicate 32 9"
  "publicKeyAt demo_pool_data 152 = replicate 32 7" "publicKeyAt demo_pool_data 184 = replicate 32 9"
  by (simp_all add: publicKeyAt_def demo_layout nth_append)

lemma demo_pool_decoded:
  "decodeMeteoraLbPair demo_pool_data = Inr \<lparr>activeId = Some 0, binStep = Some 20, poolType = None, status = 0,
     activationType = 0, activationPoint = 0, tokenXMint = replicate 32 7, tokenYMint = replicate 32 9,
     reserveX = replicate 32 7, reserveY = replicate 32 9\<rparr>"
proof -
  have z: "le_val (replicate n 0) = 0" for n by (induction n) simp_all
  have d: "length LB_PAIR_DISCRIMINATOR = 8" by (simp add: LB_PAIR_DISCRIMINATOR_def)
  show ?thesis
    unfolding decodeMeteoraLbPair_def getInt32_def readUIntLE_def OFFSETS_def d
    by (simp add: demo_pool_fields LB_PAIR_ACCOUNT_LEN_def z Let_def)
qed

lemma demo_keys:
  "METEORA_DLMM_PROGRAM demo_lib = replicate 32 5" "METEORA_DAMM_V2_PROGRAM demo_lib = replicate 32 6"
  "WRAPPED_SOL_MINT demo_lib = replicate 32 9"
  by (simp_all add: METEORA_DLMM_PROGRAM_def METEORA_DAMM_V2_PROGRAM_def WRAPPED_SOL_MINT_def demo_lib_def)

theorem inspectMeteoraPool_exact_pair_witness:
  "\<exists>r. inspectMeteoraPool demo_lib demo_connection (replicate 32 1) (replicate 32 7) = Inr r
     \<and> myneAmount r = 500 \<and> solAmount r = 90
     \<and> myneVault r = expectedReserve demo_lib (poolProgram r) (replicate 32 1) (replicate 32 7)"
proof -
  define pair where "pair = \<lparr>activeId = Some (0 :: int), binStep = Some (20 :: int), poolType = (None :: int option),
     status = (0 :: int), activationType = (0 :: int), activationPoint = (0 :: int), tokenXMint = replicate 32 (7 :: byte),
     tokenYMint = replicate 32 (9 :: byte), reserveX = replicate 32 (7 :: byte), reserveY = replicate 32 (9 :: byte)\<rparr>"
  have ne: "replicate 32 (5 :: byte) \<noteq> replicate 32 6" "replicate 32 (9 :: byte) \<noteq> replicate 32 7"
    by (simp_all add: replicate_eq_replicate)
  have res: "expectedReserve demo_lib program pool mint = mint" if "program \<noteq> replicate 32 6" for program pool mint
    using that by (simp add: expectedReserve_def demo_keys) (simp add: demo_lib_def)
  have r: "inspectMeteoraPool demo_lib demo_connection (replicate 32 1) (replicate 32 7) = Inr
      (pool_report_of False (replicate 32 5) pair True \<lparr>tok_mint = replicate 32 7, tok_amount = 500\<rparr>
        \<lparr>tok_mint = replicate 32 9, tok_amount = 90\<rparr>)"
    unfolding inspectMeteoraPool_def demo_keys
    using ne demo_pool_decoded
    by (simp add: demo_connection_def pair_def[symmetric] Let_def res) (simp add: pair_def mints_are_def check_active_def res)
  show ?thesis using inspectMeteoraPool_exact_pair[OF r] ne
    by (simp add: r demo_keys) (simp add: pool_report_of_def)
qed

end
