(* ===== verification/Receipt_Recovery.thy ===== *)
theory Receipt_Recovery
  imports Js_Bytes
begin

text \<open>
  \<open>Protocol/scripts/receipt-recovery-policy.mjs\<close>: the bounded account scan that recovers the live bet
  receipts of one round, and the checks on what the scan returns. The IDL decoder and the derivation of
  receipt addresses are callbacks of the source and arguments of the model.
\<close>

section \<open>The scan\<close>

definition BET_RECEIPT_ACCOUNT_SIZE :: int where
  "BET_RECEIPT_ACCOUNT_SIZE = 468"

definition BET_RECEIPT_ROUND_ID_OFFSET :: int where
  "BET_RECEIPT_ROUND_ID_OFFSET = 9"

definition BASE58 :: string where
  "BASE58 = ''123456789ABCDEFGHJKLMNPQRSTUVWXYZabcdefghijkmnopqrstuvwxyz''"

definition asU64 :: "jsval \<Rightarrow> string \<Rightarrow> int res" where
  "asU64 v label = then_res (bigint_of_value v) (\<lambda>parsed.
     assert_ok (0 \<le> parsed \<and> parsed \<le> U64_MAX) (label @ '' must fit in an unsigned u64'') (Inr parsed))"

definition be_value :: "bytes \<Rightarrow> nat" where
  "be_value bs = fold (\<lambda>b a. 256 * a + unat b) bs 0"

function base58_digits :: "nat \<Rightarrow> string \<Rightarrow> string" where
  "base58_digits v encoded = (if v = 0 then encoded
     else base58_digits (v div 58) (BASE58 ! (v mod 58) # encoded))"
  by pat_completeness auto
termination by (relation "measure fst") auto

declare base58_digits.simps [simp del]

definition leading_zeroes :: "bytes \<Rightarrow> nat" where
  "leading_zeroes bs = length (takeWhile (\<lambda>b. b = 0) bs)"

definition base58Encode :: "bytes \<Rightarrow> string" where
  "base58Encode bs = replicate (leading_zeroes bs) CHR ''1'' @ base58_digits (be_value bs) []"

definition u64LittleEndian :: "jsval \<Rightarrow> bytes res" where
  "u64LittleEndian v = then_res (asU64 v ''roundId'') writeBigUInt64LE"

record scan_options =
  commitment :: string
  dataSize :: int
  memcmp_offset :: int
  memcmp_bytes :: string

definition exactReceiptRecoveryScanOptions :: "jsval \<Rightarrow> jsval \<Rightarrow> jsval \<Rightarrow> scan_options res" where
  "exactReceiptRecoveryScanOptions roundId expectedLiveCount maxAccounts =
     then_res (asU64 expectedLiveCount ''expectedLiveCount'') (\<lambda>expected.
     then_res (asU64 maxAccounts ''maxAccounts'') (\<lambda>maximum.
     assert_ok (0 < maximum) ''maxAccounts must be positive'' (
     assert_ok (expected \<le> maximum)
       (''Receipt recovery count '' @ show_int expected @ '' exceeds the configured maximum '' @ show_int maximum) (
     then_res (u64LittleEndian roundId) (\<lambda>bs.
     Inr \<lparr>commitment = ''confirmed'', dataSize = BET_RECEIPT_ACCOUNT_SIZE,
          memcmp_offset = BET_RECEIPT_ROUND_ID_OFFSET, memcmp_bytes = base58Encode bs\<rparr>)))))"

section \<open>The accounts\<close>

definition publicKeyString :: "jsval \<Rightarrow> string \<Rightarrow> string res" where
  "publicKeyString v label = (case v of Key s \<Rightarrow> Inr s
     | _ \<Rightarrow> Inl (AssertionError (label @ '' must be a public key'')))"

text \<open>One row of the scan; \<open>None\<close> for data that is not a byte array.\<close>

record recovered =
  pubkey :: jsval
  owner :: jsval
  executable :: jsval
  account_data :: "bytes option"

text \<open>What the decoder reads of a receipt.\<close>

record receipt_state =
  state_roundId :: jsval
  state_authority :: jsval
  state_nonce :: jsval
  state_bump :: jsval

definition check_recovered ::
  "(bytes \<Rightarrow> receipt_state res) \<Rightarrow> (jsval \<Rightarrow> jsval \<Rightarrow> (jsval \<times> jsval) res) \<Rightarrow> int \<Rightarrow> string \<Rightarrow>
   recovered \<Rightarrow> (string \<times> string) list \<Rightarrow> (string \<times> string) list res" where
  "check_recovered decodeReceipt deriveReceiptPda expectedRoundId expectedOwner a seen =
     then_res (publicKeyString (pubkey a) ''receipt address'') (\<lambda>receipt.
     assert_ok (receipt \<notin> set (map fst seen)) (''Duplicate recovered receipt '' @ receipt) (
     then_res (publicKeyString (owner a) ''receipt owner'') (\<lambda>own.
     assert_ok (own = expectedOwner) ''Recovered receipt has wrong owner'' (
     assert_ok (executable a = Bool False) ''Recovered receipt account must not be executable'' (
     case account_data a of
       None \<Rightarrow> Inl (AssertionError ''Recovered receipt data must be bytes'')
     | Some data \<Rightarrow>
     assert_ok (int (length data) = BET_RECEIPT_ACCOUNT_SIZE) ''Recovered receipt has the wrong account size'' (
     then_res (decodeReceipt data) (\<lambda>state.
     then_res (asU64 (state_roundId state) ''receipt.roundId'') (\<lambda>rid.
     assert_ok (rid = expectedRoundId) ''Recovered receipt belongs to a different round'' (
     then_res (publicKeyString (state_authority state) ''receipt authority'') (\<lambda>bettor.
     then_res (deriveReceiptPda (state_authority state) (state_nonce state)) (\<lambda>(canonical, canonicalBump).
     then_res (publicKeyString canonical ''canonical receipt address'') (\<lambda>address.
     assert_ok (address = receipt) ''Recovered receipt is not the canonical PDA'' (
     assert_ok (to_num (state_bump state) = to_num canonicalBump) ''Recovered receipt stores the wrong PDA bump'' (
     Inr (seen @ [(receipt, bettor)])))))))))))))))"

definition validateRecoveredReceiptAccounts ::
  "(bytes \<Rightarrow> receipt_state res) \<Rightarrow> (jsval \<Rightarrow> jsval \<Rightarrow> (jsval \<times> jsval) res) \<Rightarrow>
   recovered list option \<Rightarrow> jsval \<Rightarrow> jsval \<Rightarrow> jsval \<Rightarrow> (string \<times> string) list res" where
  "validateRecoveredReceiptAccounts decodeReceipt deriveReceiptPda accounts expectedLiveCount roundId programId =
     then_res (asU64 expectedLiveCount ''expectedLiveCount'') (\<lambda>expected.
     assert_ok (expected \<le> MAX_SAFE_INTEGER) ''Receipt recovery count is not safely representable'' (
     case accounts of
       None \<Rightarrow> Inl (AssertionError ''Receipt recovery response must be an array'')
     | Some rows \<Rightarrow>
     assert_ok (int (length rows) = expected)
       ''Confirmed receipt recovery cardinality does not match the authoritative live count'' (
     then_res (asU64 roundId ''roundId'') (\<lambda>expectedRoundId.
     then_res (publicKeyString programId ''programId'') (\<lambda>expectedOwner.
     fold_res (check_recovered decodeReceipt deriveReceiptPda expectedRoundId expectedOwner) rows [])))))"

section \<open>The base58 text of the filter determines the round\<close>

definition base58_index :: "char \<Rightarrow> nat" where
  "base58_index c = length (takeWhile (\<lambda>d. d \<noteq> c) BASE58)"

definition base58_value :: "string \<Rightarrow> nat" where
  "base58_value s = fold (\<lambda>c a. 58 * a + base58_index c) s 0"

lemma base58_index_all: "list_all (\<lambda>d. base58_index (BASE58 ! d) = d) [0..<58]"
  by code_simp

lemma base58_index [simp]: "d < 58 \<Longrightarrow> base58_index (BASE58 ! d) = d"
  using base58_index_all by (simp add: list_all_iff)

lemma base58_index_1 [simp]: "base58_index CHR ''1'' = 0"
  by (simp add: base58_index_def BASE58_def)

lemma base58_digits_acc: "base58_digits v acc = base58_digits v [] @ acc"
proof (induction v arbitrary: acc rule: less_induct)
  case (less v)
  show ?case
  proof (cases "v = 0")
    case True
    then show ?thesis by (simp add: base58_digits.simps)
  next
    case False
    then have "v div 58 < v" by simp
    from less[OF this, of "BASE58 ! (v mod 58) # acc"] less[OF this, of "[BASE58 ! (v mod 58)]"] False
    show ?thesis by (simp add: base58_digits.simps[of v])
  qed
qed

lemma base58_digits_step: "0 < v \<Longrightarrow> base58_digits v [] = base58_digits (v div 58) [] @ [BASE58 ! (v mod 58)]"
  by (subst base58_digits.simps) (simp add: base58_digits_acc[of _ "[_]"])

lemma base58_value_digits [simp]: "base58_value (base58_digits v []) = v"
proof (induction v rule: less_induct)
  case (less v)
  show ?case
  proof (cases "v = 0")
    case True
    then show ?thesis by (simp add: base58_digits.simps base58_value_def)
  next
    case False
    then show ?thesis using less[of "v div 58"] by (simp add: base58_digits_step base58_value_def)
  qed
qed

lemma base58_digits_first: "0 < v \<Longrightarrow> base58_digits v [] \<noteq> [] \<and> base58_index (hd (base58_digits v [])) \<noteq> 0"
proof (induction v rule: less_induct)
  case (less v)
  show ?case
  proof (cases "v < 58")
    case True
    then show ?thesis using less.prems by (simp add: base58_digits_step base58_digits.simps[of 0])
  next
    case False
    then have "0 < v div 58" "v div 58 < v" by auto
    from less.IH[OF this(2,1)] show ?thesis using less.prems by (simp add: base58_digits_step[of v])
  qed
qed

lemma replicate_ones_inject:
  assumes "replicate m CHR ''1'' @ xs = replicate n CHR ''1'' @ ys"
    and "xs = [] \<or> hd xs \<noteq> CHR ''1''" "ys = [] \<or> hd ys \<noteq> CHR ''1''"
  shows "m = n \<and> xs = ys"
  using assms(1)
proof (induction m arbitrary: n)
  case 0
  then show ?case using assms(2) by (cases n) (auto simp: hd_append)
next
  case (Suc m)
  then show ?case using assms(3) by (cases n) (auto simp: hd_append neq_Nil_conv)
qed

lemma base58_digits_no_one: "base58_digits v [] = [] \<or> hd (base58_digits v []) \<noteq> CHR ''1''"
  using base58_digits_first[of v] by (cases "v = 0") (auto simp: base58_digits.simps[of 0])

lemma be_value_snoc: "be_value (bs @ [b]) = 256 * be_value bs + unat b"
  by (simp add: be_value_def)

lemma be_value_inject: "length xs = length ys \<Longrightarrow> be_value xs = be_value ys \<Longrightarrow> xs = ys"
proof (induction xs arbitrary: ys rule: rev_induct)
  case Nil
  then show ?case by simp
next
  case (snoc x xs)
  then obtain y zs where ys: "ys = zs @ [y]" by (cases ys rule: rev_cases) auto
  have eq: "256 * be_value xs + unat x = 256 * be_value zs + unat y"
    using snoc.prems(2) by (simp add: ys be_value_snoc)
  have "be_value xs = (256 * be_value xs + unat x) div 256" "unat x = (256 * be_value xs + unat x) mod 256"
    "be_value zs = (256 * be_value zs + unat y) div 256" "unat y = (256 * be_value zs + unat y) mod 256"
    using unat_byte[of x] unat_byte[of y] by simp_all
  then have "be_value xs = be_value zs" "unat x = unat y" using eq by metis+
  then show ?case using snoc.IH[of zs] snoc.prems(1) by (simp add: ys unsigned_word_eqI word_unat_eq_iff)
qed

lemma base58Encode_inject:
  assumes "base58Encode xs = base58Encode ys" "length xs = length ys"
  shows "xs = ys"
proof -
  have "base58_digits (be_value xs) [] = base58_digits (be_value ys) []"
    using replicate_ones_inject[OF assms(1)[unfolded base58Encode_def] base58_digits_no_one base58_digits_no_one] by simp
  then have "be_value xs = be_value ys" by (metis base58_value_digits)
  then show ?thesis using assms(2) by (simp add: be_value_inject)
qed

lemma asU64_Inr [res_simps]:
  "asU64 v l = Inr n \<longleftrightarrow> bigint_of_value v = Inr n \<and> 0 \<le> n \<and> n \<le> U64_MAX"
  by (auto simp: asU64_def res_simps)

text \<open>
  The recovery scan is exact in its round: the options are refused when the authoritative live count is
  above the configured maximum, they fix the account size and the offset of the round id, and two
  rounds whose filters agree on the compared bytes are the same round.
\<close>

theorem exactReceiptRecoveryScanOptions_exact:
  assumes "exactReceiptRecoveryScanOptions roundId expectedLiveCount maxAccounts = Inr opts"
  shows "(\<exists>n m k. bigint_of_value roundId = Inr n \<and> bigint_of_value expectedLiveCount = Inr k
      \<and> bigint_of_value maxAccounts = Inr m \<and> 0 \<le> k \<and> k \<le> m)
    \<and> dataSize opts = 468 \<and> memcmp_offset opts = 9
    \<and> (\<forall>roundId' c' m' opts'. exactReceiptRecoveryScanOptions roundId' c' m' = Inr opts' \<longrightarrow>
         memcmp_bytes opts' = memcmp_bytes opts \<longrightarrow> bigint_of_value roundId' = bigint_of_value roundId)"
proof -
  from assms obtain n k m bs where one: "bigint_of_value roundId = Inr n" "writeBigUInt64LE n = Inr bs"
      "memcmp_bytes opts = base58Encode bs" "bigint_of_value expectedLiveCount = Inr k"
      "bigint_of_value maxAccounts = Inr m" "0 \<le> k" "k \<le> m" "dataSize opts = 468" "memcmp_offset opts = 9"
    by (auto simp: exactReceiptRecoveryScanOptions_def u64LittleEndian_def res_simps
        BET_RECEIPT_ACCOUNT_SIZE_def BET_RECEIPT_ROUND_ID_OFFSET_def)
  have "bigint_of_value roundId' = bigint_of_value roundId"
    if "exactReceiptRecoveryScanOptions roundId' c' m' = Inr opts'" "memcmp_bytes opts' = memcmp_bytes opts"
    for roundId' c' m' opts'
  proof -
    from that(1) obtain n' bs' where two: "bigint_of_value roundId' = Inr n'" "writeBigUInt64LE n' = Inr bs'"
        "memcmp_bytes opts' = base58Encode bs'"
      by (auto simp: exactReceiptRecoveryScanOptions_def u64LittleEndian_def res_simps)
    have "length bs' = length bs" using write_read_u64[OF one(2), of "[]"] write_read_u64[OF two(2), of "[]"] by simp
    then have "bs' = bs" using base58Encode_inject[of bs' bs] that(2) two(3) one(3) by simp
    then have "n' = n" using write_u64_inject[OF two(2)] one(2) by simp
    then show ?thesis using one(1) two(1) by simp
  qed
  then show ?thesis using one by blast
qed

theorem exactReceiptRecoveryScanOptions_exact_witness:
  "\<exists>opts. exactReceiptRecoveryScanOptions (Big 7) (Big 3) (Big 10) = Inr opts \<and> memcmp_offset opts = 9"
proof -
  have "is_ok (exactReceiptRecoveryScanOptions (Big 7) (Big 3) (Big 10))"
    by (simp add: exactReceiptRecoveryScanOptions_def asU64_def u64LittleEndian_def writeBigUInt64LE_def U64_MAX_def)
  then obtain opts where o: "exactReceiptRecoveryScanOptions (Big 7) (Big 3) (Big 10) = Inr opts"
    by (auto simp: is_ok_iff)
  then show ?thesis using exactReceiptRecoveryScanOptions_exact[OF o] by blast
qed

section \<open>What is recovered\<close>

definition genuine_receipt ::
  "(bytes \<Rightarrow> receipt_state res) \<Rightarrow> (jsval \<Rightarrow> jsval \<Rightarrow> (jsval \<times> jsval) res) \<Rightarrow> int \<Rightarrow> string \<Rightarrow>
   recovered \<Rightarrow> string \<times> string \<Rightarrow> bool" where
  "genuine_receipt decodeReceipt deriveReceiptPda rid program a r \<longleftrightarrow>
     pubkey a = Key (fst r) \<and> owner a = Key program \<and> executable a = Bool False \<and>
     (\<exists>data state bump. account_data a = Some data \<and> length data = 468 \<and> decodeReceipt data = Inr state
        \<and> bigint_of_value (state_roundId state) = Inr rid \<and> state_authority state = Key (snd r)
        \<and> deriveReceiptPda (Key (snd r)) (state_nonce state) = Inr (Key (fst r), bump)
        \<and> to_num (state_bump state) = to_num bump)"

lemma publicKeyString_Inr [res_simps]: "publicKeyString v l = Inr s \<longleftrightarrow> v = Key s"
  by (auto simp: publicKeyString_def split: jsval.splits)

lemma check_recovered_Inr:
  "check_recovered d p rid program a seen = Inr out \<Longrightarrow>
   \<exists>r. out = seen @ [r] \<and> fst r \<notin> fst ` set seen \<and> genuine_receipt d p rid program a r"
  by (auto simp: check_recovered_def res_simps genuine_receipt_def BET_RECEIPT_ACCOUNT_SIZE_def
      split: option.splits)

lemma check_all_recovered:
  "fold_res (check_recovered d p rid program) rows seen = Inr out \<Longrightarrow> distinct (map fst seen) \<Longrightarrow>
   \<exists>rs. out = seen @ rs \<and> distinct (map fst out) \<and> list_all2 (genuine_receipt d p rid program) rows rs"
proof (induction rows arbitrary: seen)
  case Nil
  then show ?case by simp
next
  case (Cons a rows)
  from Cons.prems(1) obtain mid where mid: "check_recovered d p rid program a seen = Inr mid"
      "fold_res (check_recovered d p rid program) rows mid = Inr out"
    by (auto simp: res_simps)
  from check_recovered_Inr[OF mid(1)] obtain r where r: "mid = seen @ [r]" "fst r \<notin> fst ` set seen"
      "genuine_receipt d p rid program a r"
    by blast
  then have "distinct (map fst mid)" using Cons.prems(2) by simp
  from Cons.IH[OF mid(2) this] obtain rs where "out = mid @ rs" "distinct (map fst out)"
      "list_all2 (genuine_receipt d p rid program) rows rs" by blast
  then have "out = seen @ (r # rs) \<and> distinct (map fst out) \<and>
      list_all2 (genuine_receipt d p rid program) (a # rows) (r # rs)" using r by simp
  then show ?case by blast
qed

text \<open>
  C30. An accepted recovery scan is complete and genuine: it has exactly the authoritative number of rows, the
  result lists one receipt per row in order, no receipt twice, and each row is an account owned by
  the program, not executable, of the receipt size, whose decoded state names this round and an
  authority and nonce that derive to this very address with the stored bump.
\<close>

theorem validateRecoveredReceiptAccounts_genuine:
  assumes "validateRecoveredReceiptAccounts decodeReceipt deriveReceiptPda (Some rows) expectedLiveCount roundId
      programId = Inr receipts"
  shows "\<exists>rid program. bigint_of_value roundId = Inr rid \<and> programId = Key program
    \<and> bigint_of_value expectedLiveCount = Inr (int (length rows)) \<and> length receipts = length rows
    \<and> distinct (map fst receipts)
    \<and> list_all2 (genuine_receipt decodeReceipt deriveReceiptPda rid program) rows receipts"
proof -
  from assms obtain rid program where h: "bigint_of_value roundId = Inr rid" "programId = Key program"
      "bigint_of_value expectedLiveCount = Inr (int (length rows))"
      "fold_res (check_recovered decodeReceipt deriveReceiptPda rid program) rows [] = Inr receipts"
    by (auto simp: validateRecoveredReceiptAccounts_def res_simps)
  from check_all_recovered[OF h(4)] show ?thesis using h by (auto dest: list_all2_lengthD)
qed

definition demo_receipt_row :: recovered where
  "demo_receipt_row = \<lparr>pubkey = Key ''receipt-a'', owner = Key ''program'', executable = Bool False,
     account_data = Some (replicate 468 0)\<rparr>"

definition demo_decode :: "bytes \<Rightarrow> receipt_state res" where
  "demo_decode data = Inr \<lparr>state_roundId = BN 7, state_authority = Key ''alice'', state_nonce = BN 1,
     state_bump = IntV 254\<rparr>"

definition demo_derive :: "jsval \<Rightarrow> jsval \<Rightarrow> (jsval \<times> jsval) res" where
  "demo_derive authority nonce = Inr (Key ''receipt-a'', IntV 254)"

theorem validateRecoveredReceiptAccounts_genuine_witness:
  "validateRecoveredReceiptAccounts demo_decode demo_derive (Some [demo_receipt_row]) (Big 1) (Big 7) (Key ''program'')
     = Inr [(''receipt-a'', ''alice'')]
   \<and> (\<exists>rid. list_all2 (genuine_receipt demo_decode demo_derive rid ''program'') [demo_receipt_row] [(''receipt-a'', ''alice'')])"
proof -
  have v: "validateRecoveredReceiptAccounts demo_decode demo_derive (Some [demo_receipt_row]) (Big 1) (Big 7)
      (Key ''program'') = Inr [(''receipt-a'', ''alice'')]"
    by (simp add: validateRecoveredReceiptAccounts_def asU64_def U64_MAX_def MAX_SAFE_INTEGER_def
        publicKeyString_def check_recovered_def demo_receipt_row_def demo_decode_def demo_derive_def
        BET_RECEIPT_ACCOUNT_SIZE_def)
  from validateRecoveredReceiptAccounts_genuine[OF v] v show ?thesis by auto
qed

end
