(* ===== verification/Settlement_Evidence.thy ===== *)
theory Settlement_Evidence
  imports Anchor_Events Round_Schedule
begin

text \<open>
  \<open>Protocol/scripts/round-settlement-evidence.mjs\<close>: a restarted keeper looks up the finalized settlement
  transaction of a round and classifies whether it landed inside the result window. The two reads of
  the connection (through \<open>rpcCall\<close>) and the Anchor event parser are arguments; each may fail.
\<close>

section \<open>Definitions\<close>

definition asRoundId :: "jsval \<Rightarrow> string" where
  "asRoundId v = (if nullish v then [] else to_str v)"

record evidence_source =
  getSignaturesForAddress :: "jsval \<Rightarrow> jsval res"
  getTransaction :: "string \<Rightarrow> jsval res"
  parseLogs :: "jsval list \<Rightarrow> jsval list res"

record settlement_evidence =
  ev_roundId :: string
  ev_signature :: string
  ev_slot :: jsval
  ev_blockTime :: jsval

text \<open>\<open>xs.some(f)\<close> with a callback that may throw: stops at the first element that holds.\<close>

fun some_res :: "('a \<Rightarrow> bool res) \<Rightarrow> 'a list \<Rightarrow> bool res" where
  "some_res f [] = Inr False"
| "some_res f (x # xs) = then_res (f x) (\<lambda>b. if b then Inr True else some_res f xs)"

definition settles_round :: "string \<Rightarrow> jsval \<Rightarrow> bool res" where
  "settles_round rid event =
     then_res (member event ''name'') (\<lambda>name.
     then_res (normalizeAnchorEventName name) (\<lambda>n.
     if n \<noteq> ''RoundSettled'' then Inr False
     else then_res (normalizeAnchorEventData (opt_member event ''data'')) (\<lambda>data.
       Inr (asRoundId (opt_member data ''roundId'') = rid))))"

text \<open>The log messages of a transaction that did not fail.\<close>

definition clean_logs :: "jsval \<Rightarrow> jsval list option" where
  "clean_logs tx = (let meta = opt_member tx ''meta'' in
     if nullish (opt_member meta ''err'') then (case opt_member meta ''logMessages'' of Arr ls \<Rightarrow> Some ls | _ \<Rightarrow> None)
     else None)"

definition evidence_of_row ::
  "evidence_source \<Rightarrow> string \<Rightarrow> jsval \<Rightarrow> settlement_evidence option res" where
  "evidence_of_row src rid row =
     (case opt_member row ''signature'' of
        Str sig \<Rightarrow>
          if \<not> truthy row \<or> \<not> nullish (opt_member row ''err'') then Inr None
          else (case getTransaction src sig of Inl _ \<Rightarrow> Inr None
            | Inr tx \<Rightarrow> (case clean_logs tx of None \<Rightarrow> Inr None
                | Some logs \<Rightarrow> (case parseLogs src logs of Inl _ \<Rightarrow> Inr None
                    | Inr events \<Rightarrow>
                        then_res (some_res (settles_round rid) events) (\<lambda>exactSettlement.
                        if \<not> exactSettlement then Inr None
                        else assert_ok (safe_int (opt_member tx ''blockTime'') \<noteq> None)
                          (''Finalized RoundSettled transaction '' @ sig @ '' has no block time'')
                          (Inr (Some \<lparr>ev_roundId = rid, ev_signature = sig, ev_slot = opt_member tx ''slot'',
                             ev_blockTime = opt_member tx ''blockTime''\<rparr>))))))
      | _ \<Rightarrow> Inr None)"

fun scan_rows :: "evidence_source \<Rightarrow> string \<Rightarrow> jsval list \<Rightarrow> settlement_evidence option res" where
  "scan_rows src rid [] = Inr None"
| "scan_rows src rid (row # rows) = then_res (evidence_of_row src rid row) (\<lambda>found.
     case found of Some ev \<Rightarrow> Inr (Some ev) | None \<Rightarrow> scan_rows src rid rows)"

text \<open>The loop over at most \<open>maxPages\<close> pages; \<open>before\<close> is the cursor.\<close>

fun scan_pages ::
  "evidence_source \<Rightarrow> string \<Rightarrow> nat \<Rightarrow> nat \<Rightarrow> jsval \<Rightarrow> settlement_evidence option res" where
  "scan_pages src rid pageSize 0 before = Inr None"
| "scan_pages src rid pageSize (Suc pages) before =
     then_res (getSignaturesForAddress src before) (\<lambda>response.
     case response of
       Arr rows \<Rightarrow>
         assert_ok (length rows \<le> pageSize) ''Finalized round settlement signature page is oversized'' (
         then_res (scan_rows src rid rows) (\<lambda>found.
         case found of
           Some ev \<Rightarrow> Inr (Some ev)
         | None \<Rightarrow>
             if length rows < pageSize then Inr None
             else (let cursor = opt_member (last rows) ''signature'' in
               assert_ok (truthy cursor) ''Finalized round settlement pagination cursor is missing''
                 (scan_pages src rid pageSize pages cursor))))
     | _ \<Rightarrow> Inl (AssertionError ''Finalized round settlement signature response is invalid''))"

text \<open>\<open>assert.ok(Number.isSafeInteger(v) && v >= 1 && v <= limit)\<close>\<close>

definition bounded_int :: "jsval \<Rightarrow> int \<Rightarrow> (int \<Rightarrow> 'a res) \<Rightarrow> 'a res" where
  "bounded_int v limit k = (case safe_int v of
     None \<Rightarrow> Inl (AssertionError ''The expression evaluated to a falsy value'')
   | Some n \<Rightarrow> assert_ok (1 \<le> n \<and> n \<le> limit) ''The expression evaluated to a falsy value'' (k n))"

definition findFinalizedRoundSettlementEvidence ::
  "evidence_source \<Rightarrow> jsval \<Rightarrow> jsval \<Rightarrow> jsval \<Rightarrow> jsval \<Rightarrow> settlement_evidence option res" where
  "findFinalizedRoundSettlementEvidence src roundAddress roundId maxPages pageSize =
     assert_ok (all_digits (asRoundId roundId)) ''Settlement evidence round id is invalid'' (
     assert_ok (case roundAddress of Key _ \<Rightarrow> True | _ \<Rightarrow> False) ''The expression evaluated to a falsy value'' (
     bounded_int maxPages 32 (\<lambda>pages. bounded_int pageSize 1000 (\<lambda>page.
     scan_pages src (asRoundId roundId) (nat page) (nat pages) Undef))))"

record verdict =
  deadlineMet :: bool
  verdict_outcome :: string

definition classifyFinalizedRoundSettlementEvidence ::
  "settlement_evidence option \<Rightarrow> jsval \<Rightarrow> jsval \<Rightarrow> verdict res" where
  "classifyFinalizedRoundSettlementEvidence ev roundId resultDeadlineAt =
     assert_ok (all_digits (asRoundId roundId)) ''Settlement evidence round id is invalid'' (
     assert_ok (safe_int resultDeadlineAt \<noteq> None) ''Settlement result deadline is invalid'' (
     case ev of
       None \<Rightarrow> Inr \<lparr>deadlineMet = False, verdict_outcome =
         ''finalized-settlement-evidence-unavailable;deadline-exclusive:'' @ to_str resultDeadlineAt\<rparr>
     | Some e \<Rightarrow>
         assert_ok (ev_roundId e = asRoundId roundId) ''Settlement evidence belongs to another round'' (
         assert_ok (safe_int (ev_blockTime e) \<noteq> None) ''Settlement evidence block time is invalid'' (
         then_res (settlementConfirmedWithinResultWindow (ev_blockTime e) resultDeadlineAt) (\<lambda>met.
         Inr \<lparr>deadlineMet = met, verdict_outcome = (if met then ev_signature e
           else ''confirmed-at:'' @ to_str (ev_blockTime e) @ '';deadline-exclusive:'' @ to_str resultDeadlineAt
             @ '';signature:'' @ ev_signature e)\<rparr>)))))"

section \<open>What counts as evidence\<close>

lemma bounded_int_Inr [res_simps]:
  "bounded_int v limit k = Inr y \<longleftrightarrow> (\<exists>n. v = IntV n \<and> safe_num n \<and> 1 \<le> n \<and> n \<le> limit \<and> k n = Inr y)"
  by (auto simp: bounded_int_def safe_int_Some res_simps split: option.splits)

definition settlement_transaction :: "evidence_source \<Rightarrow> string \<Rightarrow> jsval \<Rightarrow> bool" where
  "settlement_transaction src rid tx \<longleftrightarrow> (\<exists>logs events event data.
     clean_logs tx = Some logs \<and> parseLogs src logs = Inr events \<and> event \<in> set events
     \<and> normalizeAnchorEventName (opt_member event ''name'') = Inr ''RoundSettled''
     \<and> normalizeAnchorEventData (opt_member event ''data'') = Inr data
     \<and> asRoundId (opt_member data ''roundId'') = rid)"

lemma some_res_True: "some_res f xs = Inr True \<Longrightarrow> \<exists>x \<in> set xs. f x = Inr True"
  by (induction xs) (auto simp: res_simps split: if_splits)

lemma settles_round_True:
  "settles_round rid event = Inr True \<Longrightarrow>
   normalizeAnchorEventName (opt_member event ''name'') = Inr ''RoundSettled'' \<and>
   (\<exists>data. normalizeAnchorEventData (opt_member event ''data'') = Inr data \<and> asRoundId (opt_member data ''roundId'') = rid)"
  by (auto simp: settles_round_def res_simps member_def split: if_splits)

lemma evidence_of_row_Some:
  assumes "evidence_of_row src rid row = Inr (Some ev)"
  shows "ev_roundId ev = rid \<and> opt_member row ''signature'' = Str (ev_signature ev) \<and> nullish (opt_member row ''err'')
    \<and> (\<exists>tx t. getTransaction src (ev_signature ev) = Inr tx \<and> settlement_transaction src rid tx
        \<and> opt_member tx ''blockTime'' = IntV t \<and> safe_num t \<and> ev_blockTime ev = IntV t)"
proof -
  from assms obtain sig tx logs events where
      sig: "opt_member row ''signature'' = Str sig" "nullish (opt_member row ''err'')" "getTransaction src sig = Inr tx"
    and logs: "clean_logs tx = Some logs" "parseLogs src logs = Inr events"
    and ex: "some_res (settles_round rid) events = Inr True"
    and bt: "safe_int (opt_member tx ''blockTime'') \<noteq> None"
    and ev: "ev = \<lparr>ev_roundId = rid, ev_signature = sig, ev_slot = opt_member tx ''slot'', ev_blockTime = opt_member tx ''blockTime''\<rparr>"
    by (auto simp: evidence_of_row_def res_simps split: jsval.splits if_splits sum.splits option.splits)
  from bt obtain t where t: "opt_member tx ''blockTime'' = IntV t" "safe_num t" by (auto simp: safe_int_Some)
  from some_res_True[OF ex] obtain event where e: "event \<in> set events" "settles_round rid event = Inr True" by blast
  have "settlement_transaction src rid tx"
    unfolding settlement_transaction_def using logs e(1) settles_round_True[OF e(2)] by blast
  then show ?thesis using sig t ev by auto
qed

lemma scan_rows_Some:
  "scan_rows src rid rows = Inr (Some ev) \<Longrightarrow> \<exists>row \<in> set rows. evidence_of_row src rid row = Inr (Some ev)"
  by (induction rows) (auto simp: res_simps split: option.splits)

lemma scan_pages_Some:
  "scan_pages src rid limit pages before = Inr (Some ev) \<Longrightarrow>
   \<exists>cursor rows row. getSignaturesForAddress src cursor = Inr (Arr rows) \<and> row \<in> set rows
     \<and> evidence_of_row src rid row = Inr (Some ev)"
proof (induction pages arbitrary: before)
  case 0
  then show ?case by simp
next
  case (Suc pages)
  from Suc.prems obtain response where "getSignaturesForAddress src before = Inr response"
    by (auto simp: res_simps)
  then obtain rows found where page: "getSignaturesForAddress src before = Inr (Arr rows)"
      "scan_rows src rid rows = Inr found"
    using Suc.prems by (cases response) (auto simp: res_simps)
  show ?case
  proof (cases found)
    case None
    then obtain cursor where "scan_pages src rid limit pages cursor = Inr (Some ev)"
      using Suc.prems page by (auto simp: res_simps Let_def split: if_splits)
    then show ?thesis by (rule Suc.IH)
  next
    case (Some e)
    then have "scan_rows src rid rows = Inr (Some ev)" using Suc.prems page by (simp add: res_simps)
    then show ?thesis using page(1) scan_rows_Some by blast
  qed
qed

text \<open>A settlement on the first page is found, whatever the other rows are, as long as none of them throws.\<close>

lemma scan_rows_finds:
  assumes "row \<in> set rows" "\<forall>r \<in> set rows. is_ok (evidence_of_row src rid r)" "evidence_of_row src rid row = Inr (Some ev)"
  shows "\<exists>ev'. scan_rows src rid rows = Inr (Some ev')"
  using assms
proof (induction rows)
  case Nil
  then show ?case by simp
next
  case (Cons r rows)
  then obtain found where f: "evidence_of_row src rid r = Inr found" by (auto simp: is_ok_iff)
  show ?case
  proof (cases found)
    case None
    then show ?thesis using Cons f by auto
  next
    case (Some e)
    then show ?thesis using f by simp
  qed
qed

section \<open>The deadline verdict\<close>

text \<open>
  The verdict of a restarted keeper fails closed and is exact: without evidence the deadline counts as
  missed; with evidence, the evidence is a row the cluster listed without an error, whose finalized
  transaction did not fail and logged a \<open>RoundSettled\<close> event of exactly this round, and the deadline
  counts as met exactly when that transaction's block time is before the exclusive deadline.
\<close>

theorem settlement_verdict_exact:
  assumes "findFinalizedRoundSettlementEvidence src roundAddress roundId maxPages pageSize = Inr found"
    and "classifyFinalizedRoundSettlementEvidence found roundId deadline = Inr v"
  shows "case found of
      None \<Rightarrow> \<not> deadlineMet v
    | Some ev \<Rightarrow> (\<exists>cursor rows row tx t d. getSignaturesForAddress src cursor = Inr (Arr rows) \<and> row \<in> set rows
        \<and> opt_member row ''signature'' = Str (ev_signature ev) \<and> nullish (opt_member row ''err'')
        \<and> getTransaction src (ev_signature ev) = Inr tx \<and> settlement_transaction src (asRoundId roundId) tx
        \<and> opt_member tx ''blockTime'' = IntV t \<and> deadline = IntV d \<and> (deadlineMet v \<longleftrightarrow> t < d))"
proof (cases found)
  case None
  then show ?thesis using assms(2) by (auto simp: classifyFinalizedRoundSettlementEvidence_def res_simps)
next
  case (Some ev)
  have "scan_pages src (asRoundId roundId) (nat n) (nat m) Undef = Inr found \<Longrightarrow> ?thesis" for n m
  proof -
    assume "scan_pages src (asRoundId roundId) (nat n) (nat m) Undef = Inr found"
    then obtain cursor rows row where page: "getSignaturesForAddress src cursor = Inr (Arr rows)" "row \<in> set rows"
        "evidence_of_row src (asRoundId roundId) row = Inr (Some ev)"
      using scan_pages_Some Some by blast
    from evidence_of_row_Some[OF page(3)] obtain tx t where
        tx: "opt_member row ''signature'' = Str (ev_signature ev)" "nullish (opt_member row ''err'')"
          "getTransaction src (ev_signature ev) = Inr tx" "settlement_transaction src (asRoundId roundId) tx"
          "opt_member tx ''blockTime'' = IntV t" "ev_blockTime ev = IntV t"
      by blast
    obtain d where "deadline = IntV d" "deadlineMet v \<longleftrightarrow> t < d"
      using assms(2) Some tx(6)
      by (auto simp: classifyFinalizedRoundSettlementEvidence_def settlementConfirmedWithinResultWindow_def res_simps)
    then show ?thesis using page(1,2) tx Some by auto
  qed
  then show ?thesis using assms(1) by (auto simp: findFinalizedRoundSettlementEvidence_def res_simps)
qed

definition demo_evidence_source :: evidence_source where
  "demo_evidence_source = \<lparr>getSignaturesForAddress = (\<lambda>_. Inr (Arr [Obj [(''signature'', Str ''sig-b''), (''err'', Null)]])),
     getTransaction = (\<lambda>sig. Inr (Obj [(''slot'', IntV 90), (''blockTime'', IntV 120),
       (''meta'', Obj [(''err'', Null), (''logMessages'', Arr [])])])),
     parseLogs = (\<lambda>logs. Inr [Obj [(''name'', Str ''roundSettled''), (''data'', Obj [(''round_id'', BN 7)])]])\<rparr>"

definition demo_evidence :: settlement_evidence where
  "demo_evidence = \<lparr>ev_roundId = ''7'', ev_signature = ''sig-b'', ev_slot = IntV 90, ev_blockTime = IntV 120\<rparr>"

theorem settlement_verdict_exact_witness:
  "\<exists>v. findFinalizedRoundSettlementEvidence demo_evidence_source (Key ''round'') (Big 7) (IntV 4) (IntV 1000) = Inr (Some demo_evidence)
     \<and> classifyFinalizedRoundSettlementEvidence (Some demo_evidence) (Big 7) (IntV 130) = Inr v
     \<and> (deadlineMet v \<longleftrightarrow> (120 :: int) < 130)"
proof -
  have f: "findFinalizedRoundSettlementEvidence demo_evidence_source (Key ''round'') (Big 7) (IntV 4) (IntV 1000)
      = Inr (Some demo_evidence)"
    by code_simp
  have "is_ok (classifyFinalizedRoundSettlementEvidence (Some demo_evidence) (Big 7) (IntV 130))" by code_simp
  then obtain v where v: "classifyFinalizedRoundSettlementEvidence (Some demo_evidence) (Big 7) (IntV 130) = Inr v"
    by (auto simp: is_ok_iff)
  from settlement_verdict_exact[OF f v] have "deadlineMet v \<longleftrightarrow> (120 :: int) < 130"
    by (auto simp: demo_evidence_source_def)
  then show ?thesis using f v by blast
qed

end
