(* ===== verification/Network_Policy.thy ===== *)
theory Network_Policy
  imports Js_Values
begin

text \<open>
  \<open>Protocol/scripts/production-network-policy.mjs\<close> (a production service runs only with the randomness program of
  the cluster it talks to) and \<open>demo-miner-bids.mjs\<close> (the bids of the controlled coverage miners). The en dash of
  one error message is written as a hyphen.
\<close>

definition SOLANA_MAINNET_GENESIS_HASH :: string where
  "SOLANA_MAINNET_GENESIS_HASH = ''5eykt4UsFv8P8NJdTREpY1vzqKqZKvdpKuc147dw2N9d''"

definition SOLANA_DEVNET_GENESIS_HASH :: string where
  "SOLANA_DEVNET_GENESIS_HASH = ''EtWTRABZaYq6iMfeYKouRu166VU2xqa1wcaWoxPkrZBG''"

definition SWITCHBOARD_MAINNET_PROGRAM :: string where
  "SWITCHBOARD_MAINNET_PROGRAM = ''SBondMDrcV3K4kxZR1HNVT7osZxAHVHgYXL5Ze1oMUv''"

definition SWITCHBOARD_DEVNET_PROGRAM :: string where
  "SWITCHBOARD_DEVNET_PROGRAM = ''Aio4gaXjXzJNVLtzwtNVmSqGKpANtXhybbkhtAC94ji2''"

definition requireMatchingSolanaNetwork :: "jsval \<Rightarrow> jsval \<Rightarrow> jsval \<Rightarrow> string res" where
  "requireMatchingSolanaNetwork genesisHash randomnessProgram serverRandomnessProgram =
     (let program = to_str randomnessProgram; server = with_default serverRandomnessProgram Null in
      if genesisHash = Str SOLANA_MAINNET_GENESIS_HASH then
        assert_ok (program = SWITCHBOARD_MAINNET_PROGRAM \<or> (server \<noteq> Null \<and> program = to_str server))
          ''Mainnet must use Switchboard Mainnet or the explicitly supplied server commit-reveal marker''
          (Inr ''mainnet-beta'')
      else if genesisHash = Str SOLANA_DEVNET_GENESIS_HASH then
        assert_ok (program = SWITCHBOARD_DEVNET_PROGRAM) ''Devnet must use the Switchboard On-Demand Devnet program''
          (Inr ''devnet'')
      else Inl (Error (''Production keeper refuses unsupported Solana genesis hash: '' @ to_str genesisHash)))"

section \<open>Demo bids\<close>

definition LAMPORTS_PER_MULTIPLIER :: int where "LAMPORTS_PER_MULTIPLIER = 1000000"
definition MIN_MULTIPLIER :: int where "MIN_MULTIPLIER = 10"
definition MULTIPLIER_SPAN :: int where "MULTIPLIER_SPAN = 11"

text \<open>\<open>a % b\<close> on BigInt has the sign of the dividend.\<close>

definition big_rem :: "int \<Rightarrow> int \<Rightarrow> int" where
  "big_rem a b = a - b * big_div a b"

definition demoCoverageBidLamports :: "jsval \<Rightarrow> jsnum res" where
  "demoCoverageBidLamports roundId = then_res (bigint_of_value roundId) (\<lambda>rid.
     let multiplier = MIN_MULTIPLIER + big_rem (rid * 7 + 3) MULTIPLIER_SPAN in
     Inr (to_num (Big (multiplier * LAMPORTS_PER_MULTIPLIER))))"

text \<open>The entries of the returned object, tile and bid.\<close>

definition demoCoverageBids :: "jsval \<Rightarrow> nat \<Rightarrow> jsval \<Rightarrow> (nat \<times> jsnum) list res" where
  "demoCoverageBids roundId minerIndex isDevnet = then_res (demoCoverageBidLamports roundId) (\<lambda>bid.
     let tileCount = (if truthy isDevnet then 5 else 25);
         firstTile = (if truthy isDevnet then minerIndex * tileCount else 0) in
     Inr (map (\<lambda>offset. ((firstTile + offset) mod 25, bid)) [0..<tileCount]))"

section \<open>What the policies guarantee\<close>

text \<open>A keeper on Mainnet never runs on the Devnet randomness program unless that was supplied as the server marker.\<close>

lemma mainnet_not_devnet_program:
  assumes "requireMatchingSolanaNetwork genesis program server = Inr ''mainnet-beta''"
  shows "genesis = Str SOLANA_MAINNET_GENESIS_HASH \<and>
    (to_str program = SWITCHBOARD_MAINNET_PROGRAM \<or> (\<not> nullish server \<and> to_str program = to_str server))"
proof -
  have "''mainnet-beta'' \<noteq> ''devnet''" by simp
  then show ?thesis using assms
    by (cases "genesis = Str SOLANA_MAINNET_GENESIS_HASH"; cases "genesis = Str SOLANA_DEVNET_GENESIS_HASH")
       (simp_all add: requireMatchingSolanaNetwork_def Let_def res_simps with_default_def nullish_def split: if_splits)
qed

text \<open>The shared bid of a round is between ten and twenty times the unit.\<close>

lemma demoCoverageBid_bounds:
  assumes "0 \<le> rid"
  shows "\<exists>m. demoCoverageBidLamports (Big rid) = Inr (Fin (of_int (m * 1000000))) \<and> 10 \<le> m \<and> m \<le> 20"
proof -
  let ?m = "10 + (rid * 7 + 3) mod 11"
  have m: "10 \<le> ?m" "?m \<le> 20" using pos_mod_bound[of 11 "rid * 7 + 3"] by simp_all
  have r: "big_rem (rid * 7 + 3) 11 = (rid * 7 + 3) mod 11"
    using assms by (simp add: big_rem_def minus_mult_div_eq_mod)
  have "safe_num (?m * 1000000)" using m by (simp add: safe_num_def MAX_SAFE_INTEGER_def)
  from num_of_int_small[OF this] have "demoCoverageBidLamports (Big rid) = Inr (Fin (of_int (?m * 1000000)))"
    by (simp add: demoCoverageBidLamports_def Let_def MIN_MULTIPLIER_def MULTIPLIER_SPAN_def LAMPORTS_PER_MULTIPLIER_def r
        del: of_int_mult of_int_add)
  then show ?thesis using m by blast
qed

end
