(* ===== verification/Round_Clock.thy ===== *)
theory Round_Clock
  imports Round_Schedule
begin

text \<open>
  \<open>Frontend/src/chain/round.js\<close> with the timing constants of \<open>config.js\<close>: the arithmetic round clock of the
  page and the choice of what it displays. The genesis time of \<open>config.js\<close> and the measured skew are module
  state and arguments here; \<open>Date.now()\<close> is an argument.
\<close>

section \<open>Definitions\<close>

definition ROUND_DURATION :: int where "ROUND_DURATION = 65"
definition BETTING_DURATION :: int where "BETTING_DURATION = 60"
definition RESOLUTION_COUNTDOWN_DURATION :: int where "RESOLUTION_COUNTDOWN_DURATION = 0"
definition WINNER_DISPLAY_DURATION :: int where "WINNER_DISPLAY_DURATION = 5"

lemmas durations = ROUND_DURATION_def BETTING_DURATION_def RESOLUTION_COUNTDOWN_DURATION_def WINNER_DISPLAY_DURATION_def

text \<open>\<open>BigInt(Math.floor(Date.now() / 1000 + chainSkew))\<close>\<close>

definition nowSeconds :: "jsnum \<Rightarrow> jsnum \<Rightarrow> int res" where
  "nowSeconds dateNow chainSkew =
     to_bigint (Num (num_floor (num_add (num_div dateNow (Fin 1000)) chainSkew)))"

definition roundIdAt :: "int \<Rightarrow> int \<Rightarrow> int" where
  "roundIdAt genesisTime time = (if time < genesisTime then 0 else big_div (time - genesisTime) ROUND_DURATION)"

definition roundStart :: "int \<Rightarrow> int \<Rightarrow> int" where
  "roundStart genesisTime roundId = genesisTime + roundId * ROUND_DURATION"

definition roundEnd :: "int \<Rightarrow> int \<Rightarrow> int" where
  "roundEnd genesisTime roundId = roundStart genesisTime roundId + ROUND_DURATION"

definition bettingEnd :: "int \<Rightarrow> int \<Rightarrow> int" where
  "bettingEnd genesisTime roundId = roundStart genesisTime roundId + BETTING_DURATION"

definition winnerReveal :: "int \<Rightarrow> int \<Rightarrow> int" where
  "winnerReveal genesisTime roundId = bettingEnd genesisTime roundId + RESOLUTION_COUNTDOWN_DURATION"

record round_state =
  rs_roundId :: int
  rs_phase :: string
  rs_betting :: bool
  secondsLeft :: jsnum
  secondsToRoundEnd :: jsnum
  rs_bettingEnd :: int
  rs_winnerReveal :: int
  rs_roundEnd :: int

definition roundState :: "int \<Rightarrow> int \<Rightarrow> round_state" where
  "roundState genesisTime time = (let
       roundId = roundIdAt genesisTime time;
       closes = bettingEnd genesisTime roundId;
       reveals = winnerReveal genesisTime roundId;
       ends = roundEnd genesisTime roundId;
       betting = (time < closes);
       phase = (if betting then ''betting'' else ''result'');
       phaseEnd = (if betting then closes else ends)
     in \<lparr>rs_roundId = roundId, rs_phase = phase, rs_betting = betting,
         secondsLeft = to_num (Big (phaseEnd - time)), secondsToRoundEnd = to_num (Big (ends - time)),
         rs_bettingEnd = closes, rs_winnerReveal = reveals, rs_roundEnd = ends\<rparr>)"

definition roundPhaseLabel :: "string \<Rightarrow> string" where
  "roundPhaseLabel phase = (if phase = ''result'' then ''RESULT'' else ''TIME LEFT'')"

text \<open>\<open>a % b\<close> on Numbers: exact, with the sign of the dividend.\<close>

fun num_rem :: "jsnum \<Rightarrow> jsnum \<Rightarrow> jsnum" where
  "num_rem (Fin x) (Fin y) = (if y = 0 then NaN
     else Fin (if 0 \<le> x then x - \<bar>y\<bar> * of_int \<lfloor>x / \<bar>y\<bar>\<rfloor> else x + \<bar>y\<bar> * of_int \<lfloor>(- x) / \<bar>y\<bar>\<rfloor>))"
| "num_rem (Fin x) PosInf = Fin x"
| "num_rem (Fin x) NegInf = Fin x"
| "num_rem _ _ = NaN"

definition formatClock :: "jsnum \<Rightarrow> string" where
  "formatClock seconds = (let safe = num_max (Fin 0) (num_floor seconds) in
     padStart 2 CHR ''0'' (num_to_string (num_floor (num_div safe (Fin 60)))) @ '':''
     @ padStart 2 CHR ''0'' (num_to_string (num_rem safe (Fin 60))))"

record countdown_view =
  cv_paused :: bool
  cv_phase :: string
  cv_betting :: bool
  showingResult :: bool
  cv_label :: string
  cv_value :: string

definition roundCountdownView :: "string \<Rightarrow> jsnum \<Rightarrow> jsval \<Rightarrow> countdown_view" where
  "roundCountdownView phase seconds protocolPaused =
     (if truthy protocolPaused then
        \<lparr>cv_paused = True, cv_phase = ''paused'', cv_betting = False, showingResult = False,
         cv_label = ''STATUS'', cv_value = ''PAUSED''\<rparr>
      else
        \<lparr>cv_paused = False, cv_phase = phase, cv_betting = (phase = ''betting''),
         showingResult = (phase = ''result''), cv_label = roundPhaseLabel phase, cv_value = formatClock seconds\<rparr>)"

text \<open>\<open>v > 0n\<close>\<close>

fun gt_zero :: "jsval \<Rightarrow> bool" where
  "gt_zero Undef = False"
| "gt_zero Null = False"
| "gt_zero (Bool b) = b"
| "gt_zero (Num x) = num_lt (Fin 0) x"
| "gt_zero (Big n) = (0 < n)"
| "gt_zero v = (case parse_bigint (to_str v) of None \<Rightarrow> False | Some n \<Rightarrow> 0 < n)"

definition displayedPausedRoundId :: "jsval \<Rightarrow> jsval \<Rightarrow> jsval \<Rightarrow> jsval \<Rightarrow> jsval" where
  "displayedPausedRoundId currentRound pausedRoundId lastResolved roundId =
     coalesce (coalesce (coalesce
       (if gt_zero (opt_member currentRound ''requestedAt'') then opt_member currentRound ''id'' else Null)
       pausedRoundId) (opt_member lastResolved ''roundId'')) (with_default roundId (Big 0))"

definition showWinningTile :: "string \<Rightarrow> bool" where
  "showWinningTile phase = (phase = ''result'')"

definition roundPresentation :: "string \<Rightarrow> bool \<times> bool" where
  "roundPresentation phase = (showWinningTile phase, False)"

definition displayedWinningRound :: "string \<Rightarrow> jsval \<Rightarrow> jsval \<Rightarrow> jsval \<Rightarrow> jsval \<Rightarrow> jsval res" where
  "displayedWinningRound phase protocolPaused roundId currentRound lastResolved =
     (if truthy protocolPaused then
        Inr (if truthy (opt_member currentRound ''resolved'') then currentRound
             else if truthy (opt_member lastResolved ''resolved'') then lastResolved else Null)
      else
        then_res
          (if truthy (opt_member currentRound ''resolved'') \<and> with_default roundId Null \<noteq> Null
              \<and> opt_member currentRound ''id'' \<noteq> Null \<and> opt_member currentRound ''id'' \<noteq> Undef
           then then_res (to_bigint (opt_member currentRound ''id'')) (\<lambda>a.
                then_res (to_bigint roundId) (\<lambda>b. Inr (a = b)))
           else Inr False)
          (\<lambda>isExactCurrentRound. Inr (if fst (roundPresentation phase) \<and> isExactCurrentRound then currentRound else Null)))"

section \<open>The clock partitions time\<close>

lemma phases_add_up: "BETTING_DURATION + RESOLUTION_COUNTDOWN_DURATION + WINNER_DISPLAY_DURATION = ROUND_DURATION"
  by (simp add: durations)

lemma roundStart_scheduled: "roundStart g r = scheduled_start g 65 r"
  by (simp add: roundStart_def scheduled_start_def durations)

lemma roundIdAt_div: "g \<le> t \<Longrightarrow> roundIdAt g t = (t - g) div 65"
  by (simp add: roundIdAt_def durations)

lemma roundIdAt_brackets: "g \<le> t \<Longrightarrow> roundStart g (roundIdAt g t) \<le> t \<and> t < roundEnd g (roundIdAt g t)"
  using div_mult_mod_eq[of "t - g" 65] pos_mod_bound[of 65 "t - g"] pos_mod_sign[of 65 "t - g"]
  by (simp add: roundIdAt_div roundStart_def roundEnd_def durations) linarith

lemma roundIdAt_unique:
  assumes "g \<le> t" "roundStart g r \<le> t" "t < roundEnd g r"
  shows "r = roundIdAt g t"
proof -
  have "r * 65 \<le> t - g" "t - g < (r + 1) * 65"
    using assms(2,3) by (simp_all add: roundStart_def roundEnd_def durations)
  then have "(t - g) div 65 = r"
    by (intro int_div_pos_eq[of _ _ _ "t - g - r * 65"]) auto
  then show ?thesis unfolding roundIdAt_div[OF assms(1)] by simp
qed

lemma to_num_small: "\<bar>n\<bar> \<le> 65 \<Longrightarrow> to_num (Big n) = Fin (of_int n)"
  using num_of_int_small[of n] by (simp add: safe_num_def MAX_SAFE_INTEGER_def)

text \<open>
  The page's clock partitions time. From genesis on, at every second exactly one round is running, and it is
  the one shown; it is in its betting phase exactly before the betting boundary and in its result
  phase exactly from there to the round's end, the phase shown never has zero or negative time left,
  and the seconds shown are exact: at most 60 while betting and at most 5 while showing the result.
\<close>

theorem roundState_partition:
  assumes "genesis \<le> time"
  shows "(\<forall>r. r = rs_roundId (roundState genesis time) \<longleftrightarrow> roundStart genesis r \<le> time \<and> time < roundEnd genesis r)
    \<and> rs_phase (roundState genesis time) =
        (if time < bettingEnd genesis (rs_roundId (roundState genesis time)) then ''betting'' else ''result'')
    \<and> (\<exists>n. secondsLeft (roundState genesis time) = Fin (of_int n) \<and> 0 < n
        \<and> (if rs_betting (roundState genesis time)
           then n = bettingEnd genesis (rs_roundId (roundState genesis time)) - time \<and> n \<le> BETTING_DURATION
           else n = roundEnd genesis (rs_roundId (roundState genesis time)) - time \<and> n \<le> WINNER_DISPLAY_DURATION))"
proof -
  let ?r = "roundIdAt genesis time"
  have rid: "rs_roundId (roundState genesis time) = ?r" by (simp add: roundState_def Let_def)
  have br: "roundStart genesis ?r \<le> time" "time < roundEnd genesis ?r" using roundIdAt_brackets[OF assms] by simp_all
  have "\<exists>n. secondsLeft (roundState genesis time) = Fin (of_int n) \<and> 0 < n
      \<and> (if rs_betting (roundState genesis time) then n = bettingEnd genesis ?r - time \<and> n \<le> BETTING_DURATION
         else n = roundEnd genesis ?r - time \<and> n \<le> WINNER_DISPLAY_DURATION)"
  proof (cases "time < bettingEnd genesis ?r")
    case True
    then have "\<bar>bettingEnd genesis ?r - time\<bar> \<le> 65" using br by (simp add: bettingEnd_def durations)
    from to_num_small[OF this] True show ?thesis
      using br(1) by (intro exI[of _ "bettingEnd genesis ?r - time"]) (simp add: roundState_def Let_def bettingEnd_def durations)
  next
    case False
    then have "\<bar>roundEnd genesis ?r - time\<bar> \<le> 65" using br by (simp add: roundEnd_def durations)
    from to_num_small[OF this] False show ?thesis
      using br(2) by (intro exI[of _ "roundEnd genesis ?r - time"])
        (simp add: roundState_def Let_def roundEnd_def bettingEnd_def durations)
  qed
  moreover have "r = ?r \<longleftrightarrow> roundStart genesis r \<le> time \<and> time < roundEnd genesis r" for r
    using br roundIdAt_unique[OF assms] by blast
  moreover have "rs_phase (roundState genesis time) = (if time < bettingEnd genesis ?r then ''betting'' else ''result'')"
    by (simp add: roundState_def Let_def)
  ultimately show ?thesis unfolding rid by blast
qed

theorem roundState_partition_witness:
  "rs_roundId (roundState 1000 1130) = 2 \<and> rs_phase (roundState 1000 1130) = ''betting''
   \<and> (\<exists>n. secondsLeft (roundState 1000 1130) = Fin (of_int n) \<and> 0 < n)"
proof -
  have "rs_roundId (roundState 1000 1130) = 2" "rs_phase (roundState 1000 1130) = ''betting''"
    by (simp_all add: roundState_def Let_def roundIdAt_def bettingEnd_def roundStart_def durations)
  then show ?thesis using roundState_partition[of 1000 1130] by auto
qed

text \<open>The page and the keepers use one schedule: the round shown is one the keepers are serving.\<close>

lemma shown_round_is_prepared:
  assumes "exact_times now genesis 65" "0 < lead" "lead < 65" "0 \<le> margin" "margin < lead"
  shows "\<exists>ids. roundIdsToPrepare (IntV now) (IntV genesis) (IntV ROUND_DURATION) (IntV lead) (IntV margin) = Inr ids
     \<and> hd ids = rs_roundId (roundState genesis now)"
  using roundIdsToPrepare_value[OF assms] assms(1)
  by (simp add: ROUND_DURATION_def exact_times_def roundState_def Let_def roundIdAt_div)

text \<open>While bids are accepted no winner is painted on the grid; in the result phase only the running round's own.\<close>

lemma displayedWinningRound_live:
  assumes "displayedWinningRound phase protocolPaused roundId currentRound lastResolved = Inr shown"
    and "\<not> truthy protocolPaused" "shown \<noteq> Null"
  shows "phase = ''result'' \<and> shown = currentRound \<and> truthy (opt_member currentRound ''resolved'')
    \<and> (\<exists>n. to_bigint (opt_member currentRound ''id'') = Inr n \<and> to_bigint roundId = Inr n)"
  using assms
  by (auto simp: displayedWinningRound_def roundPresentation_def showWinningTile_def res_simps split: if_splits)

end
