(* ===== verification/Round_Rewards.thy ===== *)
theory Round_Rewards
  imports Js_Values
begin

text \<open>
  \<open>Frontend/src/chain/round-rewards.js\<close> and \<open>mining-shares.js\<close>: the client's exact mirror of how the program
  pays a settled round and values unclaimed MYNE shares.
\<close>

section \<open>Rewards of a round\<close>

definition settledSolReward :: "jsval \<Rightarrow> jsval \<Rightarrow> jsval \<Rightarrow> int res" where
  "settledSolReward prizeLamports winningStake winningTotal =
     then_res (to_bigint prizeLamports) (\<lambda>prize.
     then_res (to_bigint winningStake) (\<lambda>stake.
     then_res (to_bigint winningTotal) (\<lambda>total.
     Inr (if 0 < stake \<and> 0 < total then big_div (prize * stake) total else 0))))"

definition winningTileShareBps :: "jsval \<Rightarrow> jsval \<Rightarrow> int res" where
  "winningTileShareBps winningStake winningTotal =
     then_res (to_bigint winningStake) (\<lambda>stake.
     then_res (to_bigint winningTotal) (\<lambda>total.
     Inr (if 0 < stake \<and> 0 < total then big_div (stake * 10000) total else 0)))"

definition intervalReward :: "jsval \<Rightarrow> jsval \<Rightarrow> jsval \<Rightarrow> jsval \<Rightarrow> int res" where
  "intervalReward poolAmount cumulativeStart amount denominator =
     then_res (to_bigint poolAmount) (\<lambda>pool.
     then_res (to_bigint cumulativeStart) (\<lambda>start.
     then_res (to_bigint amount) (\<lambda>extent.
     then_res (to_bigint denominator) (\<lambda>total.
     Inr (if pool \<le> 0 \<or> extent \<le> 0 \<or> total \<le> 0 \<or> start < 0 \<or> total < start + extent then 0
          else big_div (pool * (start + extent)) total - big_div (pool * start) total)))))"

definition sharedRoundReward :: "jsval \<Rightarrow> jsval \<Rightarrow> jsval \<Rightarrow> int res" where
  "sharedRoundReward poolAmount minerDeployment roundDeployment =
     then_res (to_bigint poolAmount) (\<lambda>pool.
     then_res (to_bigint minerDeployment) (\<lambda>mine.
     then_res (to_bigint roundDeployment) (\<lambda>total.
     Inr (if 0 < pool \<and> 0 < mine \<and> 0 < total then big_div (pool * mine) total else 0))))"

definition displayedMotherlodeSol :: "jsval \<Rightarrow> jsval \<Rightarrow> jsval \<Rightarrow> int res" where
  "displayedMotherlodeSol storedLamports currentGrossLamports currentRoundSettled =
     then_res (to_bigint storedLamports) (\<lambda>stored.
     then_res (to_bigint currentGrossLamports) (\<lambda>gross.
     Inr (stored + (if truthy currentRoundSettled then 0 else big_div (gross * 200) 10000))))"

text \<open>\<open>None\<close> is the source's \<open>null\<close>: the value is not known.\<close>

definition motherlodeSolEquivalent :: "jsval \<Rightarrow> jsval \<Rightarrow> jsval \<Rightarrow> jsnum option" where
  "motherlodeSolEquivalent solAmount myneAmount mynePerSol =
     (let sol = to_num solAmount; myne = to_num myneAmount; quote = to_num mynePerSol in
      if \<not> is_finite sol \<or> num_lt sol (Fin 0) \<or> \<not> is_finite myne \<or> num_lt myne (Fin 0) then None
      else if myne = Fin 0 then Some sol
      else if \<not> is_finite quote \<or> num_le quote (Fin 0) then None
      else Some (num_add sol (num_div myne quote)))"

section \<open>Unclaimed MYNE shares\<close>

text \<open>\<open>BigInt(value?.toString?.() ?? value ?? 0)\<close>\<close>

definition toBigInt :: "jsval \<Rightarrow> int res" where
  "toBigInt v = (if nullish v then Inr 0 else bigint_of_string (to_str v))"

definition miningShareValue :: "jsval \<Rightarrow> jsval \<Rightarrow> jsval \<Rightarrow> int res" where
  "miningShareValue totalAssets totalShares minerShares =
     then_res (toBigInt totalAssets) (\<lambda>assets.
     then_res (toBigInt totalShares) (\<lambda>shares.
     then_res (toBigInt minerShares) (\<lambda>owned.
     Inr (if owned = 0 then 0
          else if assets \<le> 0 \<or> shares \<le> 0 \<or> shares < owned then 0
          else big_div (assets * owned) shares))))"

definition effectiveUnclaimedMyne :: "jsval \<Rightarrow> jsval \<Rightarrow> int res" where
  "effectiveUnclaimedMyne miner miningPool =
     (if \<not> truthy miner \<or> \<not> truthy miningPool then Inr 0
      else miningShareValue (opt_member miningPool ''totalUnclaimed'')
        (opt_member miningPool ''rewardPerUnclaimed'') (opt_member miner ''passiveRewardDebt''))"

record breakdown =
  bd_total :: int
  bd_mined :: int
  bd_passive :: int

definition miningRewardBreakdown :: "jsval \<Rightarrow> jsval \<Rightarrow> breakdown res" where
  "miningRewardBreakdown miner miningPool =
     then_res (effectiveUnclaimedMyne miner miningPool) (\<lambda>total.
     if total = 0 then Inr \<lparr>bd_total = 0, bd_mined = 0, bd_passive = 0\<rparr>
     else then_res (toBigInt (opt_member miner ''unclaimedMyne'')) (\<lambda>cachedBasis.
       let mined = (if cachedBasis < 0 then 0 else if total < cachedBasis then total else cachedBasis) in
       Inr \<lparr>bd_total = total, bd_mined = mined, bd_passive = total - mined\<rparr>))"

section \<open>Cumulative intervals lose nothing\<close>

text \<open>The rewards of consecutive intervals, from \<open>start\<close> on.\<close>

fun interval_rewards :: "int \<Rightarrow> int \<Rightarrow> int \<Rightarrow> int list \<Rightarrow> int list res" where
  "interval_rewards pool whole start [] = Inr []"
| "interval_rewards pool whole start (a # as) =
     then_res (intervalReward (Big pool) (Big start) (Big a) (Big whole)) (\<lambda>r.
     then_res (interval_rewards pool whole (start + a) as) (\<lambda>rs. Inr (r # rs)))"

lemma intervalReward_floor:
  assumes "0 \<le> pool" "0 < whole" "0 \<le> start" "0 \<le> a" "start + a \<le> whole"
  shows "intervalReward (Big pool) (Big start) (Big a) (Big whole)
    = Inr (pool * (start + a) div whole - pool * start div whole)"
  using assms by (cases "pool = 0 \<or> a = 0") (auto simp: intervalReward_def)

lemma floor_diff_close:
  assumes "0 < (whole :: int)"
  shows "\<bar>((x + y) div whole - x div whole) * whole - y\<bar> < whole"
proof -
  have "(x + y) div whole * whole = x + y - (x + y) mod whole" "x div whole * whole = x - x mod whole"
    by (simp_all add: minus_mod_eq_div_mult)
  moreover have "0 \<le> (x + y) mod whole" "(x + y) mod whole < whole" "0 \<le> x mod whole" "x mod whole < whole"
    using assms by simp_all
  ultimately show ?thesis unfolding left_diff_distrib abs_less_iff by linarith
qed

lemma interval_rewards_telescope:
  assumes "0 \<le> pool" "0 < whole" "0 \<le> start" "\<forall>a \<in> set as. 0 \<le> a" "start + sum_list as \<le> whole"
  shows "\<exists>rs. interval_rewards pool whole start as = Inr rs
    \<and> sum_list rs = pool * (start + sum_list as) div whole - pool * start div whole
    \<and> list_all2 (\<lambda>a r. 0 \<le> r \<and> \<bar>r * whole - pool * a\<bar> < whole) as rs"
  using assms(3-5)
proof (induction as arbitrary: start)
  case Nil
  then show ?case by simp
next
  case (Cons a as)
  have nn: "0 \<le> a" "0 \<le> sum_list as" using Cons.prems(2) sum_list_nonneg_int[of as] by auto
  have one: "intervalReward (Big pool) (Big start) (Big a) (Big whole)
      = Inr (pool * (start + a) div whole - pool * start div whole)"
    using Cons.prems nn by (intro intervalReward_floor assms(1,2)) auto
  have mono: "pool * start div whole \<le> pool * (start + a) div whole"
    using assms(1,2) nn by (intro zdiv_mono1 mult_left_mono) auto
  obtain rs where rs: "interval_rewards pool whole (start + a) as = Inr rs"
      "sum_list rs = pool * (start + a + sum_list as) div whole - pool * (start + a) div whole"
      "list_all2 (\<lambda>a r. 0 \<le> r \<and> \<bar>r * whole - pool * a\<bar> < whole) as rs"
    using Cons.IH[of "start + a"] Cons.prems nn by auto
  have "\<bar>(pool * (start + a) div whole - pool * start div whole) * whole - pool * a\<bar> < whole"
    using floor_diff_close[OF assms(2), of "pool * start" "pool * a"] by (simp add: distrib_left)
  then show ?case using one rs mono by (simp add: add.assoc)
qed

text \<open>
  C20. The cumulative-interval allocation conserves the pool: when the winners' stakes laid end to end fill the
  whole interval, the rewards sum to the pool exactly, with no remainder lost or created; every reward
  is non-negative and within one base unit of its exact proportional share.
\<close>

theorem intervalReward_conserves_pool:
  assumes "0 \<le> pool" "\<forall>a \<in> set stakes. 0 \<le> a" "0 < sum_list stakes"
  shows "\<exists>rewards. interval_rewards pool (sum_list stakes) 0 stakes = Inr rewards \<and> sum_list rewards = pool
    \<and> list_all2 (\<lambda>a r. 0 \<le> r \<and> \<bar>r * sum_list stakes - pool * a\<bar> < sum_list stakes) stakes rewards"
  using interval_rewards_telescope[OF assms(1,3), of 0 stakes] assms(2,3) by simp

theorem intervalReward_conserves_pool_witness:
  "interval_rewards 100 3 0 [1, 1, 1] = Inr [33, 33, 34]
   \<and> (\<exists>rewards. interval_rewards 100 (sum_list [1, 1, 1]) 0 [1, 1, 1] = Inr rewards \<and> sum_list rewards = 100)"
proof -
  have "interval_rewards 100 3 0 [1, 1, 1] = Inr [33, 33, 34]"
    by (simp add: intervalReward_def)
  then show ?thesis using intervalReward_conserves_pool[of 100 "[1, 1, 1]"] by auto
qed

section \<open>Proportional rewards never overpay\<close>

lemma settledSolReward_floor:
  "0 \<le> prize \<Longrightarrow> 0 \<le> stake \<Longrightarrow> 0 < whole \<Longrightarrow> settledSolReward (Big prize) (Big stake) (Big whole) = Inr (prize * stake div whole)"
  by (cases "stake = 0") (simp_all add: settledSolReward_def)

lemma settledSolReward_total:
  assumes "0 \<le> prize" "\<forall>s \<in> set stakes. 0 \<le> s" "0 < sum_list stakes"
  shows "\<exists>rs. map_res (\<lambda>s. settledSolReward (Big prize) (Big s) (Big (sum_list stakes))) stakes = Inr rs \<and> sum_list rs \<le> prize"
proof -
  let ?t = "sum_list stakes"
  have "map_res (\<lambda>s. settledSolReward (Big prize) (Big s) (Big ?t)) xs = Inr (map (\<lambda>s. prize * s div ?t) xs)"
    if "\<forall>s \<in> set xs. 0 \<le> s" for xs
    using that assms(1,3) by (induction xs) (simp_all add: settledSolReward_floor)
  moreover have "sum_list (map (\<lambda>s. prize * s div ?t) xs) * ?t \<le> prize * sum_list xs" for xs
  proof (induction xs)
    case Nil
    show ?case by simp
  next
    case (Cons x xs)
    have "prize * x div ?t * ?t \<le> prize * x"
      using assms(3) pos_mod_sign[of ?t "prize * x"] by (simp add: minus_mod_eq_div_mult[symmetric])
    then show ?case using Cons by (simp add: distrib_left distrib_right)
  qed
  from this[of stakes] have "sum_list (map (\<lambda>s. prize * s div ?t) stakes) \<le> prize"
    using assms(3) by (metis mult_le_cancel_right_pos)
  ultimately show ?thesis using assms(2) by blast
qed

text \<open>The two parts of a share value add up to it.\<close>

lemma miningRewardBreakdown_adds_up:
  "miningRewardBreakdown miner pool = Inr b \<Longrightarrow> bd_mined b + bd_passive b = bd_total b"
  by (auto simp: miningRewardBreakdown_def res_simps Let_def split: if_splits)

end
