(* ===== verification/Miner_Roster.thy ===== *)
theory Miner_Roster
  imports Round_Archive Round_Rewards
begin

text \<open>
  \<open>Frontend/src/chain/miner-aggregation.js\<close> and \<open>previous-miners.js\<close>: the roster of a round's miners reduced
  from receipt accounts, and when it may replace the one on the page. \<open>localeCompare\<close> is a parameter, as in
  the archive.
\<close>

section \<open>Aggregation\<close>

definition GRID :: nat where "GRID = 25"

record miner =
  mn_address :: string
  tileBets :: "int list"
  deployed :: int
  receiptCount :: int
  mn_claimed :: bool
  autoRound :: bool
  autoBurn :: bool
  autoMode :: string

definition new_miner :: "string \<Rightarrow> miner" where
  "new_miner address = \<lparr>mn_address = address, tileBets = replicate GRID 0, deployed = 0, receiptCount = 0,
     mn_claimed = True, autoRound = False, autoBurn = False, autoMode = ''accumulate''\<rparr>"

text \<open>What a receipt row contributes; \<open>None\<close> for a refunded one.\<close>

record contribution =
  ct_address :: string
  ct_amounts :: "int list"
  ct_total :: int
  ct_claimed :: bool
  ct_burn :: bool

text \<open>\<open>amounts.forEach(...)\<close>: adding to a tile beyond the grid is a TypeError.\<close>

fun tile_amounts :: "nat \<Rightarrow> jsval list \<Rightarrow> int list res" where
  "tile_amounts i [] = Inr []"
| "tile_amounts i (v # vs) = then_res (toBigInt v) (\<lambda>n.
     throw_if (GRID \<le> i) (TypeError ''Cannot mix BigInt and other types'') (
     then_res (tile_amounts (Suc i) vs) (\<lambda>ns. Inr (n # ns))))"

definition reward_mode_burns :: "jsval \<Rightarrow> bool" where
  "reward_mode_burns v = ((if nullish v then Fin 0 else parse_number (to_str v)) = Fin 1)"

definition contribution_of :: "jsval \<Rightarrow> contribution option res" where
  "contribution_of row =
     then_res (member row ''account'') (\<lambda>account.
     then_res (member account ''refunded'') (\<lambda>refunded.
     if truthy refunded then Inr None
     else (case opt_member account ''authority'' of
         Key address \<Rightarrow> (case opt_member account ''amounts'' of
             Arr vs \<Rightarrow>
               then_res (tile_amounts 0 vs) (\<lambda>amounts.
               then_res (toBigInt (opt_member account ''totalLamports'')) (\<lambda>sum.
               Inr (Some \<lparr>ct_address = address, ct_amounts = amounts, ct_total = sum,
                 ct_claimed = truthy (opt_member account ''claimed''),
                 ct_burn = reward_mode_burns (opt_member account ''rewardMode'')\<rparr>)))
           | _ \<Rightarrow> Inl (TypeError ''account.amounts.forEach is not a function''))
       | _ \<Rightarrow> Inl (TypeError ''account.authority.toBase58 is not a function''))))"

fun add_tiles :: "int list \<Rightarrow> int list \<Rightarrow> int list" where
  "add_tiles (t # ts) (a # as) = (t + a) # add_tiles ts as"
| "add_tiles ts _ = ts"

definition add_contribution :: "contribution \<Rightarrow> miner \<Rightarrow> miner" where
  "add_contribution c m = (let m' = m\<lparr>tileBets := add_tiles (tileBets m) (ct_amounts c),
       deployed := deployed m + ct_total c, receiptCount := receiptCount m + 1,
       mn_claimed := (mn_claimed m \<and> ct_claimed c)\<rparr>
     in if ct_burn c then m'\<lparr>autoRound := True, autoBurn := True, autoMode := ''burn''\<rparr> else m')"

text \<open>The map from address to miner, in insertion order.\<close>

fun update_miner :: "contribution \<Rightarrow> miner list \<Rightarrow> miner list" where
  "update_miner c [] = [add_contribution c (new_miner (ct_address c))]"
| "update_miner c (m # ms) = (if mn_address m = ct_address c then add_contribution c m # ms
     else m # update_miner c ms)"

definition group_row :: "jsval \<Rightarrow> miner list \<Rightarrow> miner list res" where
  "group_row row grouped = then_res (contribution_of row) (\<lambda>c.
     Inr (case c of None \<Rightarrow> grouped | Some x \<Rightarrow> update_miner x grouped))"

definition miner_order :: "(string \<Rightarrow> string \<Rightarrow> int) \<Rightarrow> miner \<Rightarrow> miner \<Rightarrow> int res" where
  "miner_order localeCompare a b = Inr (if deployed a = deployed b then localeCompare (mn_address a) (mn_address b)
     else if deployed b < deployed a then - 1 else 1)"

text \<open>\<open>tiles\<close>: the number of tiles a miner bet on, shown beside the miner.\<close>

definition tiles :: "miner \<Rightarrow> nat" where
  "tiles m = length (filter (\<lambda>amount. 0 < amount) (tileBets m))"

definition aggregateMiners :: "(string \<Rightarrow> string \<Rightarrow> int) \<Rightarrow> jsval list \<Rightarrow> (miner \<times> nat) list res" where
  "aggregateMiners localeCompare receiptRows =
     then_res (fold_res group_row receiptRows []) (\<lambda>grouped.
     then_res (sort_by (miner_order localeCompare) grouped) (\<lambda>sorted.
     Inr (map (\<lambda>m. (m, tiles m)) sorted)))"

section \<open>The previous round\<close>

definition confirmedMinerRoundKey :: "jsval \<Rightarrow> string option" where
  "confirmedMinerRoundKey lastResolved =
     (if \<not> truthy (opt_member lastResolved ''resolved'') \<or> nullish (opt_member lastResolved ''roundId'') then None
      else Some (to_str (opt_member lastResolved ''roundId'')))"

definition confirmedMinerSource :: "jsval \<Rightarrow> jsval \<Rightarrow> jsval" where
  "confirmedMinerSource lastResolved lastPlayedResolved =
     (if truthy (opt_member lastPlayedResolved ''resolved'')
         \<and> (case to_bigint (coalesce (opt_member lastPlayedResolved ''totalWager'') (IntV 0)) of
              Inl _ \<Rightarrow> False | Inr n \<Rightarrow> 0 < n)
      then lastPlayedResolved else lastResolved)"

definition previousConfirmedRoundId :: "jsval \<Rightarrow> int option res" where
  "previousConfirmedRoundId currentRoundId = then_res (to_bigint currentRoundId) (\<lambda>rid.
     Inr (if 0 < rid then Some (rid - 1) else None))"

definition shouldRefreshConfirmedMiners :: "jsval \<Rightarrow> string \<Rightarrow> string \<Rightarrow> bool \<Rightarrow> bool" where
  "shouldRefreshConfirmedMiners lastResolved renderedKey requestKey renderedComplete =
     (case confirmedMinerRoundKey lastResolved of
        None \<Rightarrow> False
      | Some k \<Rightarrow>
          if k = requestKey then False
          else if k = renderedKey then \<not> renderedComplete
          else if renderedKey \<noteq> [] then
            or_else (then_res (bigint_of_string k) (\<lambda>a. then_res (bigint_of_string renderedKey) (\<lambda>b. Inr (b < a)))) False
          else True)"

definition isConfirmedEmptyRound :: "jsval \<Rightarrow> bool" where
  "isConfirmedEmptyRound lastResolved =
     (if \<not> truthy (opt_member lastResolved ''resolved'') \<or> nullish (opt_member lastResolved ''totalReceipts'') then False
      else or_else (then_res (to_bigint (opt_member lastResolved ''totalReceipts'')) (\<lambda>n. Inr (n = 0))) False)"

definition previousRoundMinerRoster :: "jsval \<Rightarrow> jsval list" where
  "previousRoundMinerRoster roundResult = (case opt_member roundResult ''miners'' of Arr ms \<Rightarrow> ms | _ \<Rightarrow> [])"

section \<open>The roster as a function of the receipts\<close>

text \<open>
  The abstract roster: what an address deployed, on how many receipts, per tile, whether all its receipts are
  claimed and whether one commits to burning.
\<close>

type_synonym account_view = "int \<times> int \<times> int list \<times> bool \<times> bool"

definition tile_of :: "nat \<Rightarrow> contribution \<Rightarrow> int" where
  "tile_of i c = (if i < length (ct_amounts c) then ct_amounts c ! i else 0)"

definition roster_spec :: "contribution list \<Rightarrow> string \<Rightarrow> account_view" where
  "roster_spec cs a = (let mine = filter (\<lambda>c. ct_address c = a) cs in
     (sum_list (map ct_total mine), int (length mine), map (\<lambda>i. sum_list (map (tile_of i) mine)) [0..<GRID],
      list_all ct_claimed mine, list_ex ct_burn mine))"

definition miner_view :: "miner \<Rightarrow> account_view" where
  "miner_view m = (deployed m, receiptCount m, tileBets m, mn_claimed m, autoBurn m)"

definition roster_inv :: "contribution list \<Rightarrow> miner list \<Rightarrow> bool" where
  "roster_inv cs g \<longleftrightarrow> distinct (map mn_address g) \<and> mn_address ` set g = ct_address ` set cs
     \<and> (\<forall>m \<in> set g. miner_view m = roster_spec cs (mn_address m))"

lemma add_tiles_length [simp]: "length (add_tiles ts as) = length ts"
  by (induction ts as rule: add_tiles.induct) simp_all

lemma add_tiles_nth: "i < length ts \<Longrightarrow> add_tiles ts as ! i = ts ! i + (if i < length as then as ! i else 0)"
proof (induction ts as arbitrary: i rule: add_tiles.induct)
  case (1 t ts a as)
  then show ?case by (cases i) simp_all
qed simp_all

lemma add_tiles_eq:
  "add_tiles ts as = map (\<lambda>i. ts ! i + (if i < length as then as ! i else 0)) [0..<length ts]"
  by (rule nth_equalityI) (simp_all add: add_tiles_nth)

lemma add_contribution_address [simp]: "mn_address (add_contribution c m) = mn_address m"
  by (simp add: add_contribution_def Let_def)

text \<open>One more receipt of the same address, and of another one.\<close>

lemma roster_spec_other: "ct_address c \<noteq> a \<Longrightarrow> roster_spec (cs @ [c]) a = roster_spec cs a"
  by (simp add: roster_spec_def)

lemma add_contribution_view:
  assumes "miner_view m = roster_spec cs (ct_address c)"
  shows "miner_view (add_contribution c m) = roster_spec (cs @ [c]) (ct_address c)"
proof -
  let ?mine = "filter (\<lambda>d. ct_address d = ct_address c) cs"
  have m: "deployed m = sum_list (map ct_total ?mine)" "receiptCount m = int (length ?mine)"
      "tileBets m = map (\<lambda>i. sum_list (map (tile_of i) ?mine)) [0..<GRID]"
      "mn_claimed m = list_all ct_claimed ?mine" "autoBurn m = list_ex ct_burn ?mine"
    using assms by (simp_all add: miner_view_def roster_spec_def Let_def)
  have tiles: "add_tiles (tileBets m) (ct_amounts c) = map (\<lambda>i. sum_list (map (tile_of i) ?mine) + tile_of i c) [0..<GRID]"
    unfolding add_tiles_eq by (simp add: m(3) tile_of_def)
  show ?thesis
    using m(1,2,4,5) tiles by (cases "ct_burn c") (simp_all add: miner_view_def roster_spec_def add_contribution_def Let_def)
qed

lemma new_miner_view: "a \<notin> ct_address ` set cs \<Longrightarrow> miner_view (new_miner a) = roster_spec cs a"
proof -
  assume "a \<notin> ct_address ` set cs"
  then have "filter (\<lambda>c. ct_address c = a) cs = []" by (auto simp: filter_empty_conv)
  then show ?thesis by (simp add: miner_view_def new_miner_def roster_spec_def map_replicate_const)
qed

lemma update_miner_addresses:
  "map mn_address (update_miner c g) =
     (if ct_address c \<in> mn_address ` set g then map mn_address g else map mn_address g @ [ct_address c])"
  by (induction g) (auto simp: new_miner_def)

lemma update_miner_elem:
  "m \<in> set (update_miner c g) \<Longrightarrow> distinct (map mn_address g) \<Longrightarrow>
   (m \<in> set g \<and> mn_address m \<noteq> ct_address c)
   \<or> (\<exists>m0 \<in> set g. mn_address m0 = ct_address c \<and> m = add_contribution c m0)
   \<or> (ct_address c \<notin> mn_address ` set g \<and> m = add_contribution c (new_miner (ct_address c)))"
proof (induction g)
  case Nil
  then show ?case by simp
next
  case (Cons x g)
  then show ?case by (cases "mn_address x = ct_address c") (auto simp: image_iff)
qed

lemma roster_inv_update:
  assumes inv: "roster_inv cs g"
  shows "roster_inv (cs @ [c]) (update_miner c g)"
proof -
  have d: "distinct (map mn_address g)" and addrs: "mn_address ` set g = ct_address ` set cs"
    and views: "\<And>m. m \<in> set g \<Longrightarrow> miner_view m = roster_spec cs (mn_address m)"
    using inv by (auto simp: roster_inv_def)
  have "miner_view m = roster_spec (cs @ [c]) (mn_address m)" if "m \<in> set (update_miner c g)" for m
    using update_miner_elem[OF that d]
  proof (elim disjE)
    assume "m \<in> set g \<and> mn_address m \<noteq> ct_address c"
    then show ?thesis using views roster_spec_other[of c "mn_address m" cs] by auto
  next
    assume "\<exists>m0 \<in> set g. mn_address m0 = ct_address c \<and> m = add_contribution c m0"
    then show ?thesis using views add_contribution_view by force
  next
    assume new: "ct_address c \<notin> mn_address ` set g \<and> m = add_contribution c (new_miner (ct_address c))"
    then have "miner_view (new_miner (ct_address c)) = roster_spec cs (ct_address c)"
      using addrs by (intro new_miner_view) simp
    then show ?thesis using new add_contribution_view by (simp add: new_miner_def)
  qed
  moreover have "set (map mn_address (update_miner c g)) = insert (ct_address c) (mn_address ` set g)"
    "distinct (map mn_address (update_miner c g))"
    using d unfolding update_miner_addresses by auto
  ultimately show ?thesis using addrs by (simp add: roster_inv_def)
qed

lemma group_row_step:
  "contribution_of row = Inr x \<Longrightarrow> group_row row g = Inr (case x of None \<Rightarrow> g | Some c \<Rightarrow> update_miner c g)"
  by (simp add: group_row_def)

definition somes :: "'a option list \<Rightarrow> 'a list" where
  "somes os = concat (map (\<lambda>x. case x of None \<Rightarrow> [] | Some y \<Rightarrow> [y]) os)"

lemma somes_simps [simp]: "somes [] = []" "somes (None # os) = somes os" "somes (Some x # os) = x # somes os"
  by (simp_all add: somes_def)

lemma group_rows_inv:
  assumes "fold_res group_row rows g = Inr g'" "map_res contribution_of rows = Inr os" "roster_inv cs g"
  shows "roster_inv (cs @ somes os) g'"
  using assms
proof (induction rows arbitrary: os cs g)
  case Nil
  then show ?case by simp
next
  case (Cons row rows)
  from Cons.prems(2) obtain x xs where os: "os = x # xs" "contribution_of row = Inr x" "map_res contribution_of rows = Inr xs"
    by (auto simp: res_simps)
  show ?case
  proof (cases x)
    case None
    then have "fold_res group_row rows g = Inr g'" using Cons.prems(1) group_row_step[OF os(2)] by simp
    then show ?thesis using Cons.IH[OF _ os(3) Cons.prems(3)] os None by simp
  next
    case (Some c)
    then have "fold_res group_row rows (update_miner c g) = Inr g'" using Cons.prems(1) group_row_step[OF os(2)] by simp
    moreover have "roster_inv (cs @ [c]) (update_miner c g)"
      by (rule roster_inv_update[OF Cons.prems(3)])
    ultimately show ?thesis using Cons.IH[OF _ os(3), of "update_miner c g" "cs @ [c]"] os Some by simp
  qed
qed

lemma group_rows_total: "fold_res group_row rows g = Inr g' \<Longrightarrow> \<exists>os. map_res contribution_of rows = Inr os"
  by (induction rows arbitrary: g) (auto simp: group_row_def res_simps)

section \<open>The roster's order\<close>

sublocale collation \<subseteq> roster: row_order "\<lambda>_. True" "miner_order lc" "\<lambda>m. (deployed m, mn_address m)"
proof
  fix x y z :: miner and d e :: int
  show "\<exists>d. miner_order lc x y = Inr d" by (simp add: miner_order_def)
  show "e \<le> 0" if "miner_order lc x y = Inr d" "miner_order lc y x = Inr e" "0 < d"
    using that lc_flip[of "mn_address x" "mn_address y"] by (auto simp: miner_order_def split: if_splits)
  show "\<exists>f. miner_order lc x z = Inr f \<and> f \<le> 0"
    if "miner_order lc x y = Inr d" "d \<le> 0" "miner_order lc y z = Inr e" "e \<le> 0"
    using that lc_trans[of "mn_address x" "mn_address y" "mn_address z"] by (auto simp: miner_order_def split: if_splits)
  show "(deployed x, mn_address x) = (deployed y, mn_address y)"
    if "miner_order lc x y = Inr d" "d \<le> 0" "miner_order lc y x = Inr e" "e \<le> 0"
    using that lc_flip[of "mn_address x" "mn_address y"] lc_flip[of "mn_address y" "mn_address x"]
      lc_zero[of "mn_address x" "mn_address y"] lc_zero[of "mn_address y" "mn_address x"]
    by (auto simp: miner_order_def split: if_splits)
qed

context collation
begin

lemma roster_sorted:
  "\<exists>ys. sort_by (miner_order lc) xs = Inr ys \<and> mset ys = mset xs \<and> sorted_wrt (\<lambda>a b. deployed b \<le> deployed a) ys"
proof -
  obtain ys where ys: "sort_by (miner_order lc) xs = Inr ys" "mset ys = mset xs" "sorted_wrt roster.le ys"
    using roster.sort_by_sorts[of xs] by blast
  have "sorted_wrt (\<lambda>a b. deployed b \<le> deployed a) ys"
    by (rule sorted_wrt_mono_rel[OF _ ys(3)]) (auto simp: miner_order_def split: if_splits)
  then show ?thesis using ys by blast
qed

end


definition demo_receipt :: "string \<Rightarrow> int \<Rightarrow> bool \<Rightarrow> jsval" where
  "demo_receipt address n refunded = Obj [(''account'', Obj [(''refunded'', Bool refunded), (''authority'', Key address),
     (''amounts'', Arr [BN n]), (''totalLamports'', BN n), (''claimed'', Bool True)])]"

lemma demo_receipt_contribution:
  "contribution_of (demo_receipt a n r) = Inr (if r then None else Some \<lparr>ct_address = a, ct_amounts = [n],
     ct_total = n, ct_claimed = True, ct_burn = False\<rparr>)"
  by (simp add: contribution_of_def demo_receipt_def member_def toBigInt_def reward_mode_burns_def GRID_def)

definition demo_miner :: "string \<Rightarrow> int \<Rightarrow> int \<Rightarrow> miner" where
  "demo_miner a n k = (new_miner a)\<lparr>tileBets := n # replicate 24 0, deployed := n, receiptCount := k\<rparr>"

lemma demo_miner_address: "mn_address (demo_miner a n k) = a"
  by (simp add: demo_miner_def new_miner_def)

lemma demo_miner_deployed: "deployed (demo_miner a n k) = n"
  by (simp add: demo_miner_def)

lemma demo_miner_first:
  "add_contribution \<lparr>ct_address = a, ct_amounts = [n], ct_total = n, ct_claimed = True, ct_burn = False\<rparr> (new_miner a)
   = demo_miner a n 1"
proof -
  have "replicate GRID (0 :: int) = 0 # replicate 24 0" by (simp add: GRID_def numeral_eq_Suc)
  then show ?thesis by (simp add: add_contribution_def demo_miner_def new_miner_def)
qed

lemma demo_miner_again:
  "add_contribution \<lparr>ct_address = a, ct_amounts = [n], ct_total = n, ct_claimed = True, ct_burn = False\<rparr> (demo_miner a m k)
   = demo_miner a (m + n) (k + 1)"
  by (simp add: add_contribution_def demo_miner_def new_miner_def)


end
