(* ===== verification/Sol_Units.thy ===== *)
theory Sol_Units
  imports Js_Values
begin

text \<open>
  \<open>Frontend/src/chain/units.js\<close> and \<open>burn-accounting.js\<close>: SOL amounts as text and lamports, and exact MYNE supply
  and burn totals. \<open>BigInt.prototype.toLocaleString\<close>, which groups digits by the host's locale, is a parameter.
\<close>

section \<open>SOL amounts\<close>

definition LAMPORTS_PER_SOL :: int where
  "LAMPORTS_PER_SOL = 1000000000"

text \<open>\<open>/^\d*(\.\d*)?$/\<close> with its two groups of digits.\<close>

definition sol_parts :: "string \<Rightarrow> (string \<times> string) option" where
  "sol_parts s = (let w = takeWhile is_digit s; r = dropWhile is_digit s in
     case r of [] \<Rightarrow> Some (w, [])
     | c # f \<Rightarrow> if c = CHR ''.'' \<and> list_all is_digit f then Some (w, f) else None)"

definition digits_value :: "string \<Rightarrow> int" where
  "digits_value s = int (read_nat s)"

definition parseSol :: "jsval \<Rightarrow> int res" where
  "parseSol v = (case sol_parts (trim (to_str (coalesce v (IntV 0)))) of
       None \<Rightarrow> Inl (Error ''Enter a valid SOL amount'')
     | Some (whole, fraction) \<Rightarrow>
         throw_if (9 < length fraction) (Error ''SOL supports up to 9 decimal places'') (
         Inr (digits_value whole * LAMPORTS_PER_SOL + digits_value (take 9 (fraction @ replicate 9 CHR ''0'')))))"

text \<open>\<open>s.replace(/0+$/, '')\<close>\<close>

definition strip_zeros :: "string \<Rightarrow> string" where
  "strip_zeros s = rev (dropWhile (\<lambda>c. c = CHR ''0'') (rev s))"

definition formatSol :: "jsval \<Rightarrow> string res" where
  "formatSol lamports = then_res (to_bigint (js_or lamports (IntV 0))) (\<lambda>v.
     let absolute = (if v < 0 then - v else v);
         whole = big_div absolute LAMPORTS_PER_SOL;
         fraction = strip_zeros (padStart 9 CHR ''0'' (show_int (absolute mod LAMPORTS_PER_SOL))) in
     Inr ((if v < 0 then ''-'' else []) @ show_int whole @ (if fraction \<noteq> [] then CHR ''.'' # fraction else [])))"

section \<open>Burn totals\<close>

definition asBaseUnits :: "jsval \<Rightarrow> int option" where
  "asBaseUnits v = (case v of
       Big n \<Rightarrow> if 0 \<le> n then Some n else None
     | Num x \<Rightarrow> (case safe_int v of Some n \<Rightarrow> if 0 \<le> n then Some n else None | None \<Rightarrow> None)
     | Str s \<Rightarrow> if all_digits s then Some (int (read_nat s)) else None
     | _ \<Rightarrow> None)"

definition completedBuybackBurnFromStatsRow :: "jsval \<Rightarrow> int option" where
  "completedBuybackBurnFromStatsRow row =
     (if \<not> truthy row \<or> is_str row then None
      else (let latest = (if opt_member row ''latest_completed_buyback_round'' = Null then None
                          else asBaseUnits (opt_member row ''latest_completed_buyback_round'')) in
        case (asBaseUnits (opt_member row ''completed_buyback_burn_base_units_text''),
              asBaseUnits (opt_member row ''completed_buyback_executions'')) of
          (Some burned, Some executions) \<Rightarrow>
            if executions = 0 then (if burned = 0 \<and> latest = None then Some 0 else None)
            else if burned = 0 \<or> latest = None then None
            else Some burned
        | _ \<Rightarrow> None))"

record burn_totals =
  bt_current :: int
  bt_supplied :: int
  bt_burned :: int
  burnedStaking :: int
  burnedBuyback :: int

definition combineBurnTotals :: "jsval \<Rightarrow> jsval \<Rightarrow> jsval \<Rightarrow> burn_totals option" where
  "combineBurnTotals currentSupply stakingBurn buybackBurn =
     (case (asBaseUnits currentSupply, asBaseUnits stakingBurn, asBaseUnits buybackBurn) of
        (Some current, Some staking, Some buyback) \<Rightarrow>
          Some \<lparr>bt_current = current, bt_supplied = current + (staking + buyback), bt_burned = staking + buyback,
                burnedStaking = staking, burnedBuyback = buyback\<rparr>
      | _ \<Rightarrow> None)"

record supply_snapshot =
  sup_max :: int
  sup_current :: "int option"
  sup_supplied :: "int option"
  sup_burned :: "int option"
  sup_staking :: "int option"
  sup_buyback :: "int option"

definition plus_option :: "int option \<Rightarrow> int option \<Rightarrow> int option" where
  "plus_option a b = (case (a, b) of (Some x, Some y) \<Rightarrow> Some (x + y) | _ \<Rightarrow> None)"

definition assembleSupplySnapshot :: "jsval \<Rightarrow> jsval \<Rightarrow> jsval \<Rightarrow> jsval \<Rightarrow> supply_snapshot option" where
  "assembleSupplySnapshot maxTokenUnits currentSupply stakingBurn buybackBurn =
     (case asBaseUnits maxTokenUnits of
        None \<Rightarrow> None
      | Some maxTokens \<Rightarrow>
          (let current = asBaseUnits currentSupply; staking = asBaseUnits stakingBurn;
               buyback = asBaseUnits buybackBurn; burned = plus_option staking buyback in
           Some \<lparr>sup_max = maxTokens * 1000000000, sup_current = current, sup_supplied = plus_option current burned,
                 sup_burned = burned, sup_staking = staking, sup_buyback = buyback\<rparr>))"

definition formatMyneBaseUnits :: "(int \<Rightarrow> string) \<Rightarrow> jsval \<Rightarrow> jsval \<Rightarrow> string option" where
  "formatMyneBaseUnits localeString v maxFractionDigits =
     (case (asBaseUnits v, integer_of (with_default maxFractionDigits (IntV 3))) of
        (Some amount, Some digits) \<Rightarrow>
          if digits < 0 \<or> 9 < digits then None
          else (let whole = big_div amount 1000000000 in
            if digits = 0 then Some (localeString whole)
            else (let fraction = strip_zeros (take (nat digits) (padStart 9 CHR ''0'' (show_int (amount mod 1000000000)))) in
              Some (localeString whole @ (if fraction \<noteq> [] then CHR ''.'' # fraction else []))))
      | _ \<Rightarrow> None)"

section \<open>Printing and parsing SOL\<close>

lemma strip_zeros_fill: "\<exists>k. s = strip_zeros s @ replicate k CHR ''0''"
proof -
  let ?z = "takeWhile (\<lambda>c. c = CHR ''0'') (rev s)"
  have "?z = replicate (length ?z) CHR ''0''"
    by (rule replicate_eqI[symmetric, THEN sym]) (auto dest: set_takeWhileD)
  moreover have "s = rev (dropWhile (\<lambda>c. c = CHR ''0'') (rev s)) @ rev ?z"
    by (metis rev_append rev_rev_ident takeWhile_dropWhile_id)
  ultimately show ?thesis unfolding strip_zeros_def by (metis rev_replicate)
qed

lemma strip_zeros_pad: "length s = 9 \<Longrightarrow> take 9 (strip_zeros s @ replicate 9 CHR ''0'') = s"
proof -
  assume len: "length s = 9"
  obtain k where k: "s = strip_zeros s @ replicate k CHR ''0''" using strip_zeros_fill by blast
  then have "length (strip_zeros s) + k = 9" using len by (metis length_append length_replicate)
  then have "take 9 (strip_zeros s @ replicate 9 CHR ''0'') = strip_zeros s @ replicate k CHR ''0''"
    by (simp add: take_replicate min_def)
  then show ?thesis using k by simp
qed

lemma length_show_nat: "n < 10 ^ Suc k \<Longrightarrow> length (show_nat n) \<le> Suc k"
proof (induction k arbitrary: n)
  case 0
  then show ?case by (simp add: show_nat.simps[of n])
next
  case (Suc k)
  then show ?case by (cases "n < 10") (simp_all add: show_nat.simps[of n])
qed

lemma read_nat_pad: "read_nat (padStart k CHR ''0'' s) = read_nat s"
proof -
  have "read_nat (replicate j CHR ''0'' @ s) = read_nat s" for j
    by (induction j) (simp_all add: read_nat_def digit_val_def)
  then show ?thesis by (simp add: padStart_def)
qed

lemma list_all_strip: "list_all P s \<Longrightarrow> list_all P (strip_zeros s)"
  by (auto simp: strip_zeros_def list_all_iff dest: set_dropWhileD)

lemma show_nat_digits [simp]: "list_all is_digit (show_nat n)"
  using all_digits_show_nat[of n] by (simp add: all_digits_def)

lemma sol_parts_text:
  assumes "list_all is_digit w" "list_all is_digit f"
  shows "sol_parts (w @ (if f \<noteq> [] then CHR ''.'' # f else [])) = Some (w, f)"
proof -
  have "\<not> is_digit CHR ''.''" by (simp add: is_digit_def)
  then show ?thesis using assms by (auto simp: sol_parts_def list_all_iff takeWhile_append2 dropWhile_append2)
qed

text \<open>
  Printing an amount of lamports and reading the text back returns the same lamports, for every amount the
  interface can show: no lamport is lost in the nine decimal places, and the printed text is always
  accepted.
\<close>

theorem parseSol_formatSol:
  assumes "0 \<le> n"
  shows "\<exists>s. formatSol (Big n) = Inr s \<and> parseSol (Str s) = Inr n"
proof -
  define w where "w = show_nat (nat (n div 1000000000))"
  define p where "p = padStart 9 CHR ''0'' (show_nat (nat (n mod 1000000000)))"
  define s where "s = w @ (if strip_zeros p \<noteq> [] then CHR ''.'' # strip_zeros p else [])"
  have m: "0 \<le> n mod 1000000000" "n mod 1000000000 < 1000000000" by simp_all
  have lenp: "length p = 9"
    using length_show_nat[of "nat (n mod 1000000000)" 8] m by (simp add: p_def padStart_def nat_less_iff)
  have "is_digit CHR ''0''" by (simp add: is_digit_def)
  then have "list_all is_digit p"
    unfolding p_def padStart_def list_all_append using show_nat_digits by (auto simp: list_all_iff)
  then have digp: "list_all is_digit (strip_zeros p)" by (rule list_all_strip)
  have show_w: "show_int (n div 1000000000) = w" "show_int (n mod 1000000000) = show_nat (nat (n mod 1000000000))"
    using assms pos_imp_zdiv_nonneg_iff[of 1000000000 n] m by (simp_all add: show_int_def w_def)
  have "to_bigint (js_or (Big n) (IntV 0)) = Inr n" by (cases "n = 0") (simp_all add: js_or_def)
  then have fmt: "formatSol (Big n) = Inr s"
    using assms unfolding formatSol_def s_def p_def
    by (simp add: LAMPORTS_PER_SOL_def Let_def show_w)
  have parts: "sol_parts s = Some (w, strip_zeros p)"
    unfolding s_def by (rule sol_parts_text) (simp_all add: w_def digp)
  have nospace: "\<not> is_space c" if "c \<in> set s" for c
  proof -
    have "is_digit c \<or> c = CHR ''.''"
      using that digp by (auto simp: s_def w_def list_all_iff split: if_splits dest: show_nat_digits[unfolded list_all_iff, rule_format])
    then show ?thesis using digit_not_space by (auto simp: is_space_def)
  qed
  have "s \<noteq> []" by (simp add: s_def w_def)
  then have trim: "trim s = s" by (intro trim_id) (auto simp: nospace)
  have len: "length (strip_zeros p) \<le> 9" using strip_zeros_fill[of p] lenp by (metis length_append le_add1)
  have "digits_value (take 9 (strip_zeros p @ replicate 9 CHR ''0'')) = n mod 1000000000"
    unfolding strip_zeros_pad[OF lenp] by (simp add: digits_value_def p_def read_nat_pad m)
  moreover have "digits_value w = n div 1000000000"
    using assms by (simp add: digits_value_def w_def pos_imp_zdiv_nonneg_iff)
  ultimately have "parseSol (Str s) = Inr n"
    using len by (simp add: parseSol_def trim parts LAMPORTS_PER_SOL_def not_less[symmetric])
  then show ?thesis using fmt by blast
qed

theorem parseSol_formatSol_witness:
  "formatSol (Big 1500000000) = Inr ''1.5'' \<and> (\<exists>s. formatSol (Big 1500000000) = Inr s \<and> parseSol (Str s) = Inr 1500000000)"
proof
  show "formatSol (Big 1500000000) = Inr ''1.5''" by code_simp
  show "\<exists>s. formatSol (Big 1500000000) = Inr s \<and> parseSol (Str s) = Inr 1500000000"
    by (rule parseSol_formatSol) simp
qed

text \<open>The combined totals account for every unit: what was supplied is what is left and what was burned.\<close>

lemma asBaseUnits_nonneg: "asBaseUnits v = Some n \<Longrightarrow> 0 \<le> n"
  by (cases v) (auto simp: asBaseUnits_def split: option.splits if_splits)

lemma combineBurnTotals_adds_up:
  assumes "combineBurnTotals c s b = Some t"
  shows "bt_supplied t = bt_current t + bt_burned t \<and> bt_burned t = burnedStaking t + burnedBuyback t \<and> 0 \<le> bt_burned t"
proof -
  from assms obtain x y z where "asBaseUnits s = Some y" "asBaseUnits b = Some z"
      "t = \<lparr>bt_current = x, bt_supplied = x + (y + z), bt_burned = y + z, burnedStaking = y, burnedBuyback = z\<rparr>"
    by (auto simp: combineBurnTotals_def split: option.splits)
  then show ?thesis using asBaseUnits_nonneg[of s y] asBaseUnits_nonneg[of b z] by simp
qed

end
