(* ===== verification/Round_View.thy ===== *)
theory Round_View
  imports Server_Randomness
begin

text \<open>
  The client's reading of a round: \<open>Frontend/src/chain/round-lifecycle.js\<close> (its stage), \<open>randomness-mode.js\<close> (how its
  winner is drawn) and \<open>round-range.js\<close> (which rounds a scan visits). The default program id of
  \<open>isServerRandomnessProgram\<close> and the \<open>PublicKey\<close> constructor are arguments.
\<close>

section \<open>Lifecycle\<close>

text \<open>\<open>try { return BigInt(value?.toString?.() ?? value ?? 0); } catch { return 0n; }\<close>\<close>

definition toBig :: "jsval \<Rightarrow> int" where
  "toBig v = (if nullish v then 0 else or_else (bigint_of_string (to_str v)) 0)"

record lifecycle =
  lc_status :: string
  lc_stage :: string
  lc_label :: string
  outcomePublished :: bool
  lc_projectionComplete :: bool
  participantCountsKnown :: bool
  receiptsComplete :: bool
  lc_archiveVerified :: bool

definition classifyRoundLifecycle :: "jsval \<Rightarrow> jsval \<Rightarrow> jsval \<Rightarrow> jsval \<Rightarrow> lifecycle" where
  "classifyRoundLifecycle rnd nowSeconds isLive phase = (let
       now = toBig nowSeconds;
       totalReceipts = toBig (opt_member rnd ''totalReceipts'');
       processedReceipts = toBig (opt_member rnd ''processedReceipts'');
       bettingEndsAt = toBig (opt_member rnd ''bettingEndsAt'');
       settlesAt = toBig (opt_member rnd ''settlesAt'');
       refundAt = toBig (opt_member rnd ''refundAt'');
       complete = (opt_member rnd ''projectionComplete'' = Bool True);
       closed = truthy (opt_member rnd ''closedSignature'');
       archived = truthy (opt_member rnd ''archiveVerified'')
     in
     if truthy (opt_member rnd ''resolved'') then
       \<lparr>lc_status = ''settled'', lc_stage = (if closed then ''closed'' else if archived then ''archived'' else ''open''),
        lc_label = (if complete then ''settled'' else ''settled '' @ [CHR 0xB7] @ '' indexing miners''), outcomePublished = True,
        lc_projectionComplete = complete, participantCountsKnown = complete,
        receiptsComplete = (totalReceipts \<le> processedReceipts), lc_archiveVerified = archived\<rparr>
     else if truthy isLive then
       (let acceptingBids = (phase = Str ''betting'') in
        \<lparr>lc_status = (if acceptingBids then ''live'' else ''resolving''),
         lc_stage = (if acceptingBids then ''betting'' else ''result-window''),
         lc_label = (if acceptingBids then ''live'' else ''resolving''), outcomePublished = False,
         lc_projectionComplete = complete, participantCountsKnown = False,
         receiptsComplete = (totalReceipts = 0), lc_archiveVerified = False\<rparr>)
     else if totalReceipts \<le> processedReceipts \<and> 0 < refundAt \<and> refundAt \<le> now then
       \<lparr>lc_status = ''refunded'', lc_stage = (if closed then ''closed'' else ''refunded''), lc_label = ''refunded'',
        outcomePublished = False, lc_projectionComplete = complete, participantCountsKnown = False,
        receiptsComplete = True, lc_archiveVerified = archived\<rparr>
     else if 0 < refundAt \<and> refundAt \<le> now then
       \<lparr>lc_status = ''refund-ready'', lc_stage = ''refund-ready'', lc_label = ''refund available'',
        outcomePublished = False, lc_projectionComplete = complete, participantCountsKnown = False,
        receiptsComplete = (totalReceipts = 0), lc_archiveVerified = False\<rparr>
     else if (0 < settlesAt \<and> settlesAt \<le> now) \<or> (0 < bettingEndsAt \<and> bettingEndsAt \<le> now) then
       \<lparr>lc_status = ''resolving'', lc_stage = ''awaiting-settlement'', lc_label = ''resolving'',
        outcomePublished = False, lc_projectionComplete = complete, participantCountsKnown = False,
        receiptsComplete = (totalReceipts = 0), lc_archiveVerified = False\<rparr>
     else
       \<lparr>lc_status = ''scheduled'', lc_stage = ''scheduled'', lc_label = ''scheduled'',
        outcomePublished = False, lc_projectionComplete = complete, participantCountsKnown = False,
        receiptsComplete = (totalReceipts = 0), lc_archiveVerified = False\<rparr>)"

section \<open>Randomness mode\<close>

definition SLOT_FLAG :: int where
  "SLOT_FLAG = push_bit 63 1"

definition SLOT_MASK :: int where
  "SLOT_MASK = SLOT_FLAG - 1"

definition SLOT_PENDING :: int where
  "SLOT_PENDING = push_bit 64 1 - 1"

definition keyText :: "jsval \<Rightarrow> string" where
  "keyText v = (case v of Key s \<Rightarrow> s | _ \<Rightarrow> if nullish v then [] else to_str v)"

definition isServerRandomnessProgram :: "jsval \<Rightarrow> jsval \<Rightarrow> bool" where
  "isServerRandomnessProgram provider programId =
     (keyText provider \<noteq> [] \<and> keyText programId \<noteq> [] \<and> keyText provider = keyText programId)"

text \<open>\<open>BigInt(value?.toString?.() ?? value ?? 0)\<close>\<close>

definition slot_bigint :: "jsval \<Rightarrow> int res" where
  "slot_bigint v = (if nullish v then Inr 0 else bigint_of_string (to_str v))"

definition isServerRandomnessSlot :: "jsval \<Rightarrow> bool res" where
  "isServerRandomnessSlot v = then_res (slot_bigint v) (\<lambda>encoded. Inr (and encoded SLOT_FLAG \<noteq> 0))"

definition decodeServerRandomnessSlot :: "jsval \<Rightarrow> int option res" where
  "decodeServerRandomnessSlot v = then_res (slot_bigint v) (\<lambda>encoded.
     if encoded = SLOT_PENDING then Inr None
     else then_res (isServerRandomnessSlot (Big encoded)) (\<lambda>server.
       if \<not> server then Inr None
       else (let slot = and encoded SLOT_MASK in Inr (if 0 < slot then Some slot else None))))"

record randomness_view =
  rv_mode :: string
  rv_state :: string
  encodedSlot :: int
  rv_slot :: "int option"

definition describeRandomnessRound :: "jsval \<Rightarrow> jsval \<Rightarrow> randomness_view res" where
  "describeRandomnessRound commitSlot resolved =
     then_res (slot_bigint (with_default commitSlot (Big 0))) (\<lambda>encoded.
     if encoded = SLOT_PENDING then
       Inr \<lparr>rv_mode = ''server'', rv_state = ''commitment-bound'', encodedSlot = encoded, rv_slot = None\<rparr>
     else then_res (isServerRandomnessSlot (Big encoded)) (\<lambda>server.
       if server then
         then_res (decodeServerRandomnessSlot (Big encoded)) (\<lambda>slot.
         Inr \<lparr>rv_mode = ''server'', rv_state = (if truthy resolved then ''settled'' else ''entropy-locked''),
              encodedSlot = encoded, rv_slot = slot\<rparr>)
       else Inr \<lparr>rv_mode = ''switchboard'',
              rv_state = (if encoded = 0 then ''uncommitted'' else if truthy resolved then ''settled'' else ''committed''),
              encodedSlot = encoded, rv_slot = (if 0 < encoded then Some encoded else None)\<rparr>))"

text \<open>A proof field is a byte array or another value.\<close>

datatype proof_field = ByteArray bytes | Field jsval

text \<open>The bytes of a public key given as an object or text; the constructor may throw.\<close>

definition commitmentHexFromAccount :: "(jsval \<Rightarrow> bytes res) \<Rightarrow> proof_field \<Rightarrow> string option" where
  "commitmentHexFromAccount publicKeyBytes v = (case v of
       ByteArray bs \<Rightarrow> if length bs = 32 then Some (hex_of_bytes bs) else None
     | Field f \<Rightarrow> if \<not> truthy f then None
         else (case publicKeyBytes f of
             Inl _ \<Rightarrow> None
           | Inr bs \<Rightarrow> if length bs = 32 then Some (hex_of_bytes bs) else None))"

text \<open>An element stored into a \<open>Uint8Array\<close>: truncated modulo 256; a BigInt is a TypeError.\<close>

definition to_uint8 :: "jsval \<Rightarrow> byte res" where
  "to_uint8 v = (case v of Big _ \<Rightarrow> Inl (TypeError ''Cannot convert a BigInt value to a number'')
     | _ \<Rightarrow> Inr (case to_num v of
         Fin x \<Rightarrow> word_of_int (if 0 \<le> x then \<lfloor>x\<rfloor> else - \<lfloor>- x\<rfloor>)
       | _ \<Rightarrow> 0))"

definition lower_char :: "char \<Rightarrow> char" where
  "lower_char c = (let n = (of_char c :: nat) in
     if (65 \<le> n \<and> n \<le> 90) \<or> (192 \<le> n \<and> n \<le> 222 \<and> n \<noteq> 215) then char_of (n + 32) else c)"

definition drop_0x :: "string \<Rightarrow> string" where
  "drop_0x s = (if take 2 s = ''0x'' \<or> take 2 s = ''0X'' then drop 2 s else s)"

definition is_lower_hex :: "char \<Rightarrow> bool" where
  "is_lower_hex c = (let n = (of_char c :: nat) in (48 \<le> n \<and> n \<le> 57) \<or> (97 \<le> n \<and> n \<le> 102))"

definition normalizeProofHex :: "proof_field \<Rightarrow> string option res" where
  "normalizeProofHex v = (case v of
       ByteArray bs \<Rightarrow> Inr (if length bs = 32 then Some (hex_of_bytes bs) else None)
     | Field (Arr vs) \<Rightarrow> then_res (map_res to_uint8 vs) (\<lambda>bs.
         Inr (if length bs = 32 then Some (hex_of_bytes bs) else None))
     | Field f \<Rightarrow> (let hex = map lower_char (drop_0x (trim (to_str (coalesce f (Str []))))) in
         Inr (if length hex = 64 \<and> list_all is_lower_hex hex then Some hex else None)))"

section \<open>Round ranges\<close>

text \<open>The loop of \<open>roundIdsForRange\<close>, with the number of ids it may still add.\<close>

fun range_ids :: "int \<Rightarrow> int \<Rightarrow> int \<Rightarrow> nat \<Rightarrow> int list" where
  "range_ids rid stop step 0 = []"
| "range_ids rid stop step (Suc left) = rid # (if rid = stop then [] else range_ids (rid + step) stop step left)"

definition roundIdsForRange :: "jsval \<Rightarrow> jsval \<Rightarrow> int \<Rightarrow> (int list \<times> bool) res" where
  "roundIdsForRange fromId toId maxScan =
     then_res (to_bigint fromId) (\<lambda>from.
     then_res (to_bigint toId) (\<lambda>stop.
     let start = (if from < 0 then 0 else from) in
     if maxScan \<le> 0 then Inr ([], start \<noteq> stop)
     else (let ids = range_ids start stop (if start \<le> stop then 1 else - 1) (nat maxScan) in
       Inr (ids, last ids \<noteq> stop))))"

section \<open>Slots\<close>

lemma slot_constants:
  "SLOT_FLAG = SERVER_RANDOMNESS_SLOT_FLAG" "SLOT_MASK = SERVER_RANDOMNESS_SLOT_MASK"
  "SLOT_PENDING = SERVER_RANDOMNESS_PENDING"
  by (simp_all add: SLOT_FLAG_def SLOT_MASK_def SLOT_PENDING_def SERVER_RANDOMNESS_SLOT_FLAG_def
      SERVER_RANDOMNESS_SLOT_MASK_def SERVER_RANDOMNESS_PENDING_def push_bit_eq_mult)

text \<open>
  The page and the randomness workers read one slot encoding: for every stored value, the page shows an entropy
  slot exactly when the worker's decoder accepts the value, and it is the same slot; in particular the
  pending marker and the slots of the other provider are never shown as a server slot.
\<close>

theorem slot_decoders_agree:
  "decodeServerRandomnessSlot v = Inr (Some slot) \<longleftrightarrow> decodeServerEntropySlot v = Inr slot"
proof (cases "nullish v")
  case True
  then have "\<not> (\<exists>s. decodeServerEntropySlot v = Inr s)"
    by (auto simp: decodeServerEntropySlot_def bigint_of_value_def nullish_def res_simps)
  moreover have "decodeServerRandomnessSlot v = Inr None"
    using True by (simp add: decodeServerRandomnessSlot_def slot_bigint_def isServerRandomnessSlot_def slot_constants
        SERVER_RANDOMNESS_PENDING_def)
  ultimately show ?thesis by auto
next
  case False
  then show ?thesis
    by (auto simp: decodeServerRandomnessSlot_def decodeServerEntropySlot_def slot_bigint_def bigint_of_value_def
        isServerRandomnessSlot_def slot_constants res_simps Let_def split: if_splits)
qed

section \<open>Scans\<close>

lemma range_ids_up: "rid \<le> stop \<Longrightarrow> range_ids rid stop 1 n = map (\<lambda>i. rid + int i) [0..<min n (nat (stop - rid) + 1)]"
proof (induction n arbitrary: rid)
  case 0
  then show ?case by simp
next
  case (Suc n)
  show ?case
  proof (cases "rid = stop")
    case True
    then show ?thesis by simp
  next
    case False
    then have "nat (stop - rid) + 1 = Suc (nat (stop - (rid + 1)) + 1)" using Suc.prems by simp
    then show ?thesis using Suc.IH[of "rid + 1"] False Suc.prems
      by (simp add: map_upt_Suc add.assoc del: upt_Suc)
  qed
qed

text \<open>A page that ran to the end of an ascending range has every round of it, in order.\<close>

lemma roundIdsForRange_ascending:
  assumes "0 \<le> a" "a \<le> b" "b - a < limit"
  shows "roundIdsForRange (Big a) (Big b) limit = Inr (map (\<lambda>i. a + int i) [0..<nat (b - a) + 1], False)"
proof -
  have "min (nat limit) (nat (b - a) + 1) = nat (b - a) + 1" using assms by simp
  then show ?thesis using assms by (simp add: roundIdsForRange_def range_ids_up Let_def)
qed

text \<open>A result is only ever published for a settled round.\<close>

lemma classify_published_iff:
  "outcomePublished (classifyRoundLifecycle rnd now live phase) \<longleftrightarrow> truthy (opt_member rnd ''resolved'')"
  by (simp add: classifyRoundLifecycle_def Let_def)

end
