(* ===== verification/Staking_Apy.thy ===== *)
theory Staking_Apy
  imports Js_Json
begin

text \<open>
  \<open>Frontend/src/chain/staking-apy.js\<close>: the staking yield shown to users and the reward windows it is computed from.
  \<open>null\<close> is \<open>None\<close>. \<open>Date.now()\<close> and \<open>toLocaleString\<close> are arguments; the dash shown for an unknown value is \<open>None\<close>.
\<close>

section \<open>Yield arithmetic\<close>

definition APY_MINUTES_PER_YEAR :: rat where
  "APY_MINUTES_PER_YEAR = 365 * 24 * 60"

text \<open>\<open>Number.isFinite(v)\<close> with the number; \<open>Number.isFinite(v) && v > 0\<close>; \<open>Number.isFinite(v) && v >= 0\<close>.\<close>

fun finite_of :: "jsval \<Rightarrow> rat option" where
  "finite_of (Num (Fin x)) = Some x"
| "finite_of _ = None"

definition finitePositive :: "jsval \<Rightarrow> bool" where
  "finitePositive v = (case finite_of v of Some x \<Rightarrow> 0 < x | None \<Rightarrow> False)"

definition finite_nonneg :: "jsval \<Rightarrow> bool" where
  "finite_nonneg v = (case finite_of v of Some x \<Rightarrow> 0 \<le> x | None \<Rightarrow> False)"

definition num_val :: "jsval \<Rightarrow> jsnum" where
  "num_val v = (case v of Num n \<Rightarrow> n | _ \<Rightarrow> NaN)"

definition unsignedInteger :: "jsval \<Rightarrow> int option" where
  "unsignedInteger v = (case v of
       Big n \<Rightarrow> if 0 \<le> n then Some n else None
     | Num _ \<Rightarrow> (case safe_int v of Some n \<Rightarrow> if 0 \<le> n then Some n else None | None \<Rightarrow> None)
     | Str s \<Rightarrow> if canonical_numeric s then Some (int (read_nat s)) else None
     | _ \<Rightarrow> None)"

definition keep_nonneg :: "jsnum \<Rightarrow> jsnum option" where
  "keep_nonneg x = (if finite_nonneg (Num x) then Some x else None)"

definition apyPercent :: "jsval \<Rightarrow> jsval \<Rightarrow> jsval \<Rightarrow> jsnum option" where
  "apyPercent rewardPerMinuteSol totalWeightMyne mynePerSol =
     (if \<not> finite_nonneg rewardPerMinuteSol \<or> \<not> finitePositive totalWeightMyne \<or> \<not> finitePositive mynePerSol then None
      else (let weightValueSol = num_div (num_val totalWeightMyne) (num_val mynePerSol) in
        if \<not> finitePositive (Num weightValueSol) then None
        else keep_nonneg (num_mul (num_div (num_mul (num_val rewardPerMinuteSol) (Fin APY_MINUTES_PER_YEAR)) weightValueSol)
          (Fin 100))))"

text \<open>\<open>Math.round\<close> and \<open>toFixed(1)\<close>: the nearest integer, and the nearest tenth, the larger one on a tie.\<close>

fun num_round :: "jsnum \<Rightarrow> jsnum" where
  "num_round (Fin x) = Fin (of_int \<lfloor>x + 1/2\<rfloor>)"
| "num_round x = x"

definition toFixed1 :: "rat \<Rightarrow> string" where
  "toFixed1 x = (let n = \<lfloor>x * 10 + 1/2\<rfloor> in show_int (n div 10) @ ''.'' @ show_int (n mod 10))"

definition formatApyPercent :: "(int \<Rightarrow> string) \<Rightarrow> jsval \<Rightarrow> string option" where
  "formatApyPercent localeString v = (case finite_of v of None \<Rightarrow> None
     | Some x \<Rightarrow> if x < 0 then None
         else Some (if 1000 \<le> x then localeString \<lfloor>x + 1/2\<rfloor> @ ''%'' else toFixed1 x @ ''%''))"

definition stakingApyVariants :: "jsval \<Rightarrow> jsnum option \<times> jsnum option" where
  "stakingApyVariants standardApyPct =
     (if finite_nonneg standardApyPct then (Some (num_val standardApyPct), Some (num_mul (num_val standardApyPct) (Fin 5)))
      else (None, None))"

section \<open>The snapshot of a pause\<close>

definition stakingApySnapshot :: "int \<Rightarrow> jsval \<Rightarrow> jsval option" where
  "stakingApySnapshot dateNow metrics = (let
       capturedAt = coalesce (opt_member metrics ''capturedAt'') (IntV dateNow);
       m = opt_member metrics in
     if \<not> truthy metrics \<or> \<not> finite_nonneg (m ''apyStandardPct'') \<or> \<not> finite_nonneg (m ''apyBurnPct'')
        \<or> (case safe_int capturedAt of None \<Rightarrow> True | Some t \<Rightarrow> t \<le> 0) then None
     else Some (Obj (
       [(''apyStandardPct'', m ''apyStandardPct''), (''apyBurnPct'', m ''apyBurnPct''),
        (''aprWindowDays'', if finite_of (m ''aprWindowDays'') \<noteq> None then m ''aprWindowDays'' else IntV 0),
        (''aprWindowRounds'', if safe_int (m ''aprWindowRounds'') \<noteq> None then m ''aprWindowRounds'' else IntV 0),
        (''aprAsOf'', if safe_int (m ''aprAsOf'') \<noteq> None then m ''aprAsOf'' else Null),
        (''capturedAt'', capturedAt)]
       @ (if finitePositive (m ''totalWeight'') then [(''totalWeight'', m ''totalWeight'')] else [])
       @ (if finite_nonneg (m ''rewardsToStakersEth'') then [(''rewardsToStakersEth'', m ''rewardsToStakersEth'')] else [])
       @ (if finitePositive (m ''mynePerSol'') then [(''mynePerSol'', m ''mynePerSol'')] else []))))"

definition selectPausedApySnapshot :: "int \<Rightarrow> jsval \<Rightarrow> jsval \<Rightarrow> jsval option" where
  "selectPausedApySnapshot dateNow currentMetrics previousSnapshot =
     (if opt_member currentMetrics ''protocolPaused'' \<noteq> Bool True then None
      else (case (stakingApySnapshot dateNow currentMetrics, stakingApySnapshot dateNow previousSnapshot) of
          (None, previous) \<Rightarrow> previous
        | (Some current, None) \<Rightarrow> Some current
        | (Some current, Some previous) \<Rightarrow>
            Some (if opt_member previous ''aprAsOf'' = opt_member current ''aprAsOf'' then previous else current)))"

text \<open>\<open>{ ...a, ...b }\<close> for two objects.\<close>

definition spread :: "(string \<times> jsval) list \<Rightarrow> jsval \<Rightarrow> (string \<times> jsval) list" where
  "spread fs v = (case v of Obj gs \<Rightarrow> fold (\<lambda>(k, x). put_field k x) gs fs | _ \<Rightarrow> fs)"

definition resolveStakingApyDisplay :: "int \<Rightarrow> jsval \<Rightarrow> jsval \<Rightarrow> jsval option \<times> jsval" where
  "resolveStakingApyDisplay dateNow currentMetrics previousSnapshot =
     (let snapshot = selectPausedApySnapshot dateNow currentMetrics previousSnapshot in
      (snapshot, case snapshot of None \<Rightarrow> currentMetrics
         | Some s \<Rightarrow> Obj (put_field ''aprStatus'' (Str ''paused'') (put_field ''aprPct'' (opt_member s ''apyStandardPct'')
             (spread (spread [] currentMetrics) s)))))"

section \<open>Positions\<close>

definition positionApyPercent :: "jsval \<Rightarrow> jsval \<Rightarrow> jsval \<Rightarrow> jsnum option" where
  "positionApyPercent standardApyPct principalMyne weightMyne =
     (if \<not> finite_nonneg standardApyPct \<or> \<not> finitePositive principalMyne \<or> \<not> finitePositive weightMyne then None
      else keep_nonneg (num_mul (num_val standardApyPct) (num_div (num_val weightMyne) (num_val principalMyne))))"

record reward_estimate =
  re_days :: int
  rewardSol :: jsnum
  poolSharePct :: "jsnum option"
  positionApyPct :: jsnum
  re_source :: string

definition positionRewardEstimate ::
  "jsval \<Rightarrow> jsval \<Rightarrow> jsval \<Rightarrow> jsval \<Rightarrow> jsval \<Rightarrow> jsval \<Rightarrow> jsval \<Rightarrow> reward_estimate option" where
  "positionRewardEstimate standardApyPct principalMyne weightMyne totalWeightMyne poolRewardsPerDaySol mynePerSol days =
     (case (positionApyPercent standardApyPct principalMyne weightMyne, safe_int (with_default days (IntV 7))) of
        (Some apy, Some d) \<Rightarrow>
          if d < 1 \<or> 365 < d then None
          else (let
            hasPoolShare = (finitePositive totalWeightMyne \<and> num_le (num_val weightMyne) (num_val totalWeightMyne));
            poolShare = (if hasPoolShare then Some (num_div (num_val weightMyne) (num_val totalWeightMyne)) else None);
            hasPoolRunRate = ((case poolShare of Some x \<Rightarrow> finitePositive (Num x) | None \<Rightarrow> False)
              \<and> finite_nonneg poolRewardsPerDaySol);
            reward = (if hasPoolRunRate
              then num_mul (num_mul (num_val poolRewardsPerDaySol) (case poolShare of Some x \<Rightarrow> x | None \<Rightarrow> NaN)) (Fin (of_int d))
              else if finitePositive mynePerSol
              then num_mul (num_mul (num_div (num_val principalMyne) (num_val mynePerSol)) (num_div apy (Fin 100)))
                (num_div (Fin (of_int d)) (Fin 365))
              else NaN) in
          if \<not> finite_nonneg (Num reward) then None
          else Some \<lparr>re_days = d, rewardSol = reward, poolSharePct = map_option (\<lambda>x. num_mul x (Fin 100)) poolShare,
            positionApyPct = apy, re_source = (if hasPoolRunRate then ''pool'' else ''apy'')\<rparr>)
      | _ \<Rightarrow> None)"

section \<open>Reward windows\<close>

record reward_window =
  rw_complete :: bool
  rw_minutes :: jsval
  rewardLamports :: int
  rw_rounds :: nat
  firstSettlesAt :: "int option"
  lastSettlesAt :: "int option"

definition incompleteWindow :: "jsval \<Rightarrow> nat \<Rightarrow> reward_window" where
  "incompleteWindow windowMinutes rows = \<lparr>rw_complete = False, rw_minutes = windowMinutes, rewardLamports = 0,
     rw_rounds = rows, firstSettlesAt = None, lastSettlesAt = None\<rparr>"

text \<open>A row that counts: its round, settlement time and reward.\<close>

definition reward_row :: "jsval \<Rightarrow> (int \<times> int \<times> int) option" where
  "reward_row row = (case (unsignedInteger (opt_member row ''round_id''),
       safe_int (Num (to_num (opt_member row ''settles_at''))), unsignedInteger (opt_member row ''staking_net_lamports'')) of
     (Some rid, Some settles, Some reward) \<Rightarrow> if opt_member row ''resolved'' = Bool True then Some (rid, settles, reward) else None
   | _ \<Rightarrow> None)"

record window_scan =
  ws_reward :: int
  ws_first :: "int option"
  ws_last :: "(int \<times> int) option"

definition scan_reward_row :: "int \<Rightarrow> int \<Rightarrow> int \<Rightarrow> jsval \<Rightarrow> window_scan \<Rightarrow> window_scan option" where
  "scan_reward_row start stop gap row st = (case reward_row row of
       None \<Rightarrow> None
     | Some (rid, settles, reward) \<Rightarrow>
         if settles < start \<or> stop < settles
            \<or> (case ws_last st of None \<Rightarrow> False
               | Some (prevRid, prevSettles) \<Rightarrow> rid \<noteq> prevRid + 1 \<or> settles \<le> prevSettles \<or> gap < rint (settles - prevSettles))
         then None
         else Some \<lparr>ws_reward = ws_reward st + reward,
           ws_first = (case ws_first st of None \<Rightarrow> Some settles | f \<Rightarrow> f), ws_last = Some (rid, settles)\<rparr>)"

fun scan_reward_rows :: "int \<Rightarrow> int \<Rightarrow> int \<Rightarrow> jsval list \<Rightarrow> window_scan \<Rightarrow> window_scan option" where
  "scan_reward_rows start stop gap [] st = Some st"
| "scan_reward_rows start stop gap (row # rows) st =
     (case scan_reward_row start stop gap row st of None \<Rightarrow> None | Some st' \<Rightarrow> scan_reward_rows start stop gap rows st')"

record window_options =
  wo_start :: jsval
  wo_end :: jsval
  wo_minutes :: jsval
  wo_cadence :: jsnum
  wo_maxRows :: jsval
  wo_observedAt :: jsval
  wo_watermark :: jsval
  wo_staleness :: jsval
  wo_gap :: jsval

text \<open>The options after the defaults: safe integers, in the order the guard tests them.\<close>

definition window_bounds :: "window_options \<Rightarrow> nat \<Rightarrow> (int \<times> int \<times> int) option" where
  "window_bounds opts count =
     (case (safe_int (with_default (wo_maxRows opts) (IntV 1000)), safe_int (wo_start opts), safe_int (wo_end opts),
        safe_int (Num (wo_cadence opts)), safe_int (with_default (wo_observedAt opts) (wo_end opts)),
        safe_int (with_default (wo_watermark opts) (wo_end opts)),
        safe_int (with_default (wo_staleness opts) (Num (num_mul (wo_cadence opts) (Fin 3)))),
        safe_int (with_default (wo_gap opts) (Num (num_add (wo_cadence opts) (Fin 5))))) of
        (Some maxRows, Some start, Some stop, Some cadence, Some observed, Some watermark, Some staleness, Some gap) \<Rightarrow>
          if count = 0 \<or> maxRows \<le> 0 \<or> maxRows \<le> int count \<or> start < 0 \<or> stop \<le> start
             \<or> \<not> finitePositive (wo_minutes opts) \<or> cadence \<le> 0 \<or> staleness \<le> 0 \<or> gap \<le> 0
             \<or> watermark \<noteq> stop \<or> observed < watermark \<or> staleness < rint (observed - watermark)
          then None else Some (start, stop, gap)
      | _ \<Rightarrow> None)"

definition summariseStakingRewardWindow :: "jsval list option \<Rightarrow> window_options \<Rightarrow> reward_window" where
  "summariseStakingRewardWindow rows opts = (case rows of
       None \<Rightarrow> incompleteWindow (wo_minutes opts) 0
     | Some rs \<Rightarrow> (case window_bounds opts (length rs) of
         None \<Rightarrow> incompleteWindow (wo_minutes opts) (length rs)
       | Some (start, stop, gap) \<Rightarrow>
           (case scan_reward_rows start stop gap rs \<lparr>ws_reward = 0, ws_first = None, ws_last = None\<rparr> of
              None \<Rightarrow> incompleteWindow (wo_minutes opts) (length rs)
            | Some st \<Rightarrow>
                (let full = (map_option snd (ws_last st) = Some stop
                       \<and> (case ws_first st of None \<Rightarrow> False | Some f \<Rightarrow> f < rint (start + gap))) in
                 \<lparr>rw_complete = full, rw_minutes = wo_minutes opts, rewardLamports = (if full then ws_reward st else 0),
                  rw_rounds = length rs, firstSettlesAt = ws_first st, lastSettlesAt = map_option snd (ws_last st)\<rparr>))))"

definition settles_num :: "jsval \<Rightarrow> jsnum" where
  "settles_num row = to_num (opt_member row ''settles_at'')"

text \<open>The inner loop: the index of the first row of the candidate.\<close>

fun window_from :: "jsval list \<Rightarrow> jsnum \<Rightarrow> nat \<Rightarrow> nat" where
  "window_from rows start 0 = 0"
| "window_from rows start (Suc i) = (if num_le start (settles_num (rows ! i)) then window_from rows start i else Suc i)"

definition window_candidate ::
  "jsval list \<Rightarrow> jsval \<Rightarrow> int \<Rightarrow> int \<Rightarrow> jsval \<Rightarrow> nat \<Rightarrow> reward_window option" where
  "window_candidate rows windowMinutes cadence observed maxRows endIndex =
     (case safe_int (Num (settles_num (rows ! endIndex))) of
        None \<Rightarrow> None
      | Some stop \<Rightarrow>
          if observed < stop then None
          else (let start = num_sub (Fin (of_int stop)) (num_round (num_mul (num_val windowMinutes) (Fin 60)));
                    from = window_from rows start endIndex;
                    candidate = drop from (take (Suc endIndex) rows);
                    summary = summariseStakingRewardWindow (Some candidate)
                      \<lparr>wo_start = Num start, wo_end = IntV stop, wo_minutes = windowMinutes, wo_cadence = Fin (of_int cadence),
                       wo_maxRows = maxRows, wo_observedAt = IntV observed, wo_watermark = IntV stop,
                       wo_staleness = IntV MAX_SAFE_INTEGER, wo_gap = Num (num_add (Fin (of_int cadence)) (Fin 5))\<rparr> in
                if rw_complete summary then Some summary else None))"

text \<open>The outer loop, from the last row down.\<close>

fun search_window :: "(nat \<Rightarrow> reward_window option) \<Rightarrow> nat \<Rightarrow> reward_window option" where
  "search_window candidate 0 = None"
| "search_window candidate (Suc e) = (case candidate e of Some w \<Rightarrow> Some w | None \<Rightarrow> search_window candidate e)"

text \<open>The guards both selections share: cadence and observation time as integers.\<close>

definition window_args :: "jsval list \<Rightarrow> jsval \<Rightarrow> jsval \<Rightarrow> jsval \<Rightarrow> jsval \<Rightarrow> (int \<times> int) option" where
  "window_args rows windowMinutes roundCadenceSeconds observedAt maxRows =
     (case (safe_int roundCadenceSeconds, safe_int observedAt) of
        (Some cadence, Some observed) \<Rightarrow>
          if rows = [] \<or> num_le (to_num (with_default maxRows (IntV 1000))) (Fin (of_nat (length rows)))
             \<or> \<not> finitePositive windowMinutes \<or> cadence \<le> 0
          then None else Some (cadence, observed)
      | _ \<Rightarrow> None)"

definition selectLatestCompleteStakingRewardWindow ::
  "jsval list \<Rightarrow> jsval \<Rightarrow> jsval \<Rightarrow> jsval \<Rightarrow> jsval \<Rightarrow> reward_window option" where
  "selectLatestCompleteStakingRewardWindow rows windowMinutes roundCadenceSeconds observedAt maxRows =
     (case window_args rows windowMinutes roundCadenceSeconds observedAt maxRows of
        None \<Rightarrow> None
      | Some (cadence, observed) \<Rightarrow>
          search_window (window_candidate rows windowMinutes cadence observed maxRows) (length rows))"

text \<open>The fallback: rows accepted from the newest down, latest first in the scan, returned oldest first.\<close>

fun fallback_rows ::
  "int \<Rightarrow> int \<Rightarrow> jsnum \<Rightarrow> jsval list \<Rightarrow> (int \<times> int \<times> int) list \<Rightarrow> (int \<times> int \<times> int) list" where
  "fallback_rows cadence observed target [] accepted = accepted"
| "fallback_rows cadence observed target (row # older) accepted =
     (case (case reward_row row of Some (rid, settles, reward) \<Rightarrow>
              if settles \<le> observed then Some (rid, settles, reward) else None | None \<Rightarrow> None) of
        None \<Rightarrow> if accepted = [] then fallback_rows cadence observed target older accepted else accepted
      | Some (rid, settles, reward) \<Rightarrow>
          if (case accepted of [] \<Rightarrow> False
              | (nextRid, laterSettles, _) # _ \<Rightarrow> rid + 1 \<noteq> nextRid \<or> rint (laterSettles - settles) \<le> 0
                  \<or> num_lt (num_add (Fin (of_int cadence)) (Fin 5)) (Fin (of_int (rint (laterSettles - settles)))))
          then accepted
          else if num_le target (num_mul (Fin (of_nat (length accepted + 1))) (Fin (of_int cadence)))
          then (rid, settles, reward) # accepted
          else fallback_rows cadence observed target older ((rid, settles, reward) # accepted))"

record verified_window =
  vw_window :: reward_window
  vw_requested :: "jsval option"
  isPartial :: bool

definition fallback_window ::
  "jsval list \<Rightarrow> jsval \<Rightarrow> int \<Rightarrow> int \<Rightarrow> int \<Rightarrow> verified_window option" where
  "fallback_window rows windowMinutes cadence observed minimum =
     (let target = num_round (num_mul (num_val windowMinutes) (Fin 60));
          accepted = fallback_rows cadence observed target (rev rows) [] in
      if int (length accepted) < minimum then None
      else (let observedSeconds = num_min target (num_mul (Fin (of_nat (length accepted))) (Fin (of_int cadence)));
                effective = num_div observedSeconds (Fin 60) in
        Some \<lparr>vw_window = \<lparr>rw_complete = True, rw_minutes = Num effective,
                rewardLamports = sum_list (map (\<lambda>(rid, settles, reward). reward) accepted), rw_rounds = length accepted,
                firstSettlesAt = Some (fst (snd (hd accepted))), lastSettlesAt = Some (fst (snd (last accepted)))\<rparr>,
              vw_requested = Some windowMinutes, isPartial = num_lt effective (num_val windowMinutes)\<rparr>))"

definition selectLatestVerifiedStakingRewardWindow ::
  "jsval list \<Rightarrow> jsval \<Rightarrow> jsval \<Rightarrow> jsval \<Rightarrow> jsval \<Rightarrow> jsval \<Rightarrow> verified_window option" where
  "selectLatestVerifiedStakingRewardWindow rows windowMinutes roundCadenceSeconds observedAt maxRows minimumFallbackRounds =
     (case selectLatestCompleteStakingRewardWindow rows windowMinutes roundCadenceSeconds observedAt maxRows of
        Some exact \<Rightarrow> Some \<lparr>vw_window = exact, vw_requested = None, isPartial = False\<rparr>
      | None \<Rightarrow>
          (case (window_args rows windowMinutes roundCadenceSeconds observedAt maxRows,
                 safe_int (with_default minimumFallbackRounds (IntV 1))) of
             (Some (cadence, observed), Some minimum) \<Rightarrow>
               if minimum < 1 then None else fallback_window rows windowMinutes cadence observed minimum
           | _ \<Rightarrow> None))"

section \<open>A complete window leaves nothing out\<close>

text \<open>Consecutive rounds, each settled after the one before it and no later than the gap allows.\<close>

fun contiguous :: "int \<Rightarrow> (int \<times> int \<times> int) list \<Rightarrow> bool" where
  "contiguous gap ((rid, settles, reward) # (rid', settles', reward') # xs) =
     (rid' = rid + 1 \<and> settles < settles' \<and> settles' - settles \<le> gap \<and> contiguous gap ((rid', settles', reward') # xs))"
| "contiguous gap _ = True"

lemma scan_rows_sound:
  assumes "scan_reward_rows start stop gap rows st = Some st'" "0 \<le> start" "stop < 2 ^ 53"
    and "case ws_last st of None \<Rightarrow> True | Some (r, s) \<Rightarrow> start \<le> s \<and> s \<le> stop"
  shows "\<exists>xs. map reward_row rows = map Some xs \<and> ws_reward st' = ws_reward st + sum_list (map (\<lambda>x. snd (snd x)) xs)
    \<and> (\<forall>(rid, settles, reward) \<in> set xs. start \<le> settles \<and> settles \<le> stop)
    \<and> (case ws_last st of None \<Rightarrow> contiguous gap xs | Some (r, s) \<Rightarrow> contiguous gap ((r, s, 0) # xs))
    \<and> (xs \<noteq> [] \<longrightarrow> map_option snd (ws_last st') = Some (fst (snd (last xs))))
    \<and> ws_first st' = (case ws_first st of Some f \<Rightarrow> Some f
        | None \<Rightarrow> (case xs of [] \<Rightarrow> None | x # _ \<Rightarrow> Some (fst (snd x))))"
  using assms(1,4)
proof (induction rows arbitrary: st)
  case Nil
  then show ?case by (auto split: option.splits)
next
  case (Cons row rows)
  from Cons.prems(1) obtain mid where mid: "scan_reward_row start stop gap row st = Some mid"
      "scan_reward_rows start stop gap rows mid = Some st'"
    by (auto split: option.splits)
  then obtain rid settles reward where row: "reward_row row = Some (rid, settles, reward)"
      "start \<le> settles" "settles \<le> stop"
      "case ws_last st of None \<Rightarrow> True
         | Some (r, s) \<Rightarrow> rid = r + 1 \<and> s < settles \<and> rint (settles - s) \<le> gap"
    and midv: "mid = \<lparr>ws_reward = ws_reward st + reward,
           ws_first = (case ws_first st of None \<Rightarrow> Some settles | f \<Rightarrow> f), ws_last = Some (rid, settles)\<rparr>"
    by (auto simp: scan_reward_row_def split: option.splits prod.splits if_splits)
  obtain xs where xs: "map reward_row rows = map Some xs" "ws_reward st' = ws_reward mid + sum_list (map (\<lambda>x. snd (snd x)) xs)"
      "\<forall>(rid, settles, reward) \<in> set xs. start \<le> settles \<and> settles \<le> stop"
      "contiguous gap ((rid, settles, 0) # xs)"
      "xs \<noteq> [] \<longrightarrow> map_option snd (ws_last st') = Some (fst (snd (last xs)))"
      "ws_first st' = ws_first mid"
    using Cons.IH[OF mid(2)] row(2,3) midv by (auto split: option.splits)
  have last: "map_option snd (ws_last st') = Some (fst (snd (last ((rid, settles, reward) # xs))))"
  proof (cases xs)
    case Nil
    then have "rows = []" using xs(1) by simp
    then show ?thesis using mid(2) midv Nil by auto
  next
    case (Cons y ys)
    then show ?thesis using xs(5) by simp
  qed
  have cont: "contiguous gap ((rid, settles, reward) # xs)" using xs(4) by (cases xs) (auto split: prod.splits)
  have chain: "case ws_last st of None \<Rightarrow> contiguous gap ((rid, settles, reward) # xs)
      | Some (r, s) \<Rightarrow> contiguous gap ((r, s, 0) # (rid, settles, reward) # xs)"
  proof (cases "ws_last st")
    case None
    then show ?thesis using cont by simp
  next
    case (Some p)
    obtain r s where p: "p = (r, s)" by (cases p)
    have "start \<le> s" "s \<le> stop" using Cons.prems(2) Some p by simp_all
    then have "\<bar>settles - s\<bar> \<le> 2 ^ 53" using row(2,3) assms(2,3) by (simp add: abs_le_iff)
    then show ?thesis using cont row(4) Some p by (simp add: rint_small)
  qed
  show ?case
    using xs row(1-3) midv last chain
    by (intro exI[of _ "(rid, settles, reward) # xs"]) (auto split: option.splits)
qed

text \<open>
  A reward window is reported complete only when it leaves nothing out: its rows are resolved rounds with
  consecutive ids, each settled strictly after the one before and within the allowed gap, all inside
  the window, the last at the watermark and the first within one gap of the left edge; and the reward
  is the exact sum of the indexed net staking fees. Otherwise no reward is reported.
\<close>

theorem complete_window_exact:
  assumes "summariseStakingRewardWindow (Some rows) opts = w"
  shows "if rw_complete w then
      (\<exists>xs start stop gap. map reward_row rows = map Some xs \<and> xs \<noteq> []
         \<and> wo_start opts = IntV start \<and> wo_end opts = IntV stop
         \<and> safe_int (with_default (wo_gap opts) (Num (num_add (wo_cadence opts) (Fin 5)))) = Some gap
         \<and> contiguous gap xs \<and> (\<forall>(rid, settles, reward) \<in> set xs. start \<le> settles \<and> settles \<le> stop)
         \<and> fst (snd (last xs)) = stop \<and> fst (snd (hd xs)) < start + gap
         \<and> rewardLamports w = sum_list (map (\<lambda>x. snd (snd x)) xs))
    else rewardLamports w = 0"
proof (cases "rw_complete w")
  case False
  then show ?thesis using assms
    by (auto simp: summariseStakingRewardWindow_def incompleteWindow_def Let_def split: option.splits prod.splits)
next
  case True
  define st0 :: window_scan where "st0 = \<lparr>ws_reward = 0, ws_first = None, ws_last = None\<rparr>"
  from True assms obtain start stop gap st f where b: "window_bounds opts (length rows) = Some (start, stop, gap)"
      and sc: "scan_reward_rows start stop gap rows st0 = Some st"
      and lst: "map_option snd (ws_last st) = Some stop" and fst: "ws_first st = Some f" "f < rint (start + gap)"
      and rw: "rewardLamports w = ws_reward st"
    by (auto simp: summariseStakingRewardWindow_def incompleteWindow_def Let_def st0_def split: option.splits prod.splits)
  have opts: "wo_start opts = IntV start" "wo_end opts = IntV stop" "0 \<le> start" "0 < gap" "safe_num stop" "safe_num start"
      "safe_num gap"
      "safe_int (with_default (wo_gap opts) (Num (num_add (wo_cadence opts) (Fin 5)))) = Some gap"
    using b by (auto simp: window_bounds_def safe_int_Some split: option.splits if_splits)
  have "stop < 2 ^ 53" using opts(5) by (simp add: safe_num_iff)
  from scan_rows_sound[OF sc opts(3) this] obtain xs where xs: "map reward_row rows = map Some xs"
      "ws_reward st = sum_list (map (\<lambda>x. snd (snd x)) xs)" "\<forall>(rid, settles, reward) \<in> set xs. start \<le> settles \<and> settles \<le> stop"
      "contiguous gap xs" "xs \<noteq> [] \<longrightarrow> map_option snd (ws_last st) = Some (fst (snd (last xs)))"
      "ws_first st = (case xs of [] \<Rightarrow> None | x # _ \<Rightarrow> Some (fst (snd x)))"
    by (auto simp: st0_def)
  have ne: "xs \<noteq> []" using xs(6) fst(1) by (cases xs) auto
  have "fst (snd (hd xs)) = f" using xs(6) fst(1) ne by (cases xs) auto
  moreover have "f < start + gap"
  proof (cases "start + gap \<le> 2 ^ 53")
    case True
    then show ?thesis using fst(2) opts(3,4) by (simp add: rint_small)
  next
    case False
    have "f \<le> stop" using xs(3) ne \<open>fst (snd (hd xs)) = f\<close> by (cases xs) auto
    then show ?thesis using False \<open>stop < 2 ^ 53\<close> by simp
  qed
  moreover have "fst (snd (last xs)) = stop" using xs(5) ne lst by simp
  ultimately show ?thesis
    using True xs(1-4) ne opts(1,2,8) rw by auto
qed

definition demo_reward_row :: "int \<Rightarrow> int \<Rightarrow> int \<Rightarrow> jsval" where
  "demo_reward_row rid settles reward = Obj [(''round_id'', IntV rid), (''settles_at'', IntV settles),
     (''staking_net_lamports'', Big reward), (''resolved'', Bool True)]"

definition demo_window_options :: window_options where
  "demo_window_options = \<lparr>wo_start = IntV 1000, wo_end = IntV 1130, wo_minutes = IntV 2, wo_cadence = Fin 65,
     wo_maxRows = Undef, wo_observedAt = IntV 1140, wo_watermark = Undef, wo_staleness = Undef, wo_gap = Undef\<rparr>"

theorem complete_window_exact_witness:
  "rw_complete (summariseStakingRewardWindow (Some [demo_reward_row 4 1065 30, demo_reward_row 5 1130 12]) demo_window_options)
   \<and> rewardLamports (summariseStakingRewardWindow (Some [demo_reward_row 4 1065 30, demo_reward_row 5 1130 12]) demo_window_options) = 42
   \<and> (\<exists>xs gap. map reward_row [demo_reward_row 4 1065 30, demo_reward_row 5 1130 12] = map Some xs \<and> contiguous gap xs)"
proof -
  have c: "rw_complete (summariseStakingRewardWindow (Some [demo_reward_row 4 1065 30, demo_reward_row 5 1130 12]) demo_window_options)"
    "rewardLamports (summariseStakingRewardWindow (Some [demo_reward_row 4 1065 30, demo_reward_row 5 1130 12]) demo_window_options) = 42"
    by code_simp+
  have "\<exists>xs gap. map reward_row [demo_reward_row 4 1065 30, demo_reward_row 5 1130 12] = map Some xs \<and> contiguous gap xs"
    using complete_window_exact[OF refl, of "[demo_reward_row 4 1065 30, demo_reward_row 5 1130 12]" demo_window_options]
    unfolding if_P[OF c(1)] by blast
  then show ?thesis using c by blast
qed

end
