(* ===== verification/Client_Reads.thy ===== *)
theory Client_Reads
  imports Round_Rewards
begin

text \<open>
  Small readers and builders of the client, \<open>Frontend/src/chain\<close>: \<open>token-account.js\<close>, \<open>referral-read-model.js\<close>,
  \<open>referral-code.js\<close>, \<open>confirmed-tile-bets.js\<close>, \<open>staking-totals.js\<close>, \<open>receipt-nonce.js\<close> and \<open>protocol-capabilities.js\<close>. The
  \<open>PublicKey\<close> constructor and the browser's random words are arguments.
\<close>

section \<open>Token accounts\<close>

definition tokenAmountFromRow :: "jsval \<Rightarrow> int option" where
  "tokenAmountFromRow row =
     (case to_bigint (coalesce (opt_member (opt_member (opt_member (opt_member (opt_member (opt_member row ''account'') ''data'')
         ''parsed'') ''info'') ''tokenAmount'') ''amount'') (IntV 0)) of
        Inl _ \<Rightarrow> None | Inr n \<Rightarrow> Some n)"

definition keyString :: "jsval \<Rightarrow> string" where
  "keyString k = to_str k"

definition funding_rows :: "int \<Rightarrow> jsval list \<Rightarrow> (jsval \<times> int) list" where
  "funding_rows required rows = concat (map (\<lambda>row. case tokenAmountFromRow row of
       Some amount \<Rightarrow> if truthy (opt_member row ''pubkey'') \<and> required \<le> amount then [(row, amount)] else []
     | None \<Rightarrow> []) rows)"

text \<open>\<open>candidates.reduce((largest, candidate) => candidate.amount > largest.amount ? candidate : largest)\<close>\<close>

definition largest_row :: "jsval \<times> int \<Rightarrow> (jsval \<times> int) list \<Rightarrow> jsval \<times> int" where
  "largest_row c cs = fold (\<lambda>candidate largest. if snd largest < snd candidate then candidate else largest) cs c"

definition is_preferred :: "jsval \<Rightarrow> jsval \<times> int \<Rightarrow> bool" where
  "is_preferred preferredAddress candidate = (\<not> nullish preferredAddress
     \<and> keyString (opt_member (fst candidate) ''pubkey'') = keyString preferredAddress)"

definition selectTokenAccountForAmount :: "jsval list \<Rightarrow> jsval \<Rightarrow> jsval \<Rightarrow> jsval option res" where
  "selectTokenAccountForAmount rows requiredAmount preferredAddress =
     then_res (toBigInt requiredAmount) (\<lambda>required.
     case funding_rows required rows of
       [] \<Rightarrow> Inr None
     | c # cs \<Rightarrow>
         Inr (Some (opt_member (fst (case find (is_preferred preferredAddress) (c # cs) of
           Some candidate \<Rightarrow> candidate | None \<Rightarrow> largest_row c cs)) ''pubkey'')))"

definition tokenAccountBalance :: "jsval list \<Rightarrow> int" where
  "tokenAccountBalance rows = fold (\<lambda>row sum. case tokenAmountFromRow row of None \<Rightarrow> sum | Some n \<Rightarrow> sum + n) rows 0"

section \<open>Referral read model\<close>

definition MAX_REFERRAL_PAGE_SIZE :: int where "MAX_REFERRAL_PAGE_SIZE = 100"
definition MAX_REFERRAL_OFFSET :: int where "MAX_REFERRAL_OFFSET = 10000"

definition exactUnits :: "jsval \<Rightarrow> int res" where
  "exactUnits v = to_bigint (coalesce v (IntV 0))"

definition safeCount :: "jsval \<Rightarrow> string \<Rightarrow> int res" where
  "safeCount v label = then_res (to_bigint (coalesce v (IntV 0))) (\<lambda>count.
     throw_if (count < 0 \<or> MAX_SAFE_INTEGER < count) (RangeError (label @ '' is outside the safe UI count range'')) (Inr count))"

text \<open>\<open>Number.isFinite(Number(v)) ? Math.trunc(Number(v)) : d\<close>\<close>

definition trunc_or :: "jsval \<Rightarrow> int \<Rightarrow> int" where
  "trunc_or v d = (case to_num v of Fin x \<Rightarrow> if 0 \<le> x then \<lfloor>x\<rfloor> else - \<lfloor>- x\<rfloor> | _ \<Rightarrow> d)"

definition boundedReferralPage :: "jsval \<Rightarrow> jsval \<Rightarrow> int \<times> int" where
  "boundedReferralPage limit offset =
     (min MAX_REFERRAL_PAGE_SIZE (max 1 (trunc_or (with_default limit (IntV 50)) 50)),
      min MAX_REFERRAL_OFFSET (max 0 (trunc_or (with_default offset (IntV 0)) 0)))"

record referral_stats =
  lifetime :: int
  referrals :: int
  active_referrals :: int

definition referralStatsFromRow :: "jsval \<Rightarrow> referral_stats res" where
  "referralStatsFromRow row =
     then_res (exactUnits (opt_member row ''earned_base_units'')) (\<lambda>earned.
     then_res (safeCount (opt_member row ''referrals'') ''Referral count'') (\<lambda>count.
     then_res (safeCount (opt_member row ''active'') ''Active referral count'') (\<lambda>act.
     Inr \<lparr>lifetime = earned, referrals = count, active_referrals = act\<rparr>)))"

definition referralNetworkFromRow :: "jsval \<Rightarrow> (string \<times> bool \<times> int) res" where
  "referralNetworkFromRow row =
     then_res (member row ''referred_wallet'') (\<lambda>wallet.
     then_res (exactUnits (opt_member row ''earned_base_units'')) (\<lambda>earned.
     Inr (to_str wallet, truthy (opt_member row ''active''), earned)))"

definition referralLeaderFromRow :: "jsval \<Rightarrow> (string \<times> referral_stats) res" where
  "referralLeaderFromRow row =
     then_res (referralStatsFromRow row) (\<lambda>stats.
     then_res (member row ''wallet_address'') (\<lambda>wallet. Inr (to_str wallet, stats)))"

section \<open>Referral codes\<close>

definition REFERRAL_CODE_LENGTH :: nat where "REFERRAL_CODE_LENGTH = 10"

definition base58_char :: "char \<Rightarrow> bool" where
  "base58_char c = (c \<in> set ''123456789ABCDEFGHJKLMNPQRSTUVWXYZabcdefghijkmnopqrstuvwxyz'')"

definition REFERRAL_CODE_PATTERN :: "string \<Rightarrow> bool" where
  "REFERRAL_CODE_PATTERN s = (length s = REFERRAL_CODE_LENGTH \<and> list_all base58_char s)"

text \<open>\<open>toKey\<close> is \<open>new PublicKey(text).toBase58()\<close>, which throws on a text that is no key.\<close>

definition canonicalSolanaAddress :: "(string \<Rightarrow> string res) \<Rightarrow> jsval \<Rightarrow> string option" where
  "canonicalSolanaAddress toKey v = (case toKey (trim (to_str (coalesce v (Str [])))) of Inl _ \<Rightarrow> None | Inr s \<Rightarrow> Some s)"

definition referralCodeFor :: "(string \<Rightarrow> string res) \<Rightarrow> jsval \<Rightarrow> string option" where
  "referralCodeFor toKey address = (case canonicalSolanaAddress toKey address of
       None \<Rightarrow> None
     | Some canonical \<Rightarrow> if canonical = [] then None else Some (slice_last REFERRAL_CODE_LENGTH canonical))"

definition isReferralCode :: "jsval \<Rightarrow> bool" where
  "isReferralCode v = REFERRAL_CODE_PATTERN (trim (to_str (coalesce v (Str []))))"

definition referralLinkFor :: "(string \<Rightarrow> string res) \<Rightarrow> string \<Rightarrow> jsval \<Rightarrow> string" where
  "referralLinkFor toKey base address = (case referralCodeFor toKey address of
       None \<Rightarrow> base
     | Some code \<Rightarrow> if code = [] then base else base @ ''?ref='' @ code)"

text \<open>\<open>.replace(/^https?:\/\//, '')\<close>\<close>

definition compactReferralLink :: "(string \<Rightarrow> string res) \<Rightarrow> string \<Rightarrow> jsval \<Rightarrow> string" where
  "compactReferralLink toKey base address = (let link = referralLinkFor toKey base address in
     if take 8 link = ''https://'' then drop 8 link else if take 7 link = ''http://'' then drop 7 link else link)"

section \<open>Bets, stakes, nonces and features\<close>

definition bet_at :: "jsval \<Rightarrow> nat \<Rightarrow> jsval" where
  "bet_at bets i = (case bets of Arr vs \<Rightarrow> if i < length vs then coalesce (vs ! i) (Big 0) else Big 0
     | _ \<Rightarrow> coalesce (opt_member bets (show_nat i)) (Big 0))"

definition mergeConfirmedTileBets :: "jsval \<Rightarrow> jsval \<Rightarrow> nat \<Rightarrow> int list res" where
  "mergeConfirmedTileBets onChainBets localBets tileCount = map_res (\<lambda>i.
     then_res (to_bigint (bet_at onChainBets i)) (\<lambda>chain.
     then_res (to_bigint (bet_at localBets i)) (\<lambda>confirmed.
     Inr (if confirmed \<le> chain then chain else confirmed)))) [0..<tileCount]"

definition totalStakedBaseUnits :: "jsval \<Rightarrow> jsval \<Rightarrow> int res" where
  "totalStakedBaseUnits standard burn = then_res (toBigInt standard) (\<lambda>a. then_res (toBigInt burn) (\<lambda>b. Inr (a + b)))"

definition totalStakedMyne :: "jsval \<Rightarrow> jsval \<Rightarrow> jsnum res" where
  "totalStakedMyne standard burn = then_res (totalStakedBaseUnits standard burn) (\<lambda>n.
     Inr (num_div (to_num (Big n)) (Fin 1000000000)))"

text \<open>The two 32-bit words the browser's generator fills in, \<open>None\<close> when it is missing.\<close>

definition createReceiptNonce :: "(int \<times> int) option \<Rightarrow> int res" where
  "createReceiptNonce words = (case words of
       None \<Rightarrow> Inl (Error ''Secure randomness is unavailable in this browser'')
     | Some (hi, lo) \<Rightarrow> Inr (or (push_bit 32 hi) lo))"

definition FEATURE_REQUIREMENTS :: "(string \<times> string list) list" where
  "FEATURE_REQUIREMENTS =
     [(''configuration'', [''initialize_protocol'', ''initialize_liquidity_gate'', ''set_paused'', ''propose_admin'',
         ''accept_admin'', ''set_randomness_authority'']),
      (''mining'', [''open_round'', ''bind_round_randomness'', ''record_round_randomness_commit'', ''register_miner'',
         ''deploy'', ''settle_round_verified'', ''claim_receipt'', ''refund_receipt'', ''claim_myne'']),
      (''staking'', [''stake_standard'', ''burn_stake'', ''burn_unclaimed_myne'', ''request_unstake'',
         ''withdraw_unstaked'', ''claim_staking_rewards'', ''fund_staking_rewards'']),
      (''referrals'', [''register_miner'', ''claim_myne'']),
      (''autoRound'', [''create_auto_plan'', ''configure_auto_plan'', ''fund_auto_plan'', ''cancel_auto_plan'',
         ''execute_auto_plan'', ''claim_auto_burn_receipt'']),
      (''autoReinvest'', [''reinvest_auto_plan_rewards'']),
      (''swaps'', [''__meteora_pool_configured__''])]"

text \<open>The instruction names of an IDL; each feature with its readiness and missing instructions.\<close>

definition capabilitiesFromIdl :: "string list \<Rightarrow> (string \<times> bool \<times> string list) list" where
  "capabilitiesFromIdl available = map (\<lambda>(feature, required).
     (let missing = filter (\<lambda>i. i \<notin> set available) required in (feature, missing = [], missing))) FEATURE_REQUIREMENTS"

section \<open>What the readers guarantee\<close>

text \<open>Caller-controlled page values never leave the bounds.\<close>

lemma boundedReferralPage_bounds:
  "case boundedReferralPage limit offset of (l, s) \<Rightarrow> 1 \<le> l \<and> l \<le> 100 \<and> 0 \<le> s \<and> s \<le> 10000"
  by (simp add: boundedReferralPage_def MAX_REFERRAL_PAGE_SIZE_def MAX_REFERRAL_OFFSET_def)

text \<open>A selected token account can always fund the instruction.\<close>

lemma funding_rows_enough:
  "(row, n) \<in> set (funding_rows required rows) \<Longrightarrow>
   row \<in> set rows \<and> tokenAmountFromRow row = Some n \<and> required \<le> n \<and> truthy (opt_member row ''pubkey'')"
  by (auto simp: funding_rows_def split: option.splits if_splits)

lemma largest_row_in: "largest_row c cs \<in> set (c # cs)"
proof (induction cs arbitrary: c)
  case Nil
  show ?case by (simp add: largest_row_def)
next
  case (Cons x cs)
  have "largest_row c (x # cs) = largest_row (if snd c < snd x then x else c) cs" by (simp add: largest_row_def)
  then show ?case using Cons[of "if snd c < snd x then x else c"] by (cases "snd c < snd x") auto
qed

lemma selectTokenAccount_funds:
  assumes "selectTokenAccountForAmount rows requiredAmount preferred = Inr (Some key)" "toBigInt requiredAmount = Inr required"
  shows "\<exists>row \<in> set rows. \<exists>n. opt_member row ''pubkey'' = key \<and> tokenAmountFromRow row = Some n \<and> required \<le> n"
proof (cases "funding_rows required rows")
  case Nil
  then show ?thesis using assms by (simp add: selectTokenAccountForAmount_def)
next
  case (Cons c cs)
  define chosen where "chosen = (case find (is_preferred preferred) (c # cs) of Some x \<Rightarrow> x | None \<Rightarrow> largest_row c cs)"
  have "chosen \<in> set (c # cs)"
  proof (cases "find (is_preferred preferred) (c # cs)")
    case None
    then show ?thesis using largest_row_in by (simp add: chosen_def)
  next
    case (Some x)
    then obtain i where "i < length (c # cs)" "x = (c # cs) ! i" using find_Some_iff[of "is_preferred preferred" "c # cs" x] by auto
    then have "x \<in> set (c # cs)" by (metis nth_mem)
    then show ?thesis unfolding chosen_def Some by simp
  qed
  moreover have "opt_member (fst chosen) ''pubkey'' = key"
    using assms Cons by (simp add: selectTokenAccountForAmount_def chosen_def)
  ultimately show ?thesis using funding_rows_enough[of "fst chosen" "snd chosen" required rows] Cons by auto
qed

text \<open>A feature is ready exactly when the program has every instruction it needs.\<close>

lemma capabilities_ready:
  assumes "(feature, ready, missing) \<in> set (capabilitiesFromIdl available)"
  shows "\<exists>required. (feature, required) \<in> set FEATURE_REQUIREMENTS \<and> (ready \<longleftrightarrow> set required \<subseteq> set available)
    \<and> missing = filter (\<lambda>i. i \<notin> set available) required"
  using assms unfolding capabilitiesFromIdl_def Let_def by (auto simp: filter_empty_conv)

end
