(* ===== verification/Js_Io.thy ===== *)
theory Js_Io
  imports Js_Values
begin

text \<open>
  Asynchronous code with effects. A computation reads and changes a world \<open>'w\<close>, which stands for everything
  outside the program (chain, database, clock), and appends to a trace of events \<open>'e\<close>: what it read, what it sent
  and what it reported. Effects stay when the computation throws. The world's operations are arguments of the
  programs, so a theorem about a trace holds for every behaviour of the outside. \<open>wp\<close> is the weakest
  precondition of a computation, with one postcondition for its value and one for its exception; the rules in
  \<open>wp_simps\<close> compute it, and loops have invariant rules.
\<close>

named_theorems wp_simps \<open>weakest preconditions of the effect combinators\<close>

section \<open>Computations\<close>

type_synonym ('w, 'e, 'a) io = "'w \<times> 'e list \<Rightarrow> 'a res \<times> 'w \<times> 'e list"

definition ok_io :: "'a \<Rightarrow> ('w, 'e, 'a) io" where
  "ok_io x = (\<lambda>s. (Inr x, s))"

definition fail_io :: "js_error \<Rightarrow> ('w, 'e, 'a) io" where
  "fail_io e = (\<lambda>s. (Inl e, s))"

definition lift_io :: "'a res \<Rightarrow> ('w, 'e, 'a) io" where
  "lift_io r = (\<lambda>s. (r, s))"

definition then_io :: "('w, 'e, 'a) io \<Rightarrow> ('a \<Rightarrow> ('w, 'e, 'b) io) \<Rightarrow> ('w, 'e, 'b) io" where
  "then_io m f = (\<lambda>s. case m s of (Inl e, s') \<Rightarrow> (Inl e, s') | (Inr x, s') \<Rightarrow> f x s')"

text \<open>\<open>try { m } catch (e) { h(e) }\<close>\<close>

definition catch_io :: "('w, 'e, 'a) io \<Rightarrow> (js_error \<Rightarrow> ('w, 'e, 'a) io) \<Rightarrow> ('w, 'e, 'a) io" where
  "catch_io m h = (\<lambda>s. case m s of (Inl e, s') \<Rightarrow> h e s' | (Inr x, s') \<Rightarrow> (Inr x, s'))"

definition assert_io :: "bool \<Rightarrow> string \<Rightarrow> ('w, 'e, 'a) io \<Rightarrow> ('w, 'e, 'a) io" where
  "assert_io c msg k = (if c then k else fail_io (AssertionError msg))"

definition log_io :: "'e \<Rightarrow> ('w, 'e, unit) io" where
  "log_io e = (\<lambda>(w, t). (Inr (), w, t @ [e]))"

text \<open>A call of an operation of the world; the event it leaves may depend on its answer.\<close>

definition call_io :: "('w \<Rightarrow> 'a res \<times> 'w) \<Rightarrow> ('a res \<Rightarrow> 'e) \<Rightarrow> ('w, 'e, 'a) io" where
  "call_io action event = (\<lambda>(w, t). case action w of (r, w') \<Rightarrow> (r, w', t @ [event r]))"

text \<open>A call that leaves no event.\<close>

definition read_io :: "('w \<Rightarrow> 'a res \<times> 'w) \<Rightarrow> ('w, 'e, 'a) io" where
  "read_io action = (\<lambda>(w, t). case action w of (r, w') \<Rightarrow> (r, w', t))"

text \<open>\<open>for (const x of xs) await f(x)\<close>, the same with an accumulator, and \<open>xs.map(f)\<close> awaited in order.\<close>

fun each_io :: "('a \<Rightarrow> ('w, 'e, unit) io) \<Rightarrow> 'a list \<Rightarrow> ('w, 'e, unit) io" where
  "each_io f [] = ok_io ()"
| "each_io f (x # xs) = then_io (f x) (\<lambda>_. each_io f xs)"

fun fold_io :: "('a \<Rightarrow> 's \<Rightarrow> ('w, 'e, 's) io) \<Rightarrow> 'a list \<Rightarrow> 's \<Rightarrow> ('w, 'e, 's) io" where
  "fold_io f [] acc = ok_io acc"
| "fold_io f (x # xs) acc = then_io (f x acc) (fold_io f xs)"

fun map_io :: "('a \<Rightarrow> ('w, 'e, 'b) io) \<Rightarrow> 'a list \<Rightarrow> ('w, 'e, 'b list) io" where
  "map_io f [] = ok_io []"
| "map_io f (x # xs) = then_io (f x) (\<lambda>y. then_io (map_io f xs) (\<lambda>ys. ok_io (y # ys)))"

section \<open>Weakest preconditions\<close>

definition wp ::
  "('w, 'e, 'a) io \<Rightarrow> ('a \<Rightarrow> 'w \<times> 'e list \<Rightarrow> bool) \<Rightarrow> (js_error \<Rightarrow> 'w \<times> 'e list \<Rightarrow> bool) \<Rightarrow> 'w \<times> 'e list \<Rightarrow> bool" where
  "wp m Q E s = (case m s of (Inl e, s') \<Rightarrow> E e s' | (Inr x, s') \<Rightarrow> Q x s')"

lemma wp_ok [wp_simps]: "wp (ok_io x) Q E = Q x"
  by (rule ext) (simp add: wp_def ok_io_def)

lemma wp_fail [wp_simps]: "wp (fail_io e) Q E = E e"
  by (rule ext) (simp add: wp_def fail_io_def)

lemma wp_lift [wp_simps]: "wp (lift_io r) Q E = (case r of Inl e \<Rightarrow> E e | Inr x \<Rightarrow> Q x)"
  by (rule ext) (simp add: wp_def lift_io_def split: sum.split)

lemma wp_then [wp_simps]: "wp (then_io m f) Q E = wp m (\<lambda>x. wp (f x) Q E) E"
  by (rule ext) (simp add: wp_def then_io_def split: prod.split sum.split)

lemma wp_catch [wp_simps]: "wp (catch_io m h) Q E = wp m Q (\<lambda>e. wp (h e) Q E)"
  by (rule ext) (simp add: wp_def catch_io_def split: prod.split sum.split)

lemma wp_assert [wp_simps]:
  "wp (assert_io c msg k) Q E = (if c then wp k Q E else E (AssertionError msg))"
  by (simp add: assert_io_def wp_fail)

lemma wp_log [wp_simps]: "wp (log_io e) Q E (w, t) = Q () (w, t @ [e])"
  by (simp add: wp_def log_io_def)

lemma wp_call [wp_simps]: "wp (call_io action event) Q E (w, t) =
    (case action w of (Inl e, w') \<Rightarrow> E e (w', t @ [event (Inl e)])
     | (Inr x, w') \<Rightarrow> Q x (w', t @ [event (Inr x)]))"
  by (simp add: wp_def call_io_def split: prod.split sum.split)

lemma wp_read [wp_simps]: "wp (read_io action) Q E (w, t) =
    (case action w of (Inl e, w') \<Rightarrow> E e (w', t) | (Inr x, w') \<Rightarrow> Q x (w', t))"
  by (simp add: wp_def read_io_def split: prod.split sum.split)

lemma wp_if [wp_simps]: "wp (if c then m else n) Q E = (if c then wp m Q E else wp n Q E)"
  by simp

lemma wp_mono:
  "wp m Q E s \<Longrightarrow> (\<And>x s'. Q x s' \<Longrightarrow> Q' x s') \<Longrightarrow> (\<And>e s'. E e s' \<Longrightarrow> E' e s') \<Longrightarrow> wp m Q' E' s"
  by (auto simp: wp_def split: prod.splits sum.splits)

lemma wp_conj: "wp m Q E s \<Longrightarrow> wp m Q' E' s \<Longrightarrow> wp m (\<lambda>x t. Q x t \<and> Q' x t) (\<lambda>e t. E e t \<and> E' e t) s"
  by (auto simp: wp_def split: prod.splits sum.splits)

lemma wpD: "wp m Q E s \<Longrightarrow> m s = (r, s') \<Longrightarrow> (case r of Inl e \<Rightarrow> E e s' | Inr x \<Rightarrow> Q x s')"
  by (auto simp: wp_def split: sum.splits)

lemma wpI: "(\<And>r s'. m s = (r, s') \<Longrightarrow> (case r of Inl e \<Rightarrow> E e s' | Inr x \<Rightarrow> Q x s')) \<Longrightarrow> wp m Q E s"
  by (auto simp: wp_def split: prod.splits sum.splits)

text \<open>Sequencing with an intermediate condition; the second rule is for a pair.\<close>

lemma wp_seq:
  assumes "wp m Q E s" "\<And>x s'. Q x s' \<Longrightarrow> wp (f x) Q' E s'"
  shows "wp (then_io m f) Q' E s"
  unfolding wp_then by (rule wp_mono[OF assms(1) assms(2)])

lemma wp_seq_pair:
  assumes "wp m (\<lambda>(x, y) s. Q x y s) E s" "\<And>x y s'. Q x y s' \<Longrightarrow> wp (f x y) Q' E s'"
  shows "wp (then_io m (\<lambda>(x, y). f x y)) Q' E s"
  by (rule wp_seq[OF assms(1)]) (use assms(2) in auto)

lemma wp_catch_rule:
  assumes "wp m Q F s" "\<And>e s'. F e s' \<Longrightarrow> wp (h e) Q E s'"
  shows "wp (catch_io m h) Q E s"
  unfolding wp_catch by (rule wp_mono[OF assms(1)]) (use assms(2) in auto)

lemma wp_returns: "wp m (\<lambda>r _. r = x) (\<lambda>_ _. False) s \<Longrightarrow> \<exists>w' t'. m s = (Inr x, w', t')"
  by (auto simp: wp_def split: prod.splits sum.splits)

text \<open>Invariant rules of the loops.\<close>

lemma wp_each:
  assumes "I s" and "\<And>x s. x \<in> set xs \<Longrightarrow> I s \<Longrightarrow> wp (f x) (\<lambda>_. I) E s"
  shows "wp (each_io f xs) (\<lambda>_. I) E s"
  using assms
proof (induction xs arbitrary: s)
  case Nil
  then show ?case by (simp add: wp_simps)
next
  case (Cons x xs)
  have "wp (f x) (\<lambda>_. I) E s" by (intro Cons.prems) simp_all
  then have "wp (f x) (\<lambda>_. wp (each_io f xs) (\<lambda>_. I) E) E s"
    by (rule wp_mono) (simp_all add: Cons.IH Cons.prems(2))
  then show ?case by (simp add: wp_simps)
qed

lemma wp_fold:
  assumes "I acc s" and "\<And>x acc s. x \<in> set xs \<Longrightarrow> I acc s \<Longrightarrow> wp (f x acc) I E s"
  shows "wp (fold_io f xs acc) I E s"
  using assms
proof (induction xs arbitrary: acc s)
  case Nil
  then show ?case by (simp add: wp_simps)
next
  case (Cons x xs)
  have "wp (f x acc) I E s" by (intro Cons.prems) simp_all
  then have "wp (f x acc) (\<lambda>y. wp (fold_io f xs y) I E) E s"
    by (rule wp_mono) (simp_all add: Cons.IH Cons.prems(2))
  then show ?case by (simp add: wp_simps)
qed

lemma wp_map:
  assumes "I s" and "\<And>x s. x \<in> set xs \<Longrightarrow> I s \<Longrightarrow> wp (f x) (\<lambda>_. I) E s"
  shows "wp (map_io f xs) (\<lambda>_. I) E s"
  using assms
proof (induction xs arbitrary: s)
  case Nil
  then show ?case by (simp add: wp_simps)
next
  case (Cons x xs)
  have "wp (f x) (\<lambda>_. I) E s" by (intro Cons.prems) simp_all
  then have "wp (f x) (\<lambda>_. wp (map_io f xs) (\<lambda>_. I) E) E s"
    by (rule wp_mono) (simp_all add: Cons.IH Cons.prems(2) wp_simps)
  then show ?case by (simp add: wp_simps)
qed

section \<open>Justified traces\<close>

text \<open>Every event of the trace is allowed by the events before it.\<close>

fun justified_after :: "('e list \<Rightarrow> 'e \<Rightarrow> bool) \<Rightarrow> 'e list \<Rightarrow> 'e list \<Rightarrow> bool" where
  "justified_after J before [] = True"
| "justified_after J before (e # es) = (J before e \<and> justified_after J (before @ [e]) es)"

definition justified :: "('e list \<Rightarrow> 'e \<Rightarrow> bool) \<Rightarrow> 'e list \<Rightarrow> bool" where
  "justified J t = justified_after J [] t"

lemma justified_after_append:
  "justified_after J before (xs @ ys) = (justified_after J before xs \<and> justified_after J (before @ xs) ys)"
  by (induction xs arbitrary: before) auto

lemma justified_Nil [simp]: "justified J []"
  by (simp add: justified_def)

lemma justified_snoc [simp]: "justified J (t @ [e]) = (justified J t \<and> J t e)"
  by (simp add: justified_def justified_after_append)

lemma justified_append [simp]: "justified J (s @ t) = (justified J s \<and> justified_after J s t)"
  by (simp add: justified_def justified_after_append)

lemma justified_iff: "justified J t \<longleftrightarrow> (\<forall>before e after. t = before @ e # after \<longrightarrow> J before e)"
proof (induction t rule: rev_induct)
  case Nil
  show ?case by simp
next
  case (snoc x t)
  show ?case
  proof
    assume "justified J (t @ [x])"
    then have t: "\<forall>before e after. t = before @ e # after \<longrightarrow> J before e" and x: "J t x"
      using snoc.IH by simp_all
    show "\<forall>before e after. t @ [x] = before @ e # after \<longrightarrow> J before e"
    proof (intro allI impI)
      fix before e after
      assume eq: "t @ [x] = before @ e # after"
      show "J before e"
      proof (cases after rule: rev_cases)
        case Nil
        then show ?thesis using eq x by simp
      next
        case (snoc ys y)
        then have "t = before @ e # ys" using eq by simp
        then show ?thesis using t by blast
      qed
    qed
  next
    assume all: "\<forall>before e after. t @ [x] = before @ e # after \<longrightarrow> J before e"
    have "J t x" using all by blast
    moreover have "\<forall>before e after. t = before @ e # after \<longrightarrow> J before e" using all by fastforce
    ultimately show "justified J (t @ [x])" using snoc.IH by simp
  qed
qed

text \<open>A computation that keeps a property of the state, whether it returns or throws.\<close>

definition keeps :: "('w \<times> 'e list \<Rightarrow> bool) \<Rightarrow> ('w, 'e, 'a) io \<Rightarrow> bool" where
  "keeps I m \<longleftrightarrow> (\<forall>s. I s \<longrightarrow> I (snd (m s)))"

lemma keeps_wp: "keeps I m \<longleftrightarrow> (\<forall>s. I s \<longrightarrow> wp m (\<lambda>_. I) (\<lambda>_. I) s)"
proof -
  have "wp m (\<lambda>_. I) (\<lambda>_. I) s = I (snd (m s))" for s
    by (simp add: wp_def split: prod.split sum.split)
  then show ?thesis by (simp add: keeps_def)
qed

lemma keepsD: "keeps I m \<Longrightarrow> I s \<Longrightarrow> wp m (\<lambda>_. I) (\<lambda>_. I) s"
  unfolding keeps_wp by blast

lemma keeps_result: "keeps I m \<Longrightarrow> I s \<Longrightarrow> m s = (r, s') \<Longrightarrow> I s'"
  unfolding keeps_def by (metis snd_conv)

lemma keeps_ok [intro!, simp]: "keeps I (ok_io x)"
  by (simp add: keeps_wp wp_simps)

lemma keeps_fail [intro!, simp]: "keeps I (fail_io e)"
  by (simp add: keeps_wp wp_simps)

lemma keeps_lift [intro!, simp]: "keeps I (lift_io r)"
  by (simp add: keeps_wp wp_simps split: sum.split)

lemma keeps_then [intro]: "keeps I m \<Longrightarrow> (\<And>x. keeps I (f x)) \<Longrightarrow> keeps I (then_io m f)"
  unfolding keeps_wp wp_then by (intro allI impI, rule wp_mono[where Q = "\<lambda>_. I"]) auto

lemma keeps_catch [intro]: "keeps I m \<Longrightarrow> (\<And>e. keeps I (h e)) \<Longrightarrow> keeps I (catch_io m h)"
  unfolding keeps_wp wp_catch by (intro allI impI, rule wp_mono[where E = "\<lambda>_. I"]) auto

lemma keeps_assert [intro]: "keeps I k \<Longrightarrow> keeps I (assert_io c msg k)"
  by (simp add: assert_io_def)

lemma keeps_log [intro]: "(\<And>w t. I (w, t) \<Longrightarrow> I (w, t @ [e])) \<Longrightarrow> keeps I (log_io e)"
  by (auto simp: keeps_wp wp_simps)

lemma keeps_call [intro]:
  "(\<And>w t r w'. I (w, t) \<Longrightarrow> action w = (r, w') \<Longrightarrow> I (w', t @ [event r])) \<Longrightarrow> keeps I (call_io action event)"
  by (auto simp: keeps_wp wp_simps split: prod.split sum.split)

lemma keeps_read [intro]:
  "(\<And>w t r w'. I (w, t) \<Longrightarrow> action w = (r, w') \<Longrightarrow> I (w', t)) \<Longrightarrow> keeps I (read_io action)"
  by (auto simp: keeps_wp wp_simps split: prod.split sum.split)

lemma keeps_read_trace [simp]: "keeps (\<lambda>s. I (snd s)) (read_io action)"
  by auto

lemma keeps_if [intro]: "(c \<Longrightarrow> keeps I m) \<Longrightarrow> (\<not> c \<Longrightarrow> keeps I n) \<Longrightarrow> keeps I (if c then m else n)"
  by simp

lemma keeps_each [intro]: "(\<And>x. x \<in> set xs \<Longrightarrow> keeps I (f x)) \<Longrightarrow> keeps I (each_io f xs)"
  by (induction xs) auto

lemma keeps_fold [intro]: "(\<And>x acc. x \<in> set xs \<Longrightarrow> keeps I (f x acc)) \<Longrightarrow> keeps I (fold_io f xs acc)"
  by (induction xs arbitrary: acc) auto

lemma keeps_map [intro]: "(\<And>x. x \<in> set xs \<Longrightarrow> keeps I (f x)) \<Longrightarrow> keeps I (map_io f xs)"
  by (induction xs) auto

section \<open>What a computation appends\<close>

text \<open>Every event the computation appends to the trace, whether it returns or throws, satisfies \<open>A\<close>.\<close>

definition adds :: "('e \<Rightarrow> bool) \<Rightarrow> ('w, 'e, 'a) io \<Rightarrow> bool" where
  "adds A m \<longleftrightarrow> (\<forall>w t. \<exists>new. snd (snd (m (w, t))) = t @ new \<and> list_all A new)"

lemma adds_wp: "adds A m \<Longrightarrow> wp m (\<lambda>_ s. \<exists>new. snd s = t @ new \<and> list_all A new)
    (\<lambda>_ s. \<exists>new. snd s = t @ new \<and> list_all A new) (w, t)"
proof (rule wpI)
  fix r s'
  assume "adds A m" "m (w, t) = (r, s')"
  then have "\<exists>new. snd s' = t @ new \<and> list_all A new" unfolding adds_def by (metis snd_conv)
  then show "case r of Inl e \<Rightarrow> \<exists>new. snd s' = t @ new \<and> list_all A new
      | Inr x \<Rightarrow> \<exists>new. snd s' = t @ new \<and> list_all A new"
    by (simp split: sum.split)
qed

lemma adds_ok [intro!, simp]: "adds A (ok_io x)"
  by (simp add: adds_def ok_io_def)

lemma adds_fail [intro!, simp]: "adds A (fail_io e)"
  by (simp add: adds_def fail_io_def)

lemma adds_lift [intro!, simp]: "adds A (lift_io r)"
  by (simp add: adds_def lift_io_def)

lemma adds_read [intro!, simp]: "adds A (read_io action)"
  by (simp add: adds_def read_io_def split: prod.split)

lemma adds_log [intro]: "A e \<Longrightarrow> adds A (log_io e)"
  by (simp add: adds_def log_io_def)

lemma adds_call [intro]: "(\<And>r. A (event r)) \<Longrightarrow> adds A (call_io action event)"
  by (simp add: adds_def call_io_def split: prod.split)

lemma adds_then [intro]:
  assumes "adds A m" "\<And>x. adds A (f x)"
  shows "adds A (then_io m f)"
  unfolding adds_def
proof (intro allI)
  fix w t
  obtain r v u where m: "m (w, t) = (r, v, u)" by (metis prod_cases3)
  obtain new where new: "u = t @ new" "list_all A new" using assms(1) m unfolding adds_def by (metis snd_conv)
  show "\<exists>new. snd (snd (then_io m f (w, t))) = t @ new \<and> list_all A new"
  proof (cases r)
    case (Inl e)
    then show ?thesis using m new by (simp add: then_io_def)
  next
    case (Inr x)
    obtain more where "snd (snd (f x (v, u))) = u @ more" "list_all A more" using assms(2) unfolding adds_def by blast
    then show ?thesis using m new Inr by (auto simp: then_io_def)
  qed
qed

lemma adds_assert [intro]: "adds A k \<Longrightarrow> adds A (assert_io c msg k)"
  by (simp add: assert_io_def)

lemma adds_if [intro]: "(c \<Longrightarrow> adds A m) \<Longrightarrow> (\<not> c \<Longrightarrow> adds A n) \<Longrightarrow> adds A (if c then m else n)"
  by simp

lemma adds_catch [intro]:
  assumes "adds A m" "\<And>e. adds A (h e)"
  shows "adds A (catch_io m h)"
  unfolding adds_def
proof (intro allI)
  fix w t
  obtain r v u where m: "m (w, t) = (r, v, u)" by (metis prod_cases3)
  obtain new where new: "u = t @ new" "list_all A new" using assms(1) m unfolding adds_def by (metis snd_conv)
  show "\<exists>new. snd (snd (catch_io m h (w, t))) = t @ new \<and> list_all A new"
  proof (cases r)
    case (Inr x)
    then show ?thesis using m new by (simp add: catch_io_def)
  next
    case (Inl e)
    obtain more where "snd (snd (h e (v, u))) = u @ more" "list_all A more" using assms(2) unfolding adds_def by blast
    then show ?thesis using m new Inl by (auto simp: catch_io_def)
  qed
qed

lemma adds_map [intro]: "(\<And>x. x \<in> set xs \<Longrightarrow> adds A (f x)) \<Longrightarrow> adds A (map_io f xs)"
  by (induction xs) auto

lemma adds_each [intro]: "(\<And>x. x \<in> set xs \<Longrightarrow> adds A (f x)) \<Longrightarrow> adds A (each_io f xs)"
  by (induction xs) auto

lemma adds_fold [intro]: "(\<And>x acc. x \<in> set xs \<Longrightarrow> adds A (f x acc)) \<Longrightarrow> adds A (fold_io f xs acc)"
  by (induction xs arbitrary: acc) auto

lemma adds_mono: "adds A m \<Longrightarrow> (\<And>e. A e \<Longrightarrow> B e) \<Longrightarrow> adds B m"
  unfolding adds_def by (metis list.pred_mono_strong)

lemma adds_result: "adds A m \<Longrightarrow> m (w, t) = (r, w', t') \<Longrightarrow> \<exists>new. t' = t @ new \<and> list_all A new"
  unfolding adds_def by (metis snd_conv)

end
