(* ===== verification/Auto_Plan_Executor.thy ===== *)
theory Auto_Plan_Executor
  imports Js_Io
begin

text \<open>
  \<open>Protocol/scripts/auto-plan-executor.mjs\<close>: the keeper executes Auto Mine plans while betting is open. A pass
  reads the active plans from the index in bounded pages, builds one entry per plan with bounded concurrency and
  sends the entries in small batches; a batch that is rejected is bisected until the failing plan is alone, a
  batch whose landing is unknown is not sent again in the pass. The callbacks of the source (\<open>indexedRows\<close>,
  \<open>buildEntry\<close>, \<open>sendBatch\<close>, \<open>nowSeconds\<close>, \<open>sleep\<close>) are operations of the world; \<open>onEvent\<close> is the trace. Times are
  whole seconds of the chain clock.
\<close>

section \<open>Operations with a deadline\<close>

text \<open>
  An external operation raced against a timer either settles first or is late. \<open>late\<close> is the answer of the world
  to a timed operation: what the promise settled to, or that the timer fired before.
\<close>

datatype 'a late = Settles "'a res" | Late

text \<open>\<open>Number.isSafeInteger(parsed) ? Math.max(minimum, Math.min(maximum, parsed)) : fallback\<close>\<close>

definition boundedInteger :: "jsval \<Rightarrow> int \<Rightarrow> int \<Rightarrow> int \<Rightarrow> int" where
  "boundedInteger v fallback minimum maximum = (case safe_int (Num (to_num v)) of
     None \<Rightarrow> fallback | Some parsed \<Rightarrow> max minimum (min maximum parsed))"

lemma boundedInteger_range:
  "minimum \<le> fallback \<Longrightarrow> fallback \<le> maximum \<Longrightarrow>
   minimum \<le> boundedInteger v fallback minimum maximum \<and> boundedInteger v fallback minimum maximum \<le> maximum"
  by (auto simp: boundedInteger_def split: option.split)

definition OPERATION_TIMEOUT_CODE :: string where
  "OPERATION_TIMEOUT_CODE = ''MYNE_OPERATION_TIMEOUT''"

text \<open>\<open>onTimeout\<close> may throw; its error then takes the place of the timeout error.\<close>

definition timeout_error :: "string \<Rightarrow> int \<Rightarrow> js_error option \<Rightarrow> js_error" where
  "timeout_error label timeoutMs handlerError = (case handlerError of Some e \<Rightarrow> e
     | None \<Rightarrow> CodedError OPERATION_TIMEOUT_CODE (label @ '' exceeded '' @ show_int timeoutMs @ ''ms''))"

definition withOperationTimeout ::
  "('w \<Rightarrow> 'a late \<times> 'w) \<Rightarrow> int \<Rightarrow> string \<Rightarrow> js_error option \<Rightarrow> 'w \<Rightarrow> 'a res \<times> 'w" where
  "withOperationTimeout operation timeoutMs label handlerError w =
     (if \<not> (safe_num timeoutMs \<and> 0 < timeoutMs)
      then (Inl (AssertionError ''Operation timeout must be positive''), w)
      else if label = '''' then (Inl (AssertionError ''Operation timeout label is required''), w)
      else case operation w of
        (Settles r, w') \<Rightarrow> (r, w')
      | (Late, w') \<Rightarrow> (Inl (timeout_error label timeoutMs handlerError), w'))"


lemma withOperationTimeout_valid:
  "0 < timeoutMs \<Longrightarrow> timeoutMs \<le> 60000 \<Longrightarrow> label \<noteq> [] \<Longrightarrow>
   withOperationTimeout operation timeoutMs label h w = (case operation w of
        (Settles r, w') \<Rightarrow> (r, w')
      | (Late, w') \<Rightarrow> (Inl (timeout_error label timeoutMs h), w'))"
  by (simp add: withOperationTimeout_def safe_num_def MAX_SAFE_INTEGER_def)

section \<open>Funding\<close>

definition AUTO_PLAN_REINVEST_SOL_FLAG :: int where
  "AUTO_PLAN_REINVEST_SOL_FLAG = 2"

definition STAKE_REWARD_SCALE :: int where
  "STAKE_REWARD_SCALE = 1000000000000000000"

definition asBigInt :: "jsval \<Rightarrow> string \<Rightarrow> int res" where
  "asBigInt v name = then_res (asBig v) (\<lambda>parsed.
     assert_ok (0 \<le> parsed) (name @ '' must be non-negative'') (Inr parsed))"

definition liveAutoPlanClaimableSol :: "jsval \<Rightarrow> jsval \<Rightarrow> jsval \<Rightarrow> jsval \<Rightarrow> int res" where
  "liveAutoPlanClaimableSol pendingSol rewardPerWeight rewardWeight rewardDebt =
     then_res (asBigInt pendingSol ''Claimable SOL'') (\<lambda>pending.
     then_res (asBigInt (with_default rewardPerWeight (IntV 0)) ''Stake reward index'') (\<lambda>current.
     then_res (asBigInt (with_default rewardWeight (IntV 0)) ''Stake reward weight'') (\<lambda>weight.
     then_res (asBigInt (with_default rewardDebt (IntV 0)) ''Stake reward debt'') (\<lambda>debt.
     assert_ok (debt \<le> current) ''Stake reward index is behind the position checkpoint''
       (Inr (pending + big_div (weight * (current - debt)) STAKE_REWARD_SCALE))))))"

record plan_funding =
  reinvestSol :: bool
  fundedPendingSol :: int
  availableLamports :: int
  fundingExecutable :: bool

definition autoPlanExecutionFunding ::
  "jsval \<Rightarrow> jsval \<Rightarrow> jsval \<Rightarrow> jsval \<Rightarrow> jsval \<Rightarrow> jsval \<Rightarrow> jsval \<Rightarrow> plan_funding res" where
  "autoPlanExecutionFunding rewardMode balanceLamports pendingSol requiredLamports rewardPerWeight rewardWeight rewardDebt =
     (case integer_of (Num (to_num rewardMode)) of
        None \<Rightarrow> Inl (AssertionError ''Auto-plan reward mode is invalid'')
      | Some mode \<Rightarrow>
        assert_ok (0 \<le> mode \<and> mode \<le> 3) ''Auto-plan reward mode is invalid'' (
        let reinvest = (mode div AUTO_PLAN_REINVEST_SOL_FLAG mod 2 \<noteq> 0) in
        then_res (asBigInt balanceLamports ''Auto-plan balance'') (\<lambda>balance.
        then_res (if reinvest then liveAutoPlanClaimableSol pendingSol rewardPerWeight rewardWeight rewardDebt else Inr 0)
          (\<lambda>pending.
        then_res (asBigInt requiredLamports ''Auto-plan round cost'') (\<lambda>required.
        Inr \<lparr>reinvestSol = reinvest, fundedPendingSol = pending, availableLamports = balance + pending,
          fundingExecutable = (required \<le> balance + pending)\<rparr>)))))"

text \<open>
  Claimable SOL counts only with the reinvest flag (modes 2 and 3), as the accrued reward of the position on top of
  the pending amount; without it the plan is funded by its balance alone.
\<close>

theorem autoPlanExecutionFunding_exact:
  assumes "0 \<le> balance" "0 \<le> pending" "0 \<le> required" "0 \<le> weight" "0 \<le> debt" "debt \<le> current" "mode \<in> {0, 1, 2, 3}"
  defines "claimable \<equiv> (if 2 \<le> mode then pending + weight * (current - debt) div 10 ^ 18 else 0)"
  shows "autoPlanExecutionFunding (IntV mode) (BN balance) (BN pending) (Big required) (BN current) (BN weight) (BN debt)
    = Inr \<lparr>reinvestSol = (2 \<le> mode), fundedPendingSol = claimable, availableLamports = balance + claimable,
        fundingExecutable = (required \<le> balance + claimable)\<rparr>"
proof -
  have "0 \<le> weight * (current - debt)" "0 \<le> current" using assms by simp_all
  then show ?thesis
    using assms by (auto simp: autoPlanExecutionFunding_def liveAutoPlanClaimableSol_def asBigInt_def with_default_def
        AUTO_PLAN_REINVEST_SOL_FLAG_def STAKE_REWARD_SCALE_def claimable_def Let_def)
qed

section \<open>Reading the index\<close>

definition plan_query :: "int \<Rightarrow> int \<Rightarrow> string" where
  "plan_query limit offset =
     ''mine_auto_plans?active=eq.true&or=(balance_lamports.gt.0,reward_mode.gte.2)&select=authority&order=authority.asc&limit=''
     @ show_int limit @ ''&offset='' @ show_int offset"

text \<open>\<open>for (const row of rows)\<close>: arrays and strings can be iterated.\<close>

fun iterate :: "jsval \<Rightarrow> jsval list res" where
  "iterate (Arr xs) = Inr xs"
| "iterate (Str s) = Inr (map (\<lambda>c. Str [c]) s)"
| "iterate _ = Inl (TypeError ''rows is not iterable'')"

text \<open>A row adds its authority, when that is a non-empty string the set does not have yet.\<close>

definition add_authority :: "jsval \<Rightarrow> string list \<Rightarrow> string list" where
  "add_authority row authorities = (case opt_member row ''authority'' of
       Str a \<Rightarrow> if a \<noteq> [] \<and> a \<notin> set authorities then authorities @ [a] else authorities
     | _ \<Rightarrow> authorities)"

text \<open>The loop over the pages, with the number of pages that are left.\<close>

fun scan_pages :: "(string \<Rightarrow> 'w \<Rightarrow> jsval late \<times> 'w) \<Rightarrow> int \<Rightarrow> int \<Rightarrow> nat \<Rightarrow> nat \<Rightarrow> string list
    \<Rightarrow> ('w, 'e, string list) io" where
  "scan_pages indexedRows limit timeout 0 page authorities =
     fail_io (Error (''Auto-plan index exceeded the bounded '' @ show_int (limit * int page) @ '' active-plan scan''))"
| "scan_pages indexedRows limit timeout (Suc left) page authorities =
     then_io (read_io (withOperationTimeout (indexedRows (plan_query limit (int page * limit))) timeout
       (''Auto-plan index page '' @ show_int (int page + 1)) None)) (\<lambda>answer.
     then_io (lift_io (iterate answer)) (\<lambda>rows.
     let found = fold add_authority rows authorities in
     if int (length rows) < limit then ok_io found
     else scan_pages indexedRows limit timeout left (Suc page) found))"

definition fetchActiveAutoPlanAuthorities ::
  "(string \<Rightarrow> 'w \<Rightarrow> jsval late \<times> 'w) \<Rightarrow> jsval \<Rightarrow> jsval \<Rightarrow> jsval \<Rightarrow> ('w, 'e, string list) io" where
  "fetchActiveAutoPlanAuthorities indexedRows pageSize maxPages operationTimeoutMs =
     (let limit = boundedInteger (with_default pageSize (IntV 250)) 250 1 1000;
          pages = boundedInteger (with_default maxPages (IntV 100)) 100 1 1000;
          timeout = boundedInteger (with_default operationTimeoutMs (IntV 8000)) 8000 500 30000
      in scan_pages indexedRows limit timeout (nat pages) 0 [])"

section \<open>Bounded concurrency\<close>

text \<open>
  The workers of \<open>mapConcurrent\<close>: the shared cursor, the index each worker waits for (\<open>None\<close> when it has
  returned), the results by index and the indices whose mapper was called, in call order. A worker goes on when
  its mapper settles; the order in which mappers settle is a schedule of worker numbers.
\<close>

record 'b pool =
  pool_cursor :: nat
  busy :: "nat option list"
  pool_results :: "'b option list"
  called :: "nat list"

definition worker_next :: "nat \<Rightarrow> nat \<Rightarrow> 'b pool \<Rightarrow> 'b pool" where
  "worker_next n k p = (let index = pool_cursor p; p' = p\<lparr>pool_cursor := Suc index\<rparr> in
     if n \<le> index then p'\<lparr>busy := (busy p)[k := None]\<rparr>
     else p'\<lparr>busy := (busy p)[k := Some index], called := called p @ [index]\<rparr>)"

definition pool_start :: "nat \<Rightarrow> nat \<Rightarrow> 'b pool" where
  "pool_start n limit = (let workers = min limit n in
     fold (worker_next n) [0..<workers]
       \<lparr>pool_cursor = 0, busy = replicate workers None, pool_results = replicate n None, called = []\<rparr>)"

definition pool_settle :: "nat \<Rightarrow> (nat \<Rightarrow> 'b) \<Rightarrow> nat \<Rightarrow> 'b pool \<Rightarrow> 'b pool" where
  "pool_settle n outcome k p = (if length (busy p) \<le> k then p else case busy p ! k of
       None \<Rightarrow> p
     | Some i \<Rightarrow> worker_next n k (p\<lparr>pool_results := (pool_results p)[i := Some (outcome i)]\<rparr>))"

definition pool_run :: "nat \<Rightarrow> nat \<Rightarrow> (nat \<Rightarrow> 'b) \<Rightarrow> nat list \<Rightarrow> 'b pool" where
  "pool_run n limit outcome schedule = fold (pool_settle n outcome) schedule (pool_start n limit)"

definition pool_done :: "'b pool \<Rightarrow> bool" where
  "pool_done p = list_all (\<lambda>b. b = None) (busy p)"

text \<open>What \<open>results[index]\<close> holds: the mapper's value, or \<open>{ error }\<close>.\<close>

datatype built_entry = Built jsval | BuildFailed js_error

text \<open>
  The calls happen in the order of the values, whatever the schedule (\<open>mapConcurrent_any_schedule\<close> below): the
  mapper is called in that order and its outcomes are stored by index.
\<close>

definition mapConcurrent :: "string list \<Rightarrow> (string \<Rightarrow> ('w, 'e, jsval) io) \<Rightarrow> ('w, 'e, built_entry list) io" where
  "mapConcurrent xs mapper = map_io (\<lambda>v. catch_io (then_io (mapper v) (\<lambda>x. ok_io (Built x)))
     (\<lambda>e. ok_io (BuildFailed e))) xs"

section \<open>Sending\<close>

datatype plan_report =
    WindowClosed nat
  | AutoPlansExecuted "jsval list" jsval jsval jsval
  | BatchIndeterminate "jsval list" string
  | ExecutionFailed jsval string
  | InvalidIndexEntry string string
  | IndexUnavailable string

text \<open>The trace: the checks of the betting window, the batches that were sent and their outcome, the reports.\<close>

datatype plan_event =
    WindowChecked "bool res"
  | BatchSent "jsval list" "jsval res"
  | Reported plan_report

abbreviation entry_authority :: "jsval \<Rightarrow> jsval" where
  "entry_authority entry \<equiv> opt_member entry ''authority''"

function sendIsolated :: "(jsval list \<Rightarrow> 'w \<Rightarrow> jsval late \<times> 'w) \<Rightarrow> ('w \<Rightarrow> bool late \<times> 'w) \<Rightarrow> int \<Rightarrow> int
    \<Rightarrow> jsval list \<Rightarrow> ('w, plan_event, unit) io" where
  "sendIsolated sendBatch canSend timeout sendTimeout batch =
     then_io (call_io (withOperationTimeout canSend timeout ''Auto-plan betting-window check'' None) WindowChecked)
       (\<lambda>canStillSend.
     if \<not> canStillSend then log_io (Reported (WindowClosed (length batch)))
     else catch_io
       (then_io (call_io (withOperationTimeout (sendBatch batch) sendTimeout
            (''Auto-plan batch ('' @ show_int (int (length batch)) @ '')'') None) (BatchSent batch)) (\<lambda>sent.
          log_io (Reported (AutoPlansExecuted (map entry_authority batch)
            (coalesce (opt_member sent ''signature'') Null) (opt_member sent ''measuredUnits'')
            (opt_member sent ''computeLimit'')))))
       (\<lambda>error.
          if error_code error = Some OPERATION_TIMEOUT_CODE
          then log_io (Reported (BatchIndeterminate (map entry_authority batch) (error_message error)))
          else if 1 < length batch
          then (let split = (length batch + 1) div 2 in
            then_io (sendIsolated sendBatch canSend timeout sendTimeout (take split batch)) (\<lambda>_.
            sendIsolated sendBatch canSend timeout sendTimeout (drop split batch)))
          else log_io (Reported (ExecutionFailed
            (case batch of [] \<Rightarrow> Null | entry # _ \<Rightarrow> coalesce (entry_authority entry) Null)
            (error_message error)))))"
  by pat_completeness auto

termination
  by (relation "measure (\<lambda>(_, _, _, _, batch). length batch)") auto

declare sendIsolated.simps [simp del]

definition sendAutoPlanBatchesIsolated ::
  "jsval list \<Rightarrow> jsval \<Rightarrow> (jsval list \<Rightarrow> 'w \<Rightarrow> jsval late \<times> 'w) \<Rightarrow> ('w \<Rightarrow> bool late \<times> 'w) \<Rightarrow> jsval \<Rightarrow> jsval
    \<Rightarrow> ('w, plan_event, unit) io" where
  "sendAutoPlanBatchesIsolated entries batchSize sendBatch canSend operationTimeoutMs sendTimeoutMs =
     (let opTimeout = with_default operationTimeoutMs (IntV 12000);
          limit = boundedInteger batchSize 4 1 6;
          timeout = boundedInteger opTimeout 12000 500 30000;
          sendTimeout = boundedInteger (with_default sendTimeoutMs opTimeout) timeout 500 60000
      in each_io (sendIsolated sendBatch canSend timeout sendTimeout) (chunks (nat limit) entries))"

section \<open>The betting window\<close>

text \<open>
  \<open>canSend: async () => await readNow() < bettingEndsAt\<close>. \<open>readNow\<close> has a timer of its own, with the delay of the
  timer around \<open>canSend\<close>; that one was set before and fires first, so a late clock makes \<open>canSend\<close> late.
\<close>

definition windowOpen :: "('w \<Rightarrow> int late \<times> 'w) \<Rightarrow> int \<Rightarrow> 'w \<Rightarrow> bool late \<times> 'w" where
  "windowOpen clockRead bettingEndsAt w = (case clockRead w of
       (Settles (Inr now), w') \<Rightarrow> (Settles (Inr (now < bettingEndsAt)), w')
     | (Settles (Inl e), w') \<Rightarrow> (Settles (Inl e), w')
     | (Late, w') \<Rightarrow> (Late, w'))"

text \<open>The entries that are sent; an outcome with a truthy \<open>error\<close> is reported, a falsy value is dropped.\<close>

definition collect_entry :: "string \<times> built_entry \<Rightarrow> jsval list \<Rightarrow> ('w, plan_event, jsval list) io" where
  "collect_entry = (\<lambda>(authority, outcome) entries. case outcome of
       BuildFailed e \<Rightarrow> then_io (log_io (Reported (InvalidIndexEntry authority (error_message e)))) (\<lambda>_. ok_io entries)
     | Built v \<Rightarrow>
         if truthy (opt_member v ''error'')
         then then_io (log_io (Reported (InvalidIndexEntry authority (to_str (opt_member v ''error''))))) (\<lambda>_. ok_io entries)
         else if truthy v then ok_io (entries @ [v]) else ok_io entries)"

definition plan_pass :: "int \<Rightarrow> ('w \<Rightarrow> int late \<times> 'w) \<Rightarrow> (string \<Rightarrow> 'w \<Rightarrow> jsval late \<times> 'w)
    \<Rightarrow> (string \<Rightarrow> 'w \<Rightarrow> jsval late \<times> 'w) \<Rightarrow> (jsval list \<Rightarrow> 'w \<Rightarrow> jsval late \<times> 'w) \<Rightarrow> jsval \<Rightarrow> int \<Rightarrow> int
    \<Rightarrow> ('w, plan_event, unit) io" where
  "plan_pass bettingEndsAt clockRead indexedRows buildEntry sendBatch batchSize timeout sendTimeout =
     then_io (fetchActiveAutoPlanAuthorities indexedRows Undef Undef (IntV timeout)) (\<lambda>authorities.
     then_io (mapConcurrent authorities (\<lambda>authority. read_io (withOperationTimeout (buildEntry authority) timeout
         (''Auto-plan account '' @ authority) None))) (\<lambda>built.
     then_io (fold_io collect_entry (zip authorities built) []) (\<lambda>executable.
     sendAutoPlanBatchesIsolated executable batchSize sendBatch (windowOpen clockRead bettingEndsAt)
       (IntV timeout) (IntV sendTimeout))))"

text \<open>
  The loop over the passes, for at most \<open>fuel\<close> of them: \<open>Some ()\<close> when the window was left, \<open>None\<close> when the fuel
  ran out first. \<open>sleep\<close> is given milliseconds.
\<close>

fun window_loop :: "nat \<Rightarrow> int \<Rightarrow> ('w \<Rightarrow> int late \<times> 'w) \<Rightarrow> (int \<Rightarrow> 'w \<Rightarrow> 'w) \<Rightarrow> int \<Rightarrow> int
    \<Rightarrow> ('w, plan_event, unit) io \<Rightarrow> ('w, plan_event, unit option) io" where
  "window_loop 0 bettingEndsAt clockRead sleep retryDelay timeout pass = ok_io None"
| "window_loop (Suc fuel) bettingEndsAt clockRead sleep retryDelay timeout pass =
     (let readNow = withOperationTimeout clockRead timeout ''Auto-plan chain time'' None in
     then_io (read_io readNow) (\<lambda>now.
     if \<not> now < bettingEndsAt then ok_io (Some ())
     else
       then_io (catch_io pass (\<lambda>error. log_io (Reported (IndexUnavailable (error_message error))))) (\<lambda>_.
       then_io (read_io readNow) (\<lambda>after.
       let remainingMs = (bettingEndsAt - after) * 1000 in
       if remainingMs \<le> 0 then ok_io (Some ())
       else then_io (read_io (\<lambda>w. (Inr (), sleep (min retryDelay (max 100 remainingMs)) w))) (\<lambda>_.
         window_loop fuel bettingEndsAt clockRead sleep retryDelay timeout pass)))))"

text \<open>The options are the values after the parameter defaults, which read the environment variables.\<close>

definition executeAutoPlansDuringWindow :: "nat \<Rightarrow> int \<Rightarrow> ('w \<Rightarrow> int late \<times> 'w) \<Rightarrow> (int \<Rightarrow> 'w \<Rightarrow> 'w)
    \<Rightarrow> (string \<Rightarrow> 'w \<Rightarrow> jsval late \<times> 'w) \<Rightarrow> (string \<Rightarrow> 'w \<Rightarrow> jsval late \<times> 'w)
    \<Rightarrow> (jsval list \<Rightarrow> 'w \<Rightarrow> jsval late \<times> 'w) \<Rightarrow> jsval \<Rightarrow> jsval \<Rightarrow> jsval \<Rightarrow> jsval
    \<Rightarrow> ('w, plan_event, unit option) io" where
  "executeAutoPlansDuringWindow fuel bettingEndsAt clockRead sleep indexedRows buildEntry sendBatch
       batchSize retryMs operationTimeoutMs sendTimeoutMs =
     (let retryDelay = boundedInteger retryMs 5000 500 15000;
          timeout = boundedInteger operationTimeoutMs 8000 500 30000;
          sendTimeout = boundedInteger sendTimeoutMs 30000 2000 60000
      in window_loop fuel bettingEndsAt clockRead sleep retryDelay timeout
           (plan_pass bettingEndsAt clockRead indexedRows buildEntry sendBatch batchSize timeout sendTimeout))"

section \<open>Nothing is sent outside the window\<close>

text \<open>A batch is sent right after the window was found open, with one to six entries.\<close>

definition send_allowed :: "plan_event list \<Rightarrow> plan_event \<Rightarrow> bool" where
  "send_allowed before e = (case e of
       BatchSent batch r \<Rightarrow> before \<noteq> [] \<and> last before = WindowChecked (Inr True) \<and> 1 \<le> length batch \<and> length batch \<le> 6
     | _ \<Rightarrow> True)"

lemma send_allowed_simps [simp]:
  "send_allowed before (WindowChecked r)" "send_allowed before (Reported p)"
  "send_allowed before (BatchSent batch x) \<longleftrightarrow>
     before \<noteq> [] \<and> last before = WindowChecked (Inr True) \<and> 1 \<le> length batch \<and> length batch \<le> 6"
  by (simp_all add: send_allowed_def)

text \<open>The \<open>catch\<close> branch of \<open>sendIsolated\<close>, and the function in terms of it.\<close>

definition isolate :: "(jsval list \<Rightarrow> 'w \<Rightarrow> jsval late \<times> 'w) \<Rightarrow> ('w \<Rightarrow> bool late \<times> 'w) \<Rightarrow> int \<Rightarrow> int
    \<Rightarrow> jsval list \<Rightarrow> js_error \<Rightarrow> ('w, plan_event, unit) io" where
  "isolate sendBatch canSend timeout sendTimeout batch error =
     (if error_code error = Some OPERATION_TIMEOUT_CODE
      then log_io (Reported (BatchIndeterminate (map entry_authority batch) (error_message error)))
      else if 1 < length batch
      then then_io (sendIsolated sendBatch canSend timeout sendTimeout (take ((length batch + 1) div 2) batch)) (\<lambda>_.
        sendIsolated sendBatch canSend timeout sendTimeout (drop ((length batch + 1) div 2) batch))
      else log_io (Reported (ExecutionFailed
        (case batch of [] \<Rightarrow> Null | entry # _ \<Rightarrow> coalesce (entry_authority entry) Null) (error_message error))))"

abbreviation executed_report :: "jsval list \<Rightarrow> jsval \<Rightarrow> plan_report" where
  "executed_report batch sent \<equiv> AutoPlansExecuted (map entry_authority batch)
     (coalesce (opt_member sent ''signature'') Null) (opt_member sent ''measuredUnits'') (opt_member sent ''computeLimit'')"

lemma sendIsolated_unfold:
  "sendIsolated sendBatch canSend timeout sendTimeout batch =
     then_io (call_io (withOperationTimeout canSend timeout ''Auto-plan betting-window check'' None) WindowChecked)
       (\<lambda>canStillSend.
     if \<not> canStillSend then log_io (Reported (WindowClosed (length batch)))
     else catch_io
       (then_io (call_io (withOperationTimeout (sendBatch batch) sendTimeout
            (''Auto-plan batch ('' @ show_int (int (length batch)) @ '')'') None) (BatchSent batch)) (\<lambda>sent.
          log_io (Reported (executed_report batch sent))))
       (isolate sendBatch canSend timeout sendTimeout batch))"
  unfolding isolate_def[abs_def] by (subst sendIsolated.simps) (simp only: Let_def)

text \<open>Induction over the bisection.\<close>

lemma bisect_induct [case_names bisect]:
  assumes "\<And>batch. (1 < length batch \<Longrightarrow> P (take ((length batch + 1) div 2) batch)) \<Longrightarrow>
      (1 < length batch \<Longrightarrow> P (drop ((length batch + 1) div 2) batch)) \<Longrightarrow> P batch"
  shows "P (batch :: 'a list)"
proof (induction "length batch" arbitrary: batch rule: less_induct)
  case less
  show ?case by (rule assms; rule less) auto
qed

lemma sendIsolated_justified:
  "1 \<le> length batch \<Longrightarrow> length batch \<le> 6 \<Longrightarrow>
   keeps (\<lambda>s. justified send_allowed (snd s)) (sendIsolated sendBatch canSend timeout sendTimeout batch)"
proof (induction batch rule: bisect_induct)
  case (bisect batch)
  have h: "keeps (\<lambda>s. justified send_allowed (snd s)) (isolate sendBatch canSend timeout sendTimeout batch e)" for e
    unfolding isolate_def using bisect by (auto intro!: keeps_if keeps_log keeps_then)
  show ?case
    unfolding keeps_wp sendIsolated_unfold using bisect.prems
    by (auto simp: wp_simps simp del: append_assoc split: prod.split sum.split intro!: keepsD[OF h])
qed

lemma sendAutoPlanBatchesIsolated_justified:
  "keeps (\<lambda>s. justified send_allowed (snd s))
     (sendAutoPlanBatchesIsolated entries batchSize sendBatch canSend operationTimeoutMs sendTimeoutMs)"
proof -
  let ?limit = "boundedInteger batchSize 4 1 6"
  have "1 \<le> length c \<and> length c \<le> 6" if "c \<in> set (chunks (nat ?limit) entries)" for c
    using chunks_length[OF that] boundedInteger_range[of 1 4 6 batchSize] by auto
  then show ?thesis
    unfolding sendAutoPlanBatchesIsolated_def Let_def
    by (intro keeps_each sendIsolated_justified) auto
qed

lemma scan_pages_keeps: "keeps (\<lambda>s. I (snd s)) (scan_pages indexedRows limit timeout left page authorities)"
  by (induction left arbitrary: page authorities) (auto simp: Let_def intro!: keeps_then keeps_if)

lemma fetchActiveAutoPlanAuthorities_keeps:
  "keeps (\<lambda>s. I (snd s)) (fetchActiveAutoPlanAuthorities indexedRows pageSize maxPages operationTimeoutMs)"
  by (simp add: fetchActiveAutoPlanAuthorities_def Let_def scan_pages_keeps)

lemma collect_entry_keeps:
  assumes "\<And>t p. I t \<Longrightarrow> I (t @ [Reported p])"
  shows "keeps (\<lambda>s. I (snd s)) (collect_entry x entries)"
  using assms by (auto simp: collect_entry_def split: prod.split built_entry.split intro!: keeps_then keeps_log)

lemma window_loop_keeps:
  assumes "keeps (\<lambda>s. I (snd s)) pass" and "\<And>t p. I t \<Longrightarrow> I (t @ [Reported p])"
  shows "keeps (\<lambda>s. I (snd s)) (window_loop fuel bettingEndsAt clockRead sleep retryDelay timeout pass)"
  using assms by (induction fuel) (auto simp: Let_def intro!: keeps_then keeps_if keeps_catch keeps_log)

lemma executeAutoPlans_justified:
  "keeps (\<lambda>s. justified send_allowed (snd s))
     (executeAutoPlansDuringWindow fuel bettingEndsAt clockRead sleep indexedRows buildEntry sendBatch
        batchSize retryMs operationTimeoutMs sendTimeoutMs)"
  unfolding executeAutoPlansDuringWindow_def plan_pass_def mapConcurrent_def Let_def
  by (auto intro!: window_loop_keeps keeps_then keeps_map keeps_catch keeps_fold collect_entry_keeps
      fetchActiveAutoPlanAuthorities_keeps sendAutoPlanBatchesIsolated_justified)

text \<open>
  C32. Whatever the chain, the index and the clock answer, the executor sends a batch only as the next step after a
  check that found the betting window open, and every batch it sends has between one and six plans.
\<close>

theorem auto_plan_send_discipline:
  assumes "executeAutoPlansDuringWindow fuel bettingEndsAt clockRead sleep indexedRows buildEntry sendBatch
        batchSize retryMs operationTimeoutMs sendTimeoutMs (w, []) = (r, w', t)"
    and "t = before @ BatchSent batch outcome # after"
  shows "(\<exists>rest. before = rest @ [WindowChecked (Inr True)]) \<and> 1 \<le> length batch \<and> length batch \<le> 6"
proof -
  have "justified send_allowed t"
    using keeps_result[OF executeAutoPlans_justified _ assms(1)] by simp
  then have "send_allowed before (BatchSent batch outcome)"
    using assms(2) unfolding justified_iff by blast
  then show ?thesis by (metis append_butlast_last_id send_allowed_simps(3))
qed

section \<open>A batch that may have landed is not sent again\<close>

definition rejected :: "'a res \<Rightarrow> bool" where
  "rejected r = (case r of Inl e \<Rightarrow> error_code e \<noteq> Some OPERATION_TIMEOUT_CODE | Inr _ \<Rightarrow> False)"

definition no_resend :: "plan_event \<Rightarrow> plan_event \<Rightarrow> bool" where
  "no_resend a b = (case (a, b) of
       (BatchSent xs r, BatchSent ys _) \<Rightarrow> set xs \<inter> set ys \<noteq> {} \<longrightarrow> rejected r
     | _ \<Rightarrow> True)"

lemma no_resend_simps [simp]:
  "no_resend (WindowChecked c) b" "no_resend (Reported p) b" "no_resend a (WindowChecked c)" "no_resend a (Reported p)"
  "no_resend (BatchSent xs r) (BatchSent ys q) \<longleftrightarrow> (set xs \<inter> set ys \<noteq> {} \<longrightarrow> rejected r)"
  by (simp_all add: no_resend_def split: plan_event.split)

text \<open>The events a computation adds, all of whose batches are drawn from \<open>entries\<close>.\<close>

definition event_entries :: "plan_event \<Rightarrow> jsval set" where
  "event_entries e = (case e of BatchSent xs r \<Rightarrow> set xs | _ \<Rightarrow> {})"

lemma event_entries_simps [simp]:
  "event_entries (WindowChecked c) = {}" "event_entries (Reported p) = {}" "event_entries (BatchSent xs r) = set xs"
  by (simp_all add: event_entries_def)

definition adds_sends :: "jsval set \<Rightarrow> plan_event list \<Rightarrow> 'w \<times> plan_event list \<Rightarrow> bool" where
  "adds_sends entries t s \<longleftrightarrow>
     (\<exists>new. snd s = t @ new \<and> sorted_wrt no_resend new \<and> (\<forall>e \<in> set new. event_entries e \<subseteq> entries))"

lemma no_resend_rejected: "rejected r \<Longrightarrow> no_resend (BatchSent xs r) b"
  by (cases b) auto

lemma no_resend_disjoint: "event_entries a \<inter> event_entries b = {} \<Longrightarrow> no_resend a b"
  by (cases a; cases b) auto

lemma adds_sends_trans:
  assumes "adds_sends A t s" "adds_sends B (snd s) s'" "A \<inter> B = {}" "A \<subseteq> C" "B \<subseteq> C"
  shows "adds_sends C t s'"
proof -
  from assms(1) obtain xs where xs: "snd s = t @ xs" "sorted_wrt no_resend xs" "\<forall>e \<in> set xs. event_entries e \<subseteq> A"
    unfolding adds_sends_def by blast
  from assms(2) obtain ys where ys: "snd s' = snd s @ ys" "sorted_wrt no_resend ys" "\<forall>e \<in> set ys. event_entries e \<subseteq> B"
    unfolding adds_sends_def by blast
  have "no_resend a b" if "a \<in> set xs" "b \<in> set ys" for a b
    using that xs(3) ys(3) assms(3) by (intro no_resend_disjoint) blast
  then have "sorted_wrt no_resend (xs @ ys)" using xs(2) ys(2) by (simp add: sorted_wrt_append)
  moreover have "\<forall>e \<in> set (xs @ ys). event_entries e \<subseteq> C"
    using subset_trans[OF _ assms(4)] subset_trans[OF _ assms(5)] xs(3) ys(3) by (simp add: ball_Un)
  ultimately show ?thesis unfolding adds_sends_def using xs(1) ys(1) by (intro exI[of _ "xs @ ys"]) simp
qed

lemma adds_sends_prefix:
  assumes "adds_sends A (t @ pre) s" "sorted_wrt no_resend pre" "\<forall>a \<in> set pre. event_entries a \<subseteq> A"
    "\<And>a b. a \<in> set pre \<Longrightarrow> no_resend a b"
  shows "adds_sends A t s"
proof -
  from assms(1) obtain new where new: "snd s = t @ pre @ new" "sorted_wrt no_resend new"
    "\<forall>e \<in> set new. event_entries e \<subseteq> A" unfolding adds_sends_def by auto
  then show ?thesis
    unfolding adds_sends_def using assms(2-4) by (intro exI[of _ "pre @ new"]) (auto simp: sorted_wrt_append)
qed

lemma adds_sends_refl: "adds_sends A t (w, t)"
  by (simp add: adds_sends_def)

lemma adds_sends_snoc:
  "event_entries e \<subseteq> A \<Longrightarrow> adds_sends A t (w, t @ [e])"
  unfolding adds_sends_def by (intro exI[of _ "[e]"]) simp

abbreviation appends :: "jsval set \<Rightarrow> plan_event list \<Rightarrow> ('w, plan_event, 'a) io \<Rightarrow> 'w \<Rightarrow> bool" where
  "appends A t m w \<equiv> wp m (\<lambda>_. adds_sends A t) (\<lambda>_. adds_sends A t) (w, t)"

lemma adds_then_disjoint:
  assumes "appends A t m w" "\<And>w t. appends B t n w" "A \<inter> B = {}" "A \<subseteq> C" "B \<subseteq> C"
  shows "appends C t (then_io m (\<lambda>_. n)) w"
  unfolding wp_then
proof (rule wp_mono[OF assms(1)])
  fix x and s' :: "'a \<times> plan_event list"
  assume a: "adds_sends A t s'"
  obtain w' t' where s': "s' = (w', t')" by (cases s')
  have "appends B t' n w'" by (rule assms(2))
  then show "wp n (\<lambda>_. adds_sends C t) (\<lambda>_. adds_sends C t) s'"
    unfolding s' by (rule wp_mono) (use adds_sends_trans[OF a _ assms(3-5)] s' in simp_all)
next
  fix e and s' :: "'a \<times> plan_event list"
  assume "adds_sends A t s'"
  then show "adds_sends C t s'" using assms(4) unfolding adds_sends_def by blast
qed

lemma isolate_adds:
  assumes "\<And>w t. 1 < length batch \<Longrightarrow>
      appends (set (take ((length batch + 1) div 2) batch)) t
        (sendIsolated sendBatch canSend timeout sendTimeout (take ((length batch + 1) div 2) batch)) w"
    and "\<And>w t. 1 < length batch \<Longrightarrow>
      appends (set (drop ((length batch + 1) div 2) batch)) t
        (sendIsolated sendBatch canSend timeout sendTimeout (drop ((length batch + 1) div 2) batch)) w"
    and "distinct batch"
  shows "appends (set batch) t (isolate sendBatch canSend timeout sendTimeout batch e) w"
proof (cases "error_code e \<noteq> Some OPERATION_TIMEOUT_CODE \<and> 1 < length batch")
  case True
  have "set (take k batch) \<inter> set (drop k batch) = {}" for k
    using assms(3) by (metis append_take_drop_id distinct_append)
  then show ?thesis using True unfolding isolate_def
    by (simp del: One_nat_def)
       (intro adds_then_disjoint[OF assms(1) assms(2)], auto dest: in_set_takeD in_set_dropD)
next
  case False
  then show ?thesis unfolding isolate_def by (auto simp: wp_simps intro!: adds_sends_snoc)
qed

lemma sendIsolated_adds:
  "distinct batch \<Longrightarrow> appends (set batch) t (sendIsolated sendBatch canSend timeout sendTimeout batch) w"
proof (induction batch arbitrary: w t rule: bisect_induct)
  case (bisect batch)
  let ?A = "set batch"
  have iso: "appends ?A t (isolate sendBatch canSend timeout sendTimeout batch e) w" for e t w
    using bisect by (intro isolate_adds) auto
  have failed: "adds_sends ?A t s" if "adds_sends ?A (t @ [WindowChecked (Inr True), BatchSent batch (Inl e)]) s"
    "rejected (Inl e :: jsval res)" for e s and t :: "plan_event list"
    using that by (elim adds_sends_prefix) (auto intro: no_resend_rejected)
  have final: "wp (isolate sendBatch canSend timeout sendTimeout batch e) (\<lambda>_. adds_sends ?A t) (\<lambda>_. adds_sends ?A t)
      (w, (t @ [WindowChecked (Inr True)]) @ [BatchSent batch (Inl e)])" for e t w
  proof (cases "error_code e = Some OPERATION_TIMEOUT_CODE")
    case True
    then show ?thesis
      by (simp add: isolate_def wp_simps adds_sends_def)
  next
    case False
    then have "rejected (Inl e :: jsval res)" by (simp add: rejected_def)
    then show ?thesis
      using wp_mono[OF iso failed failed] by simp
  qed
  show ?case
    unfolding sendIsolated_unfold
    by (auto simp: wp_simps simp del: append_assoc intro!: final split: prod.split sum.split)
       (simp_all add: adds_sends_def)
qed

lemma sendAutoPlanBatchesIsolated_adds:
  assumes "distinct entries"
  shows "appends (set entries) t (sendAutoPlanBatchesIsolated entries batchSize sendBatch canSend operationTimeoutMs sendTimeoutMs) w"
proof -
  have loop: "appends (set (concat bs)) t (each_io (sendIsolated sendBatch canSend timeout sendTimeout) bs) w"
    if "distinct (concat bs)" for bs timeout sendTimeout t w
    using that
  proof (induction bs arbitrary: t w)
    case Nil
    then show ?case by (simp add: wp_simps adds_sends_refl)
  next
    case (Cons b bs)
    show ?case
      unfolding each_io.simps
      by (rule adds_then_disjoint[OF sendIsolated_adds Cons.IH]) (use Cons.prems in auto)
  qed
  have "concat (chunks (nat (boundedInteger batchSize 4 1 6)) entries) = entries"
    using boundedInteger_range[of 1 4 6 batchSize] by (intro concat_chunks) simp
  then show ?thesis
    using loop[of "chunks (nat (boundedInteger batchSize 4 1 6)) entries"] assms
    unfolding sendAutoPlanBatchesIsolated_def Let_def by simp
qed


text \<open>Both theorems on a batch with one plan the chain rejects; the clock is a counter of the calls.\<close>

definition demo_entry :: "string \<Rightarrow> jsval" where
  "demo_entry a = Obj [(''authority'', Str a)]"

definition demo_send :: "jsval list \<Rightarrow> nat \<Rightarrow> jsval late \<times> nat" where
  "demo_send batch w = (if demo_entry ''B'' \<in> set batch then (Settles (Inl (Error ''rejected'')), Suc w)
     else (Settles (Inr (Obj [(''signature'', Str ''sig'')])), Suc w))"

definition demo_trace :: "plan_event list" where
  "demo_trace = [
     WindowChecked (Inr True), BatchSent [demo_entry ''A'', demo_entry ''B''] (Inl (Error ''rejected'')),
     WindowChecked (Inr True), BatchSent [demo_entry ''A''] (Inr (Obj [(''signature'', Str ''sig'')])),
     Reported (AutoPlansExecuted [Str ''A''] (Str ''sig'') Undef Undef),
     WindowChecked (Inr True), BatchSent [demo_entry ''B''] (Inl (Error ''rejected'')),
     Reported (ExecutionFailed (Str ''B'') ''rejected'')]"

lemma demo_run:
  "sendAutoPlanBatchesIsolated [demo_entry ''A'', demo_entry ''B''] (IntV 4) demo_send (\<lambda>w. (Settles (Inr True), w))
     Undef Undef (0, []) = (Inr (), 3, demo_trace)"
  by code_simp


section \<open>A failing plan does not block the others\<close>

definition executed_in :: "plan_event list \<Rightarrow> jsval list" where
  "executed_in t = concat (map (\<lambda>e. case e of Reported (AutoPlansExecuted as _ _ _) \<Rightarrow> as | _ \<Rightarrow> []) t)"

definition failed_in :: "plan_event list \<Rightarrow> jsval list" where
  "failed_in t = concat (map (\<lambda>e. case e of Reported (ExecutionFailed a _) \<Rightarrow> [a] | _ \<Rightarrow> []) t)"

lemma executed_failed_append [simp]:
  "executed_in (s @ t) = executed_in s @ executed_in t" "failed_in (s @ t) = failed_in s @ failed_in t"
  "executed_in [] = []" "failed_in [] = []"
  by (simp_all add: executed_in_def failed_in_def)

lemma executed_failed_Cons [simp]:
  "executed_in (WindowChecked c # t) = executed_in t" "failed_in (WindowChecked c # t) = failed_in t"
  "executed_in (BatchSent xs r # t) = executed_in t" "failed_in (BatchSent xs r # t) = failed_in t"
  "executed_in (Reported (AutoPlansExecuted as sg mu cl) # t) = as @ executed_in t"
  "failed_in (Reported (AutoPlansExecuted as sg mu cl) # t) = failed_in t"
  "executed_in (Reported (ExecutionFailed a m) # t) = executed_in t"
  "failed_in (Reported (ExecutionFailed a m) # t) = a # failed_in t"
  by (simp_all add: executed_in_def failed_in_def)

text \<open>What was reported since \<open>t\<close>: the good plans of \<open>batch\<close> as executed and the bad ones as failed, in order.\<close>

definition sorted_out :: "(jsval \<Rightarrow> bool) \<Rightarrow> jsval list \<Rightarrow> plan_event list \<Rightarrow> 'w \<times> plan_event list \<Rightarrow> bool" where
  "sorted_out bad batch t s \<longleftrightarrow>
     executed_in (snd s) = executed_in t @ map entry_authority (filter (\<lambda>e. \<not> bad e) batch) \<and>
     failed_in (snd s) = failed_in t @ map (\<lambda>e. coalesce (entry_authority e) Null) (filter bad batch)"

lemma sorted_out_trans:
  "sorted_out bad xs t s \<Longrightarrow> sorted_out bad ys (snd s) s' \<Longrightarrow> sorted_out bad (xs @ ys) t s'"
  by (simp add: sorted_out_def)

lemma sorted_out_then:
  fixes s :: "'w \<times> plan_event list"
  assumes "wp m (\<lambda>_. sorted_out bad xs t) (\<lambda>_ _. False) s"
    and "\<And>w t. wp n (\<lambda>_. sorted_out bad ys t) (\<lambda>_ _. False) (w, t)"
  shows "wp (then_io m (\<lambda>_. n)) (\<lambda>_. sorted_out bad (xs @ ys) t) (\<lambda>_ _. False) s"
  unfolding wp_then
proof (rule wp_mono[OF assms(1)])
  fix x and s' :: "'w \<times> plan_event list"
  assume a: "sorted_out bad xs t s'"
  obtain w' t' where s': "s' = (w', t')" by (cases s')
  show "wp n (\<lambda>_. sorted_out bad (xs @ ys) t) (\<lambda>_ _. False) s'"
    unfolding s' by (rule wp_mono[OF assms(2)[of t' w']]) (use sorted_out_trans[OF a] s' in simp_all)
qed

text \<open>A chain that is open and rejects exactly the batches with a bad plan.\<close>

definition rejects_bad :: "(jsval \<Rightarrow> bool) \<Rightarrow> (jsval list \<Rightarrow> 'w \<Rightarrow> jsval late \<times> 'w) \<Rightarrow> bool" where
  "rejects_bad bad sendBatch \<longleftrightarrow> (\<forall>batch w. if list_ex bad batch
       then \<exists>e w'. sendBatch batch w = (Settles (Inl e), w') \<and> error_code e \<noteq> Some OPERATION_TIMEOUT_CODE
       else \<exists>x w'. sendBatch batch w = (Settles (Inr x), w'))"

lemma sendIsolated_sorts_out:
  assumes chain: "rejects_bad bad sendBatch" and "0 < timeout" "timeout \<le> 30000" "0 < sendTimeout" "sendTimeout \<le> 60000"
    and open_window: "\<And>w. \<exists>w'. canSend w = (Settles (Inr True), w')"
  shows "batch \<noteq> [] \<Longrightarrow> wp (sendIsolated sendBatch canSend timeout sendTimeout batch)
      (\<lambda>_. sorted_out bad batch t) (\<lambda>_ _. False) (w, t)"
proof (induction batch arbitrary: w t rule: bisect_induct)
  case (bisect batch)
  obtain w1 where w1: "canSend w = (Settles (Inr True), w1)" using open_window by blast
  show ?case
  proof (cases "list_ex bad batch")
    case False
    then obtain x w2 where w2: "sendBatch batch w1 = (Settles (Inr x), w2)"
      using chain unfolding rejects_bad_def by meson
    have "filter (\<lambda>e. \<not> bad e) batch = batch" "filter bad batch = []"
      using False by (auto simp: list_ex_iff filter_empty_conv)
    then show ?thesis
      unfolding sendIsolated_unfold using w1 w2 assms(2-5)
      by (simp add: wp_simps withOperationTimeout_valid sorted_out_def)
  next
    case True
    then obtain e w2 where w2: "sendBatch batch w1 = (Settles (Inl e), w2)"
      and e: "error_code e \<noteq> Some OPERATION_TIMEOUT_CODE"
      using chain unfolding rejects_bad_def by meson
    let ?t = "t @ [WindowChecked (Inr True), BatchSent batch (Inl e)]"
    have "wp (isolate sendBatch canSend timeout sendTimeout batch e) (\<lambda>_. sorted_out bad batch ?t) (\<lambda>_ _. False) (w2, ?t)"
    proof (cases "1 < length batch")
      case True
      let ?k = "(length batch + 1) div 2"
      have "take ?k batch \<noteq> []" "drop ?k batch \<noteq> []" using True by auto
      then have "wp (then_io (sendIsolated sendBatch canSend timeout sendTimeout (take ?k batch))
          (\<lambda>_. sendIsolated sendBatch canSend timeout sendTimeout (drop ?k batch)))
          (\<lambda>_. sorted_out bad (take ?k batch @ drop ?k batch) ?t) (\<lambda>_ _. False) (w2, ?t)"
        using bisect.IH True by (intro sorted_out_then) simp_all
      then show ?thesis using True e by (simp add: isolate_def)
    next
      case False
      then obtain b where "batch = [b]" using bisect.prems by (cases batch) auto
      then show ?thesis using True e by (simp add: isolate_def wp_simps sorted_out_def)
    qed
    then have "wp (isolate sendBatch canSend timeout sendTimeout batch e) (\<lambda>_. sorted_out bad batch t) (\<lambda>_ _. False) (w2, ?t)"
      by (rule wp_mono) (simp_all add: sorted_out_def)
    then show ?thesis
      unfolding sendIsolated_unfold using w1 w2 assms(2-5)
      by (simp add: wp_simps withOperationTimeout_valid)
  qed
qed

lemma each_isolated_sorts_out:
  assumes "rejects_bad bad sendBatch" "0 < timeout" "timeout \<le> 30000" "0 < sendTimeout" "sendTimeout \<le> 60000"
    "\<And>w. \<exists>w'. canSend w = (Settles (Inr True), w')"
  shows "list_all (\<lambda>b. b \<noteq> []) bs \<Longrightarrow> wp (each_io (sendIsolated sendBatch canSend timeout sendTimeout) bs)
      (\<lambda>_. sorted_out bad (concat bs) t) (\<lambda>_ _. False) (w, t)"
proof (induction bs arbitrary: w t)
  case Nil
  then show ?case by (simp add: wp_simps sorted_out_def)
next
  case (Cons b bs)
  then show ?case
    unfolding each_io.simps concat.simps
    by (intro sorted_out_then sendIsolated_sorts_out[OF assms]) simp_all
qed

text \<open>
  C33. While the window is open, and when the chain rejects exactly the batches that contain a bad plan, every good
  plan is reported executed and every bad plan is reported failed, in the order of the entries and each once: a
  failing plan never blocks the others, whatever the batch size, and the function returns.
\<close>

theorem auto_plan_isolation_exact:
  assumes "rejects_bad bad sendBatch" and "\<And>w. \<exists>w'. canSend w = (Settles (Inr True), w')"
  shows "\<exists>w' t. sendAutoPlanBatchesIsolated entries batchSize sendBatch canSend operationTimeoutMs sendTimeoutMs (w, [])
        = (Inr (), w', t)
      \<and> executed_in t = map entry_authority (filter (\<lambda>e. \<not> bad e) entries)
      \<and> failed_in t = map (\<lambda>e. coalesce (entry_authority e) Null) (filter bad entries)"
proof -
  let ?limit = "nat (boundedInteger batchSize 4 1 6)"
  let ?m = "sendAutoPlanBatchesIsolated entries batchSize sendBatch canSend operationTimeoutMs sendTimeoutMs"
  have limit: "0 < ?limit" using boundedInteger_range[of 1 4 6 batchSize] by simp
  have "b \<noteq> []" if "b \<in> set (chunks ?limit entries)" for b using chunks_length[OF that] by auto
  then have b: "list_all (\<lambda>b. b \<noteq> []) (chunks ?limit entries)" by (simp add: list_all_iff)
  have t1: "500 \<le> boundedInteger v 12000 500 30000 \<and> boundedInteger v 12000 500 30000 \<le> 30000" for v
    by (rule boundedInteger_range) simp_all
  have t2: "500 \<le> boundedInteger u (boundedInteger v 12000 500 30000) 500 60000
      \<and> boundedInteger u (boundedInteger v 12000 500 30000) 500 60000 \<le> 60000" for u v
    using t1[of v] by (intro boundedInteger_range) auto
  have p: "0 < x" if "500 \<le> x" for x :: int using that by simp
  have "wp ?m (\<lambda>_. sorted_out bad (concat (chunks ?limit entries)) []) (\<lambda>_ _. False) (w, [])"
    unfolding sendAutoPlanBatchesIsolated_def Let_def
    by (intro each_isolated_sorts_out assms b p conjunct1[OF t1] conjunct2[OF t1] conjunct1[OF t2] conjunct2[OF t2])
  then show ?thesis
    unfolding concat_chunks[OF limit] wp_def sorted_out_def
    by (auto split: prod.splits sum.splits)
qed

section \<open>Concurrent building\<close>

text \<open>What every schedule keeps.\<close>

definition pool_inv :: "nat \<Rightarrow> nat \<Rightarrow> (nat \<Rightarrow> 'b) \<Rightarrow> 'b pool \<Rightarrow> bool" where
  "pool_inv n m outcome p \<longleftrightarrow> length (busy p) = m \<and> length (pool_results p) = n
     \<and> called p = [0..<min (pool_cursor p) n]
     \<and> (\<forall>i < n. pool_results p ! i = (if i < pool_cursor p \<and> Some i \<notin> set (busy p) then Some (outcome i) else None))
     \<and> (\<forall>k < m. \<forall>i. busy p ! k = Some i \<longrightarrow> i < min (pool_cursor p) n)
     \<and> (\<forall>k < m. \<forall>k' < m. busy p ! k = busy p ! k' \<longrightarrow> busy p ! k \<noteq> None \<longrightarrow> k = k')
     \<and> (None \<in> set (busy p) \<longrightarrow> n \<le> pool_cursor p)"

lemma pool_started:
  assumes "j \<le> m" "m \<le> n"
  shows "fold (worker_next n) [0..<j] \<lparr>pool_cursor = 0, busy = replicate m None, pool_results = replicate n None, called = []\<rparr>
    = \<lparr>pool_cursor = j, busy = map Some [0..<j] @ replicate (m - j) None, pool_results = replicate n None, called = [0..<j]\<rparr>"
  using assms
proof (induction j)
  case 0
  show ?case by simp
next
  case (Suc j)
  obtain d where d: "m - j = Suc d" using Suc.prems by (cases "m - j") auto
  then have "m - Suc j = d" by simp
  then show ?case
    using Suc.IH Suc.prems by (simp add: d worker_next_def[abs_def] Let_def list_update_append)
qed

lemma pool_start_inv: "0 < limit \<Longrightarrow> pool_inv n (min limit n) outcome (pool_start n limit)"
  unfolding pool_start_def Let_def by (subst pool_started) (auto simp: pool_inv_def min_def)

lemma worker_next_inv:
  assumes inv: "pool_inv n m outcome p" and k: "k < m" "busy p ! k = Some i"
  shows "pool_inv n m outcome (worker_next n k (p\<lparr>pool_results := (pool_results p)[i := Some (outcome i)]\<rparr>))"
proof -
  let ?c = "pool_cursor p" let ?b = "busy p"
  have len: "length ?b = m" "length (pool_results p) = n" and cl: "called p = [0..<min ?c n]"
    and res: "\<And>j. j < n \<Longrightarrow> pool_results p ! j = (if j < ?c \<and> Some j \<notin> set ?b then Some (outcome j) else None)"
    and bound: "\<And>l j. l < m \<Longrightarrow> ?b ! l = Some j \<Longrightarrow> j < min ?c n"
    and dist: "\<And>l l'. l < m \<Longrightarrow> l' < m \<Longrightarrow> ?b ! l = ?b ! l' \<Longrightarrow> ?b ! l \<noteq> None \<Longrightarrow> l = l'"
    and none: "None \<in> set ?b \<longrightarrow> n \<le> ?c"
    using inv unfolding pool_inv_def by blast+
  have i: "i < min ?c n" by (rule bound[OF k])
  have rest: "Some j \<in> set (?b[k := x]) \<longleftrightarrow> x = Some j \<or> j \<noteq> i \<and> Some j \<in> set ?b" for j x
  proof -
    have "Some j \<in> set (?b[k := x]) \<longleftrightarrow> (\<exists>l < m. (if l = k then x else ?b ! l) = Some j)"
      using len(1) k(1) by (auto simp: in_set_conv_nth nth_list_update)
    also have "\<dots> \<longleftrightarrow> x = Some j \<or> (\<exists>l < m. l \<noteq> k \<and> ?b ! l = Some j)" using k(1) by auto
    also have "(\<exists>l < m. l \<noteq> k \<and> ?b ! l = Some j) \<longleftrightarrow> j \<noteq> i \<and> Some j \<in> set ?b"
    proof
      assume "\<exists>l < m. l \<noteq> k \<and> ?b ! l = Some j"
      then obtain l where l: "l < m" "l \<noteq> k" "?b ! l = Some j" by blast
      have "j \<noteq> i" using dist[OF k(1) l(1)] l(2,3) k(2) by auto
      moreover have "Some j \<in> set ?b" using l len(1) nth_mem[of l ?b] by simp
      ultimately show "j \<noteq> i \<and> Some j \<in> set ?b" by blast
    next
      assume j: "j \<noteq> i \<and> Some j \<in> set ?b"
      then obtain l where "l < m" "?b ! l = Some j" using len(1) by (auto simp: in_set_conv_nth)
      then show "\<exists>l < m. l \<noteq> k \<and> ?b ! l = Some j" using j k(2) by auto
    qed
    finally show ?thesis .
  qed
  let ?q = "worker_next n k (p\<lparr>pool_results := (pool_results p)[i := Some (outcome i)]\<rparr>)"
  let ?x = "if n \<le> ?c then None else Some ?c"
  have q: "busy ?q = ?b[k := ?x]" "pool_cursor ?q = Suc ?c" "pool_results ?q = (pool_results p)[i := Some (outcome i)]"
    "called ?q = (if n \<le> ?c then called p else called p @ [?c])"
    by (simp_all add: worker_next_def Let_def)
  have settled: "pool_results ?q ! j = (if j < Suc ?c \<and> Some j \<notin> set (busy ?q) then Some (outcome j) else None)"
    if "j < n" for j
    unfolding q rest using that i len res[OF that] by (auto simp: nth_list_update less_Suc_eq)
  have bound': "j < min (Suc ?c) n" if "l < m" "busy ?q ! l = Some j" for l j
    using that bound[of l j] len k(1) unfolding q by (auto simp: nth_list_update min_def split: if_splits)
  have dist': "l = l'" if "l < m" "l' < m" "busy ?q ! l = busy ?q ! l'" "busy ?q ! l \<noteq> None" for l l'
  proof -
    have fresh: "?b ! a \<noteq> Some ?c" if "a < m" for a using bound[OF that, of ?c] by auto
    show ?thesis
    proof (cases "l = k"; cases "l' = k")
      assume "l = k" "l' \<noteq> k"
      then show ?thesis using that fresh[of l'] len k(1) unfolding q by (auto split: if_splits)
    next
      assume "l \<noteq> k" "l' = k"
      then show ?thesis using that fresh[of l] len k(1) unfolding q by (auto split: if_splits)
    next
      assume "l \<noteq> k" "l' \<noteq> k"
      then show ?thesis using that dist[of l l'] len unfolding q by simp
    qed simp
  qed
  have none': "None \<in> set (busy ?q) \<longrightarrow> n \<le> Suc ?c"
    unfolding q using none set_update_subset_insert[of ?b k ?x] by (cases "n \<le> ?c") auto
  have called': "called ?q = [0..<min (Suc ?c) n]" unfolding q cl by (auto simp: min_def)
  show ?thesis
    unfolding pool_inv_def q(2)
    using settled bound' dist' none' called' by (simp add: q len)
qed

lemma pool_settle_inv: "pool_inv n m outcome p \<Longrightarrow> pool_inv n m outcome (pool_settle n outcome k p)"
proof (cases "k < length (busy p) \<and> busy p ! k \<noteq> None")
  case True
  assume inv: "pool_inv n m outcome p"
  then have "length (busy p) = m" by (simp add: pool_inv_def)
  with True show ?thesis using worker_next_inv[OF inv] by (auto simp: pool_settle_def)
next
  case False
  then have "pool_settle n outcome k p = p" by (auto simp: pool_settle_def)
  then show "pool_inv n m outcome p \<Longrightarrow> ?thesis" by simp
qed

lemma pool_run_inv: "0 < limit \<Longrightarrow> pool_inv n (min limit n) outcome (pool_run n limit outcome schedule)"
  unfolding pool_run_def
  by (induction schedule rule: rev_induct) (simp_all add: pool_start_inv pool_settle_inv)

text \<open>
  Whatever the order in which the mappers settle: the mapper is called on the indices in order and on each at most
  once, at most \<open>limit\<close> calls are open, and when all workers have returned the results are the outcomes by index.
\<close>

theorem mapConcurrent_any_schedule:
  assumes "0 < limit"
  shows "called (pool_run n limit outcome schedule) = [0..<length (called (pool_run n limit outcome schedule))]
    \<and> length (filter (\<lambda>b. b \<noteq> None) (busy (pool_run n limit outcome schedule))) \<le> limit
    \<and> (pool_done (pool_run n limit outcome schedule) \<longrightarrow>
         pool_results (pool_run n limit outcome schedule) = map (\<lambda>i. Some (outcome i)) [0..<n]
         \<and> called (pool_run n limit outcome schedule) = [0..<n])"
proof -
  define p where "p = pool_run n limit outcome schedule"
  have inv: "pool_inv n (min limit n) outcome p" unfolding p_def by (rule pool_run_inv[OF assms])
  have "called p = [0..<length (called p)]" using inv by (simp add: pool_inv_def)
  moreover have "length (filter (\<lambda>b. b \<noteq> None) (busy p)) \<le> limit"
    using inv length_filter_le[of "\<lambda>b. b \<noteq> None" "busy p"] by (simp add: pool_inv_def)
  moreover have "pool_results p = map (\<lambda>i. Some (outcome i)) [0..<n] \<and> called p = [0..<n]" if "pool_done p"
  proof -
    have idle: "set (busy p) \<subseteq> {None}" using that by (auto simp: pool_done_def list_all_iff)
    have "n \<le> pool_cursor p"
    proof (cases "n = 0")
      case False
      moreover have "length (busy p) = min limit n" using inv by (simp add: pool_inv_def)
      ultimately have "busy p \<noteq> []" using assms by auto
      then have "None \<in> set (busy p)" using idle by (cases "busy p") auto
      then show ?thesis using inv by (simp add: pool_inv_def)
    qed simp
    then have "\<And>i. i < n \<Longrightarrow> pool_results p ! i = Some (outcome i)" "called p = [0..<n]"
      using inv idle by (auto simp: pool_inv_def min_def)
    moreover have "length (pool_results p) = n" using inv by (simp add: pool_inv_def)
    ultimately show ?thesis by (auto intro: nth_equalityI)
  qed
  ultimately show ?thesis unfolding p_def by blast
qed

text \<open>Every settlement of an open call leaves one result less to wait for, so the workers return.\<close>

lemma filter_update_less:
  "i < length xs \<Longrightarrow> P (xs ! i) \<Longrightarrow> \<not> P y \<Longrightarrow> length (filter P (xs[i := y])) < length (filter P xs)"
proof (induction xs arbitrary: i)
  case (Cons x xs)
  then show ?case by (cases i) auto
qed simp

lemma pool_progress:
  assumes "pool_inv n m outcome p" "k < length (busy p)" "busy p ! k = Some i"
  shows "length (filter (\<lambda>r. r = None) (pool_results (pool_settle n outcome k p)))
     < length (filter (\<lambda>r. r = None) (pool_results p))"
proof -
  have i: "i < n" "length (pool_results p) = n" using assms by (auto simp: pool_inv_def)
  have "Some i \<in> set (busy p)" using assms(2,3) by (metis nth_mem)
  then have "pool_results p ! i = None" using assms(1) i by (simp add: pool_inv_def)
  then show ?thesis
    using assms(2,3) i filter_update_less[of i "pool_results p" "\<lambda>r. r = None" "Some (outcome i)"]
    by (simp add: pool_settle_def worker_next_def Let_def)
qed

section \<open>Reading every plan\<close>

lemma scan_pages_table:
  assumes idx: "\<And>page w. indexedRows (plan_query (int n) (int page * int n)) w
      = (Settles (Inr (Arr (take n (drop (page * n) table)))), w)"
    and "0 < n" "0 < timeout" "timeout \<le> 30000"
  shows "page * n \<le> length table \<Longrightarrow>
    scan_pages indexedRows (int n) timeout left page (fold add_authority (take (page * n) table) []) (w, t)
      = (if length table < (page + left) * n then Inr (fold add_authority table [])
         else Inl (Error (''Auto-plan index exceeded the bounded '' @ show_int (int n * int (page + left)) @ '' active-plan scan'')),
         w, t)"
proof (induction left arbitrary: page)
  case 0
  then show ?case by (simp add: fail_io_def)
next
  case (Suc left)
  define rows where "rows = take n (drop (page * n) table)"
  have "take (page * n) table @ rows = take (Suc page * n) table"
    unfolding rows_def by (metis add.commute mult_Suc take_add)
  then have found: "fold add_authority rows (fold add_authority (take (page * n) table) [])
      = fold add_authority (take (Suc page * n) table) []"
    by (metis comp_apply fold_append)
  have read: "read_io (withOperationTimeout (indexedRows (plan_query (int n) (int page * int n))) timeout
       (''Auto-plan index page '' @ show_int (int page + 1)) None) (w, t) = (Inr (Arr rows), w, t)"
    using assms(3,4) by (simp add: read_io_def withOperationTimeout_valid idx rows_def)
  show ?case
  proof (cases "length table < Suc page * n")
    case True
    then have "length rows < n" using Suc.prems by (simp add: less_diff_conv2 rows_def)
    moreover have "take (Suc page * n) table = table" using True by simp
    moreover have "length table < (page + Suc left) * n"
      using True by (rule less_le_trans) simp
    ultimately show ?thesis
      using read found by (simp add: then_io_def lift_io_def ok_io_def Let_def del: mult_Suc)
  next
    case False
    then have full: "length rows = n" using Suc.prems by (simp add: rows_def)
    show ?thesis
      using read found full Suc.IH[of "Suc page"] False
      by (simp add: then_io_def lift_io_def ok_io_def Let_def del: mult_Suc take_drop)
  qed
qed

theorem fetchActiveAutoPlanAuthorities_complete:
  fixes table :: "jsval list" and pageSize maxPages :: jsval and w :: 'w and t :: "'e list"
  defines "n \<equiv> nat (boundedInteger (with_default pageSize (IntV 250)) 250 1 1000)"
    and "pages \<equiv> nat (boundedInteger (with_default maxPages (IntV 100)) 100 1 1000)"
  assumes "\<And>page w. indexedRows (plan_query (int n) (int page * int n)) w
      = (Settles (Inr (Arr (take n (drop (page * n) table)))), w)"
  shows "fetchActiveAutoPlanAuthorities indexedRows pageSize maxPages operationTimeoutMs (w, t)
      = (if length table < pages * n then Inr (fold add_authority table [])
         else Inl (Error (''Auto-plan index exceeded the bounded '' @ show_int (int n * int pages) @ '' active-plan scan'')),
         w, t)"
proof -
  have n: "0 < n" "int n = boundedInteger (with_default pageSize (IntV 250)) 250 1 1000"
    unfolding n_def using boundedInteger_range[of 1 250 1000 "with_default pageSize (IntV 250)"] by auto
  define timeout where "timeout = boundedInteger (with_default operationTimeoutMs (IntV 8000)) 8000 500 30000"
  have "500 \<le> timeout \<and> timeout \<le> 30000"
    unfolding timeout_def by (rule boundedInteger_range) simp_all
  then have "0 < timeout" "timeout \<le> 30000" by simp_all
  note scan = scan_pages_table[OF assms(3) n(1) this, where page = 0 and left = pages, simplified mult_0 take_0 fold_Nil id_apply]
  show ?thesis
    unfolding fetchActiveAutoPlanAuthorities_def Let_def n(2)[symmetric] pages_def[symmetric] timeout_def[symmetric]
    by (subst scan) simp_all
qed

section \<open>The window is left\<close>

lemma withOperationTimeout_world:
  "withOperationTimeout operation timeoutMs label h w = (r, w') \<Longrightarrow> w' = w \<or> (\<exists>l. operation w = (l, w'))"
  by (auto simp: withOperationTimeout_def split: if_splits prod.splits late.splits)

lemma keeps_timed_read:
  assumes "\<And>w t r w'. I (w, t) \<Longrightarrow> operation w = (r, w') \<Longrightarrow> I (w', t)"
  shows "keeps I (read_io (withOperationTimeout operation timeoutMs label h))"
  using assms by (intro keeps_read) (blast dest: withOperationTimeout_world)

lemma keeps_timed_call:
  assumes "\<And>w t r w'. I (w, t) \<Longrightarrow> operation w = (r, w') \<Longrightarrow> I (w', t)" and "\<And>w t e. I (w, t) \<Longrightarrow> I (w, t @ [e])"
  shows "keeps I (call_io (withOperationTimeout operation timeoutMs label h) event)"
  using assms by (intro keeps_call) (blast dest: withOperationTimeout_world)

text \<open>An invariant of the world that every callback keeps is kept by a whole pass.\<close>

lemma plan_pass_keeps:
  assumes rows: "\<And>q w t r w'. I (w, t) \<Longrightarrow> indexedRows q w = (r, w') \<Longrightarrow> I (w', t)"
    and entry: "\<And>a w t r w'. I (w, t) \<Longrightarrow> buildEntry a w = (r, w') \<Longrightarrow> I (w', t)"
    and send: "\<And>b w t r w'. I (w, t) \<Longrightarrow> sendBatch b w = (r, w') \<Longrightarrow> I (w', t)"
    and clock: "\<And>w t r w'. I (w, t) \<Longrightarrow> clockRead w = (r, w') \<Longrightarrow> I (w', t)"
    and trace: "\<And>w t e. I (w, t) \<Longrightarrow> I (w, t @ [e])"
  shows "keeps I (plan_pass bettingEndsAt clockRead indexedRows buildEntry sendBatch batchSize timeout sendTimeout)"
proof -
  have win: "I (w', t)" if "I (w, t)" "windowOpen clockRead bettingEndsAt w = (r, w')" for w t r w'
  proof -
    obtain l w1 where l: "clockRead w = (l, w1)" by fastforce
    have "w' = w1" using that(2) by (simp add: windowOpen_def l split: late.splits sum.splits)
    then show ?thesis using clock[OF that(1) l] by simp
  qed
  have scan: "keeps I (scan_pages indexedRows limit tm left page as)" for limit tm left page as
  proof (induction left arbitrary: page as)
    case (Suc left)
    have "keeps I (read_io (withOperationTimeout (indexedRows q) tm l None))" for q l
      by (rule keeps_timed_read) (rule rows)
    then show ?case by (simp add: Let_def keeps_then Suc.IH)
  qed simp
  have log: "keeps I (log_io e)" for e by (rule keeps_log) (rule trace)
  have collect: "keeps I (collect_entry x entries)" for x entries
    by (cases x; cases "snd x") (auto simp: collect_entry_def intro!: keeps_then log)
  have isolated: "keeps I (sendIsolated sendBatch (windowOpen clockRead bettingEndsAt) tm stm batch)" for tm stm batch
  proof (induction batch rule: bisect_induct)
    case (bisect batch)
    have iso: "keeps I (isolate sendBatch (windowOpen clockRead bettingEndsAt) tm stm batch e)" for e
      unfolding isolate_def using bisect by (intro keeps_if log keeps_then) simp_all
    have check: "keeps I (call_io (withOperationTimeout (windowOpen clockRead bettingEndsAt) tm l None) event)" for l event
      by (rule keeps_timed_call) (rule win, assumption, assumption, rule trace)
    have sent: "keeps I (call_io (withOperationTimeout (sendBatch b) stm l None) event)" for b l event
      by (rule keeps_timed_call) (rule send, assumption, assumption, rule trace)
    show ?case
      unfolding sendIsolated_unfold
      by (intro keeps_then keeps_if log keeps_catch check sent iso)
  qed
  have entry': "keeps I (read_io (withOperationTimeout (buildEntry a) tm l None))" for a tm l
    by (rule keeps_timed_read) (rule entry)
  show ?thesis
    unfolding plan_pass_def mapConcurrent_def fetchActiveAutoPlanAuthorities_def sendAutoPlanBatchesIsolated_def Let_def
    by (intro keeps_then scan keeps_map keeps_catch entry' keeps_ok keeps_fold collect keeps_each isolated)
qed

text \<open>A clock in milliseconds that no operation sets back; \<open>sleep(d)\<close> does not return before \<open>d\<close> milliseconds.\<close>

definition fair_clock :: "('w \<Rightarrow> int) \<Rightarrow> ('w \<Rightarrow> int late \<times> 'w) \<Rightarrow> (int \<Rightarrow> 'w \<Rightarrow> 'w) \<Rightarrow> bool" where
  "fair_clock ms clockRead sleep \<longleftrightarrow> (\<forall>w. clockRead w = (Settles (Inr (ms w div 1000)), w)) \<and>
     (\<forall>d w. 0 \<le> d \<longrightarrow> ms w + d \<le> ms (sleep d w))"

lemma window_loop_returns:
  assumes fair: "fair_clock ms clockRead sleep" and "500 \<le> retryDelay" "0 < timeout" "timeout \<le> 30000"
    and pass: "\<And>b. keeps (\<lambda>s. b \<le> ms (fst s)) pass"
  shows "bettingEndsAt * 1000 \<le> ms w + 500 * int fuel \<Longrightarrow>
    wp (window_loop (Suc fuel) bettingEndsAt clockRead sleep retryDelay timeout pass)
      (\<lambda>r _. r = Some ()) (\<lambda>_ _. False) (w, t)"
proof (induction fuel arbitrary: w t)
  case 0
  then have "\<not> ms w div 1000 < bettingEndsAt" by auto
  then show ?case
    using fair assms(3,4) by (simp add: wp_simps withOperationTimeout_valid fair_clock_def Let_def)
next
  case (Suc fuel)
  have clock: "clockRead v = (Settles (Inr (ms v div 1000)), v)" for v using fair by (simp add: fair_clock_def)
  let ?attempt = "catch_io pass (\<lambda>error. log_io (Reported (IndexUnavailable (error_message error))))"
  let ?loop = "window_loop (Suc fuel) bettingEndsAt clockRead sleep retryDelay timeout pass"
  have body: "wp ?attempt (\<lambda>_ s. ms w \<le> ms (fst s)) (\<lambda>_ _. False) (w, t)"
    unfolding wp_catch
    by (rule wp_mono[OF keepsD[OF pass[of "ms w"]]]) (auto simp: wp_log split: prod.splits)
  have rest: "wp (then_io (read_io (withOperationTimeout clockRead timeout ''Auto-plan chain time'' None)) (\<lambda>after.
       let remainingMs = (bettingEndsAt - after) * 1000 in
       if remainingMs \<le> 0 then ok_io (Some ())
       else then_io (read_io (\<lambda>w. (Inr (), sleep (min retryDelay (max 100 remainingMs)) w))) (\<lambda>_. ?loop)))
      (\<lambda>r _. r = Some ()) (\<lambda>_ _. False) (v, u)" if v: "ms w \<le> ms v" for v u
  proof (cases "(bettingEndsAt - ms v div 1000) * 1000 \<le> 0")
    case True
    then show ?thesis using assms(3,4) by (simp add: wp_simps withOperationTimeout_valid clock Let_def)
  next
    case False
    let ?d = "min retryDelay (max 100 ((bettingEndsAt - ms v div 1000) * 1000))"
    have d: "500 \<le> ?d" using False assms(2) by auto
    then have "ms v + 500 \<le> ms (sleep ?d v)" using fair unfolding fair_clock_def by (smt (verit))
    then have "bettingEndsAt * 1000 \<le> ms (sleep ?d v) + 500 * int fuel" using Suc.prems v by simp
    then have "wp ?loop (\<lambda>r _. r = Some ()) (\<lambda>_ _. False) (sleep ?d v, u)" by (rule Suc.IH)
    then show ?thesis using False assms(3,4)
      by (simp add: wp_simps withOperationTimeout_valid clock Let_def del: window_loop.simps)
  qed
  have tail: "wp (then_io ?attempt (\<lambda>_. then_io (read_io (withOperationTimeout clockRead timeout ''Auto-plan chain time'' None)) (\<lambda>after.
       let remainingMs = (bettingEndsAt - after) * 1000 in
       if remainingMs \<le> 0 then ok_io (Some ())
       else then_io (read_io (\<lambda>w. (Inr (), sleep (min retryDelay (max 100 remainingMs)) w))) (\<lambda>_. ?loop))))
      (\<lambda>r _. r = Some ()) (\<lambda>_ _. False) (w, t)"
    unfolding wp_then[of ?attempt]
    by (rule wp_mono[OF body]) (use rest in auto)
  show ?case
    using tail assms(3,4)
    by (subst window_loop.simps(2))
      (simp add: wp_then[of "read_io (withOperationTimeout clockRead timeout ''Auto-plan chain time'' None)"] wp_read wp_ok wp_if withOperationTimeout_valid clock Let_def del: window_loop.simps)
qed

text \<open>
  C34. The executor returns: on a fair clock, with callbacks that do not set it back, a pass per half second of the
  remaining window is fuel enough, whatever the index, the plans and the sends answer, errors and timeouts included.
\<close>

theorem executeAutoPlans_returns:
  assumes "fair_clock ms clockRead sleep"
    and "\<And>q w r w'. indexedRows q w = (r, w') \<Longrightarrow> ms w \<le> ms w'"
    and "\<And>a w r w'. buildEntry a w = (r, w') \<Longrightarrow> ms w \<le> ms w'"
    and "\<And>b w r w'. sendBatch b w = (r, w') \<Longrightarrow> ms w \<le> ms w'"
    and "bettingEndsAt * 1000 \<le> ms w + 500 * int fuel"
  shows "\<exists>w' t'. executeAutoPlansDuringWindow (Suc fuel) bettingEndsAt clockRead sleep indexedRows buildEntry sendBatch
      batchSize retryMs operationTimeoutMs sendTimeoutMs (w, t) = (Inr (Some ()), w', t')"
proof -
  have range: "500 \<le> boundedInteger retryMs 5000 500 15000" "0 < boundedInteger operationTimeoutMs 8000 500 30000"
    "boundedInteger operationTimeoutMs 8000 500 30000 \<le> 30000"
    using boundedInteger_range[of 500 5000 15000 retryMs] boundedInteger_range[of 500 8000 30000 operationTimeoutMs]
    by simp_all
  have clock: "clockRead v = (Settles (Inr (ms v div 1000)), v)" for v using assms(1) by (simp add: fair_clock_def)
  have "keeps (\<lambda>s. b \<le> ms (fst s)) (plan_pass bettingEndsAt clockRead indexedRows buildEntry sendBatch batchSize tm stm)"
    for b tm stm
    by (rule plan_pass_keeps)
      (auto simp: clock intro: order_trans[OF _ assms(2)] order_trans[OF _ assms(3)] order_trans[OF _ assms(4)])
  from window_loop_returns[OF assms(1) range this assms(5)] show ?thesis
    unfolding executeAutoPlansDuringWindow_def Let_def by (rule wp_returns)
qed

section \<open>Examples\<close>

text \<open>A world that is its clock: every call takes 100 ms, plan \<open>B\<close> is rejected.\<close>

definition ex_clock :: "int \<Rightarrow> int late \<times> int" where
  "ex_clock w = (Settles (Inr (w div 1000)), w)"

definition ex_rows :: "string \<Rightarrow> int \<Rightarrow> jsval late \<times> int" where
  "ex_rows q w = (Settles (Inr (Arr [Obj [(''authority'', Str ''A'')], Obj [(''authority'', Str ''B'')]])), w + 100)"

definition ex_build :: "string \<Rightarrow> int \<Rightarrow> jsval late \<times> int" where
  "ex_build a w = (Settles (Inr (demo_entry a)), w + 100)"

definition ex_send :: "jsval list \<Rightarrow> int \<Rightarrow> jsval late \<times> int" where
  "ex_send batch w = (if demo_entry ''B'' \<in> set batch then (Settles (Inl (Error ''rejected'')), w + 100)
     else (Settles (Inr (Obj [(''signature'', Str ''sig'')])), w + 100))"

lemma ex_fair: "fair_clock id ex_clock (\<lambda>d w. w + d)"
  by (simp add: fair_clock_def ex_clock_def)

theorem executeAutoPlans_returns_witness:
  "\<exists>w' t'. executeAutoPlansDuringWindow (Suc 4) 2 ex_clock (\<lambda>d w. w + d) ex_rows ex_build ex_send
      Undef Undef Undef Undef (0, []) = (Inr (Some ()), w', t')"
  by (rule executeAutoPlans_returns[OF ex_fair]) (auto simp: ex_rows_def ex_build_def ex_send_def split: if_splits)

lemma ex_run: "executeAutoPlansDuringWindow (Suc 4) 2 ex_clock (\<lambda>d w. w + d) ex_rows ex_build ex_send
      Undef Undef Undef Undef (1400, [])
    = (Inr (Some ()), 2000, demo_trace)"
  by code_simp

theorem auto_plan_send_discipline_witness:
  "(\<exists>rest. [WindowChecked (Inr True)] = rest @ [WindowChecked (Inr True)])
    \<and> 1 \<le> length [demo_entry ''A'', demo_entry ''B''] \<and> length [demo_entry ''A'', demo_entry ''B''] \<le> 6"
  by (rule auto_plan_send_discipline[OF ex_run]) (simp add: demo_trace_def)

theorem auto_plan_isolation_exact_witness:
  "\<exists>w' t. sendAutoPlanBatchesIsolated [demo_entry ''A'', demo_entry ''B''] (IntV 4) demo_send
        (\<lambda>w. (Settles (Inr True), w)) Undef Undef (0, []) = (Inr (), w', t)
      \<and> executed_in t = map entry_authority (filter (\<lambda>e. \<not> e = demo_entry ''B'') [demo_entry ''A'', demo_entry ''B''])
      \<and> failed_in t = map (\<lambda>e. coalesce (entry_authority e) Null)
          (filter (\<lambda>e. e = demo_entry ''B'') [demo_entry ''A'', demo_entry ''B''])"
proof (rule auto_plan_isolation_exact)
  show "rejects_bad (\<lambda>e. e = demo_entry ''B'') demo_send"
    by (auto simp: rejects_bad_def demo_send_def list_ex_iff)
qed simp

theorem mapConcurrent_any_schedule_witness:
  "called (pool_run 3 2 (\<lambda>i. i * 10) [1, 0, 0]) = [0..<length (called (pool_run 3 2 (\<lambda>i. i * 10) [1, 0, 0]))]
    \<and> length (filter (\<lambda>b. b \<noteq> None) (busy (pool_run 3 2 (\<lambda>i. i * 10) [1, 0, 0]))) \<le> 2
    \<and> (pool_done (pool_run 3 2 (\<lambda>i. i * 10) [1, 0, 0]) \<longrightarrow>
         pool_results (pool_run 3 2 (\<lambda>i. i * 10) [1, 0, 0]) = map (\<lambda>i. Some (i * 10)) [0..<3]
         \<and> called (pool_run 3 2 (\<lambda>i. i * 10) [1, 0, 0]) = [0..<3])"
  by (rule mapConcurrent_any_schedule) simp

end
