(* ===== verification/Keeper_Tx.thy ===== *)
theory Keeper_Tx
  imports Js_Io Js_Json Js_Bytes
begin

text \<open>
  What the keepers share when they send a transaction: the instructions of the program, the message with its
  compute budget, the compute limit measured by a simulation, and the batching of instructions. An instruction is
  what \<open>program.methods.<name>(args).accounts(accounts).instruction()\<close> encodes.
\<close>

section \<open>Messages\<close>

datatype instruction = Instruction (method_name: string) (method_args: "jsval list") (accounts: "(string \<times> jsval) list")

datatype tx_instruction =
    SetComputeUnitLimit jsnum
  | SetComputeUnitPrice jsnum
  | Call instruction

record tx_message =
  payerKey :: string
  recentBlockhash :: string
  message_instructions :: "tx_instruction list"

definition calls :: "tx_message \<Rightarrow> instruction list" where
  "calls m = concat (map (\<lambda>i. case i of Call x \<Rightarrow> [x] | _ \<Rightarrow> []) (message_instructions m))"

text \<open>The account an instruction names.\<close>

definition account :: "instruction \<Rightarrow> string \<Rightarrow> jsval" where
  "account i name = (case map_of (accounts i) name of None \<Rightarrow> Undef | Some v \<Rightarrow> v)"

section \<open>What requests answer\<close>

record http_response =
  response_ok :: bool
  status :: int
  body_text :: string

record simulation =
  sim_err :: jsval
  sim_logs :: "string list"
  unitsConsumed :: jsval

text \<open>\<open>`${JSON.stringify(v)}`\<close>\<close>

definition stringify :: "jsval \<Rightarrow> string res" where
  "stringify v = then_res (json_text v) (\<lambda>t. Inr (case t of None \<Rightarrow> ''undefined'' | Some s \<Rightarrow> s))"

text \<open>\<open>process.env[name]\<close> with the fallback of \<open>||\<close>, as text.\<close>

definition env_text :: "(string \<Rightarrow> jsval) \<Rightarrow> string \<Rightarrow> string \<Rightarrow> string" where
  "env_text env name fallback = to_str (js_or (env name) (Str fallback))"

text \<open>\<open>String(process.env.SUPABASE_URL || '').replace(/\/$/, '')\<close>\<close>

definition base_url :: "(string \<Rightarrow> jsval) \<Rightarrow> string" where
  "base_url env = (let s = env_text env ''SUPABASE_URL'' [] in
     if s \<noteq> [] \<and> last s = CHR ''/'' then butlast s else s)"

text \<open>\<open>/^https:\/\//\<close>\<close>

definition is_https :: "string \<Rightarrow> bool" where
  "is_https s = (take 8 s = ''https://'')"

text \<open>\<open>new URLSearchParams(params).toString()\<close>: the form encoding of names and values.\<close>

definition form_char :: "char \<Rightarrow> string" where
  "form_char c = (let n = (of_char c :: nat); up = (\<lambda>d :: nat. char_of (if d < 10 then 48 + d else 55 + d)) in
     if is_digit c \<or> (65 \<le> n \<and> n \<le> 90) \<or> (97 \<le> n \<and> n \<le> 122) \<or> c \<in> {CHR ''*'', CHR ''-'', CHR ''.'', CHR ''_''} then [c]
     else if c = CHR '' '' then ''+''
     else concat (map (\<lambda>b. [CHR ''%'', up (unat b div 16), up (unat b mod 16)]) (utf8 c)))"

definition form_encode :: "(string \<times> string) list \<Rightarrow> string" where
  "form_encode params = join ''&'' (map (\<lambda>(k, v). concat (map form_char k) @ ''='' @ concat (map form_char v)) params)"

section \<open>The compute limit\<close>

definition num_ceil :: "jsnum \<Rightarrow> jsnum" where
  "num_ceil x = (case x of Fin r \<Rightarrow> Fin (of_int \<lceil>r\<rceil>) | _ \<Rightarrow> x)"

text \<open>\<open>Math.max(50_000, Number(unitsConsumed || fallback))\<close> and \<open>Math.min(1_400_000, Math.ceil(measured * 1.1))\<close>\<close>

definition measuredUnits :: "int \<Rightarrow> jsval \<Rightarrow> jsnum" where
  "measuredUnits fallback consumed = num_max (Fin 50000) (to_num (js_or consumed (IntV fallback)))"

definition computeLimit :: "jsnum \<Rightarrow> jsnum" where
  "computeLimit measured = num_min (Fin 1400000) (num_ceil (num_mul measured (Fin (fl (11 / 10)))))"

text \<open>The limit covers the measured units, with rounding, and stays within what a transaction may ask for.\<close>

lemma fl_tenth: "fl (11 / 10) = 2476979795053773 / 2251799813685248"
  by code_simp

lemma fl_near: "1 \<le> x \<Longrightarrow> x * (1 - 2 powi (- 53)) \<le> fl x \<and> fl x \<le> x * (1 + 2 powi (- 53))"
proof -
  assume x: "1 \<le> x"
  have "(2::rat) powi (- 1022) \<le> 2 powi 0" by (rule power_int_increasing) auto
  then have "\<bar>fl x - x\<bar> \<le> \<bar>x\<bar> * 2 powi (- 53)" using x by (intro fl_error) auto
  then have "\<bar>fl x - x\<bar> \<le> x * 2 powi (- 53)" using x by simp
  then show ?thesis unfolding right_diff_distrib distrib_left abs_le_iff by auto
qed

lemma computeLimit_covers:
  assumes "1 \<le> m" "m \<le> 1400000"
  shows "\<exists>c. computeLimit (Fin (of_int m)) = Fin (of_int c) \<and> m \<le> c \<and> c \<le> 1400000"
proof -
  define x :: rat where "x = of_int m"
  define p where "p = x * fl (11 / 10)"
  have x: "1 \<le> x" "x \<le> 1400000"
    using assms unfolding x_def by (metis of_int_1_le_iff) (metis assms(2) of_int_le_iff of_int_numeral)
  have p: "x + x / 20 \<le> p" "p \<le> 2 * x" using x by (simp_all add: p_def fl_tenth)
  then have p1: "1 \<le> p" using x by linarith
  have e: "(2::rat) powi (- 53) \<le> 1 / 100" by (simp add: power_int_minus)
  have "p * (1 - 1 / 100) \<le> p * (1 - 2 powi (- 53))" using p1 e by (intro mult_left_mono) auto
  then have "p - p / 100 \<le> fl p" using fl_near[OF p1] by (simp add: algebra_simps)
  then have lo: "x \<le> fl p" using p x by linarith
  have "p * (1 + 2 powi (- 53)) \<le> p * 2" using p1 e by (intro mult_left_mono) auto
  then have "fl p \<le> p * 2" using fl_near[OF p1] by linarith
  then have hi: "fl p < 2 ^ 24" using p x by simp
  have nz: "fl p \<noteq> 0" using lo x by linarith
  have "\<bar>fl p\<bar> < 2 powi 24" using hi lo x by simp
  then have "expo (fl p) < 24" by (rule expo_less[OF nz])
  then have mul: "num_mul (Fin (of_int m)) (Fin (fl (11 / 10))) = Fin (fl p)"
    by (simp add: num_of_rat_def Let_def p_def x_def)
  have "of_int m \<le> fl p" using lo by (simp add: x_def)
  then have "m \<le> \<lceil>fl p\<rceil>" by (simp add: le_ceiling_iff)
  then show ?thesis
    unfolding computeLimit_def mul num_ceil_def
    using assms by (auto simp: num_min_def intro!: exI[of _ "min 1400000 \<lceil>fl p\<rceil>"] split: if_splits)
qed

text \<open>
  C36. Whatever number of compute units a simulation reports, up to the most a transaction may use, the limit the
  transaction is then sent with covers it, is at least 50000 and stays within that most, with every rounding of the
  Number arithmetic.
\<close>

theorem compute_limit_covers_simulation:
  assumes "0 \<le> used" "used \<le> 1400000"
  shows "\<exists>limit. computeLimit (measuredUnits 1400000 (IntV used)) = Fin (of_int limit)
    \<and> used \<le> limit \<and> 50000 \<le> limit \<and> limit \<le> 1400000"
proof -
  define m where "m = max 50000 (if used = 0 then 1400000 else used)"
  have "measuredUnits 1400000 (IntV used) = Fin (of_int m)"
    by (auto simp: measuredUnits_def js_or_def num_max_def m_def max_def)
  moreover have "1 \<le> m" "m \<le> 1400000" "used \<le> m" "50000 \<le> m" using assms by (auto simp: m_def)
  ultimately show ?thesis using computeLimit_covers[of m] by fastforce
qed

theorem compute_limit_covers_simulation_witness:
  "\<exists>limit. computeLimit (measuredUnits 1400000 (IntV 120000)) = Fin (of_int limit)
    \<and> 120000 \<le> limit \<and> 50000 \<le> limit \<and> limit \<le> 1400000"
  by (rule compute_limit_covers_simulation) simp_all

section \<open>Batches\<close>

text \<open>
  \<open>for (let offset = 0; offset < xs.length; offset += size) xs.slice(offset, offset + size)\<close> for a Number \<open>size\<close>.
  A size of at least one moves the offset on; \<open>NaN\<close> ends the loop after one empty slice. The fuel is one more than
  the number of elements.
\<close>

definition slice_index :: "jsnum \<Rightarrow> nat" where
  "slice_index x = (case x of Fin r \<Rightarrow> nat \<lfloor>r\<rfloor> | _ \<Rightarrow> 0)"

fun num_slices :: "nat \<Rightarrow> jsnum \<Rightarrow> jsnum \<Rightarrow> 'a list \<Rightarrow> 'a list list" where
  "num_slices 0 offset step xs = []"
| "num_slices (Suc fuel) offset step xs =
     (if num_lt offset (Fin (of_nat (length xs)))
      then drop (slice_index offset) (take (slice_index (num_add offset step)) xs)
        # num_slices fuel (num_add offset step) step xs
      else [])"

definition batches :: "jsnum \<Rightarrow> 'a list \<Rightarrow> 'a list list" where
  "batches step xs = num_slices (Suc (length xs)) (Fin 0) step xs"

lemma num_slices_chunks:
  assumes "0 < k" "safe_num (int (length xs) + int k)"
  shows "length xs \<le> done + fuel \<Longrightarrow> num_slices (Suc fuel) (Fin (of_nat done)) (Fin (of_nat k)) xs = chunks k (drop done xs)"
proof (induction fuel arbitrary: "done")
  case 0
  then show ?case by simp
next
  case (Suc fuel)
  show ?case
  proof (cases "done < length xs")
    case False
    then show ?thesis by simp
  next
    case True
    have "safe_num (int done + int k)" using assms(2) True by (auto simp: safe_num_def)
    then have add: "num_add (Fin (of_nat done)) (Fin (of_nat k)) = Fin (of_nat (done + k))"
      using num_of_int_small[of "int done + int k"] by simp
    have "chunks k (drop done xs) = take k (drop done xs) # chunks k (drop (done + k) xs)"
      using True assms(1) by (subst chunks_Cons) (simp_all add: add.commute)
    then show ?thesis
      using Suc.IH[of "done + k"] Suc.prems True assms(1) add
      by (simp add: slice_index_def take_drop add.commute del: of_nat_add)
  qed
qed

lemma batches_chunks:
  "0 < k \<Longrightarrow> safe_num (int (length xs) + int k) \<Longrightarrow> batches (Fin (of_nat k)) xs = chunks k xs"
  using num_slices_chunks[of k xs 0 "length xs"] by (simp add: batches_def)

lemma batches_NaN: "batches NaN xs = (if xs = [] then [] else [[]])"
  by (cases xs) (simp_all add: batches_def slice_index_def)

end
