(* ===== verification/Lifecycle_Keeper.thy ===== *)
theory Lifecycle_Keeper
  imports Keeper_Tx Lifecycle_Queue Receipt_Recovery Js_Json
begin

text \<open>
  \<open>Protocol/scripts/round-lifecycle-keeper.mjs\<close>: the permissionless keeper that settles or refunds the receipts of a
  round, closes them, closes the round and its randomness account. Decoded accounts are records of the fields the
  keeper reads; a public key is its base58 text. RPC, database and clock are operations of the world; the trace
  records what was read from the chain and every transaction that was submitted.
\<close>

section \<open>Settings\<close>

record lifecycle_settings =
  settleBatchSize :: jsnum
  closeBatchSize :: jsnum
  randomnessRetentionSeconds :: jsnum
  roundAccountRetentionSeconds :: jsnum
  roundBatchSize :: jsval
  receiptRecoveryMaxAccounts :: jsval
  recoveryCloseOnly :: bool
  tickTimeoutMs :: jsnum
  realtimeDebounceMs :: jsnum
  intervalMs :: jsnum

definition env_number :: "(string \<Rightarrow> jsval) \<Rightarrow> string \<Rightarrow> int \<Rightarrow> jsnum" where
  "env_number env name fallback = to_num (js_or (env name) (IntV fallback))"

definition integer_within :: "int \<Rightarrow> int \<Rightarrow> jsnum \<Rightarrow> bool" where
  "integer_within lo hi x = (case integer_of (Num x) of None \<Rightarrow> False | Some n \<Rightarrow> lo \<le> n \<and> n \<le> hi)"

definition lifecycleSettings :: "(string \<Rightarrow> jsval) \<Rightarrow> lifecycle_settings res" where
  "lifecycleSettings env =
     (let tick = env_number env ''LIFECYCLE_TICK_TIMEOUT_MS'' 120000;
          debounce = env_number env ''LIFECYCLE_REALTIME_DEBOUNCE_MS'' 750;
          batch = env_number env ''LIFECYCLE_ROUND_BATCH_SIZE'' 12;
          maximum = env_number env ''LIFECYCLE_RECEIPT_RECOVERY_MAX_ACCOUNTS'' 2048 in
      assert_ok (integer_within 15000 600000 tick) ''LIFECYCLE_TICK_TIMEOUT_MS must be between 15000 and 600000'' (
      assert_ok (integer_within 250 5000 debounce) ''LIFECYCLE_REALTIME_DEBOUNCE_MS must be between 250 and 5000'' (
      assert_ok (integer_within 4 50 batch) ''LIFECYCLE_ROUND_BATCH_SIZE must be between 4 and 50'' (
      assert_ok (integer_within 1 10000 maximum)
        ''LIFECYCLE_RECEIPT_RECOVERY_MAX_ACCOUNTS must be between 1 and 10000'' (
      Inr \<lparr>settleBatchSize = num_max (Fin 1) (num_min (Fin 5) (env_number env ''RECEIPT_SETTLE_BATCH_SIZE'' 3)),
           closeBatchSize = num_max (Fin 1) (num_min (Fin 8) (env_number env ''RECEIPT_CLOSE_BATCH_SIZE'' 6)),
           randomnessRetentionSeconds = num_max (Fin 3600) (env_number env ''RANDOMNESS_RETENTION_SECONDS'' 86400),
           roundAccountRetentionSeconds = num_max (Fin 65) (env_number env ''ROUND_ACCOUNT_RETENTION_SECONDS'' 130),
           roundBatchSize = Num batch, receiptRecoveryMaxAccounts = Num maximum,
           recoveryCloseOnly = (env ''LIFECYCLE_RECOVERY_CLOSE_ONLY'' = Str ''1''),
           tickTimeoutMs = tick, realtimeDebounceMs = debounce,
           intervalMs = num_max (Fin 1000) (env_number env ''LIFECYCLE_KEEPER_INTERVAL_MS'' 5000)\<rparr>)))))"

text \<open>What the settings are: integers within their ranges, and batch sizes and delays that are not numbers or within theirs.\<close>

definition clamped :: "rat \<Rightarrow> rat \<Rightarrow> jsnum \<Rightarrow> bool" where
  "clamped lo hi x \<longleftrightarrow> x = NaN \<or> (\<exists>r. x = Fin r \<and> lo \<le> r \<and> r \<le> hi)"

definition lower_bounded :: "rat \<Rightarrow> jsnum \<Rightarrow> bool" where
  "lower_bounded lo x \<longleftrightarrow> x = NaN \<or> num_le (Fin lo) x"

definition wf_settings :: "lifecycle_settings \<Rightarrow> bool" where
  "wf_settings s \<longleftrightarrow> integer_within 15000 600000 (tickTimeoutMs s) \<and> integer_within 250 5000 (realtimeDebounceMs s)
     \<and> (\<exists>n. roundBatchSize s = Num n \<and> integer_within 4 50 n)
     \<and> (\<exists>n. receiptRecoveryMaxAccounts s = Num n \<and> integer_within 1 10000 n)
     \<and> clamped 1 5 (settleBatchSize s) \<and> clamped 1 8 (closeBatchSize s)
     \<and> lower_bounded 3600 (randomnessRetentionSeconds s) \<and> lower_bounded 65 (roundAccountRetentionSeconds s)
     \<and> lower_bounded 1000 (intervalMs s)"

lemma clamped_clamp: "lo \<le> hi \<Longrightarrow> clamped lo hi (num_max (Fin lo) (num_min (Fin hi) v))"
  by (cases v) (auto simp: num_max_def num_min_def clamped_def)

lemma lower_bounded_max: "lower_bounded lo (num_max (Fin lo) v)"
  by (cases v) (auto simp: num_max_def lower_bounded_def num_le_def)



section \<open>Accounts and addresses\<close>

record round_account =
  settled :: bool
  totalReceipts :: int
  processedReceipts :: int
  closedReceipts :: int
  archivedAtSlot :: int
  settlesAt :: int
  refundAt :: int
  buybackCompleted :: bool
  rentPayer :: string

record receipt_account =
  claimed :: bool
  refunded :: bool
  authority :: string

text \<open>
  The constants of the process: its key, the priority fee, the settings; and the functions of the SDK it relies on:
  \<open>new PublicKey\<close> and its bytes, program address derivation, the receipt decoder, \<open>Date.parse\<close> and
  \<open>toISOString\<close>.
\<close>

record keeper_context =
  payer :: string
  programId :: string
  priorityFee :: jsval
  settings :: lifecycle_settings
  publicKey :: "jsval \<Rightarrow> string res"
  keyBytes :: "string \<Rightarrow> bytes"
  findProgramAddress :: "bytes list \<Rightarrow> string \<times> int"
  decodeReceipt :: "bytes \<Rightarrow> receipt_state res"
  dateParse :: "string \<Rightarrow> jsnum"
  dateText :: "int \<Rightarrow> string"

definition u64Seed :: "jsval \<Rightarrow> bytes res" where
  "u64Seed v = then_res (to_bigint v) writeBigUInt64LE"

definition pda :: "keeper_context \<Rightarrow> string \<Rightarrow> bytes list \<Rightarrow> string" where
  "pda cx seed extra = fst (findProgramAddress cx (text_bytes seed # extra))"

definition configAddress :: "keeper_context \<Rightarrow> string" where
  "configAddress cx = pda cx ''config'' []"

definition roundPda :: "keeper_context \<Rightarrow> jsval \<Rightarrow> string res" where
  "roundPda cx rnd = then_res (u64Seed rnd) (\<lambda>seed. Inr (pda cx ''round'' [seed]))"

definition receiptPda :: "keeper_context \<Rightarrow> jsval \<Rightarrow> jsval \<Rightarrow> jsval \<Rightarrow> (jsval \<times> jsval) res" where
  "receiptPda cx rnd bettor nonce =
     then_res (u64Seed rnd) (\<lambda>roundSeed.
     then_res (publicKeyString bettor ''authority'') (\<lambda>key.
     then_res (u64Seed nonce) (\<lambda>nonceSeed.
     let (address, bump) = findProgramAddress cx [text_bytes ''bet'', roundSeed, keyBytes cx key, nonceSeed] in
     Inr (Key address, IntV bump))))"

definition minerPda :: "keeper_context \<Rightarrow> string \<Rightarrow> string" where
  "minerPda cx bettor = pda cx ''miner'' [keyBytes cx bettor]"

definition stakePda :: "keeper_context \<Rightarrow> string \<Rightarrow> string" where
  "stakePda cx bettor = pda cx ''stake_position'' [keyBytes cx bettor]"

section \<open>The world\<close>

record 'w keeper_world =
  http :: "string \<Rightarrow> string \<Rightarrow> string option \<Rightarrow> 'w \<Rightarrow> http_response res \<times> 'w"
  latestBlockhash :: "'w \<Rightarrow> (string \<times> int) res \<times> 'w"
  simulateTransaction :: "tx_message \<Rightarrow> 'w \<Rightarrow> simulation res \<times> 'w"
  sendTransaction :: "tx_message \<Rightarrow> 'w \<Rightarrow> string res \<times> 'w"
  confirmTransaction :: "string \<Rightarrow> string \<times> int \<Rightarrow> 'w \<Rightarrow> jsval res \<times> 'w"
  fetchRound :: "string \<Rightarrow> 'w \<Rightarrow> round_account option res \<times> 'w"
  fetchReceipts :: "string list \<Rightarrow> 'w \<Rightarrow> receipt_account option list res \<times> 'w"
  getProgramAccounts :: "scan_options \<Rightarrow> 'w \<Rightarrow> recovered list option res \<times> 'w"
  accountExists :: "string \<Rightarrow> 'w \<Rightarrow> bool res \<times> 'w"
  closeRandomnessIx :: "string \<Rightarrow> 'w \<Rightarrow> instruction res \<times> 'w"
  dateNow :: "'w \<Rightarrow> int res \<times> 'w"

datatype life_event =
    RoundRead string "round_account option res"
  | ReceiptsRead "string list" "receipt_account option list res"
  | Submitted tx_message "string res"
  | CloseIxBuilt string "instruction res"
  | RowPatched string
  | ClockRead "int res"

section \<open>Requests\<close>

definition rest :: "'w keeper_world \<Rightarrow> string \<Rightarrow> string \<Rightarrow> string option \<Rightarrow> ('w, life_event, jsval) io" where
  "rest ops path method body =
     then_io (read_io (http ops method path body)) (\<lambda>response.
     assert_io (response_ok response)
       (''Supabase '' @ method @ '' failed ('' @ show_int (status response) @ ''): '' @ body_text response)
     (lift_io (if body_text response = [] then Inr Null else JSON_parse (body_text response))))"

definition buildTransaction :: "keeper_context \<Rightarrow> 'w keeper_world \<Rightarrow> instruction list \<Rightarrow> jsnum
    \<Rightarrow> ('w, life_event, tx_message \<times> string \<times> int) io" where
  "buildTransaction cx ops instructions units =
     then_io (read_io (latestBlockhash ops)) (\<lambda>latest.
     let priority = num_max (Fin 0) (num_min (Fin 1000000) (to_num (js_or (priorityFee cx) (IntV 0)))) in
     ok_io (\<lparr>payerKey = payer cx, recentBlockhash = fst latest,
       message_instructions = SetComputeUnitLimit units
         # (if truthy (Num priority) then [SetComputeUnitPrice priority] else []) @ map Call instructions\<rparr>, latest))"

record sent_transaction =
  sent_signature :: string
  sent_measuredUnits :: jsnum
  sent_computeLimit :: jsnum

definition sendMeasured :: "keeper_context \<Rightarrow> 'w keeper_world \<Rightarrow> instruction list \<Rightarrow> ('w, life_event, sent_transaction) io" where
  "sendMeasured cx ops instructions =
     then_io (buildTransaction cx ops instructions (Fin 1400000)) (\<lambda>(simulated, _).
     then_io (read_io (simulateTransaction ops simulated)) (\<lambda>sim.
     then_io (lift_io (stringify (sim_err sim))) (\<lambda>err.
     assert_io (sim_err sim = Null)
       (''Lifecycle simulation failed: '' @ err @ [CHR 0x0A] @ join [CHR 0x0A] (sim_logs sim))
     (let measured = measuredUnits 1400000 (unitsConsumed sim); limit = computeLimit measured in
     then_io (buildTransaction cx ops instructions limit) (\<lambda>(built, latest).
     then_io (call_io (sendTransaction ops built) (Submitted built)) (\<lambda>signature.
     then_io (read_io (confirmTransaction ops signature latest)) (\<lambda>confirmation.
     then_io (lift_io (stringify confirmation)) (\<lambda>failure.
     assert_io (confirmation = Null) (''Lifecycle transaction failed: '' @ failure)
       (ok_io \<lparr>sent_signature = signature, sent_measuredUnits = measured, sent_computeLimit = limit\<rparr>)))))))))"

section \<open>Receipts\<close>

text \<open>\<open>unique.set(key, row)\<close> on a \<open>Map\<close>: a new key goes to the end, an old one keeps its place.\<close>

fun map_set :: "'k \<Rightarrow> 'v \<Rightarrow> ('k \<times> 'v) list \<Rightarrow> ('k \<times> 'v) list" where
  "map_set k v [] = [(k, v)]"
| "map_set k v ((k', v') # m) = (if k = k' then (k, v) # m else (k', v') # map_set k v m)"

text \<open>\<open>for (const row of rows || [])\<close>\<close>

definition rows_of :: "jsval \<Rightarrow> jsval list res" where
  "rows_of rows = (if \<not> truthy rows then Inr []
     else case rows of Arr xs \<Rightarrow> Inr xs | Str s \<Rightarrow> Inr (map (\<lambda>c. Str [c]) s)
       | _ \<Rightarrow> Inl (TypeError ''rows is not iterable''))"

definition indexedReceipts :: "'w keeper_world \<Rightarrow> jsval \<Rightarrow> ('w, life_event, jsval list) io" where
  "indexedReceipts ops rnd =
     then_io (rest ops (''mine_round_bets?round_id=eq.'' @ to_str rnd @ ''&select=receipt,bettor&order=receipt.asc'') ''GET'' None)
       (\<lambda>answer.
     lift_io (then_res (rows_of answer) (\<lambda>rows.
       then_res (fold_res (\<lambda>row unique. then_res (member row ''receipt'') (\<lambda>receipt. Inr (map_set receipt row unique))) rows [])
         (\<lambda>unique. Inr (map snd unique)))))"

definition recoverReceiptRows :: "keeper_context \<Rightarrow> 'w keeper_world \<Rightarrow> jsval \<Rightarrow> round_account \<Rightarrow> ('w, life_event, jsval list) io" where
  "recoverReceiptRows cx ops rnd st =
     assert_io (closedReceipts st \<le> totalReceipts st) ''Round closed-receipt count exceeds its total''
     (let expectedLiveCount = totalReceipts st - closedReceipts st in
      then_io (lift_io (exactReceiptRecoveryScanOptions rnd (Big expectedLiveCount) (receiptRecoveryMaxAccounts (settings cx))))
        (\<lambda>scanOptions.
      if expectedLiveCount = 0 then ok_io []
      else then_io (read_io (getProgramAccounts ops scanOptions)) (\<lambda>found.
        then_io (lift_io (validateRecoveredReceiptAccounts (decodeReceipt cx) (receiptPda cx rnd) found
          (Big expectedLiveCount) rnd (Key (programId cx)))) (\<lambda>valid.
        ok_io (map (\<lambda>(receipt, bettor). Obj [(''receipt'', Str receipt), (''bettor'', Str bettor)]) valid)))))"

record receipt_entry =
  entry_row :: jsval
  entry_receipt :: string
  entry_state :: "receipt_account option"

text \<open>\<open>states[index]\<close> of an answer that is shorter than the question is \<open>undefined\<close>, which counts as no state.\<close>

fun receipt_entries :: "jsval list \<Rightarrow> string list \<Rightarrow> receipt_account option list \<Rightarrow> receipt_entry list" where
  "receipt_entries (row # rows) (address # addresses) states =
     \<lparr>entry_row = row, entry_receipt = address, entry_state = (case states of [] \<Rightarrow> None | st # _ \<Rightarrow> st)\<rparr>
       # receipt_entries rows addresses (case states of [] \<Rightarrow> [] | _ # others \<Rightarrow> others)"
| "receipt_entries _ _ _ = []"

definition fetchReceiptStates :: "keeper_context \<Rightarrow> 'w keeper_world \<Rightarrow> jsval list \<Rightarrow> ('w, life_event, receipt_entry list) io" where
  "fetchReceiptStates cx ops rows =
     fold_io (\<lambda>batch entries.
       then_io (lift_io (map_res (\<lambda>row. then_res (member row ''receipt'') (publicKey cx)) batch)) (\<lambda>addresses.
       then_io (call_io (fetchReceipts ops addresses) (ReceiptsRead addresses)) (\<lambda>states.
       ok_io (entries @ receipt_entries batch addresses states)))) (chunks 100 rows) []"

definition settleReceiptIx :: "keeper_context \<Rightarrow> string \<Rightarrow> string \<Rightarrow> string \<Rightarrow> instruction" where
  "settleReceiptIx cx roundAddress receipt beneficiary = Instruction ''settleReceipt'' []
     [(''config'', Key (configAddress cx)), (''miningPool'', Key (pda cx ''mining_pool'' [])),
      (''stakePool'', Key (pda cx ''stake_pool'' [])), (''miner'', Key (minerPda cx beneficiary)),
      (''stakePosition'', Key (stakePda cx beneficiary)), (''round'', Key roundAddress), (''receipt'', Key receipt),
      (''beneficiary'', Key beneficiary), (''executor'', Key (payer cx))]"

definition refundReceiptIx :: "keeper_context \<Rightarrow> string \<Rightarrow> string \<Rightarrow> string \<Rightarrow> instruction" where
  "refundReceiptIx cx roundAddress receipt beneficiary = Instruction ''refundReceiptPermissionless'' []
     [(''round'', Key roundAddress), (''receipt'', Key receipt), (''beneficiary'', Key beneficiary), (''executor'', Key (payer cx))]"

definition closeReceiptIx :: "keeper_context \<Rightarrow> string \<Rightarrow> string \<Rightarrow> string \<Rightarrow> instruction" where
  "closeReceiptIx cx roundAddress receipt beneficiary = Instruction ''closeReceipt'' []
     [(''round'', Key roundAddress), (''receipt'', Key receipt), (''beneficiary'', Key beneficiary), (''executor'', Key (payer cx))]"

definition closeRoundIx :: "keeper_context \<Rightarrow> string \<Rightarrow> string \<Rightarrow> instruction" where
  "closeRoundIx cx roundAddress rentOwner = Instruction ''closeRound'' []
     [(''round'', Key roundAddress), (''rentPayer'', Key rentOwner), (''executor'', Key (payer cx))]"

text \<open>The instruction for one entry, added to those before it.\<close>

definition settle_entry :: "keeper_context \<Rightarrow> string \<Rightarrow> round_account \<Rightarrow> receipt_entry \<Rightarrow> instruction list \<Rightarrow> instruction list res" where
  "settle_entry cx roundAddress st entry instructions = (case entry_state entry of
       None \<Rightarrow> Inr instructions
     | Some receipt \<Rightarrow> if claimed receipt \<or> refunded receipt then Inr instructions
         else assert_ok (opt_member (entry_row entry) ''bettor'' = Str (authority receipt))
           ''Discovered bettor does not match on-chain receipt''
           (Inr (instructions @ [if settled st
             then settleReceiptIx cx roundAddress (entry_receipt entry) (authority receipt)
             else refundReceiptIx cx roundAddress (entry_receipt entry) (authority receipt)])))"

definition close_entry :: "keeper_context \<Rightarrow> string \<Rightarrow> receipt_entry \<Rightarrow> instruction list \<Rightarrow> instruction list res" where
  "close_entry cx roundAddress entry instructions = (case entry_state entry of
       None \<Rightarrow> Inr instructions
     | Some receipt \<Rightarrow>
         assert_ok (claimed receipt \<or> refunded receipt) ''Discovered receipt is unprocessed and cannot close''
           (Inr (instructions @ [closeReceiptIx cx roundAddress (entry_receipt entry) (authority receipt)])))"

definition settleOrRefund :: "keeper_context \<Rightarrow> 'w keeper_world \<Rightarrow> string \<Rightarrow> round_account \<Rightarrow> jsval list
    \<Rightarrow> ('w, life_event, sent_transaction list) io" where
  "settleOrRefund cx ops roundAddress st rows =
     then_io (fetchReceiptStates cx ops rows) (\<lambda>entries.
     then_io (lift_io (fold_res (settle_entry cx roundAddress st) entries [])) (\<lambda>instructions.
     map_io (sendMeasured cx ops) (batches (settleBatchSize (settings cx)) instructions)))"

definition closeReceipts :: "keeper_context \<Rightarrow> 'w keeper_world \<Rightarrow> string \<Rightarrow> jsval list
    \<Rightarrow> ('w, life_event, sent_transaction list) io" where
  "closeReceipts cx ops roundAddress rows =
     then_io (fetchReceiptStates cx ops rows) (\<lambda>entries.
     then_io (lift_io (fold_res (close_entry cx roundAddress) entries [])) (\<lambda>instructions.
     map_io (sendMeasured cx ops) (batches (closeBatchSize (settings cx)) instructions)))"

section \<open>Randomness accounts\<close>

datatype randomness_close = NotClosed | AlreadyClosed | Closed sent_transaction

definition patch_round :: "'w keeper_world \<Rightarrow> jsval \<Rightarrow> (string \<times> jsval) list \<Rightarrow> ('w, life_event, jsval) io" where
  "patch_round ops rnd fs =
     then_io (lift_io (stringify (Obj fs))) (\<lambda>body.
     then_io (log_io (RowPatched body)) (\<lambda>_.
     rest ops (''mine_rounds?round_id=eq.'' @ to_str rnd) ''PATCH'' (Some body)))"

definition maybeCloseRandomness :: "keeper_context \<Rightarrow> 'w keeper_world \<Rightarrow> jsval \<Rightarrow> ('w, life_event, randomness_close) io" where
  "maybeCloseRandomness cx ops row =
     then_io (lift_io (member row ''archive_verified'')) (\<lambda>verified.
     if \<not> truthy verified \<or> \<not> truthy (opt_member row ''randomness_id'') \<or> truthy (opt_member row ''randomness_closed_at'')
     then ok_io NotClosed
     else
       let archivedAt = dateParse cx (to_str (js_or (opt_member row ''archived_at'') (Str []))) in
       then_io (if is_finite archivedAt then read_io (dateNow ops) else ok_io 0) (\<lambda>now.
       if \<not> is_finite archivedAt
          \<or> num_lt (num_sub (Fin (of_int now)) archivedAt)
               (num_mul (randomnessRetentionSeconds (settings cx)) (Fin 1000))
       then ok_io NotClosed
       else
         then_io (lift_io (publicKey cx (opt_member row ''randomness_id''))) (\<lambda>randomness.
         then_io (read_io (accountExists ops randomness)) (\<lambda>present.
         if \<not> present
         then
           then_io (read_io (dateNow ops)) (\<lambda>closedAt.
           then_io (read_io (dateNow ops)) (\<lambda>updatedAt.
           then_io (patch_round ops (opt_member row ''round_id'')
             [(''randomness_closed_at'', Str (dateText cx closedAt)), (''updated_at'', Str (dateText cx updatedAt))]) (\<lambda>_.
           ok_io AlreadyClosed)))
         else
           then_io (call_io (closeRandomnessIx ops randomness) (CloseIxBuilt randomness)) (\<lambda>ix.
           then_io (sendMeasured cx ops [ix]) (\<lambda>sent.
           then_io (read_io (dateNow ops)) (\<lambda>closedAt.
           then_io (read_io (dateNow ops)) (\<lambda>updatedAt.
           then_io (patch_round ops (opt_member row ''round_id'')
             [(''randomness_closed_signature'', Str (sent_signature sent)),
              (''randomness_closed_at'', Str (dateText cx closedAt)), (''updated_at'', Str (dateText cx updatedAt))]) (\<lambda>_.
           ok_io (Closed sent))))))))))"

section \<open>One round\<close>

datatype receipt_source = SupabaseIndex | ConfirmedRoundScan

datatype round_result =
    RoundAlreadyClosed string randomness_close
  | RoundHandled string "sent_transaction list" "sent_transaction list" "sent_transaction option" randomness_close
      receipt_source bool bool

text \<open>\<open>program.account.round.fetch\<close> rejects an account that is missing.\<close>

definition read_round :: "'w keeper_world \<Rightarrow> string \<Rightarrow> ('w, life_event, round_account) io" where
  "read_round ops address = then_io (call_io (fetchRound ops address) (RoundRead address)) (\<lambda>found.
     case found of None \<Rightarrow> fail_io (Error (''Account does not exist or has no data '' @ address)) | Some st \<Rightarrow> ok_io st)"

definition find_receipts :: "keeper_context \<Rightarrow> 'w keeper_world \<Rightarrow> jsval \<Rightarrow> round_account
    \<Rightarrow> ('w, life_event, jsval list \<times> receipt_source) io" where
  "find_receipts cx ops rnd st =
     then_io (indexedReceipts ops rnd) (\<lambda>receipts.
     assert_io (int (length receipts) \<le> totalReceipts st) ''Indexed receipt count exceeds the authoritative chain count''
     (if int (length receipts) < totalReceipts st
      then then_io (recoverReceiptRows cx ops rnd st) (\<lambda>rows. ok_io (rows, ConfirmedRoundScan))
      else ok_io (receipts, SupabaseIndex)))"

definition retention_elapsed :: "keeper_context \<Rightarrow> round_account \<Rightarrow> int \<Rightarrow> bool" where
  "retention_elapsed cx st now = (\<not> settled st \<or>
     num_le (num_add (to_num (Big (settlesAt st))) (roundAccountRetentionSeconds (settings cx))) (Fin (of_int now)))"

definition may_process :: "keeper_context \<Rightarrow> round_account \<Rightarrow> int \<Rightarrow> bool" where
  "may_process cx st now = (\<not> recoveryCloseOnly (settings cx) \<and> processedReceipts st < totalReceipts st
     \<and> (settled st \<or> num_le (to_num (Big (refundAt st))) (Fin (of_int now))))"

definition may_close_receipts :: "jsval \<Rightarrow> bool \<Rightarrow> round_account \<Rightarrow> bool" where
  "may_close_receipts row elapsed st = (elapsed \<and> 0 < archivedAtSlot st \<and> opt_member row ''archive_verified'' = Bool True
     \<and> closedReceipts st < totalReceipts st)"

definition may_close_round :: "jsval \<Rightarrow> bool \<Rightarrow> round_account \<Rightarrow> bool" where
  "may_close_round row elapsed st = (elapsed \<and> 0 < archivedAtSlot st \<and> opt_member row ''archive_verified'' = Bool True
     \<and> processedReceipts st = totalReceipts st \<and> closedReceipts st = totalReceipts st
     \<and> (\<not> settled st \<or> buybackCompleted st))"

text \<open>The three phases of a round that is still open; the first two read the round again when they have sent.\<close>

definition process_receipts :: "keeper_context \<Rightarrow> 'w keeper_world \<Rightarrow> string \<Rightarrow> int \<Rightarrow> jsval list \<Rightarrow> round_account
    \<Rightarrow> ('w, life_event, sent_transaction list \<times> round_account) io" where
  "process_receipts cx ops address now receipts st =
     (if may_process cx st now
      then then_io (settleOrRefund cx ops address st receipts) (\<lambda>sent.
        then_io (read_round ops address) (\<lambda>st'. ok_io (sent, st')))
      else ok_io ([], st))"

definition close_processed_receipts :: "keeper_context \<Rightarrow> 'w keeper_world \<Rightarrow> string \<Rightarrow> jsval \<Rightarrow> bool \<Rightarrow> jsval list \<Rightarrow> round_account
    \<Rightarrow> ('w, life_event, sent_transaction list \<times> round_account) io" where
  "close_processed_receipts cx ops address row elapsed receipts st =
     (if may_close_receipts row elapsed st
      then then_io (closeReceipts cx ops address receipts) (\<lambda>sent.
        then_io (read_round ops address) (\<lambda>st'. ok_io (sent, st')))
      else ok_io ([], st))"

definition close_finished_round :: "keeper_context \<Rightarrow> 'w keeper_world \<Rightarrow> string \<Rightarrow> jsval \<Rightarrow> bool \<Rightarrow> round_account
    \<Rightarrow> ('w, life_event, sent_transaction option) io" where
  "close_finished_round cx ops address row elapsed st =
     (if may_close_round row elapsed st
      then then_io (sendMeasured cx ops [closeRoundIx cx address (rentPayer st)]) (\<lambda>sent. ok_io (Some sent))
      else ok_io None)"

definition processRound :: "keeper_context \<Rightarrow> 'w keeper_world \<Rightarrow> jsval \<Rightarrow> ('w, life_event, round_result) io" where
  "processRound cx ops row =
     then_io (lift_io (then_res (member row ''round_id'') (roundPda cx))) (\<lambda>address.
     then_io (call_io (fetchRound ops address) (RoundRead address)) (\<lambda>found.
     then_io (maybeCloseRandomness cx ops row) (\<lambda>randomness.
     case found of
       None \<Rightarrow> ok_io (RoundAlreadyClosed (to_str (opt_member row ''round_id'')) randomness)
     | Some st0 \<Rightarrow>
       then_io (find_receipts cx ops (opt_member row ''round_id'') st0) (\<lambda>(receipts, source).
       then_io (call_io (dateNow ops) ClockRead) (\<lambda>ms.
       let now = ms div 1000; elapsed = retention_elapsed cx st0 now in
       then_io (process_receipts cx ops address now receipts st0) (\<lambda>(processed, st1).
       then_io (close_processed_receipts cx ops address row elapsed receipts st1) (\<lambda>(closed, st2).
       then_io (close_finished_round cx ops address row elapsed st2) (\<lambda>closedRound.
       ok_io (RoundHandled (to_str (opt_member row ''round_id'')) processed closed closedRound randomness source elapsed
         (recoveryCloseOnly (settings cx)))))))))))"

section \<open>One tick\<close>

definition queue_rows :: "jsval \<Rightarrow> jsval list" where
  "queue_rows v = (case v of Arr xs \<Rightarrow> xs | _ \<Rightarrow> [])"

text \<open>The four reads, in the order their requests are issued, and the cursor for the next tick.\<close>

definition lifecycleTick :: "keeper_context \<Rightarrow> 'w keeper_world \<Rightarrow> jsval
    \<Rightarrow> ('w, life_event, jsval \<times> round_result lifecycle_result list) io" where
  "lifecycleTick cx ops cursor =
     then_io (rest ops ''mine_rounds?closed_signature=is.null&total_receipts=gt.0&select=*&order=round_id.desc&limit=25'' ''GET'' None)
       (\<lambda>recentReceiptRows.
     then_io (rest ops ''mine_rounds?closed_signature=is.null&total_receipts=gt.0&processed_receipts=eq.0&select=*&order=round_id.asc&limit=25'' ''GET'' None)
       (\<lambda>unprocessedRows.
     then_io (lift_io (historicalLifecycleQuery cursor)) (\<lambda>query.
     then_io (rest ops query ''GET'' None) (\<lambda>historicalRows.
     then_io (rest ops ''mine_rounds?randomness_id=not.is.null&archive_verified=eq.true&randomness_closed_at=is.null&select=*&order=round_id.asc&limit=25'' ''GET'' None)
       (\<lambda>randomnessRows.
     then_io (lift_io (nextHistoricalLifecycleCursor historicalRows)) (\<lambda>cursor'.
     then_io (lift_io (selectLifecycleRoundBatch (roundBatchSize (settings cx))
       [queue_rows recentReceiptRows, queue_rows unprocessedRows, queue_rows historicalRows, queue_rows randomnessRows]))
       (\<lambda>queue.
     then_io (\<lambda>s. case processLifecycleRoundQueue queue (processRound cx ops) s of (results, s') \<Rightarrow> (Inr results, s')) (\<lambda>results.
     ok_io (cursor', results)))))))))"



section \<open>What justifies an instruction\<close>

text \<open>The state of the round at its last read, and a receipt as it was read.\<close>

definition known_round :: "string \<Rightarrow> life_event list \<Rightarrow> round_account option" where
  "known_round a t = fold (\<lambda>e known. case e of
       RoundRead b (Inr (Some st)) \<Rightarrow> if b = a then Some st else known | _ \<Rightarrow> known) t None"

definition receipt_seen :: "life_event list \<Rightarrow> string \<Rightarrow> receipt_account \<Rightarrow> bool" where
  "receipt_seen t receipt rc \<longleftrightarrow> (\<exists>addresses states. ReceiptsRead addresses (Inr states) \<in> set t
     \<and> (receipt, Some rc) \<in> set (zip addresses states))"

text \<open>The clock and some read of the round at which a condition held.\<close>

definition held_at :: "string \<Rightarrow> (round_account \<Rightarrow> int \<Rightarrow> bool) \<Rightarrow> life_event list \<Rightarrow> bool" where
  "held_at a P t \<longleftrightarrow> (\<exists>st ms. RoundRead a (Inr (Some st)) \<in> set t \<and> ClockRead (Inr ms) \<in> set t \<and> P st (ms div 1000))"

definition settlement_allowed :: "keeper_context \<Rightarrow> string \<Rightarrow> life_event list \<Rightarrow> instruction \<Rightarrow> bool" where
  "settlement_allowed cx a t ix \<longleftrightarrow> (\<exists>receipt rc st. receipt_seen t receipt rc \<and> \<not> claimed rc \<and> \<not> refunded rc
     \<and> known_round a t = Some st \<and> held_at a (may_process cx) t \<and> \<not> recoveryCloseOnly (settings cx)
     \<and> ix = (if settled st then settleReceiptIx cx a receipt (authority rc) else refundReceiptIx cx a receipt (authority rc)))"

definition receipt_close_allowed :: "keeper_context \<Rightarrow> jsval \<Rightarrow> string \<Rightarrow> life_event list \<Rightarrow> instruction \<Rightarrow> bool" where
  "receipt_close_allowed cx row a t ix \<longleftrightarrow> (\<exists>receipt rc st. receipt_seen t receipt rc \<and> (claimed rc \<or> refunded rc)
     \<and> known_round a t = Some st \<and> held_at a (retention_elapsed cx) t \<and> may_close_receipts row True st
     \<and> ix = closeReceiptIx cx a receipt (authority rc))"

definition round_close_allowed :: "keeper_context \<Rightarrow> jsval \<Rightarrow> string \<Rightarrow> life_event list \<Rightarrow> instruction \<Rightarrow> bool" where
  "round_close_allowed cx row a t ix \<longleftrightarrow> (\<exists>st. known_round a t = Some st \<and> held_at a (retention_elapsed cx) t
     \<and> may_close_round row True st \<and> ix = closeRoundIx cx a (rentPayer st))"

definition randomness_close_allowed :: "jsval \<Rightarrow> life_event list \<Rightarrow> instruction \<Rightarrow> bool" where
  "randomness_close_allowed row t ix \<longleftrightarrow> (\<exists>id. CloseIxBuilt id (Inr ix) \<in> set t) \<and> truthy (opt_member row ''archive_verified'')
     \<and> \<not> truthy (opt_member row ''randomness_closed_at'')"

definition ix_allowed :: "keeper_context \<Rightarrow> jsval \<Rightarrow> string \<Rightarrow> life_event list \<Rightarrow> instruction \<Rightarrow> bool" where
  "ix_allowed cx row a t ix \<longleftrightarrow> settlement_allowed cx a t ix \<or> receipt_close_allowed cx row a t ix
     \<or> round_close_allowed cx row a t ix \<or> randomness_close_allowed row t ix"

definition life_allowed :: "keeper_context \<Rightarrow> jsval \<Rightarrow> string \<Rightarrow> life_event list \<Rightarrow> life_event \<Rightarrow> bool" where
  "life_allowed cx row a t e = (case e of Submitted m r \<Rightarrow> (\<forall>ix \<in> set (calls m). ix_allowed cx row a t ix) | _ \<Rightarrow> True)"

lemma known_round_simps [simp]:
  "known_round a (t @ [ReceiptsRead as r]) = known_round a t" "known_round a (t @ [Submitted m s]) = known_round a t"
  "known_round a (t @ [CloseIxBuilt i x]) = known_round a t" "known_round a (t @ [RowPatched b]) = known_round a t"
  "known_round a (t @ [ClockRead c]) = known_round a t" "known_round a (t @ [RoundRead a (Inr (Some st))]) = Some st"
  "known_round a (t @ [RoundRead b (Inr None)]) = known_round a t" "known_round a (t @ [RoundRead b (Inl e)]) = known_round a t"
  by (simp_all add: known_round_def)

lemma life_allowed_simps [simp]:
  "life_allowed cx row a t (RoundRead b r)" "life_allowed cx row a t (ReceiptsRead as q)"
  "life_allowed cx row a t (CloseIxBuilt i x)" "life_allowed cx row a t (RowPatched p)" "life_allowed cx row a t (ClockRead c)"
  by (simp_all add: life_allowed_def)

lemma receipt_seen_mono: "receipt_seen t r rc \<Longrightarrow> set t \<subseteq> set t' \<Longrightarrow> receipt_seen t' r rc"
  unfolding receipt_seen_def by blast

lemma held_at_mono: "held_at a P t \<Longrightarrow> set t \<subseteq> set t' \<Longrightarrow> held_at a P t'"
  unfolding held_at_def by blast

lemma ix_allowed_mono:
  assumes "ix_allowed cx row a t ix" "set t \<subseteq> set t'" "known_round a t' = known_round a t"
  shows "ix_allowed cx row a t' ix"
proof -
  note mono = receipt_seen_mono[OF _ assms(2)] held_at_mono[OF _ assms(2)]
  have "settlement_allowed cx a t ix \<Longrightarrow> settlement_allowed cx a t' ix"
    unfolding settlement_allowed_def assms(3) using mono by blast
  moreover have "receipt_close_allowed cx row a t ix \<Longrightarrow> receipt_close_allowed cx row a t' ix"
    unfolding receipt_close_allowed_def assms(3) using mono by blast
  moreover have "round_close_allowed cx row a t ix \<Longrightarrow> round_close_allowed cx row a t' ix"
    unfolding round_close_allowed_def assms(3) using mono by blast
  moreover have "randomness_close_allowed row t ix \<Longrightarrow> randomness_close_allowed row t' ix"
    unfolding randomness_close_allowed_def using assms(2) by blast
  ultimately show ?thesis using assms(1) unfolding ix_allowed_def by blast
qed

text \<open>A step that only adds justified events and does not read the round again.\<close>

definition calm :: "keeper_context \<Rightarrow> jsval \<Rightarrow> string \<Rightarrow> life_event list \<Rightarrow> 'w \<times> life_event list \<Rightarrow> bool" where
  "calm cx row a t s \<longleftrightarrow> justified (life_allowed cx row a) (snd s) \<and> set t \<subseteq> set (snd s) \<and> known_round a (snd s) = known_round a t"

lemma calm_refl [simp]: "calm cx row a t (w, t) = justified (life_allowed cx row a) t"
  by (simp add: calm_def)

lemma calm_trans: "calm cx row a t s \<Longrightarrow> calm cx row a (snd s) s' \<Longrightarrow> calm cx row a t s'"
  unfolding calm_def by auto

lemma wp_calm_then:
  fixes m :: "('w, life_event, 'a) io"
  assumes "wp m (\<lambda>x s. calm cx row a t s \<and> P x s) (\<lambda>_. calm cx row a t) (w, t)"
    and "\<And>x w' t'. calm cx row a t (w', t') \<Longrightarrow> P x (w', t') \<Longrightarrow>
      wp (f x) (\<lambda>y s. calm cx row a t' s \<and> Q y s) (\<lambda>_. calm cx row a t') (w', t')"
  shows "wp (then_io m f) (\<lambda>y s. calm cx row a t s \<and> Q y s) (\<lambda>_. calm cx row a t) (w, t)"
  unfolding wp_then
proof (rule wp_mono[OF assms(1)])
  fix x and s :: "'w \<times> life_event list"
  assume a: "calm cx row a t s \<and> P x s"
  obtain w' t' where s: "s = (w', t')" by (cases s)
  have "wp (f x) (\<lambda>y s. calm cx row a t' s \<and> Q y s) (\<lambda>_. calm cx row a t') (w', t')"
    using a s by (intro assms(2)) simp_all
  then show "wp (f x) (\<lambda>y s. calm cx row a t s \<and> Q y s) (\<lambda>_. calm cx row a t) s"
    unfolding s by (rule wp_mono) (use a s calm_trans[of cx row a t "(w', t')"] in auto)
qed simp

abbreviation calms :: "keeper_context \<Rightarrow> jsval \<Rightarrow> string \<Rightarrow> life_event list \<Rightarrow> ('w, life_event, 'a) io \<Rightarrow> 'w \<Rightarrow> bool" where
  "calms cx row a t m w \<equiv> wp m (\<lambda>_. calm cx row a t) (\<lambda>_. calm cx row a t) (w, t)"

lemma calms_then:
  assumes "calms cx row a t m w"
    and "\<And>x w' t'. calm cx row a t (w', t') \<Longrightarrow> calms cx row a t' (f x) w'"
  shows "calms cx row a t (then_io m f) w"
  using wp_calm_then[of m cx row a t "\<lambda>_ _. True" w f "\<lambda>_ _. True"] assms by simp

lemma calm_justified: "calm cx row a t (w, t') \<Longrightarrow> justified (life_allowed cx row a) t'"
  by (simp add: calm_def)

lemma calms_read: "justified (life_allowed cx row a) t \<Longrightarrow> calms cx row a t (read_io action) w"
  by (simp add: wp_simps split: prod.split sum.split)

lemma calms_lift: "justified (life_allowed cx row a) t \<Longrightarrow> calms cx row a t (lift_io r) w"
  by (simp add: wp_simps split: sum.split)

lemma calms_ok: "justified (life_allowed cx row a) t \<Longrightarrow> calms cx row a t (ok_io x) w"
  by (simp add: wp_simps)

lemma calms_assert: "justified (life_allowed cx row a) t \<Longrightarrow> (c \<Longrightarrow> calms cx row a t k w) \<Longrightarrow> calms cx row a t (assert_io c msg k) w"
  by (simp add: wp_simps)

lemma calms_rest: "justified (life_allowed cx row a) t \<Longrightarrow> calms cx row a t (rest ops path m body) w"
  unfolding rest_def by (intro calms_then calms_read calms_assert calms_lift) (auto dest: calm_justified)

lemma calms_build: "justified (life_allowed cx row a) t \<Longrightarrow>
    wp (buildTransaction cx ops ixs units) (\<lambda>(m, _) s. calm cx row a t s \<and> calls m = ixs \<and> snd s = t) (\<lambda>_. calm cx row a t) (w, t)"
  by (auto simp: buildTransaction_def wp_simps Let_def calls_def comp_def split: prod.split sum.split)

lemma calls_message [simp]:
  "calls \<lparr>payerKey = p, recentBlockhash = b, message_instructions = SetComputeUnitLimit u # map Call ixs\<rparr> = ixs"
  "calls \<lparr>payerKey = p, recentBlockhash = b,
     message_instructions = SetComputeUnitLimit u # SetComputeUnitPrice v # map Call ixs\<rparr> = ixs"
  by (simp_all add: calls_def comp_def)

lemma calm_submitted:
  assumes "justified (life_allowed cx row a) t" "\<forall>ix \<in> set (calls m). ix_allowed cx row a t ix"
  shows "calm cx row a t (w, t @ [Submitted m r])"
  using assms by (simp add: calm_def life_allowed_def del: justified_append) auto

lemma sendMeasured_calm:
  assumes "justified (life_allowed cx row a) t" "\<forall>ix \<in> set ixs. ix_allowed cx row a t ix"
  shows "calms cx row a t (sendMeasured cx ops ixs) w"
  unfolding sendMeasured_def buildTransaction_def Let_def
  using assms by (simp add: wp_simps calm_submitted split: prod.split sum.split)

lemma calm_allowed:
  assumes "calm cx row a t (w, t')" "\<forall>ix \<in> set ixs. ix_allowed cx row a t ix"
  shows "\<forall>ix \<in> set ixs. ix_allowed cx row a t' ix"
  using assms ix_allowed_mono unfolding calm_def by (metis snd_conv)

lemma send_all_calm:
  fixes ops :: "'w keeper_world"
  assumes "justified (life_allowed cx row a) t" "\<forall>b \<in> set bs. \<forall>ix \<in> set b. ix_allowed cx row a t ix"
  shows "calms cx row a t (map_io (sendMeasured cx ops) bs) w"
  using assms
proof (induction bs arbitrary: t w)
  case Nil
  then show ?case by (simp add: calms_ok)
next
  case (Cons b bs)
  show ?case
    unfolding map_io.simps
  proof (intro calms_then)
    show "calms cx row a t (sendMeasured cx ops b) w" using Cons.prems by (intro sendMeasured_calm) auto
  next
    fix x and w' :: 'w and t'
    assume c: "calm cx row a t (w', t')"
    have "\<forall>b \<in> set bs. \<forall>ix \<in> set b. ix_allowed cx row a t' ix"
      using Cons.prems(2) calm_allowed[OF c] by auto
    then show "calms cx row a t' (map_io (sendMeasured cx ops) bs) w'"
      using calm_justified[OF c] by (intro Cons.IH)
  qed (auto intro: calms_ok calm_justified)
qed

lemma num_slices_subset: "b \<in> set (num_slices fuel offset step xs) \<Longrightarrow> set b \<subseteq> set xs"
proof (induction fuel arbitrary: offset)
  case (Suc fuel)
  then show ?case
    by (auto split: if_splits dest!: in_set_dropD in_set_takeD)
qed simp

lemma send_batches_calm:
  assumes "justified (life_allowed cx row a) t" "\<forall>ix \<in> set ixs. ix_allowed cx row a t ix"
  shows "calms cx row a t (map_io (sendMeasured cx ops) (batches size_limit ixs)) w"
  using assms num_slices_subset[of _ "Suc (length ixs)" "Fin 0" size_limit ixs]
  unfolding batches_def by (intro send_all_calm) blast+

section \<open>Receipts that were read\<close>

definition entry_seen :: "life_event list \<Rightarrow> receipt_entry \<Rightarrow> bool" where
  "entry_seen t entry \<longleftrightarrow> (\<forall>rc. entry_state entry = Some rc \<longrightarrow> receipt_seen t (entry_receipt entry) rc)"

lemma entry_seen_mono: "entry_seen t e \<Longrightarrow> set t \<subseteq> set t' \<Longrightarrow> entry_seen t' e"
  unfolding entry_seen_def using receipt_seen_mono by blast

lemma receipt_entries_zip:
  "e \<in> set (receipt_entries rows addresses states) \<Longrightarrow> entry_state e = Some rc \<Longrightarrow>
   (entry_receipt e, Some rc) \<in> set (zip addresses states)"
proof (induction rows addresses states rule: receipt_entries.induct)
  case (1 row rows address addresses states)
  then show ?case by (cases states) auto
qed simp_all

lemma calm_read_receipts:
  "justified (life_allowed cx row a) t \<Longrightarrow> calm cx row a t (w, t @ [ReceiptsRead as r])"
  by (auto simp: calm_def)

lemma fetch_batch_seen:
  assumes "justified (life_allowed cx row a) t" "\<forall>e \<in> set entries. entry_seen t e"
  shows "wp (then_io (lift_io addrs) (\<lambda>addresses.
       then_io (call_io (fetchReceipts ops addresses) (ReceiptsRead addresses)) (\<lambda>states.
       ok_io (entries @ receipt_entries batch addresses states))))
     (\<lambda>es s. calm cx row a t s \<and> (\<forall>e \<in> set es. entry_seen (snd s) e)) (\<lambda>_. calm cx row a t) (w, t)"
proof -
  have "entry_seen (t @ [ReceiptsRead as (Inr states)]) e" if "e \<in> set (receipt_entries batch as states)" for as states e
    using receipt_entries_zip[OF that] unfolding entry_seen_def receipt_seen_def by fastforce
  moreover have "entry_seen (t @ [x]) e" if "e \<in> set entries" for x e
    using assms(2) that by (auto intro: entry_seen_mono)
  ultimately show ?thesis
    using assms(1) by (auto simp: wp_simps calm_read_receipts split: prod.split sum.split)
qed

lemma fetchReceiptStates_seen:
  assumes "justified (life_allowed cx row a) t"
  shows "wp (fetchReceiptStates cx ops rows)
     (\<lambda>es s. calm cx row a t s \<and> (\<forall>e \<in> set es. entry_seen (snd s) e)) (\<lambda>_. calm cx row a t) (w, t)"
  unfolding fetchReceiptStates_def
proof (rule wp_fold)
  show "calm cx row a t (w, t) \<and> (\<forall>e \<in> set []. entry_seen (snd (w, t)) e)" using assms by simp
next
  fix batch entries and s :: "'a \<times> life_event list"
  assume a: "calm cx row a t s \<and> (\<forall>e \<in> set entries. entry_seen (snd s) e)"
  obtain w' t' where s: "s = (w', t')" by (cases s)
  show "wp (then_io (lift_io (map_res (\<lambda>row. then_res (member row ''receipt'') (publicKey cx)) batch)) (\<lambda>addresses.
       then_io (call_io (fetchReceipts ops addresses) (ReceiptsRead addresses)) (\<lambda>states.
       ok_io (entries @ receipt_entries batch addresses states))))
     (\<lambda>es s. calm cx row a t s \<and> (\<forall>e \<in> set es. entry_seen (snd s) e)) (\<lambda>_. calm cx row a t) s"
    unfolding s
  proof (rule wp_mono[OF fetch_batch_seen])
    show "justified (life_allowed cx row a) t'" "\<forall>e \<in> set entries. entry_seen t' e"
      using a s by (auto dest: calm_justified)
  qed (use a s calm_trans[of cx row a t "(w', t')"] in auto)
qed

lemma settle_entries:
  assumes "fold_res (settle_entry cx a st) entries ixs = Inr out" "ix \<in> set out" "ix \<notin> set ixs"
  shows "\<exists>e \<in> set entries. \<exists>rc. entry_state e = Some rc \<and> \<not> claimed rc \<and> \<not> refunded rc \<and>
    ix = (if settled st then settleReceiptIx cx a (entry_receipt e) (authority rc) else refundReceiptIx cx a (entry_receipt e) (authority rc))"
  using assms
proof (induction entries arbitrary: ixs)
  case (Cons e entries)
  then obtain mid where mid: "settle_entry cx a st e ixs = Inr mid" "fold_res (settle_entry cx a st) entries mid = Inr out"
    by (auto simp: res_simps)
  show ?case
  proof (cases "ix \<in> set mid")
    case False
    then show ?thesis using Cons.IH[OF mid(2) Cons.prems(2)] by (meson list.set_intros(2))
  next
    case True
    then show ?thesis using mid(1) Cons.prems(3)
      by (auto simp: settle_entry_def res_simps split: option.splits if_splits)
  qed
qed simp

lemma close_entries:
  assumes "fold_res (close_entry cx a) entries ixs = Inr out" "ix \<in> set out" "ix \<notin> set ixs"
  shows "\<exists>e \<in> set entries. \<exists>rc. entry_state e = Some rc \<and> (claimed rc \<or> refunded rc) \<and>
    ix = closeReceiptIx cx a (entry_receipt e) (authority rc)"
  using assms
proof (induction entries arbitrary: ixs)
  case (Cons e entries)
  then obtain mid where mid: "close_entry cx a e ixs = Inr mid" "fold_res (close_entry cx a) entries mid = Inr out"
    by (auto simp: res_simps)
  show ?case
  proof (cases "ix \<in> set mid")
    case False
    then show ?thesis using Cons.IH[OF mid(2) Cons.prems(2)] by (meson list.set_intros(2))
  next
    case True
    then show ?thesis using mid(1) Cons.prems(3)
      by (auto simp: close_entry_def res_simps split: option.splits if_splits)
  qed
qed simp


lemma settleOrRefund_calm:
  fixes ops :: "'w keeper_world"
  assumes "justified (life_allowed cx row a) t" "known_round a t = Some st" "held_at a (may_process cx) t"
    "\<not> recoveryCloseOnly (settings cx)"
  shows "calms cx row a t (settleOrRefund cx ops a st rows) w"
  unfolding settleOrRefund_def
proof (rule wp_calm_then[where Q = "\<lambda>_ _. True", simplified, OF fetchReceiptStates_seen[OF assms(1)]])
  fix entries and w' :: 'w and t'
  assume c: "calm cx row a t (w', t')" and e: "\<forall>e \<in> set entries. entry_seen (snd (w', t')) e"
  have j: "justified (life_allowed cx row a) t'" by (rule calm_justified[OF c])
  have k: "known_round a t' = Some st" "held_at a (may_process cx) t'"
    using c assms held_at_mono[OF assms(3)] by (simp_all add: calm_def)
  show "calms cx row a t' (then_io (lift_io (fold_res (settle_entry cx a st) entries [])) (\<lambda>instructions.
      map_io (sendMeasured cx ops) (batches (settleBatchSize (settings cx)) instructions))) w'"
  proof (cases "fold_res (settle_entry cx a st) entries []")
    case (Inr ixs)
    have "\<forall>ix \<in> set ixs. ix_allowed cx row a t' ix"
      using settle_entries[OF Inr] e k assms(4)
      unfolding ix_allowed_def settlement_allowed_def entry_seen_def by fastforce
    then show ?thesis using Inr send_batches_calm[OF j] by (simp add: wp_then wp_lift)
  qed (simp add: wp_simps j)
qed

lemma closeReceipts_calm:
  fixes ops :: "'w keeper_world"
  assumes "justified (life_allowed cx row a) t" "known_round a t = Some st" "held_at a (retention_elapsed cx) t"
    "may_close_receipts row True st"
  shows "calms cx row a t (closeReceipts cx ops a rows) w"
  unfolding closeReceipts_def
proof (rule wp_calm_then[where Q = "\<lambda>_ _. True", simplified, OF fetchReceiptStates_seen[OF assms(1)]])
  fix entries and w' :: 'w and t'
  assume c: "calm cx row a t (w', t')" and e: "\<forall>e \<in> set entries. entry_seen (snd (w', t')) e"
  have j: "justified (life_allowed cx row a) t'" by (rule calm_justified[OF c])
  have k: "known_round a t' = Some st" "held_at a (retention_elapsed cx) t'"
    using c assms held_at_mono[OF assms(3)] by (simp_all add: calm_def)
  show "calms cx row a t' (then_io (lift_io (fold_res (close_entry cx a) entries [])) (\<lambda>instructions.
      map_io (sendMeasured cx ops) (batches (closeBatchSize (settings cx)) instructions))) w'"
  proof (cases "fold_res (close_entry cx a) entries []")
    case (Inr ixs)
    have "\<forall>ix \<in> set ixs. ix_allowed cx row a t' ix"
      using close_entries[OF Inr] e k assms(4)
      unfolding ix_allowed_def receipt_close_allowed_def entry_seen_def by fastforce
    then show ?thesis using Inr send_batches_calm[OF j] by (simp add: wp_then wp_lift)
  qed (simp add: wp_simps j)
qed

text \<open>Computations that keep the trace justified from any justified trace.\<close>

definition quiet :: "keeper_context \<Rightarrow> jsval \<Rightarrow> string \<Rightarrow> ('w, life_event, 'a) io \<Rightarrow> bool" where
  "quiet cx row a m \<longleftrightarrow> (\<forall>w t. justified (life_allowed cx row a) t \<longrightarrow> calms cx row a t m w)"

lemma quiet_then: "quiet cx row a m \<Longrightarrow> (\<And>x. quiet cx row a (f x)) \<Longrightarrow> quiet cx row a (then_io m f)"
  unfolding quiet_def using calms_then calm_justified by metis

lemma quiet_basic:
  "quiet cx row a (ok_io x)" "quiet cx row a (lift_io r)" "quiet cx row a (read_io action)" "quiet cx row a (rest ops path m body)"
  "quiet cx row a (log_io (RowPatched b))"
  by (simp_all add: quiet_def calms_ok calms_lift calms_read calms_rest wp_log) (auto simp: calm_def)

lemma quiet_if: "(c \<Longrightarrow> quiet cx row a m) \<Longrightarrow> (\<not> c \<Longrightarrow> quiet cx row a n) \<Longrightarrow> quiet cx row a (if c then m else n)"
  by simp

lemma quiet_assert: "quiet cx row a k \<Longrightarrow> quiet cx row a (assert_io c msg k)"
  by (simp add: quiet_def calms_assert)

lemma quiet_patch: "quiet cx row a (patch_round ops rnd fs)"
  unfolding patch_round_def by (intro quiet_then quiet_basic)

lemma quiet_close:
  fixes ops :: "'w keeper_world"
  assumes "truthy (opt_member row ''archive_verified'')" "\<not> truthy (opt_member row ''randomness_closed_at'')"
    and k: "\<And>x. quiet cx row a (k x)"
  shows "quiet cx row a (then_io (call_io (closeRandomnessIx ops i) (CloseIxBuilt i)) (\<lambda>ix.
     then_io (sendMeasured cx ops [ix]) k))"
  unfolding quiet_def
proof (intro allI impI)
  fix w :: 'w and t
  assume j: "justified (life_allowed cx row a) t"
  have build: "wp (call_io (closeRandomnessIx ops i) (CloseIxBuilt i))
      (\<lambda>ix s. calm cx row a t s \<and> ix_allowed cx row a (snd s) ix) (\<lambda>_. calm cx row a t) (w, t)"
    using j assms by (auto simp: wp_simps calm_def ix_allowed_def randomness_close_allowed_def split: prod.split sum.split)
  show "calms cx row a t (then_io (call_io (closeRandomnessIx ops i) (CloseIxBuilt i)) (\<lambda>ix.
     then_io (sendMeasured cx ops [ix]) k)) w"
  proof (rule wp_calm_then[where Q = "\<lambda>_ _. True", simplified, OF build])
    fix ix and w' :: 'w and t'
    assume c: "calm cx row a t (w', t')" "ix_allowed cx row a (snd (w', t')) ix"
    show "calms cx row a t' (then_io (sendMeasured cx ops [ix]) k) w'"
    proof (rule calms_then)
      show "calms cx row a t' (sendMeasured cx ops [ix]) w'"
        using c calm_justified[OF c(1)] by (intro sendMeasured_calm) simp_all
    next
      fix x and w'' :: 'w and t''
      assume "calm cx row a t' (w'', t'')"
      then show "calms cx row a t'' (k x) w''"
        using k[of x] calm_justified[of cx row a t' w'' t''] by (simp add: quiet_def)
    qed
  qed
qed

lemma quiet_maybeCloseRandomness: "quiet cx row a (maybeCloseRandomness cx ops row)"
proof (cases "nullish row \<or> \<not> truthy (opt_member row ''archive_verified'') \<or> \<not> truthy (opt_member row ''randomness_id'')
    \<or> truthy (opt_member row ''randomness_closed_at'')")
  case True
  then show ?thesis
    by (cases "nullish row") (auto simp: quiet_def maybeCloseRandomness_def member_def wp_simps)
next
  case False
  then have v: "truthy (opt_member row ''archive_verified'')" "\<not> truthy (opt_member row ''randomness_closed_at'')"
    by auto
  show ?thesis
    unfolding maybeCloseRandomness_def Let_def
    by (intro quiet_then quiet_if quiet_basic quiet_patch quiet_close[OF v])
qed

lemma quiet_find_receipts: "quiet cx row a (find_receipts cx ops rnd st)"
  unfolding find_receipts_def indexedReceipts_def recoverReceiptRows_def Let_def
  by (intro quiet_then quiet_if quiet_basic quiet_assert)

section \<open>Every transaction of a round is justified\<close>

text \<open>Between two reads of the round: its state is the one last read, and what was read first stays on record.\<close>

definition round_stage :: "keeper_context \<Rightarrow> jsval \<Rightarrow> string \<Rightarrow> life_event set \<Rightarrow> round_account \<Rightarrow> 'w \<times> life_event list \<Rightarrow> bool" where
  "round_stage cx row a B st s \<longleftrightarrow> justified (life_allowed cx row a) (snd s) \<and> known_round a (snd s) = Some st \<and> B \<subseteq> set (snd s)"

lemma round_stage_calm: "calm cx row a t s \<Longrightarrow> round_stage cx row a B st (w, t) \<Longrightarrow> round_stage cx row a B st s"
  unfolding round_stage_def calm_def by auto

abbreviation good :: "keeper_context \<Rightarrow> jsval \<Rightarrow> string \<Rightarrow> 'w \<times> life_event list \<Rightarrow> bool" where
  "good cx row a s \<equiv> justified (life_allowed cx row a) (snd s)"

lemma read_round_stage:
  assumes "justified (life_allowed cx row a) t" "B \<subseteq> set t"
  shows "wp (read_round ops a) (round_stage cx row a B) (\<lambda>_. good cx row a) (w, t)"
  using assms by (auto simp: read_round_def wp_simps round_stage_def split: prod.split sum.split option.split)

text \<open>A phase: when its condition holds, send and read the round again.\<close>

lemma phase_stage:
  fixes ops :: "'w keeper_world"
  assumes stage: "round_stage cx row a B st (w, t)"
    and send: "c \<Longrightarrow> calms cx row a t m w"
  shows "wp (if c then then_io m (\<lambda>sent. then_io (read_round ops a) (\<lambda>st. ok_io (sent, st))) else ok_io ([], st))
    (\<lambda>(_, st') s. round_stage cx row a B st' s) (\<lambda>_. good cx row a) (w, t)"
proof (cases c)
  case True
  have "wp m (\<lambda>_. calm cx row a t) (\<lambda>_. calm cx row a t) (w, t)" by (rule send[OF True])
  then have "wp m (\<lambda>sent. wp (then_io (read_round ops a) (\<lambda>st. ok_io (sent, st)))
      (\<lambda>(_, st') s. round_stage cx row a B st' s) (\<lambda>_. good cx row a)) (\<lambda>_. good cx row a) (w, t)"
  proof (rule wp_mono)
    fix sent and s :: "'w \<times> life_event list"
    assume c: "calm cx row a t s"
    obtain w' t' where s: "s = (w', t')" by (cases s)
    have "justified (life_allowed cx row a) t'" "B \<subseteq> set t'"
      using c stage s by (auto simp: calm_def round_stage_def)
    then show "wp (then_io (read_round ops a) (\<lambda>st. ok_io (sent, st)))
      (\<lambda>(_, st') s. round_stage cx row a B st' s) (\<lambda>_. good cx row a) s"
      unfolding s wp_then wp_ok by (simp add: read_round_stage)
  qed (simp add: calm_def)
  then show ?thesis using True by (simp add: wp_then)
next
  case False
  then show ?thesis using stage by (simp add: wp_ok)
qed

lemma quiet_stage:
  assumes "quiet cx row a m" "round_stage cx row a B st (w, t)"
  shows "wp m (\<lambda>_. round_stage cx row a B st) (\<lambda>_. good cx row a) (w, t)"
proof -
  have "calms cx row a t m w" using assms by (simp add: quiet_def round_stage_def)
  then show ?thesis by (rule wp_mono) (use assms(2) in \<open>auto simp: round_stage_def calm_def\<close>)
qed

definition round_seen :: "string \<Rightarrow> round_account \<Rightarrow> int \<Rightarrow> life_event set" where
  "round_seen a st0 ms = {RoundRead a (Inr (Some st0)), ClockRead (Inr ms)}"

lemma held_at_seen: "P st0 (ms div 1000) \<Longrightarrow> round_seen a st0 ms \<subseteq> set t \<Longrightarrow> held_at a P t"
  unfolding held_at_def round_seen_def by auto

lemma process_receipts_stage:
  fixes s :: "'w \<times> life_event list"
  assumes "round_stage cx row a (round_seen a st0 ms) st0 s"
  shows "wp (process_receipts cx ops a (ms div 1000) receipts st0)
    (\<lambda>(_, st') s. round_stage cx row a (round_seen a st0 ms) st' s) (\<lambda>_. good cx row a) s"
proof -
  obtain w t where s: "s = (w, t)" by (cases s)
  show ?thesis
  unfolding s process_receipts_def
proof (rule phase_stage[OF assms[unfolded s]])
  assume "may_process cx st0 (ms div 1000)"
  then show "calms cx row a t (settleOrRefund cx ops a st0 receipts) w"
    using assms[unfolded s] held_at_seen[of "may_process cx" st0 ms a t] unfolding round_stage_def
    by (intro settleOrRefund_calm) (auto simp: may_process_def)
qed
qed

lemma close_processed_receipts_stage:
  fixes s :: "'w \<times> life_event list"
  assumes "round_stage cx row a (round_seen a st0 ms) st s"
  shows "wp (close_processed_receipts cx ops a row (retention_elapsed cx st0 (ms div 1000)) receipts st)
    (\<lambda>(_, st') s. round_stage cx row a (round_seen a st0 ms) st' s) (\<lambda>_. good cx row a) s"
proof -
  obtain w t where s: "s = (w, t)" by (cases s)
  show ?thesis
  unfolding s close_processed_receipts_def
proof (rule phase_stage[OF assms[unfolded s]])
  assume "may_close_receipts row (retention_elapsed cx st0 (ms div 1000)) st"
  then have "retention_elapsed cx st0 (ms div 1000)" "may_close_receipts row True st"
    by (simp_all add: may_close_receipts_def)
  then show "calms cx row a t (closeReceipts cx ops a receipts) w"
    using assms[unfolded s] held_at_seen[of "retention_elapsed cx" st0 ms a t] unfolding round_stage_def
    by (intro closeReceipts_calm) auto
qed
qed

lemma close_finished_round_good:
  fixes s :: "'w \<times> life_event list"
  assumes "round_stage cx row a (round_seen a st0 ms) st s"
  shows "wp (close_finished_round cx ops a row (retention_elapsed cx st0 (ms div 1000)) st)
    (\<lambda>_. good cx row a) (\<lambda>_. good cx row a) s"
proof -
  obtain w t where s: "s = (w, t)" by (cases s)
  note assms = assms[unfolded s]
  show ?thesis
  proof (cases "may_close_round row (retention_elapsed cx st0 (ms div 1000)) st")
  case True
  then have "retention_elapsed cx st0 (ms div 1000)" "may_close_round row True st" by (simp_all add: may_close_round_def)
  then have "ix_allowed cx row a t (closeRoundIx cx a (rentPayer st))"
    using assms held_at_seen[of "retention_elapsed cx" st0 ms a t]
    unfolding ix_allowed_def round_close_allowed_def round_stage_def by auto
  then have "calms cx row a t (sendMeasured cx ops [closeRoundIx cx a (rentPayer st)]) w"
    using assms by (intro sendMeasured_calm) (simp_all add: round_stage_def)
  then have "wp (sendMeasured cx ops [closeRoundIx cx a (rentPayer st)]) (\<lambda>_. good cx row a) (\<lambda>_. good cx row a) (w, t)"
    by (rule wp_mono) (simp_all add: calm_def)
  then show ?thesis using True by (simp add: close_finished_round_def wp_then wp_ok s)
next
  case False
  then show ?thesis using assms by (simp add: close_finished_round_def wp_ok round_stage_def s)
qed
qed

text \<open>The three phases, from a state the round was read in.\<close>

lemma phases_good:
  fixes ops :: "'w keeper_world"
  assumes "round_stage cx row a (round_seen a st0 ms) st0 s"
  shows "wp (then_io (process_receipts cx ops a (ms div 1000) receipts st0) (\<lambda>(processed, st1).
       then_io (close_processed_receipts cx ops a row (retention_elapsed cx st0 (ms div 1000)) receipts st1) (\<lambda>(closed, st2).
       then_io (close_finished_round cx ops a row (retention_elapsed cx st0 (ms div 1000)) st2) (\<lambda>closedRound.
       ok_io (k processed closed closedRound)))))
     (\<lambda>_. good cx row a) (\<lambda>_. good cx row a) s"
  by (rule wp_seq_pair[OF process_receipts_stage[OF assms]], rule wp_seq_pair[OF close_processed_receipts_stage], assumption,
      rule wp_seq[OF close_finished_round_good], assumption, simp add: wp_ok)

lemma processRound_good:
  fixes ops :: "'w keeper_world"
  assumes "then_res (member row ''round_id'') (roundPda cx) = Inr a" "justified (life_allowed cx row a) t"
  shows "wp (processRound cx ops row) (\<lambda>_. good cx row a) (\<lambda>_. good cx row a) (w, t)"
proof -
  have j: "good cx row a (v, t @ [RoundRead a r])" for v :: 'w and r using assms(2) by simp
  have found: "wp (then_io (maybeCloseRandomness cx ops row) (\<lambda>randomness.
       then_io (find_receipts cx ops (opt_member row ''round_id'') st0) (\<lambda>(receipts, source).
       then_io (call_io (dateNow ops) ClockRead) (\<lambda>ms.
       let now = ms div 1000; elapsed = retention_elapsed cx st0 now in
       then_io (process_receipts cx ops a now receipts st0) (\<lambda>(processed, st1).
       then_io (close_processed_receipts cx ops a row elapsed receipts st1) (\<lambda>(closed, st2).
       then_io (close_finished_round cx ops a row elapsed st2) (\<lambda>closedRound.
       ok_io (RoundHandled (to_str (opt_member row ''round_id'')) processed closed closedRound randomness source elapsed
         (recoveryCloseOnly (settings cx))))))))))
     (\<lambda>_. good cx row a) (\<lambda>_. good cx row a) (v, t @ [RoundRead a (Inr (Some st0))])" (is "wp ?m _ _ _") for st0 and v :: 'w
  proof -
    let ?B = "{RoundRead a (Inr (Some st0))}"
    have st: "round_stage cx row a ?B st0 (v, t @ [RoundRead a (Inr (Some st0))])"
      using assms(2) by (simp add: round_stage_def)
    have clock: "wp (call_io (dateNow ops) ClockRead) (\<lambda>ms. round_stage cx row a (round_seen a st0 ms) st0)
        (\<lambda>_. good cx row a) s" if "round_stage cx row a ?B st0 s" for s :: "'w \<times> life_event list"
      using that by (cases s) (auto simp: wp_simps round_stage_def round_seen_def split: prod.split sum.split)
    have quiet: "wp m (\<lambda>_. round_stage cx row a ?B st0) (\<lambda>_. good cx row a) s"
      if "quiet cx row a m" "round_stage cx row a ?B st0 s" for m :: "('w, life_event, 'b) io" and s
      using quiet_stage[OF that(1)] that(2) by (cases s) simp
    have find: "wp (find_receipts cx ops rnd st0) (\<lambda>(_, _). round_stage cx row a ?B st0) (\<lambda>_. good cx row a) s"
      if "round_stage cx row a ?B st0 s" for rnd and s :: "'w \<times> life_event list"
      using quiet[OF quiet_find_receipts that] by (simp add: case_prod_unfold)
    show ?thesis
      by (rule wp_seq[OF quiet_stage[OF quiet_maybeCloseRandomness st]], rule wp_seq_pair[OF find], assumption,
          rule wp_seq[OF clock], assumption, unfold Let_def, rule phases_good)
  qed
  have missing: "wp (then_io (maybeCloseRandomness cx ops row) (\<lambda>r. ok_io (k r))) (\<lambda>_. good cx row a) (\<lambda>_. good cx row a)
      (v, t @ [RoundRead a q])" for v :: 'w and q and k :: "_ \<Rightarrow> round_result"
  proof -
    have "calms cx row a (t @ [RoundRead a q]) (maybeCloseRandomness cx ops row) v"
      using quiet_maybeCloseRandomness[of cx row a ops] j[of v q] by (simp add: quiet_def del: justified_append)
    then show ?thesis unfolding wp_then wp_ok by (rule wp_mono) (simp_all add: calm_def)
  qed
  obtain r v where r: "fetchRound ops a w = (r, v)" by fastforce
  have step: "wp (processRound cx ops row) (\<lambda>_. good cx row a) (\<lambda>_. good cx row a) (w, t)
    = (case r of Inl e \<Rightarrow> good cx row a (v, t @ [RoundRead a r])
       | Inr found \<Rightarrow> wp (then_io (maybeCloseRandomness cx ops row) (\<lambda>randomness. case found of
           None \<Rightarrow> ok_io (RoundAlreadyClosed (to_str (opt_member row ''round_id'')) randomness)
         | Some st0 \<Rightarrow> then_io (find_receipts cx ops (opt_member row ''round_id'') st0) (\<lambda>(receipts, source).
       then_io (call_io (dateNow ops) ClockRead) (\<lambda>ms.
       let now = ms div 1000; elapsed = retention_elapsed cx st0 now in
       then_io (process_receipts cx ops a now receipts st0) (\<lambda>(processed, st1).
       then_io (close_processed_receipts cx ops a row elapsed receipts st1) (\<lambda>(closed, st2).
       then_io (close_finished_round cx ops a row elapsed st2) (\<lambda>closedRound.
       ok_io (RoundHandled (to_str (opt_member row ''round_id'')) processed closed closedRound randomness source elapsed
         (recoveryCloseOnly (settings cx)))))))))) (\<lambda>_. good cx row a) (\<lambda>_. good cx row a) (v, t @ [RoundRead a r]))"
    unfolding processRound_def assms(1) wp_then[of "lift_io _"] wp_lift sum.case wp_then[of "call_io (fetchRound ops a) _"] wp_call r
    by (cases r) (simp_all del: justified_append)
  show ?thesis
  proof (cases r)
    case (Inl e)
    then show ?thesis unfolding step using j[of v r] by simp
  next
    case (Inr st)
    then show ?thesis unfolding step using found missing by (cases st) simp_all
  qed
qed


section \<open>Two runs\<close>

definition demo_settings :: lifecycle_settings where
  "demo_settings = \<lparr>settleBatchSize = Fin 3, closeBatchSize = Fin 6, randomnessRetentionSeconds = Fin 86400,
     roundAccountRetentionSeconds = Fin 130, roundBatchSize = IntV 12, receiptRecoveryMaxAccounts = IntV 2048,
     recoveryCloseOnly = False, tickTimeoutMs = Fin 120000, realtimeDebounceMs = Fin 750, intervalMs = Fin 5000\<rparr>"

definition demo_context :: keeper_context where
  "demo_context = \<lparr>payer = ''K'', programId = ''P'', priorityFee = Undef, settings = demo_settings,
     publicKey = (\<lambda>v. case v of Str key \<Rightarrow> Inr key | _ \<Rightarrow> Inl (Error ''Invalid public key'')), keyBytes = text_bytes,
     findProgramAddress = (\<lambda>seeds. (''A'', int (length seeds))), decodeReceipt = (\<lambda>_. Inl (Error ''none'')),
     dateParse = (\<lambda>_. NaN), dateText = show_int\<rparr>"

definition demo_world :: "round_account \<Rightarrow> (string \<Rightarrow> receipt_account option) \<Rightarrow> unit keeper_world" where
  "demo_world st chain = \<lparr>http = (\<lambda>_ _ _ w. (Inr \<lparr>response_ok = True, status = 200, body_text = []\<rparr>, w)),
     latestBlockhash = (\<lambda>w. (Inr (''B'', 9), w)),
     simulateTransaction = (\<lambda>_ w. (Inr \<lparr>sim_err = Null, sim_logs = [], unitsConsumed = IntV 1000\<rparr>, w)),
     sendTransaction = (\<lambda>_ w. (Inr ''S'', w)), confirmTransaction = (\<lambda>_ _ w. (Inr Null, w)),
     fetchRound = (\<lambda>_ w. (Inr (Some st), w)), fetchReceipts = (\<lambda>as w. (Inr (map chain as), w)),
     getProgramAccounts = (\<lambda>_ w. (Inr None, w)), accountExists = (\<lambda>_ w. (Inr False, w)),
     closeRandomnessIx = (\<lambda>_ w. (Inl (Error ''none''), w)), dateNow = (\<lambda>w. (Inr 5000000, w))\<rparr>"

definition demo_round :: round_account where
  "demo_round = \<lparr>settled = False, totalReceipts = 0, processedReceipts = 0, closedReceipts = 0, archivedAtSlot = 5,
     settlesAt = 100, refundAt = 200, buybackCompleted = False, rentPayer = ''R''\<rparr>"

definition demo_row :: jsval where
  "demo_row = Obj [(''round_id'', IntV 7), (''archive_verified'', Bool True)]"

definition demo_chain :: "string \<Rightarrow> receipt_account option" where
  "demo_chain = [''a'' \<mapsto> \<lparr>claimed = False, refunded = False, authority = ''u''\<rparr>,
     ''b'' \<mapsto> \<lparr>claimed = True, refunded = False, authority = ''v''\<rparr>]"

definition demo_rows :: "jsval list" where
  "demo_rows = [Obj [(''receipt'', Str ''a''), (''bettor'', Str ''u'')], Obj [(''receipt'', Str ''b''), (''bettor'', Str ''v'')]]"

definition demo_close_message :: tx_message where
  "demo_close_message = \<lparr>payerKey = ''K'', recentBlockhash = ''B'', message_instructions =
     [SetComputeUnitLimit (Fin 55001), Call (closeRoundIx demo_context ''A'' ''R'')]\<rparr>"

definition demo_refund_message :: tx_message where
  "demo_refund_message = \<lparr>payerKey = ''K'', recentBlockhash = ''B'', message_instructions =
     [SetComputeUnitLimit (Fin 55001), Call (refundReceiptIx demo_context ''A'' ''a'' ''u'')]\<rparr>"

lemma demo_limit: "computeLimit (Fin 50000) = Fin 55001" by code_simp

lemma demo_measured: "measuredUnits 1400000 (Num (Fin 1000)) = Fin 50000" by code_simp

lemma demo_null: "stringify Null = Inr ''null''" by code_simp

lemma demo_prio: "num_max (Fin 0) (num_min (Fin 1000000) (to_num (js_or Undef (Num (Fin 0))))) = Fin 0" by code_simp

lemma demo_send: "sendMeasured demo_context (demo_world st chain) ixs (w, t) =
  (Inr \<lparr>sent_signature = ''S'', sent_measuredUnits = Fin 50000, sent_computeLimit = Fin 55001\<rparr>, w,
    t @ [Submitted \<lparr>payerKey = ''K'', recentBlockhash = ''B'',
     message_instructions = SetComputeUnitLimit (Fin 55001) # map Call ixs\<rparr> (Inr ''S'')])"
  unfolding sendMeasured_def buildTransaction_def
  by (simp add: Let_def then_io_def read_io_def lift_io_def call_io_def assert_io_def ok_io_def demo_limit demo_measured demo_null demo_prio
    demo_context_def demo_world_def)

lemma demo_address: "then_res (member demo_row ''round_id'') (roundPda demo_context) = Inr ''A''" by code_simp

lemma demo_retention: "retention_elapsed demo_context demo_round n" by (simp add: retention_elapsed_def demo_round_def)

lemma demo_index: "rest (demo_world st chain) p m b (w,t) = (Inr Null, w, t)"
  by (simp add: rest_def then_io_def read_io_def lift_io_def assert_io_def demo_world_def)

lemma demo_random: "maybeCloseRandomness demo_context (demo_world st chain) demo_row (w,t) = (Inr NotClosed, w, t)"
  by (simp add: maybeCloseRandomness_def then_io_def lift_io_def ok_io_def demo_row_def member_def)

lemma demo_find: "find_receipts demo_context (demo_world st chain) rnd demo_round (w,t) = (Inr ([], SupabaseIndex), w, t)"
  by (simp add: find_receipts_def indexedReceipts_def then_io_def lift_io_def ok_io_def assert_io_def demo_index demo_round_def rows_of_def)

lemma demo_process: "process_receipts demo_context ops a now rs demo_round s = (Inr ([], demo_round), s)"
  by (simp add: process_receipts_def ok_io_def demo_round_def may_process_def)

lemma demo_close_receipts: "close_processed_receipts demo_context ops a row e rs demo_round s = (Inr ([], demo_round), s)"
  by (simp add: close_processed_receipts_def ok_io_def demo_round_def may_close_receipts_def)

lemma demo_close_round: "close_finished_round demo_context (demo_world st chain) a demo_row True demo_round (w, t) =
  (Inr (Some \<lparr>sent_signature = ''S'', sent_measuredUnits = Fin 50000, sent_computeLimit = Fin 55001\<rparr>), w,
    t @ [Submitted \<lparr>payerKey = ''K'', recentBlockhash = ''B'',
     message_instructions = [SetComputeUnitLimit (Fin 55001), Call (closeRoundIx demo_context a ''R'')]\<rparr> (Inr ''S'')])"
proof -
  have c: "may_close_round demo_row True demo_round" by (simp add: may_close_round_def demo_row_def demo_round_def)
  show ?thesis by (simp add: close_finished_round_def c then_io_def ok_io_def demo_send) (simp add: demo_round_def)
qed

lemma demo_rid: "to_str (opt_member demo_row ''round_id'') = ''7''" by code_simp

lemmas demo_phases = demo_close_receipts demo_close_round

lemma demo_fetch: "fetchRound (demo_world st chain) a w = (Inr (Some st), w)" "dateNow (demo_world st chain) w = (Inr 5000000, w)"
  by (simp_all add: demo_world_def)

lemma demo_context_flags: "recoveryCloseOnly (settings demo_context) = False" by (simp add: demo_context_def demo_settings_def)

lemma demo_processRound: "processRound demo_context (demo_world demo_round demo_chain) demo_row ((), []) =
  (Inr (RoundHandled ''7'' [] [] (Some \<lparr>sent_signature = ''S'', sent_measuredUnits = Fin 50000, sent_computeLimit = Fin 55001\<rparr>)
     NotClosed SupabaseIndex True False), (),
   [RoundRead ''A'' (Inr (Some demo_round)), ClockRead (Inr 5000000)] @ Submitted demo_close_message (Inr ''S'') # [])"
  unfolding processRound_def demo_address
  by (simp add: Let_def then_io_def lift_io_def call_io_def ok_io_def demo_random demo_find demo_process demo_retention demo_phases demo_fetch demo_close_message_def demo_rid demo_context_flags)

lemma demo_batches: "batches (Fin 3) [ix] = [[ix]]"
  using batches_chunks[of 3 "[ix]"] by (simp add: safe_num_def MAX_SAFE_INTEGER_def chunks_Cons)

lemma demo_entries: "fetchReceiptStates demo_context (demo_world st demo_chain) demo_rows (w, t) =
   (Inr (map2 (\<lambda>row address. \<lparr>entry_row = row, entry_receipt = address, entry_state = demo_chain address\<rparr>) demo_rows [''a'', ''b'']), w,
    t @ [ReceiptsRead [''a'', ''b''] (Inr (map demo_chain [''a'', ''b'']))])"
  by (simp add: fetchReceiptStates_def demo_rows_def chunks_Cons then_io_def lift_io_def call_io_def ok_io_def demo_world_def
    demo_context_def member_def nullish_def)

lemma demo_settle: "settleOrRefund demo_context (demo_world demo_round demo_chain) ''A'' demo_round demo_rows ((), []) =
  (Inr [\<lparr>sent_signature = ''S'', sent_measuredUnits = Fin 50000, sent_computeLimit = Fin 55001\<rparr>], (),
   [ReceiptsRead [''a'', ''b''] (Inr (map demo_chain [''a'', ''b''])), Submitted demo_refund_message (Inr ''S'')])"
proof -
  have chain: "fold_res (settle_entry demo_context ''A'' demo_round)
      (map2 (\<lambda>row address. \<lparr>entry_row = row, entry_receipt = address, entry_state = demo_chain address\<rparr>) demo_rows [''a'', ''b'']) []
      = Inr [refundReceiptIx demo_context ''A'' ''a'' ''u'']"
    by (simp add: demo_rows_def settle_entry_def demo_chain_def demo_round_def)
  have "settleBatchSize (settings demo_context) = Fin 3" by (simp add: demo_context_def demo_settings_def)
  then show ?thesis
    unfolding settleOrRefund_def
    by (simp add: then_io_def demo_entries lift_io_def chain demo_batches demo_send demo_refund_message_def ok_io_def)
qed



section \<open>Every outstanding receipt is paid\<close>

definition submitted_calls :: "life_event list \<Rightarrow> instruction list" where
  "submitted_calls t = concat (map (\<lambda>e. case e of Submitted m r \<Rightarrow> calls m | _ \<Rightarrow> []) t)"

lemma submitted_calls_simps [simp]:
  "submitted_calls [] = []" "submitted_calls (s @ t) = submitted_calls s @ submitted_calls t"
  "submitted_calls [Submitted m r] = calls m" "submitted_calls [ReceiptsRead as q] = []"
  by (simp_all add: submitted_calls_def)

lemma sendMeasured_submits:
  "wp (sendMeasured cx ops ixs) (\<lambda>_ s. submitted_calls (snd s) = submitted_calls t @ ixs) (\<lambda>_ _. True) (w, t)"
  unfolding sendMeasured_def buildTransaction_def Let_def
  by (simp add: wp_simps split: prod.split sum.split)

lemma send_all_submits:
  fixes ops :: "'w keeper_world"
  shows "wp (map_io (sendMeasured cx ops) bs) (\<lambda>_ s. submitted_calls (snd s) = submitted_calls t @ concat bs) (\<lambda>_ _. True) (w, t)"
proof (induction bs arbitrary: t w)
  case Nil
  then show ?case by (simp add: wp_simps)
next
  case (Cons b bs)
  show ?case
    unfolding map_io.simps
  proof (rule wp_seq[OF sendMeasured_submits])
    fix x and s :: "'w \<times> life_event list"
    assume s: "submitted_calls (snd s) = submitted_calls t @ b"
    have "wp (map_io (sendMeasured cx ops) bs) (\<lambda>_ u. submitted_calls (snd u) = submitted_calls (snd s) @ concat bs) (\<lambda>_ _. True) s"
      using Cons.IH[of "snd s" "fst s"] by simp
    then show "wp (then_io (map_io (sendMeasured cx ops) bs) (\<lambda>ys. ok_io (x # ys)))
        (\<lambda>_ s. submitted_calls (snd s) = submitted_calls t @ concat (b # bs)) (\<lambda>_ _. True) s"
      unfolding wp_then wp_ok by (rule wp_mono) (simp_all add: s)
  qed
qed

text \<open>A chain that answers with the state it holds for each address, and the entries it leads to.\<close>

definition answers_from :: "(string \<Rightarrow> receipt_account option) \<Rightarrow> 'w keeper_world \<Rightarrow> bool" where
  "answers_from chain ops \<longleftrightarrow> (\<forall>as w. \<exists>w'. fetchReceipts ops as w = (Inr (map chain as), w'))"

definition receipt_address :: "keeper_context \<Rightarrow> jsval \<Rightarrow> string res" where
  "receipt_address cx row = then_res (member row ''receipt'') (publicKey cx)"

definition chain_entries :: "(string \<Rightarrow> receipt_account option) \<Rightarrow> jsval list \<Rightarrow> string list \<Rightarrow> receipt_entry list" where
  "chain_entries chain rows addresses =
     map2 (\<lambda>row address. \<lparr>entry_row = row, entry_receipt = address, entry_state = chain address\<rparr>) rows addresses"

lemma receipt_entries_chain:
  "length rows = length addresses \<Longrightarrow> receipt_entries rows addresses (map chain addresses) = chain_entries chain rows addresses"
proof (induction rows arbitrary: addresses)
  case (Cons row rows)
  then show ?case by (cases addresses) (simp_all add: chain_entries_def)
qed (simp add: chain_entries_def)

lemma fetch_batches_chain:
  assumes "answers_from chain ops"
  shows "list_all2 (\<lambda>row address. receipt_address cx row = Inr address) (concat bs) addresses \<Longrightarrow>
    wp (fold_io (\<lambda>batch entries.
       then_io (lift_io (map_res (\<lambda>row. then_res (member row ''receipt'') (publicKey cx)) batch)) (\<lambda>as.
       then_io (call_io (fetchReceipts ops as) (ReceiptsRead as)) (\<lambda>states.
       ok_io (entries @ receipt_entries batch as states)))) bs entries)
     (\<lambda>es s. es = entries @ chain_entries chain (concat bs) addresses \<and> submitted_calls (snd s) = submitted_calls t)
     (\<lambda>_ _. True) (w, t)"
proof (induction bs arbitrary: addresses entries t w)
  case Nil
  then show ?case by (simp add: wp_simps chain_entries_def)
next
  case (Cons b bs)
  then obtain as rest_as where as: "addresses = as @ rest_as" "list_all2 (\<lambda>row a. receipt_address cx row = Inr a) b as"
      "list_all2 (\<lambda>row a. receipt_address cx row = Inr a) (concat bs) rest_as"
    by (auto simp: list_all2_append1)
  have m: "map_res (\<lambda>row. then_res (member row ''receipt'') (publicKey cx)) b = Inr as"
    using as(2) by (simp add: map_res_Inr receipt_address_def)
  obtain w1 where w1: "fetchReceipts ops as w = (Inr (map chain as), w1)"
    using assms unfolding answers_from_def by blast
  have len: "length b = length as" using as(2) by (rule list_all2_lengthD)
  have "chain_entries chain (b @ concat bs) addresses = chain_entries chain b as @ chain_entries chain (concat bs) rest_as"
    unfolding as(1) chain_entries_def using len by simp
  then show ?case
    using Cons.IH[OF as(3), of "entries @ chain_entries chain b as" "t @ [ReceiptsRead as (Inr (map chain as))]" w1]
    by (simp add: wp_simps m w1 receipt_entries_chain[OF len])
qed

lemma fetchReceiptStates_chain:
  assumes "answers_from chain ops" "list_all2 (\<lambda>row address. receipt_address cx row = Inr address) rows addresses"
  shows "wp (fetchReceiptStates cx ops rows)
     (\<lambda>es s. es = chain_entries chain rows addresses \<and> submitted_calls (snd s) = submitted_calls t) (\<lambda>_ _. True) (w, t)"
  using fetch_batches_chain[OF assms(1), of cx "chunks 100 rows" addresses "[]" t w] assms(2)
  by (simp add: fetchReceiptStates_def concat_chunks)

text \<open>The payment of a receipt that is outstanding, none for any other.\<close>

definition payment :: "keeper_context \<Rightarrow> string \<Rightarrow> bool \<Rightarrow> (string \<Rightarrow> receipt_account option) \<Rightarrow> string \<Rightarrow> instruction list" where
  "payment cx a isSettled chain receipt = (case chain receipt of
     Some rc \<Rightarrow> if claimed rc \<or> refunded rc then []
       else [if isSettled then settleReceiptIx cx a receipt (authority rc) else refundReceiptIx cx a receipt (authority rc)]
   | None \<Rightarrow> [])"

lemma settle_entries_payments:
  "length rows = length addresses \<Longrightarrow> fold_res (settle_entry cx a st) (chain_entries chain rows addresses) ixs = Inr out \<Longrightarrow>
   out = ixs @ concat (map (payment cx a (settled st) chain) addresses)"
proof (induction rows arbitrary: addresses ixs)
  case (Cons row rows)
  then obtain x xs where x: "addresses = x # xs" by (cases addresses) auto
  from Cons.prems obtain mid where mid:
      "settle_entry cx a st \<lparr>entry_row = row, entry_receipt = x, entry_state = chain x\<rparr> ixs = Inr mid"
      "fold_res (settle_entry cx a st) (chain_entries chain rows xs) mid = Inr out"
    by (auto simp: x chain_entries_def res_simps)
  have "mid = ixs @ payment cx a (settled st) chain x"
    using mid(1) by (auto simp: settle_entry_def payment_def res_simps split: option.splits if_splits)
  then show ?case using Cons.IH[OF _ mid(2)] Cons.prems(1) x by simp
qed (simp add: chain_entries_def)

text \<open>
  C11. When \<open>settleOrRefund\<close> returns, it has submitted exactly the payments of the outstanding receipts of its rows, each
  once and in order: settlements of a settled round, refunds otherwise, to the authority the chain stores; receipts that
  are closed, claimed or refunded get nothing.
\<close>

theorem settleOrRefund_pays_outstanding:
  fixes ops :: "'w keeper_world"
  assumes "answers_from chain ops" "list_all2 (\<lambda>row address. receipt_address cx row = Inr address) rows addresses"
    and "settleBatchSize (settings cx) = Fin (of_nat k)" "0 < k" "length rows < 2 ^ 50" "k < 2 ^ 50"
    and "settleOrRefund cx ops a st rows (w, []) = (Inr sent, w', t)"
  shows "submitted_calls t = concat (map (payment cx a (settled st) chain) addresses)"
proof -
  have len: "length rows = length addresses" using assms(2) by (rule list_all2_lengthD)
  have "length (concat (map (payment cx a (settled st) chain) as)) \<le> length as" for as
    by (induction as) (auto simp: payment_def split: option.split)
  then have short: "length (concat (map (payment cx a (settled st) chain) addresses)) < 2 ^ 50"
    using len assms(5) by (metis le_less_trans)
  have "wp (settleOrRefund cx ops a st rows) (\<lambda>_ s. submitted_calls (snd s) = concat (map (payment cx a (settled st) chain) addresses))
      (\<lambda>_ _. True) (w, [])"
    unfolding settleOrRefund_def
  proof (rule wp_seq[OF fetchReceiptStates_chain[OF assms(1,2)]])
    fix es and s :: "'w \<times> life_event list"
    assume es: "es = chain_entries chain rows addresses \<and> submitted_calls (snd s) = submitted_calls []"
    show "wp (then_io (lift_io (fold_res (settle_entry cx a st) es [])) (\<lambda>instructions.
        map_io (sendMeasured cx ops) (batches (settleBatchSize (settings cx)) instructions)))
      (\<lambda>_ s. submitted_calls (snd s) = concat (map (payment cx a (settled st) chain) addresses)) (\<lambda>_ _. True) s"
    proof (cases "fold_res (settle_entry cx a st) es []")
      case (Inr out)
      then have out: "out = concat (map (payment cx a (settled st) chain) addresses)"
        using settle_entries_payments[OF len, of cx a st chain "[]" out] es by simp
      have "safe_num (int (length out) + int k)"
        using short assms(6) unfolding out[symmetric] by (simp add: safe_num_def MAX_SAFE_INTEGER_def)
      then have "concat (batches (settleBatchSize (settings cx)) out) = out"
        using assms(3,4) by (simp add: batches_chunks concat_chunks)
      then show ?thesis
        using send_all_submits[of cx ops "batches (settleBatchSize (settings cx)) out" "snd s" "fst s"] Inr es out
        by (simp add: wp_simps)
    qed (simp add: wp_simps)
  qed
  from wpD[OF this assms(7)] show ?thesis by simp
qed

theorem settleOrRefund_pays_outstanding_witness:
  "submitted_calls [ReceiptsRead [''a'', ''b''] (Inr (map demo_chain [''a'', ''b''])), Submitted demo_refund_message (Inr ''S'')]
     = concat (map (payment demo_context ''A'' (settled demo_round) demo_chain) [''a'', ''b''])
   \<and> concat (map (payment demo_context ''A'' (settled demo_round) demo_chain) [''a'', ''b''])
     = [refundReceiptIx demo_context ''A'' ''a'' ''u'']"
proof (rule conjI)
  show "submitted_calls [ReceiptsRead [''a'', ''b''] (Inr (map demo_chain [''a'', ''b''])), Submitted demo_refund_message (Inr ''S'')]
     = concat (map (payment demo_context ''A'' (settled demo_round) demo_chain) [''a'', ''b''])"
    by (rule settleOrRefund_pays_outstanding[where k = 3, OF _ _ _ _ _ _ demo_settle])
      (simp_all add: answers_from_def demo_world_def demo_rows_def receipt_address_def demo_context_def demo_settings_def
        member_def nullish_def)
qed (simp add: payment_def demo_chain_def demo_round_def)

end
