(* ===== verification/Buyback_Keeper.thy ===== *)
theory Buyback_Keeper
  imports Keeper_Tx Buyback_Policy Network_Policy Receipt_Recovery
begin

text \<open>
  \<open>Protocol/scripts/buyback-keeper.mjs\<close>: the keeper that swaps the buyback allocation of a round for MYNE and burns
  it. Its journal is a JSON document on disk; a signed transaction is journaled before it is sent, and a restarted
  keeper resumes from the journal. Jupiter's answers, transactions and the journal are JSON values as the code reads
  them; RPC, HTTP, file system and clock are operations of the world; the trace records the loads and saves of the
  journal, the round that was read, and every transaction that is signed or submitted.
\<close>

section \<open>The process\<close>

text \<open>
  The environment and the key of the process, and the functions of the SDKs: program and token addresses, the codec of
  versioned transactions, signing, the ids of the compute budget, system and token programs, and the layout of a token
  account.
\<close>

record buyback_context =
  env :: "string \<Rightarrow> jsval"
  programText :: string
  randomUUID :: string
  keeperKey :: string
  quoteUrl :: string
  swapUrl :: string
  findAddress :: "bytes list \<Rightarrow> string"
  tokenAddress :: "string \<Rightarrow> string"
  deserialize :: "jsval \<Rightarrow> jsval res"
  serialize :: "jsval \<Rightarrow> string"
  signTransaction :: "jsval \<Rightarrow> jsval"
  signMessage :: "tx_message \<Rightarrow> string \<times> bytes"
  sdkPrograms :: "string list"
  decompile :: "jsval \<Rightarrow> jsval list \<Rightarrow> string list res"
  decodeAmount :: "jsval \<Rightarrow> int res"

record protocol_config =
  config_version :: int
  randomnessProgram :: string
  mint :: string
  buybackWallet :: string
  initializedAt :: int
  roundDurationSeconds :: int

record liquidity_gate =
  gate_verified :: bool
  poolProgram :: string
  gate_pool :: string

record account_info =
  info_executable :: bool
  info_owner :: string

record buyback_round =
  round_settled :: bool
  round_buybackCompleted :: bool
  grossDeployedLamports :: int

record swap_simulation = simulation +
  sim_accounts :: jsval

record 'w buyback_world =
  httpRequest :: "string \<Rightarrow> string option \<Rightarrow> 'w \<Rightarrow> http_response res \<times> 'w"
  readStateFile :: "'w \<Rightarrow> string res \<times> 'w"
  writeStateFile :: "jsval \<Rightarrow> 'w \<Rightarrow> unit res \<times> 'w"
  fetchConfig :: "'w \<Rightarrow> protocol_config res \<times> 'w"
  genesisHash :: "'w \<Rightarrow> string res \<times> 'w"
  fetchGate :: "'w \<Rightarrow> liquidity_gate res \<times> 'w"
  fetchBuybackRound :: "string \<Rightarrow> 'w \<Rightarrow> buyback_round res \<times> 'w"
  accountInfo :: "string \<Rightarrow> 'w \<Rightarrow> account_info option res \<times> 'w"
  tokenAmount :: "string \<Rightarrow> 'w \<Rightarrow> int res \<times> 'w"
  mintDecimals :: "string \<Rightarrow> 'w \<Rightarrow> jsval res \<times> 'w"
  getBalance :: "jsval \<Rightarrow> 'w \<Rightarrow> int res \<times> 'w"
  latestBlockhashAndContext :: "'w \<Rightarrow> jsval res \<times> 'w"
  lookupTable :: "jsval \<Rightarrow> jsval \<Rightarrow> 'w \<Rightarrow> jsval res \<times> 'w"
  simulateSwap :: "jsval \<Rightarrow> jsval \<Rightarrow> 'w \<Rightarrow> swap_simulation res \<times> 'w"
  simulateMessage :: "tx_message \<Rightarrow> jsval \<Rightarrow> 'w \<Rightarrow> simulation res \<times> 'w"
  feeForMessage :: "jsval \<Rightarrow> 'w \<Rightarrow> jsval res \<times> 'w"
  getTransaction :: "jsval \<Rightarrow> 'w \<Rightarrow> jsval res \<times> 'w"
  sendRawTransaction :: "jsval \<Rightarrow> jsval \<Rightarrow> 'w \<Rightarrow> string res \<times> 'w"
  confirmSaved :: "jsval \<Rightarrow> 'w \<Rightarrow> jsval res \<times> 'w"
  signatureStatus :: "jsval \<Rightarrow> 'w \<Rightarrow> jsval res \<times> 'w"
  blockHeight :: "'w \<Rightarrow> jsval res \<times> 'w"
  blockhashValid :: "jsval \<Rightarrow> 'w \<Rightarrow> jsval res \<times> 'w"
  createTokenAccount :: "string \<Rightarrow> 'w \<Rightarrow> unit res \<times> 'w"
  sleepMs :: "int \<Rightarrow> 'w \<Rightarrow> 'w"
  nowMs :: "'w \<Rightarrow> int res \<times> 'w"

text \<open>What the trace records. A raw transaction is the base64 text that is sent, as the journal holds it.\<close>

datatype buyback_event =
    Requested string "string option"
  | StateLoaded jsval
  | RoundRead int "buyback_round res"
  | StateSaved jsval "unit res"
  | CompletionSigned string
  | RawSent jsval "string res"
  | TokenAccountCreated "unit res"

definition pause :: "'w buyback_world \<Rightarrow> int \<Rightarrow> ('w, buyback_event, unit) io" where
  "pause ops ms = read_io (\<lambda>w. (Inr (), sleepMs ops ms w))"

definition confirmed :: jsval where
  "confirmed = Str ''confirmed''"

definition readInteger :: "jsval \<Rightarrow> string \<Rightarrow> int res" where
  "readInteger v name = (case safe_int (Num (to_num v)) of
       Some n \<Rightarrow> assert_ok (0 \<le> n) (name @ '' must be a non-negative integer'') (Inr n)
     | None \<Rightarrow> Inl (AssertionError (name @ '' must be a non-negative integer'')))"

text \<open>\<open>Math.max(0, Math.floor(Number(sol) * LAMPORTS_PER_SOL))\<close>\<close>

definition lamports :: "jsval \<Rightarrow> jsnum" where
  "lamports sol = num_max (Fin 0) (num_floor (num_mul (to_num sol) (Fin 1000000000)))"

definition envBool :: "buyback_context \<Rightarrow> string \<Rightarrow> bool \<Rightarrow> bool" where
  "envBool cx name fallback = (if nullish (env cx name) then fallback else env cx name = Str ''1'')"

abbreviation env_or :: "buyback_context \<Rightarrow> string \<Rightarrow> string \<Rightarrow> jsval" where
  "env_or cx name fallback \<equiv> js_or (env cx name) (Str fallback)"

definition statePath :: "buyback_context \<Rightarrow> string" where
  "statePath cx = env_text (env cx) ''BUYBACK_STATE_PATH'' []"

definition supabaseUrl :: "buyback_context \<Rightarrow> string" where
  "supabaseUrl cx = base_url (env cx)"

definition serviceRole :: "buyback_context \<Rightarrow> string" where
  "serviceRole cx = env_text (env cx) ''SUPABASE_SERVICE_ROLE_KEY'' []"

definition keeperInstanceId :: "buyback_context \<Rightarrow> string" where
  "keeperInstanceId cx = (let holder = trim (env_text (env cx) ''BUYBACK_LEASE_HOLDER'' []) in
     if holder = [] then randomUUID cx else holder)"

definition assertLiveAuthorization :: "buyback_context \<Rightarrow> unit res" where
  "assertLiveAuthorization cx = (if envBool cx ''DRY_RUN'' True then Inr ()
     else assert_ok (env cx ''BUYBACK_KEEPER_LIVE'' = Str (programText cx))
       (''Set BUYBACK_KEEPER_LIVE='' @ programText cx @ '' to authorize live buyback transactions'') (Inr ()))"

section \<open>The database\<close>

definition post :: "'w buyback_world \<Rightarrow> string \<Rightarrow> jsval \<Rightarrow> ('w, buyback_event, http_response) io" where
  "post ops url body = then_io (lift_io (stringify body)) (\<lambda>sent.
     then_io (log_io (Requested url (Some sent))) (\<lambda>_. read_io (httpRequest ops url (Some sent))))"

definition get :: "'w buyback_world \<Rightarrow> string \<Rightarrow> ('w, buyback_event, http_response) io" where
  "get ops url = then_io (log_io (Requested url None)) (\<lambda>_. read_io (httpRequest ops url None))"

text \<open>\<open>await response.json().catch(() => fallback)\<close>\<close>

definition json_or :: "http_response \<Rightarrow> jsval \<Rightarrow> jsval" where
  "json_or response fallback = or_else (JSON_parse (body_text response)) fallback"

definition evidence_row :: "string \<Rightarrow> jsval \<times> nat \<Rightarrow> jsval res" where
  "evidence_row roundId = (\<lambda>(entry, sequence).
     then_res (member entry ''spendLamports'') (\<lambda>spent.
     Inr (Obj [(''round_id'', Str roundId), (''sequence'', IntV (int sequence)), (''spend_lamports'', spent),
       (''expected_output_base_units'', opt_member entry ''expectedOutputBaseUnits''),
       (''burned_base_units'', opt_member entry ''burnedBaseUnits''),
       (''swap_signature'', opt_member entry ''swapSignature''), (''burn_signature'', opt_member entry ''burnSignature'')])))"

definition upsertBuybackEvidence :: "buyback_context \<Rightarrow> 'w buyback_world \<Rightarrow> string \<Rightarrow> jsval list \<Rightarrow> ('w, buyback_event, unit) io" where
  "upsertBuybackEvidence cx ops roundId entries =
     (if entries = [] then ok_io ()
      else then_io (lift_io (map_res (evidence_row roundId) (zip entries [0..<length entries]))) (\<lambda>rows.
        then_io (post ops (supabaseUrl cx @ ''/rest/v1/mine_buyback_executions?on_conflict=round_id,sequence'') (Arr rows)) (\<lambda>response.
        assert_io (response_ok response)
          (''Buyback evidence index failed ('' @ show_int (status response) @ ''): '' @ body_text response) (ok_io ()))))"

definition acquireBuybackLease :: "buyback_context \<Rightarrow> 'w buyback_world \<Rightarrow> ('w, buyback_event, bool) io" where
  "acquireBuybackLease cx ops =
     then_io (lift_io (readInteger (env_or cx ''BUYBACK_LEASE_TTL_SECONDS'' ''600'') ''BUYBACK_LEASE_TTL_SECONDS'')) (\<lambda>ttlSeconds.
     assert_io (120 \<le> ttlSeconds \<and> ttlSeconds \<le> 3600) ''BUYBACK_LEASE_TTL_SECONDS must be 120..3600''
     (then_io (post ops (supabaseUrl cx @ ''/rest/v1/rpc/acquire_mine_keeper_lease'')
         (Obj [(''p_lease_name'', Str (''buyback:'' @ programText cx)), (''p_holder'', Str (keeperInstanceId cx)),
           (''p_ttl_seconds'', IntV ttlSeconds)])) (\<lambda>response.
      assert_io (response_ok response) (''Buyback lease request failed ('' @ show_int (status response) @ '')'')
        (ok_io (json_or response Null = Bool True)))))"

definition backlog_query :: "jsnum \<Rightarrow> jsnum \<Rightarrow> string" where
  "backlog_query cursorRound currentRound = form_encode [
     (''resolved'', ''eq.true''), (''buyback_completed'', ''eq.false''), (''total_wager_wei'', ''gt.0''),
     (''and'', ''(round_id.gte.'' @ num_to_string cursorRound @ '',round_id.lte.'' @ num_to_string currentRound @ '')''),
     (''order'', ''round_id.asc''), (''limit'', ''100''),
     (''select'', ''round_id,resolved,buyback_completed,total_wager_wei'')]"

definition indexedBuybackBacklog :: "buyback_context \<Rightarrow> 'w buyback_world \<Rightarrow> jsnum \<Rightarrow> jsnum \<Rightarrow> ('w, buyback_event, jsval list) io" where
  "indexedBuybackBacklog cx ops cursorRound currentRound =
     assert_io (is_https (supabaseUrl cx)) ''SUPABASE_URL must use HTTPS for indexed buyback selection''
     (assert_io (serviceRole cx \<noteq> []) ''SUPABASE_SERVICE_ROLE_KEY is required for indexed buyback selection''
     (then_io (get ops (supabaseUrl cx @ ''/rest/v1/mine_rounds?'' @ backlog_query cursorRound currentRound)) (\<lambda>response.
      case json_or response Null of
        Arr rows \<Rightarrow> assert_io (response_ok response)
          (''Indexed buyback backlog failed ('' @ show_int (status response) @ '')'') (ok_io rows)
      | _ \<Rightarrow> fail_io (AssertionError (''Indexed buyback backlog failed ('' @ show_int (status response) @ '')'')))))"

section \<open>The journal\<close>

text \<open>\<open>o[key]\<close> and \<open>o[key] = v\<close> for a string key, on objects and arrays.\<close>

definition get_key :: "jsval \<Rightarrow> string \<Rightarrow> jsval" where
  "get_key container key = (case container of
     Arr xs \<Rightarrow> if canonical_numeric key \<and> read_nat key < length xs then xs ! read_nat key else Undef
   | _ \<Rightarrow> opt_member container key)"

definition put_key :: "jsval \<Rightarrow> string \<Rightarrow> jsval \<Rightarrow> jsval" where
  "put_key container key v = (case container of
     Arr xs \<Rightarrow> if canonical_numeric key
       then Arr (take (read_nat key) (xs @ replicate (read_nat key - length xs) Undef) @ v # drop (Suc (read_nat key)) xs)
       else Arr xs
   | _ \<Rightarrow> set_member container key v)"

text \<open>\<open>v && typeof v === 'object'\<close> for a value that \<open>JSON.parse\<close> returned.\<close>

definition is_container :: "jsval \<Rightarrow> bool" where
  "is_container v = (case v of Obj fs \<Rightarrow> True | Arr xs \<Rightarrow> True | _ \<Rightarrow> False)"

definition empty_state :: jsval where
  "empty_state = Obj [(''rounds'', Obj [])]"

text \<open>\<open>{ nextRound: parsed.nextRound, ...parsed }\<close>, for a parsed object, whose keys are distinct.\<close>

definition state_of_file :: "jsval \<Rightarrow> jsval" where
  "state_of_file parsed = (case parsed of
     Obj fs \<Rightarrow> if is_container (opt_member parsed ''rounds'')
       then Obj ((''nextRound'', opt_member parsed ''nextRound'') # filter (\<lambda>(k, v). k \<noteq> ''nextRound'') fs)
       else empty_state
   | _ \<Rightarrow> empty_state)"

definition loadState :: "buyback_context \<Rightarrow> 'w buyback_world \<Rightarrow> ('w, buyback_event, jsval) io" where
  "loadState cx ops =
     (if statePath cx = [] then ok_io empty_state
      else then_io (catch_io
          (then_io (read_io (readStateFile ops)) (\<lambda>contents. lift_io (then_res (JSON_parse contents) (\<lambda>v. Inr (state_of_file v)))))
          (\<lambda>error. if error_code error = Some ''ENOENT'' then ok_io empty_state else fail_io error)) (\<lambda>state.
        then_io (log_io (StateLoaded state)) (\<lambda>_. ok_io state)))"

definition saveState :: "buyback_context \<Rightarrow> 'w buyback_world \<Rightarrow> jsval \<Rightarrow> ('w, buyback_event, unit) io" where
  "saveState cx ops state =
     (if statePath cx = [] then ok_io ()
      else then_io (lift_io (stringify state)) (\<lambda>_. call_io (writeStateFile ops state) (StateSaved state)))"

record journal =
  processedLamports :: string
  pendingSwap :: jsval
  executions :: "jsval list"

definition journal_value :: "journal \<Rightarrow> jsval" where
  "journal_value j = Obj [(''processedLamports'', Str (processedLamports j)), (''pending'', pendingSwap j),
     (''executions'', Arr (executions j))]"

definition roundJournal :: "jsval \<Rightarrow> string \<Rightarrow> journal" where
  "roundJournal state key = (let raw = get_key (opt_member state ''rounds'') key in case raw of
       Str s \<Rightarrow> \<lparr>processedLamports = s, pendingSwap = Null, executions = []\<rparr>
     | Num n \<Rightarrow> \<lparr>processedLamports = num_to_string n, pendingSwap = Null, executions = []\<rparr>
     | _ \<Rightarrow> \<lparr>processedLamports = to_str (js_or (opt_member raw ''processedLamports'') (Str ''0'')),
         pendingSwap = js_or (opt_member raw ''pending'') Null,
         executions = (case opt_member raw ''executions'' of Arr xs \<Rightarrow> xs | _ \<Rightarrow> [])\<rparr>)"

text \<open>\<open>state.rounds[roundKey] = journal\<close>\<close>

definition put_journal :: "jsval \<Rightarrow> string \<Rightarrow> journal \<Rightarrow> jsval" where
  "put_journal state key j = set_member state ''rounds'' (put_key (opt_member state ''rounds'') key (journal_value j))"

text \<open>The sum of the lamports the executions spent.\<close>

definition evidenced :: "jsval list \<Rightarrow> int res" where
  "evidenced entries = fold_res (\<lambda>entry sum.
     then_res (then_res (member entry ''spendLamports'') to_bigint) (\<lambda>n. Inr (sum + n))) entries 0"

section \<open>The swap\<close>

definition quote_query :: "jsnum \<Rightarrow> string \<Rightarrow> int \<Rightarrow> jsval \<Rightarrow> string" where
  "quote_query inputLamports outputMint slippageBps route = form_encode [
     (''inputMint'', NATIVE_SOL_MINT), (''outputMint'', outputMint), (''amount'', num_to_string inputLamports),
     (''slippageBps'', show_int slippageBps), (''dexes'', to_str (opt_member route ''label'')),
     (''onlyDirectRoutes'', ''true''), (''restrictIntermediateTokens'', ''true'')]"

text \<open>The quote as it was received, and what its validation returns.\<close>

definition fetchQuote :: "buyback_context \<Rightarrow> 'w buyback_world \<Rightarrow> jsnum \<Rightarrow> string \<Rightarrow> string \<Rightarrow> int \<Rightarrow> jsval
    \<Rightarrow> ('w, buyback_event, jsval \<times> jsval) io" where
  "fetchQuote cx ops inputLamports outputMint poolAddress slippageBps route =
     then_io (get ops (quoteUrl cx @ ''?'' @ quote_query inputLamports outputMint slippageBps route)) (\<lambda>response.
     let body = json_or response (Obj []) in
     assert_io (response_ok response) (''Jupiter quote failed: '' @ to_str (js_or (opt_member body ''error'') (IntV (status response))))
     (then_io (lift_io (validateDirectMeteoraQuote body (Str poolAddress) (Num inputLamports) (Str outputMint)
         (opt_member route ''label'') (Num (to_num (env_or cx ''MAX_PRICE_IMPACT_PCT'' ''5''))))) (\<lambda>checked.
      ok_io (body, checked))))"

definition buildSwapTransaction :: "buyback_context \<Rightarrow> 'w buyback_world \<Rightarrow> jsval \<Rightarrow> ('w, buyback_event, jsval) io" where
  "buildSwapTransaction cx ops quote =
     then_io (lift_io (validateJupiterPriorityLevel (env_or cx ''JUPITER_PRIORITY_LEVEL'' ''medium''))) (\<lambda>priorityLevel.
     then_io (lift_io (readInteger (env_or cx ''MAX_PRIORITY_LAMPORTS'' ''500000'') ''MAX_PRIORITY_LAMPORTS'')) (\<lambda>maxLamports.
     then_io (post ops (swapUrl cx) (Obj [(''quoteResponse'', quote), (''userPublicKey'', Str (keeperKey cx)),
         (''wrapAndUnwrapSol'', Bool True), (''dynamicComputeUnitLimit'', Bool True),
         (''prioritizationFeeLamports'', Obj [(''priorityLevelWithMaxLamports'',
            Obj [(''priorityLevel'', Str priorityLevel), (''maxLamports'', IntV maxLamports)])])])) (\<lambda>response.
     let body = json_or response (Obj []) in
     assert_io (response_ok response \<and> truthy (opt_member body ''swapTransaction''))
       (''Jupiter swap build failed: '' @ to_str (js_or (opt_member body ''error'') (IntV (status response))))
     (lift_io (deserialize cx (opt_member body ''swapTransaction''))))))"

text \<open>\<open>simulation.value.accounts\<close> destructured into its first two elements.\<close>

definition two_accounts :: "jsval \<Rightarrow> jsval \<times> jsval" where
  "two_accounts v = (case v of Arr (a # b # _) \<Rightarrow> (a, b) | Arr [a] \<Rightarrow> (a, Undef) | _ \<Rightarrow> (Undef, Undef))"

record inspection =
  inspected_transaction :: jsval
  spentLamports :: int
  postBaseUnits :: int
  lastValidHeight :: jsval
  contextSlot :: jsval

definition pinned_context :: "'w buyback_world \<Rightarrow> ('w, buyback_event, jsval) io" where
  "pinned_context ops = then_io (read_io (latestBlockhashAndContext ops)) (\<lambda>response.
     lift_io (pinLatestBlockhashContext response confirmed))"

abbreviation blockhash_of :: "jsval \<Rightarrow> jsval" where
  "blockhash_of pinned \<equiv> opt_member (opt_member pinned ''latestBlockhash'') ''blockhash''"

abbreviation last_valid_of :: "jsval \<Rightarrow> jsval" where
  "last_valid_of pinned \<equiv> opt_member (opt_member pinned ''latestBlockhash'') ''lastValidBlockHeight''"

abbreviation context_of :: "jsval \<Rightarrow> jsval" where
  "context_of pinned \<equiv> opt_member pinned ''contextConfig''"

abbreviation slot_of :: "jsval \<Rightarrow> jsval" where
  "slot_of pinned \<equiv> opt_member (context_of pinned) ''minContextSlot''"

definition allowed_programs :: "buyback_context \<Rightarrow> string \<Rightarrow> string list" where
  "allowed_programs cx meteoraProgram = sdkPrograms cx @ [''JUP6LkbZbjS1jKKwapdHNy74zcZ3tLUZoi5QNyVTaV4'', meteoraProgram]"

text \<open>The layout of the message and the programs it calls, before the blockhash is refreshed.\<close>

definition check_layout :: "buyback_context \<Rightarrow> jsval \<Rightarrow> unit res" where
  "check_layout cx transaction =
     (let message = opt_member transaction ''message'' in
      assert_ok (base58_of (first_of (opt_member message ''staticAccountKeys'')) = Str (keeperKey cx))
        ''Jupiter transaction fee payer changed unexpectedly'' (
      then_res (member message ''header'') (\<lambda>header.
      assert_ok (opt_member header ''numRequiredSignatures'' = IntV 1)
        ''Jupiter transaction requires an unexpected signer'' (Inr ()))))"

definition check_programs :: "buyback_context \<Rightarrow> string \<Rightarrow> string list \<Rightarrow> unit res" where
  "check_programs cx meteoraProgram programs = fold_res (\<lambda>programId _.
     assert_ok (programId \<in> set (allowed_programs cx meteoraProgram))
       (''Jupiter transaction contains an unapproved program: '' @ programId) (Inr ())) programs ()"

definition fetch_tables :: "'w buyback_world \<Rightarrow> jsval \<Rightarrow> jsval \<Rightarrow> ('w, buyback_event, jsval list) io" where
  "fetch_tables ops message contextConfig = map_io (\<lambda>lookup.
     then_io (read_io (lookupTable ops (opt_member lookup ''accountKey'') contextConfig)) (\<lambda>table.
     assert_io (truthy table) (''Jupiter lookup table is unavailable: '' @ to_str (opt_member lookup ''accountKey''))
       (ok_io table))) (byte_elements (opt_member message ''addressTableLookups''))"

text \<open>What the simulation of the refreshed transaction must show.\<close>

definition check_simulation :: "buyback_context \<Rightarrow> jsnum \<Rightarrow> jsval \<Rightarrow> int \<Rightarrow> int \<Rightarrow> jsval \<Rightarrow> swap_simulation \<Rightarrow> (int \<times> int) res" where
  "check_simulation cx inputLamports minimumOutput beforeBaseUnits beforeLamports feeValue sim =
     (let (postPayer, postMyne) = two_accounts (sim_accounts sim) in
      then_res (to_bigint (opt_member postPayer ''lamports'')) (\<lambda>post.
      then_res (to_bigint (Num inputLamports)) (\<lambda>input.
      let spent = beforeLamports - post in
      assert_ok (safe_nonneg feeValue) ''Swap message fee is unavailable'' (
      then_res (to_bigint feeValue) (\<lambda>fee.
      then_res (readInteger (env_or cx ''MAX_SWAP_OVERHEAD_LAMPORTS'' ''5000000'') ''MAX_SWAP_OVERHEAD_LAMPORTS'') (\<lambda>overhead.
      assert_ok (spent \<le> input + fee + overhead)
        (''Swap simulation exceeds input plus bounded overhead: '' @ show_int spent @ '' lamports'') (
      then_res (member (opt_member postMyne ''data'') ''0'') (\<lambda>_.
      then_res (decodeAmount cx (first_of (opt_member postMyne ''data''))) (\<lambda>units.
      assert_ok (beforeBaseUnits \<le> units) ''Swap simulation reduces the keeper MYNE balance'' (
      then_res (to_bigint minimumOutput) (\<lambda>minimum.
      assert_ok (minimum \<le> units - beforeBaseUnits) ''Swap simulation output is below the quote slippage threshold''
        (Inr (spent, units)))))))))))))"

text \<open>The check between the simulation and the fee: the spend covers the quoted input.\<close>

definition check_spend :: "jsnum \<Rightarrow> int \<Rightarrow> swap_simulation \<Rightarrow> unit res" where
  "check_spend inputLamports beforeLamports sim =
     then_res (stringify (sim_err sim)) (\<lambda>err.
     assert_ok (sim_err sim = Null)
       (''Meteora swap simulation failed: '' @ err @ [CHR 0x0A] @ join [CHR 0x0A] (sim_logs sim)) (
     let (postPayer, postMyne) = two_accounts (sim_accounts sim) in
     assert_ok (truthy postPayer \<and> truthy postMyne) ''Swap simulation did not return payer and MYNE account state'' (
     then_res (to_bigint (opt_member postPayer ''lamports'')) (\<lambda>post.
     then_res (to_bigint (Num inputLamports)) (\<lambda>input.
     assert_ok (input \<le> beforeLamports - post) ''Swap simulation spends less than the quoted input'' (Inr ()))))))"

definition inspectSwapTransaction :: "buyback_context \<Rightarrow> 'w buyback_world \<Rightarrow> jsval \<Rightarrow> jsnum \<Rightarrow> string \<Rightarrow> int \<Rightarrow> jsval \<Rightarrow> string
    \<Rightarrow> ('w, buyback_event, inspection) io" where
  "inspectSwapTransaction cx ops transaction inputLamports myneAta beforeBaseUnits minimumOutput meteoraProgram =
     then_io (lift_io (check_layout cx transaction)) (\<lambda>_.
     then_io (pinned_context ops) (\<lambda>pinned.
     then_io (fetch_tables ops (opt_member transaction ''message'') (context_of pinned)) (\<lambda>tables.
     then_io (lift_io (then_res (decompile cx (opt_member transaction ''message'') tables) (check_programs cx meteoraProgram))) (\<lambda>_.
     then_io (lift_io (refreshUnsignedV0TransactionBlockhash transaction (Str (keeperKey cx)) (blockhash_of pinned))) (\<lambda>refreshed.
     then_io (read_io (getBalance ops (context_of pinned))) (\<lambda>beforeLamports.
     then_io (read_io (simulateSwap ops refreshed (context_of pinned))) (\<lambda>sim.
     then_io (lift_io (check_spend inputLamports beforeLamports sim)) (\<lambda>_.
     then_io (read_io (retryTransientBlockhashRead (feeForMessage ops (opt_member refreshed ''message'')) Undef
         (\<lambda>attempt. sleepMs ops (int attempt * 200)))) (\<lambda>feeValue.
     then_io (lift_io (check_simulation cx inputLamports minimumOutput beforeBaseUnits beforeLamports feeValue sim)) (\<lambda>(spent, units).
     ok_io \<lparr>inspected_transaction = refreshed, spentLamports = spent, postBaseUnits = units,
       lastValidHeight = last_valid_of pinned, contextSlot = slot_of pinned\<rparr>))))))))))"

section \<open>The token account\<close>

definition ensureMyneAta :: "buyback_context \<Rightarrow> 'w buyback_world \<Rightarrow> string \<Rightarrow> ('w, buyback_event, string) io" where
  "ensureMyneAta cx ops mintAddress =
     (let ata = tokenAddress cx mintAddress in
      then_io (read_io (accountInfo ops ata)) (\<lambda>info.
      if info \<noteq> None then ok_io ata
      else then_io (call_io (createTokenAccount ops ata) TokenAccountCreated) (\<lambda>_. ok_io ata)))"

text \<open>\<open>waitForMyneBalance\<close>: a read, then up to \<open>left\<close> further reads, half a second apart, while the predicate fails.\<close>

fun await_balance :: "'w buyback_world \<Rightarrow> string \<Rightarrow> (int \<Rightarrow> bool) \<Rightarrow> nat \<Rightarrow> int \<Rightarrow> ('w, buyback_event, int) io" where
  "await_balance ops ata P 0 amount = ok_io amount"
| "await_balance ops ata P (Suc left) amount = (if P amount then ok_io amount
     else then_io (pause ops 500) (\<lambda>_.
       then_io (read_io (tokenAmount ops ata)) (await_balance ops ata P left)))"

definition waitForMyneBalance :: "'w buyback_world \<Rightarrow> string \<Rightarrow> (int \<Rightarrow> bool) \<Rightarrow> ('w, buyback_event, int) io" where
  "waitForMyneBalance ops ata P = then_io (read_io (tokenAmount ops ata)) (await_balance ops ata P 11)"

section \<open>The burn\<close>

record signed_burn =
  burn_delta :: int
  burn_raw :: string
  burn_signature :: string
  burn_slot :: jsval
  burn_lastValid :: jsval

text \<open>The message that is sent: the measured compute limit, a price if there is one, and the instruction.\<close>

definition keeper_message :: "buyback_context \<Rightarrow> jsval \<Rightarrow> jsnum \<Rightarrow> int \<Rightarrow> instruction \<Rightarrow> tx_message" where
  "keeper_message cx pinned units priority ix = \<lparr>payerKey = keeperKey cx, recentBlockhash = to_str (blockhash_of pinned),
     message_instructions = SetComputeUnitLimit units
       # (if 0 < priority then [SetComputeUnitPrice (Fin (of_int priority))] else []) @ [Call ix]\<rparr>"

text \<open>Simulate the instruction with the largest limit; the measured limit, or the failure with its label.\<close>

definition measured_limit :: "buyback_context \<Rightarrow> 'w buyback_world \<Rightarrow> jsval \<Rightarrow> string \<Rightarrow> instruction \<Rightarrow> ('w, buyback_event, jsnum) io" where
  "measured_limit cx ops pinned label ix =
     then_io (read_io (simulateMessage ops (keeper_message cx pinned (Fin 1400000) 0 ix) (context_of pinned))) (\<lambda>sim.
     then_io (lift_io (stringify (sim_err sim))) (\<lambda>err.
     assert_io (sim_err sim = Null) (label @ '' simulation failed: '' @ err)
       (ok_io (computeLimit (measuredUnits 200000 (unitsConsumed sim))))))"

definition burnIx :: "buyback_context \<Rightarrow> string \<Rightarrow> string \<Rightarrow> int \<Rightarrow> jsval \<Rightarrow> instruction" where
  "burnIx cx mintAddress ata delta decimals = Instruction ''burnChecked'' [Big delta, decimals]
     [(''account'', Key ata), (''mint'', Key mintAddress), (''owner'', Key (keeperKey cx))]"

definition buildBurnAmountTransaction :: "buyback_context \<Rightarrow> 'w buyback_world \<Rightarrow> string \<Rightarrow> string \<Rightarrow> int
    \<Rightarrow> ('w, buyback_event, signed_burn) io" where
  "buildBurnAmountTransaction cx ops mintAddress ata delta =
     assert_io (0 < delta) ''MYNE burn amount must be positive''
     (then_io (read_io (mintDecimals ops mintAddress)) (\<lambda>decimals.
      let ix = burnIx cx mintAddress ata delta decimals in
      then_io (pinned_context ops) (\<lambda>pinned.
      then_io (measured_limit cx ops pinned ''MYNE burn'' ix) (\<lambda>limit.
      then_io (lift_io (readInteger (env_or cx ''KEEPER_PRIORITY_MICROLAMPORTS'' ''0'') ''KEEPER_PRIORITY_MICROLAMPORTS'')) (\<lambda>priority.
      let (raw, signature) = signMessage cx (keeper_message cx pinned limit (min 1000000 priority) ix) in
      ok_io \<lparr>burn_delta = delta, burn_raw = raw, burn_signature = base58Encode signature,
        burn_slot = slot_of pinned, burn_lastValid = last_valid_of pinned\<rparr>)))))"

definition buildBurnTransaction :: "buyback_context \<Rightarrow> 'w buyback_world \<Rightarrow> string \<Rightarrow> string \<Rightarrow> int
    \<Rightarrow> ('w, buyback_event, signed_burn) io" where
  "buildBurnTransaction cx ops mintAddress ata beforeBaseUnits =
     then_io (read_io (tokenAmount ops ata)) (\<lambda>amount.
     let delta = amount - beforeBaseUnits in
     assert_io (0 < delta) ''Swap produced no positive MYNE balance delta''
       (buildBurnAmountTransaction cx ops mintAddress ata delta))"

definition confirmedSwapOutputBaseUnits :: "buyback_context \<Rightarrow> 'w buyback_world \<Rightarrow> jsval \<Rightarrow> string \<Rightarrow> ('w, buyback_event, int) io" where
  "confirmedSwapOutputBaseUnits cx ops signature mintAddress =
     then_io (read_io (getTransaction ops signature)) (\<lambda>transaction.
     let meta = opt_member transaction ''meta'' in
     assert_io (truthy meta) (''Confirmed swap transaction is unavailable: '' @ to_str signature)
     (assert_io (opt_member meta ''err'' = Null) (''Saved swap transaction failed: '' @ to_str signature)
     (lift_io (purchasedTokenBaseUnits (byte_elements (opt_member meta ''preTokenBalances''))
        (byte_elements (opt_member meta ''postTokenBalances'')) (Str mintAddress) (Str (keeperKey cx))))))"

section \<open>Sending what was saved\<close>

definition first_signature :: "jsval \<Rightarrow> bytes" where
  "first_signature transaction = map (\<lambda>e. case integer_of e of Some n \<Rightarrow> word_of_int n | None \<Rightarrow> 0)
     (byte_elements (first_of (opt_member transaction ''signatures'')))"

definition sendSavedTransaction :: "buyback_context \<Rightarrow> 'w buyback_world \<Rightarrow> jsval \<Rightarrow> jsval \<Rightarrow> jsval \<Rightarrow> ('w, buyback_event, string) io" where
  "sendSavedTransaction cx ops raw minContextSlot lastValidBlockHeight =
     assert_io (nullish lastValidBlockHeight \<or> safe_nonneg lastValidBlockHeight)
       ''Saved transaction last-valid block height is invalid''
     (then_io (lift_io (deserialize cx raw)) (\<lambda>saved.
      then_io (lift_io (savedTransactionSendOptions minContextSlot confirmed)) (\<lambda>options.
      then_io (call_io (sendRawTransaction ops raw options) (RawSent raw)) (\<lambda>signature.
      assert_io (signature = base58Encode (first_signature saved)) ''Submitted saved transaction signature changed''
      (then_io (read_io (confirmSaved ops (if nullish lastValidBlockHeight then Str signature
          else Obj [(''signature'', Str signature), (''blockhash'', opt_member (opt_member saved ''message'') ''recentBlockhash''),
            (''lastValidBlockHeight'', lastValidBlockHeight)]))) (\<lambda>err.
       then_io (lift_io (stringify err)) (\<lambda>failure.
       assert_io (err = Null) (''Saved buyback transaction failed: '' @ failure) (ok_io signature))))))))"

definition markBuybackIx :: "buyback_context \<Rightarrow> string \<Rightarrow> instruction" where
  "markBuybackIx cx roundAddress = Instruction ''markBuybackCompleted'' []
     [(''config'', Key (findAddress cx [text_bytes ''config''])), (''round'', Key roundAddress),
      (''buybackAuthority'', Key (keeperKey cx))]"

definition markRoundBuybackComplete :: "buyback_context \<Rightarrow> 'w buyback_world \<Rightarrow> string \<Rightarrow> buyback_round
    \<Rightarrow> ('w, buyback_event, string option) io" where
  "markRoundBuybackComplete cx ops roundAddress st =
     (if round_buybackCompleted st then ok_io None
      else let ix = markBuybackIx cx roundAddress in
        then_io (pinned_context ops) (\<lambda>pinned.
        then_io (measured_limit cx ops pinned ''Buyback completion'' ix) (\<lambda>limit.
        let (raw, _) = signMessage cx (keeper_message cx pinned limit 0 ix) in
        then_io (log_io (CompletionSigned raw)) (\<lambda>_.
        then_io (sendSavedTransaction cx ops (Str raw) (slot_of pinned) (last_valid_of pinned)) (\<lambda>signature.
        ok_io (Some signature))))))"

section \<open>Repairing an incomplete execution\<close>

text \<open>The indexes of the executions that are not complete.\<close>

fun incomplete_indexes :: "nat \<Rightarrow> jsval list \<Rightarrow> nat list res" where
  "incomplete_indexes i [] = Inr []"
| "incomplete_indexes i (e # es) = then_res (isCompleteBuybackExecution e) (\<lambda>complete.
     then_res (incomplete_indexes (Suc i) es) (\<lambda>others. Inr (if complete then others else i # others)))"

definition repaired_pending :: "jsval \<Rightarrow> int \<Rightarrow> signed_burn \<Rightarrow> jsval" where
  "repaired_pending entry beforeUnits burn = Obj [(''phase'', Str ''burn-ready''),
     (''spendLamports'', Str (to_str (opt_member entry ''spendLamports''))), (''beforeBaseUnits'', Str (show_int beforeUnits)),
     (''expectedOutputBaseUnits'', Str (to_str (opt_member entry ''expectedOutputBaseUnits''))), (''swapRaw'', Null),
     (''swapSignature'', opt_member entry ''swapSignature''), (''burnBaseUnits'', Str (show_int (burn_delta burn))),
     (''burnRaw'', Str (burn_raw burn)), (''burnSignature'', Str (burn_signature burn)),
     (''burnMinContextSlot'', burn_slot burn), (''burnLastValidBlockHeight'', burn_lastValid burn)]"

text \<open>Burn what the entry's swap bought, with the journal back at the executions before it.\<close>

definition repair_entry :: "buyback_context \<Rightarrow> 'w buyback_world \<Rightarrow> string \<Rightarrow> string \<Rightarrow> string \<Rightarrow> jsval \<Rightarrow> jsval list \<Rightarrow> jsval
    \<Rightarrow> ('w, buyback_event, jsval \<times> journal) io" where
  "repair_entry cx ops roundKey mintAddress ata entry kept state =
     then_io (confirmedSwapOutputBaseUnits cx ops (opt_member entry ''swapSignature'') mintAddress) (\<lambda>bought.
     then_io (waitForMyneBalance ops ata (\<lambda>amount. bought \<le> amount)) (\<lambda>current.
     assert_io (bought \<le> current) ''Purchased MYNE is not present for incomplete journal recovery''
     (then_io (buildBurnAmountTransaction cx ops mintAddress ata bought) (\<lambda>burn.
      then_io (lift_io (evidenced kept)) (\<lambda>spent.
      let j = \<lparr>processedLamports = show_int spent, pendingSwap = repaired_pending entry (current - bought) burn, executions = kept\<rparr>;
          state' = put_journal state roundKey j in
      then_io (saveState cx ops state') (\<lambda>_. ok_io (state', j)))))))"

definition repairIncompleteExecution :: "buyback_context \<Rightarrow> 'w buyback_world \<Rightarrow> string \<Rightarrow> string \<Rightarrow> string \<Rightarrow> jsval \<times> journal
    \<Rightarrow> ('w, buyback_event, jsval \<times> journal) io" where
  "repairIncompleteExecution cx ops roundKey mintAddress ata = (\<lambda>(state, j).
     then_io (lift_io (incomplete_indexes 0 (executions j))) (\<lambda>incomplete. case incomplete of
       [] \<Rightarrow> ok_io (state, j)
     | index # others \<Rightarrow>
       assert_io (others = []) ''Multiple incomplete buyback executions require manual reconciliation''
       (assert_io (Suc index = length (executions j)) ''Only the latest buyback execution may be repaired''
       (assert_io (pendingSwap j = Null) ''Cannot repair an incomplete execution while another buyback is pending''
       (assert_io (truthy (opt_member (executions j ! index) ''swapSignature''))
         ''Incomplete buyback execution is missing its swap signature''
       (repair_entry cx ops roundKey mintAddress ata (executions j ! index) (take index (executions j)) state))))))"

section \<open>Resuming a pending buyback\<close>

datatype recovery =
    NothingPending
  | Skipped string jsval "string option"
  | Recovered jsval jsval jsval

text \<open>Whether an absent status is proof that the swap can no longer land.\<close>

definition swap_expired :: "buyback_context \<Rightarrow> 'w buyback_world \<Rightarrow> jsval \<Rightarrow> bool \<Rightarrow> jsval \<Rightarrow> ('w, buyback_event, bool) io" where
  "swap_expired cx ops pending increased sigStatus =
     (if truthy sigStatus then ok_io False
      else if safe_int (opt_member pending ''lastValidBlockHeight'') \<noteq> None
      then then_io (read_io (blockHeight ops)) (\<lambda>height.
        ok_io (pendingSwapIsProvablyExpired sigStatus (Bool increased) height (opt_member pending ''lastValidBlockHeight'') Undef))
      else then_io (lift_io (deserialize cx (opt_member pending ''swapRaw''))) (\<lambda>saved.
        then_io (read_io (blockhashValid ops (opt_member (opt_member saved ''message'') ''recentBlockhash''))) (\<lambda>valid.
        ok_io (pendingSwapIsProvablyExpired sigStatus (Bool increased) Undef Undef valid))))"

text \<open>
  The handler of a failed submission: \<open>None\<close> to go on because the output has arrived, or the result to return with
  the journal, which has forgotten the swap when it can be retried.
\<close>

definition swap_failed :: "buyback_context \<Rightarrow> 'w buyback_world \<Rightarrow> string \<Rightarrow> string \<Rightarrow> int \<Rightarrow> jsval \<times> journal \<Rightarrow> js_error
    \<Rightarrow> ('w, buyback_event, (recovery \<times> jsval \<times> journal) option) io" where
  "swap_failed cx ops roundKey ata before = (\<lambda>(state, j) error.
     let pending = pendingSwap j; signature = opt_member pending ''swapSignature'' in
     then_io (read_io (tokenAmount ops ata)) (\<lambda>current.
     if before < current then ok_io None
     else
       then_io (read_io (signatureStatus ops signature)) (\<lambda>sigStatus.
       then_io (swap_expired cx ops pending (before < current) sigStatus) (\<lambda>expired.
       let finalized = truthy (opt_member sigStatus ''err'');
           abandoned = (env cx ''CONFIRM_ABANDONED_BUYBACK'' = Str (roundKey @ '':'' @ to_str signature)) in
       if finalized \<or> expired \<or> abandoned
       then
         let j' = j\<lparr>pendingSwap := Null\<rparr>; state' = put_journal state roundKey j' in
         then_io (saveState cx ops state') (\<lambda>_.
         ok_io (Some (Skipped (if finalized then ''pending-swap-finalized-error-retry-next-tick''
             else if expired then ''pending-swap-expired-retry-next-tick''
             else ''pending-swap-explicitly-abandoned-retry-next-tick'') Undef (Some (error_string error)), state', j')))
       else ok_io (Some (Skipped ''pending-swap-status-ambiguous-manual-reconciliation-required'' signature
           (Some (error_string error)), state, j))))))"

definition submit_swap :: "buyback_context \<Rightarrow> 'w buyback_world \<Rightarrow> string \<Rightarrow> string \<Rightarrow> int \<Rightarrow> jsval \<times> journal
    \<Rightarrow> ('w, buyback_event, (recovery \<times> jsval \<times> journal) option) io" where
  "submit_swap cx ops roundKey ata before = (\<lambda>(state, j).
     let pending = pendingSwap j in
     catch_io
       (then_io (sendSavedTransaction cx ops (opt_member pending ''swapRaw'') (opt_member pending ''swapMinContextSlot'')
           (opt_member pending ''lastValidBlockHeight'')) (\<lambda>submitted.
        assert_io (Str submitted = opt_member pending ''swapSignature'') ''Submitted swap signature changed'' (ok_io None)))
       (swap_failed cx ops roundKey ata before (state, j)))"

text \<open>Journal that the swap was made.\<close>

definition mark_swapped :: "buyback_context \<Rightarrow> 'w buyback_world \<Rightarrow> string \<Rightarrow> jsval \<times> journal \<Rightarrow> ('w, buyback_event, jsval \<times> journal) io" where
  "mark_swapped cx ops roundKey = (\<lambda>(state, j).
     let j' = j\<lparr>pendingSwap := set_member (pendingSwap j) ''phase'' (Str ''swapped'')\<rparr>;
         state' = put_journal state roundKey j' in
     then_io (saveState cx ops state') (\<lambda>_. ok_io (state', j')))"

text \<open>The first phase: submit the saved swap unless its output shows, then journal that it was swapped.\<close>

definition swap_phase :: "buyback_context \<Rightarrow> 'w buyback_world \<Rightarrow> string \<Rightarrow> string \<Rightarrow> int \<Rightarrow> int \<Rightarrow> jsval \<times> journal
    \<Rightarrow> ('w, buyback_event, (recovery \<times> jsval \<times> journal) + (jsval \<times> journal)) io" where
  "swap_phase cx ops roundKey ata before current x =
     (if opt_member (pendingSwap (snd x)) ''phase'' \<noteq> Str ''swap-ready'' then ok_io (Inr x)
      else then_io (if current \<le> before then submit_swap cx ops roundKey ata before x else ok_io None) (\<lambda>outcome.
        case outcome of
          Some result \<Rightarrow> ok_io (Inl result)
        | None \<Rightarrow> then_io (mark_swapped cx ops roundKey x) (\<lambda>x'. ok_io (Inr x'))))"

text \<open>Sign and journal the burn, unless the journal has one.\<close>

definition with_burn :: "jsval \<Rightarrow> signed_burn \<Rightarrow> jsval" where
  "with_burn pending burn = fold (\<lambda>(k, v) p. set_member p k v)
     [(''burnBaseUnits'', Str (show_int (burn_delta burn))), (''burnRaw'', Str (burn_raw burn)),
      (''burnSignature'', Str (burn_signature burn)), (''burnMinContextSlot'', burn_slot burn),
      (''burnLastValidBlockHeight'', burn_lastValid burn), (''phase'', Str ''burn-ready'')] pending"

definition burn_phase :: "buyback_context \<Rightarrow> 'w buyback_world \<Rightarrow> string \<Rightarrow> string \<Rightarrow> string \<Rightarrow> int \<Rightarrow> jsval \<times> journal
    \<Rightarrow> ('w, buyback_event, jsval \<times> journal) io" where
  "burn_phase cx ops roundKey mintAddress ata before = (\<lambda>(state, j).
     if truthy (opt_member (pendingSwap j) ''burnRaw'') then ok_io (state, j)
     else then_io (buildBurnTransaction cx ops mintAddress ata before) (\<lambda>burn.
       let j' = j\<lparr>pendingSwap := with_burn (pendingSwap j) burn\<rparr>; state' = put_journal state roundKey j' in
       then_io (saveState cx ops state') (\<lambda>_. ok_io (state', j'))))"

definition submit_burn :: "buyback_context \<Rightarrow> 'w buyback_world \<Rightarrow> string \<Rightarrow> int \<Rightarrow> jsval \<Rightarrow> ('w, buyback_event, unit) io" where
  "submit_burn cx ops ata before pending =
     catch_io
       (then_io (sendSavedTransaction cx ops (opt_member pending ''burnRaw'') (opt_member pending ''burnMinContextSlot'')
           (opt_member pending ''burnLastValidBlockHeight'')) (\<lambda>submitted.
        assert_io (Str submitted = opt_member pending ''burnSignature'') ''Submitted burn signature changed'' (ok_io ())))
       (\<lambda>error. then_io (read_io (tokenAmount ops ata)) (\<lambda>recovered.
          if before < recovered then fail_io error else ok_io ()))"

text \<open>The execution that is pushed, and the journal once the burn is seen.\<close>

definition execution_of :: "jsval \<Rightarrow> jsval" where
  "execution_of pending = Obj [(''spendLamports'', opt_member pending ''spendLamports''),
     (''expectedOutputBaseUnits'', opt_member pending ''expectedOutputBaseUnits''),
     (''burnedBaseUnits'', opt_member pending ''burnBaseUnits''), (''swapSignature'', opt_member pending ''swapSignature''),
     (''burnSignature'', opt_member pending ''burnSignature'')]"

definition complete_execution :: "journal \<Rightarrow> journal res" where
  "complete_execution j =
     (let pending = pendingSwap j in
      assert_ok (truthy (opt_member pending ''burnBaseUnits'') \<and> truthy (opt_member pending ''burnRaw'')
          \<and> truthy (opt_member pending ''burnSignature''))
        ''Buyback cannot complete without durable burn evidence'' (
      then_res (bigint_of_string (processedLamports j)) (\<lambda>processed.
      then_res (to_bigint (opt_member pending ''spendLamports'')) (\<lambda>spent.
      Inr \<lparr>processedLamports = show_int (processed + spent), pendingSwap = Null,
        executions = executions j @ [execution_of pending]\<rparr>))))"

definition settle_burn :: "buyback_context \<Rightarrow> 'w buyback_world \<Rightarrow> string \<Rightarrow> string \<Rightarrow> int \<Rightarrow> jsval \<times> journal
    \<Rightarrow> ('w, buyback_event, recovery \<times> jsval \<times> journal) io" where
  "settle_burn cx ops roundKey ata before = (\<lambda>(state, j).
     then_io (waitForMyneBalance ops ata (\<lambda>amount. amount \<le> before)) (\<lambda>after.
     if before < after
     then ok_io (Skipped ''pending-burn-awaiting-confirmed-token-state'' (opt_member (pendingSwap j) ''burnSignature'') None, state, j)
     else
       then_io (lift_io (complete_execution j)) (\<lambda>j'.
       let state' = put_journal state roundKey j' in
       then_io (saveState cx ops state') (\<lambda>_.
       ok_io (Recovered (opt_member (pendingSwap j) ''swapSignature'') (opt_member (pendingSwap j) ''burnSignature'')
         (opt_member (pendingSwap j) ''burnBaseUnits''), state', j')))))"

text \<open>From the swap on: wait for the output, burn what exceeds the balance before, and complete the execution.\<close>

definition burn_pending :: "buyback_context \<Rightarrow> 'w buyback_world \<Rightarrow> string \<Rightarrow> string \<Rightarrow> string \<Rightarrow> int \<Rightarrow> jsval \<times> journal
    \<Rightarrow> ('w, buyback_event, recovery \<times> jsval \<times> journal) io" where
  "burn_pending cx ops roundKey mintAddress ata before x =
     then_io (waitForMyneBalance ops ata (\<lambda>amount. before < amount)) (\<lambda>arrived.
     if arrived \<le> before
     then ok_io (Skipped ''pending-swap-output-awaiting-confirmed-token-state''
       (opt_member (pendingSwap (snd x)) ''swapSignature'') None, x)
     else
       then_io (burn_phase cx ops roundKey mintAddress ata before x) (\<lambda>x'.
       then_io (submit_burn cx ops ata before (pendingSwap (snd x'))) (\<lambda>_.
       settle_burn cx ops roundKey ata before x')))"

definition recoverPendingBuyback :: "buyback_context \<Rightarrow> 'w buyback_world \<Rightarrow> string \<Rightarrow> string \<Rightarrow> string \<Rightarrow> jsval \<times> journal
    \<Rightarrow> ('w, buyback_event, recovery \<times> jsval \<times> journal) io" where
  "recoverPendingBuyback cx ops roundKey mintAddress ata x =
     (if \<not> truthy (pendingSwap (snd x)) then ok_io (NothingPending, x)
      else then_io (lift_io (to_bigint (opt_member (pendingSwap (snd x)) ''beforeBaseUnits''))) (\<lambda>before.
        then_io (read_io (tokenAmount ops ata)) (\<lambda>current.
        then_io (swap_phase cx ops roundKey ata before current x) (\<lambda>phase. case phase of
          Inl result \<Rightarrow> ok_io result
        | Inr x' \<Rightarrow> burn_pending cx ops roundKey mintAddress ata before x'))))"

section \<open>One round\<close>

datatype tick_result =
    TickSkipped string "string option"
  | BelowMinimum spend int string int
  | Quoted string int string jsnum jsval
  | Executed recovery "string option option"

definition roundAllocation :: "buyback_round \<Rightarrow> int" where
  "roundAllocation st = big_div (grossDeployedLamports st * 100) 10000"

text \<open>\<open>state.nextRound = Number(roundId + 1n)\<close>, unless a round was forced, then save.\<close>

definition advance_cursor :: "buyback_context \<Rightarrow> 'w buyback_world \<Rightarrow> int \<Rightarrow> jsval \<Rightarrow> ('w, buyback_event, unit) io" where
  "advance_cursor cx ops roundId state =
     (if nullish (env cx ''MYNE_ROUND_ID'')
      then saveState cx ops (set_member state ''nextRound'' (Num (to_num (Big (roundId + 1)))))
      else ok_io ())"

text \<open>Mark the round complete on chain and move on, when its journal covers the allocation.\<close>

definition complete_round :: "buyback_context \<Rightarrow> 'w buyback_world \<Rightarrow> int \<Rightarrow> string \<Rightarrow> buyback_round \<Rightarrow> jsval \<times> journal
    \<Rightarrow> ('w, buyback_event, string option option) io" where
  "complete_round cx ops roundId roundAddress st = (\<lambda>(state, j).
     then_io (lift_io (bigint_of_string (processedLamports j))) (\<lambda>processed.
     if roundAllocation st \<le> processed
     then then_io (markRoundBuybackComplete cx ops roundAddress st) (\<lambda>signature.
       then_io (advance_cursor cx ops roundId state) (\<lambda>_. ok_io (Some signature)))
     else ok_io None))"

definition resume_round :: "buyback_context \<Rightarrow> 'w buyback_world \<Rightarrow> bool \<Rightarrow> int \<Rightarrow> string \<Rightarrow> buyback_round \<Rightarrow> string \<Rightarrow> string
    \<Rightarrow> jsval \<times> journal \<Rightarrow> ('w, buyback_event, tick_result) io" where
  "resume_round cx ops dryRun roundId roundAddress st mintAddress ata = (\<lambda>(state, j).
     assert_io (\<not> dryRun) ''A live pending buyback cannot be recovered in dry-run mode''
     (then_io (read_io (accountInfo ops ata)) (\<lambda>info.
      assert_io (info \<noteq> None) ''Pending buyback MYNE account is missing''
      (then_io (recoverPendingBuyback cx ops (show_int roundId) mintAddress ata (state, j)) (\<lambda>(result, state', j').
       case result of
         Recovered swapSignature burnSignature burned \<Rightarrow>
           then_io (upsertBuybackEvidence cx ops (show_int roundId) (executions j')) (\<lambda>_.
           then_io (complete_round cx ops roundId roundAddress st (state', j')) (\<lambda>completion.
           ok_io (Executed result completion)))
       | _ \<Rightarrow> ok_io (Executed result None))))))"

text \<open>Check the spend and the quote, sign the swap, and journal it before anything is sent.\<close>

definition pending_of :: "int \<Rightarrow> string \<Rightarrow> jsval \<Rightarrow> string \<Rightarrow> string \<Rightarrow> inspection \<Rightarrow> jsval" where
  "pending_of before spendText expected raw signature inspected = Obj [(''phase'', Str ''swap-ready''),
     (''spendLamports'', Str spendText), (''beforeBaseUnits'', Str (show_int before)), (''expectedOutputBaseUnits'', expected),
     (''swapRaw'', Str raw), (''swapSignature'', Str signature),
     (''lastValidBlockHeight'', lastValidHeight inspected), (''swapMinContextSlot'', contextSlot inspected),
     (''burnRaw'', Null), (''burnSignature'', Null), (''burnMinContextSlot'', Null), (''burnLastValidBlockHeight'', Null)]"

definition journal_swap :: "buyback_context \<Rightarrow> 'w buyback_world \<Rightarrow> string \<Rightarrow> string \<Rightarrow> string \<Rightarrow> jsnum \<Rightarrow> jsval \<Rightarrow> jsval
    \<Rightarrow> jsval \<times> journal \<Rightarrow> ('w, buyback_event, string \<times> jsval \<times> journal) io" where
  "journal_swap cx ops roundKey mintAddress meteoraProgram amount quote checked = (\<lambda>(state, j).
     then_io (ensureMyneAta cx ops mintAddress) (\<lambda>ata.
     then_io (read_io (tokenAmount ops ata)) (\<lambda>before.
     then_io (buildSwapTransaction cx ops quote) (\<lambda>swap.
     then_io (inspectSwapTransaction cx ops swap amount ata before
         (js_or (opt_member quote ''otherAmountThreshold'') (opt_member checked ''outputBaseUnits'')) meteoraProgram) (\<lambda>inspected.
     let signed = signTransaction cx (inspected_transaction inspected);
         j' = j\<lparr>pendingSwap := pending_of before (num_to_string amount) (opt_member checked ''outputBaseUnits'')
           (serialize cx signed) (base58Encode (first_signature signed)) inspected\<rparr>;
         state' = put_journal state roundKey j' in
     then_io (saveState cx ops state') (\<lambda>_. ok_io (ata, state', j')))))))"

definition buy_round :: "buyback_context \<Rightarrow> 'w buyback_world \<Rightarrow> bool \<Rightarrow> int \<Rightarrow> string \<Rightarrow> buyback_round \<Rightarrow> string \<Rightarrow> string \<Rightarrow> jsval
    \<Rightarrow> int \<Rightarrow> jsval \<times> journal \<Rightarrow> ('w, buyback_event, tick_result) io" where
  "buy_round cx ops dryRun roundId roundAddress st mintAddress poolAddress route remaining = (\<lambda>(state, j).
     let roundKey = show_int roundId; allocation = roundAllocation st in
     assert_io (remaining \<le> MAX_SAFE_INTEGER) ''Round buyback exceeds safe keeper amount''
     (let reserve = lamports (env_or cx ''BUYBACK_FEE_RESERVE_SOL'' ''0.005'');
          maxSpend = num_min (lamports (env_or cx ''MAX_BUYBACK_SOL'' ''0.25'')) (to_num (Big remaining));
          minimum = lamports (env_or cx ''MIN_BUYBACK_SOL'' ''0.0001'') in
      then_io (read_io (getBalance ops confirmed)) (\<lambda>balance.
      let plan = calculateSpend (Fin (of_int balance)) reserve maxSpend minimum; amount = spendLamports plan in
      if skipped plan then ok_io (BelowMinimum plan balance roundKey allocation)
      else
        then_io (lift_io (readInteger (env_or cx ''BUYBACK_SLIPPAGE_BPS'' ''100'') ''BUYBACK_SLIPPAGE_BPS'')) (\<lambda>slippageBps.
        assert_io (slippageBps \<le> 500) ''BUYBACK_SLIPPAGE_BPS must be <= 500 (5%)''
        (then_io (fetchQuote cx ops amount mintAddress poolAddress slippageBps route) (\<lambda>(quote, checked).
         if dryRun then ok_io (Quoted roundKey allocation poolAddress amount checked)
         else
           then_io (journal_swap cx ops roundKey mintAddress (to_str (opt_member route ''program'')) amount quote checked (state, j))
             (\<lambda>(ata, state1, j1).
           then_io (recoverPendingBuyback cx ops roundKey mintAddress ata (state1, j1)) (\<lambda>(result, state2, j2).
           then_io (case result of Recovered swapSignature burnSignature burned \<Rightarrow>
               upsertBuybackEvidence cx ops roundKey (executions j2) | _ \<Rightarrow> ok_io ()) (\<lambda>_.
           then_io (complete_round cx ops roundId roundAddress st (state2, j2)) (\<lambda>completion.
           ok_io (Executed result completion)))))))))))"

text \<open>A round with nothing pending: its evidence must add up, then the rest of the allocation is bought.\<close>

definition continue_round :: "buyback_context \<Rightarrow> 'w buyback_world \<Rightarrow> bool \<Rightarrow> int \<Rightarrow> string \<Rightarrow> buyback_round \<Rightarrow> string \<Rightarrow> string \<Rightarrow> jsval
    \<Rightarrow> jsval \<times> journal \<Rightarrow> ('w, buyback_event, tick_result) io" where
  "continue_round cx ops dryRun roundId roundAddress st mintAddress poolAddress route = (\<lambda>(state, j).
     then_io (lift_io (bigint_of_string (processedLamports j))) (\<lambda>previous.
     then_io (lift_io (evidenced (executions j))) (\<lambda>evidence.
     then_io (if dryRun then ok_io ()
         else assert_io (evidence = previous) ''Durable buyback journal is missing transaction evidence; refuse completion''
           (upsertBuybackEvidence cx ops (show_int roundId) (executions j))) (\<lambda>_.
     let remaining = (if previous < roundAllocation st then roundAllocation st - previous else 0) in
     if remaining = 0
     then then_io (if dryRun then ok_io None else markRoundBuybackComplete cx ops roundAddress st) (\<lambda>signature.
       then_io (if dryRun then ok_io () else advance_cursor cx ops roundId state) (\<lambda>_.
       ok_io (TickSkipped ''round-already-processed'' (Some (show_int roundId)))))
     else buy_round cx ops dryRun roundId roundAddress st mintAddress poolAddress route remaining (state, j)))))"

definition serve_round :: "buyback_context \<Rightarrow> 'w buyback_world \<Rightarrow> bool \<Rightarrow> int \<Rightarrow> string \<Rightarrow> buyback_round \<Rightarrow> string \<Rightarrow> string \<Rightarrow> jsval
    \<Rightarrow> jsval \<Rightarrow> ('w, buyback_event, tick_result) io" where
  "serve_round cx ops dryRun roundId roundAddress st mintAddress poolAddress route state =
     (let roundKey = show_int roundId; j = roundJournal state roundKey; ata = tokenAddress cx mintAddress in
      then_io (repairIncompleteExecution cx ops roundKey mintAddress ata (put_journal state roundKey j, j)) (\<lambda>(state', j').
      if truthy (pendingSwap j')
      then resume_round cx ops dryRun roundId roundAddress st mintAddress ata (state', j')
      else continue_round cx ops dryRun roundId roundAddress st mintAddress poolAddress route (state', j')))"

section \<open>One tick\<close>

definition check_live :: "buyback_context \<Rightarrow> bool \<Rightarrow> unit res" where
  "check_live cx dryRun = (if dryRun then Inr () else
     then_res (assertLiveAuthorization cx) (\<lambda>_.
     assert_ok (statePath cx \<noteq> []) ''Set BUYBACK_STATE_PATH to a durable keeper state file before live mode'' (
     assert_ok (is_https (supabaseUrl cx)) ''SUPABASE_URL must use HTTPS in live mode'' (
     assert_ok (serviceRole cx \<noteq> []) ''SUPABASE_SERVICE_ROLE_KEY is required in live mode'' (Inr ())))))"

text \<open>The last round whose 65 seconds are over.\<close>

definition currentRound :: "protocol_config \<Rightarrow> int \<Rightarrow> jsnum" where
  "currentRound cfg nowSeconds = num_sub (num_floor (num_div
     (num_sub (Fin (of_int nowSeconds)) (to_num (BN (initializedAt cfg)))) (to_num (BN (roundDurationSeconds cfg))))) (Fin 1)"

text \<open>The first round to look at, and the last: a forced round, or from the saved cursor to the current round.\<close>

definition forcedRound :: "buyback_context \<Rightarrow> jsval res" where
  "forcedRound cx = (if nullish (env cx ''MYNE_ROUND_ID'') then Inr Null
     else then_res (readInteger (env cx ''MYNE_ROUND_ID'') ''MYNE_ROUND_ID'') (\<lambda>n. Inr (IntV n)))"

definition initialRound :: "buyback_context \<Rightarrow> jsval \<Rightarrow> jsval \<Rightarrow> jsnum" where
  "initialRound cx forced state = to_num (coalesce forced
     (Num (to_num (coalesce (opt_member state ''nextRound'') (coalesce (env cx ''BUYBACK_START_ROUND'') (IntV 0))))))"

text \<open>The first indexed round that needs a buyback, once its account is read.\<close>

definition serve_indexed :: "buyback_context \<Rightarrow> 'w buyback_world \<Rightarrow> bool \<Rightarrow> protocol_config \<Rightarrow> liquidity_gate \<Rightarrow> jsval \<Rightarrow> jsval \<Rightarrow> jsval
    \<Rightarrow> jsval \<Rightarrow> ('w, buyback_event, tick_result) io" where
  "serve_indexed cx ops dryRun cfg gate route forced state row =
     then_io (lift_io (text_id (opt_member row ''round_id''))) (\<lambda>roundId.
     then_io (lift_io (writeBigUInt64LE roundId)) (\<lambda>seed.
     let address = findAddress cx [text_bytes ''round'', seed] in
     then_io (read_io (accountInfo ops address)) (\<lambda>info.
     if info = None then ok_io (TickSkipped ''indexed-round-account-missing-reconcile-required'' (Some (show_int roundId)))
     else then_io (call_io (fetchBuybackRound ops address) (RoundRead roundId)) (\<lambda>st.
       if \<not> round_settled st then ok_io (TickSkipped ''round-not-settled'' (Some (show_int roundId)))
       else if round_buybackCompleted st
       then then_io (if nullish forced then advance_cursor cx ops roundId state else ok_io ()) (\<lambda>_.
         ok_io (TickSkipped ''round-buyback-completed-on-chain'' (Some (show_int roundId))))
       else serve_round cx ops dryRun roundId address st (mint cfg) (gate_pool gate) route state))))"

definition check_pool :: "liquidity_gate \<Rightarrow> account_info option \<Rightarrow> unit res" where
  "check_pool gate info = assert_ok (case info of None \<Rightarrow> False
       | Some i \<Rightarrow> \<not> info_executable i \<and> info_owner i = poolProgram gate)
     ''Registered Meteora pool owner differs from the immutable gate'' (Inr ())"

definition select_round :: "buyback_context \<Rightarrow> 'w buyback_world \<Rightarrow> bool \<Rightarrow> protocol_config \<Rightarrow> liquidity_gate \<Rightarrow> jsval
    \<Rightarrow> ('w, buyback_event, tick_result) io" where
  "select_round cx ops dryRun cfg gate route =
     then_io (read_io (nowMs ops)) (\<lambda>now.
     let current = currentRound cfg (now div 1000) in
     if num_lt current (Fin 0) then ok_io (TickSkipped ''no-settled-round-yet'' None)
     else then_io (loadState cx ops) (\<lambda>state.
     then_io (lift_io (forcedRound cx)) (\<lambda>forced.
     let initial = initialRound cx forced state; upper = to_num (coalesce forced (Num current)) in
     assert_io (safe_nonneg (Num initial)) ''BUYBACK_START_ROUND must be a non-negative integer''
     (if num_lt upper initial then ok_io (TickSkipped ''no-indexed-buyback-backlog'' None)
      else then_io (indexedBuybackBacklog cx ops initial upper) (\<lambda>rows.
        then_io (lift_io (selectIndexedBuybackRound rows (Num initial) (Num upper))) (\<lambda>row.
        if \<not> truthy row then ok_io (TickSkipped ''no-indexed-buyback-backlog'' None)
        else serve_indexed cx ops dryRun cfg gate route forced state row))))))"

definition keeperTick :: "buyback_context \<Rightarrow> 'w buyback_world \<Rightarrow> bool \<Rightarrow> ('w, buyback_event, tick_result) io" where
  "keeperTick cx ops dryRun =
     then_io (lift_io (check_live cx dryRun)) (\<lambda>_.
     then_io (read_io (fetchConfig ops)) (\<lambda>cfg.
     assert_io (config_version cfg = 6) ''Buyback keeper requires protocol fee schedule v6''
     (then_io (read_io (genesisHash ops)) (\<lambda>genesis.
      then_io (lift_io (requireMatchingSolanaNetwork (Str genesis) (Str (randomnessProgram cfg))
        (if env cx ''MYNE_SERVER_RANDOMNESS_ACK'' = Str (programText cx) then Str (programText cx) else Null))) (\<lambda>network.
      if network = ''devnet'' then ok_io (TickSkipped ''devnet-liquidity-pool-not-required'' None)
      else then_io (if dryRun then ok_io True else acquireBuybackLease cx ops) (\<lambda>held.
      if \<not> held then ok_io (TickSkipped ''buyback-lease-held-by-another-instance'' None)
      else then_io (read_io (fetchGate ops)) (\<lambda>gate.
      assert_io (gate_verified gate) ''Liquidity gate is not verified''
      (then_io (lift_io (meteoraRouteForProgram (Str (poolProgram gate)))) (\<lambda>route.
       then_io (read_io (accountInfo ops (gate_pool gate))) (\<lambda>pool.
       then_io (lift_io (check_pool gate pool)) (\<lambda>_.
       assert_io (Str (mint cfg) = env_or cx ''MYNE_MINT_ADDRESS'' (mint cfg)) ''MYNE mint mismatch''
       (assert_io (buybackWallet cfg = keeperKey cx) ''Keeper must control config.buybackWallet''
       (select_round cx ops dryRun cfg gate route)))))))))))))"

end
