(* ===== verification/Buyback_Journal.thy ===== *)
theory Buyback_Journal
  imports Buyback_Keeper
begin

text \<open>
  The journal of \<open>Protocol/scripts/buyback-keeper.mjs\<close> and what a trace of the keeper says about it: the laws of
  reading and writing a round's journal in the state document, the state that is on disk after a trace, the accounting
  of a journal against the allocation, the events a trace allows, and the stage the keeper is in between its steps.
  The last sections hold the steps that touch neither journal nor chain, and the arithmetic of the journal.
\<close>

section \<open>Journals in the state\<close>

lemma lookup_put_field: "map_of (put_field k v fs) k' = (if k' = k then Some v else map_of fs k')"
  by (induction k v fs rule: put_field.induct) auto

lemma opt_member_set_member [simp]:
  "opt_member (set_member (Obj fs) k v) k' = (if k' = k then v else opt_member (Obj fs) k')"
  by (simp add: lookup_put_field)

text \<open>A state as it is loaded and saved: an object whose \<open>rounds\<close> can hold journals.\<close>

definition wf_state :: "jsval \<Rightarrow> bool" where
  "wf_state s \<longleftrightarrow> (\<exists>fs. s = Obj fs) \<and> is_container (opt_member s ''rounds'')"

lemma get_put_key: "is_container c \<Longrightarrow> canonical_numeric k \<Longrightarrow> get_key (put_key c k v) k = v"
  by (auto simp: is_container_def get_key_def put_key_def nth_append lookup_put_field split: jsval.splits)

lemma is_container_put: "is_container c \<Longrightarrow> is_container (put_key c k v)"
  by (auto simp: is_container_def put_key_def split: jsval.splits)

lemma wf_state_put: "wf_state s \<Longrightarrow> wf_state (put_journal s k j)"
  by (auto simp: wf_state_def put_journal_def is_container_put lookup_put_field)

lemma wf_state_set: "wf_state s \<Longrightarrow> k \<noteq> ''rounds'' \<Longrightarrow> wf_state (set_member s k v)"
  by (auto simp: wf_state_def lookup_put_field)

lemma roundJournal_set: "wf_state s \<Longrightarrow> k \<noteq> ''rounds'' \<Longrightarrow> roundJournal (set_member s k v) key = roundJournal s key"
  by (auto simp: wf_state_def roundJournal_def lookup_put_field)

lemma wf_empty_state: "wf_state empty_state"
  by (simp add: wf_state_def empty_state_def is_container_def)

lemma map_of_filter_other: "k \<noteq> k' \<Longrightarrow> map_of (filter (\<lambda>(k, v). k \<noteq> k') fs) k = map_of fs k"
  by (induction fs) auto

lemma wf_state_of_file: "wf_state (state_of_file v)"
  by (cases v) (simp_all add: state_of_file_def wf_empty_state, simp add: wf_state_def map_of_filter_other)

lemma wf_state_load: "wp (loadState cx ops) (\<lambda>d s. wf_state d) (\<lambda>_ _. True) (w, t)"
  by (auto simp: loadState_def wp_simps wf_empty_state wf_state_of_file res_simps split: prod.split sum.split)

text \<open>Journals that hold the same: what is pending, the executions, and the number of lamports processed.\<close>

definition same_journal :: "journal \<Rightarrow> journal \<Rightarrow> bool" where
  "same_journal i j \<longleftrightarrow> pendingSwap i = pendingSwap j \<and> executions i = executions j
     \<and> bigint_of_string (processedLamports i) = bigint_of_string (processedLamports j)"

lemma same_journal_refl [simp]: "same_journal j j"
  by (simp add: same_journal_def)

lemma same_journal_trans: "same_journal i j \<Longrightarrow> same_journal j k \<Longrightarrow> same_journal i k"
  by (simp add: same_journal_def)

lemma same_journal_sym: "same_journal i j \<Longrightarrow> same_journal j i"
  by (simp add: same_journal_def)

lemma bigint_empty: "bigint_of_string ''0'' = bigint_of_string []"
  by code_simp

definition normal_journal :: "journal \<Rightarrow> bool" where
  "normal_journal j \<longleftrightarrow> truthy (pendingSwap j) \<or> pendingSwap j = Null"

lemma roundJournal_put:
  assumes "wf_state s" "canonical_numeric key" "normal_journal j"
  shows "same_journal (roundJournal (put_journal s key j) key) j"
proof -
  obtain fs where s: "s = Obj fs" "is_container (opt_member s ''rounds'')" using assms(1) by (auto simp: wf_state_def)
  have "get_key (opt_member (put_journal s key j) ''rounds'') key = journal_value j"
    using s assms(2) by (simp add: put_journal_def get_put_key lookup_put_field)
  then show ?thesis
    using assms(3) by (auto simp: roundJournal_def journal_value_def same_journal_def js_or_def normal_journal_def bigint_empty)
qed

lemma normal_roundJournal: "normal_journal (roundJournal s key)"
  by (auto simp: roundJournal_def normal_journal_def js_or_def Let_def split: jsval.split)

section \<open>What a trace allows\<close>

text \<open>
  The state on disk after a trace (unknown after a failed write), the state that was loaded, and the round that was
  read.
\<close>

definition durable :: "buyback_event list \<Rightarrow> jsval option" where
  "durable t = fold (\<lambda>e d. case e of StateLoaded s \<Rightarrow> Some s | StateSaved s (Inr _) \<Rightarrow> Some s
     | StateSaved s (Inl _) \<Rightarrow> None | _ \<Rightarrow> d) t None"

definition loaded :: "buyback_event list \<Rightarrow> jsval option" where
  "loaded t = fold (\<lambda>e d. case e of StateLoaded s \<Rightarrow> Some s | _ \<Rightarrow> d) t None"

definition round_read :: "buyback_event list \<Rightarrow> (int \<times> buyback_round) option" where
  "round_read t = fold (\<lambda>e d. case e of RoundRead n (Inr st) \<Rightarrow> Some (n, st) | _ \<Rightarrow> d) t None"

text \<open>
  A journal whose processed lamports are exactly what its executions spent, and which has not spent or set out to
  spend more than the allocation. Amounts are decimal texts, as the keeper writes them.
\<close>

definition spends :: "jsval \<Rightarrow> int \<Rightarrow> bool" where
  "spends entry n \<longleftrightarrow> (\<exists>s. opt_member entry ''spendLamports'' = Str s \<and> bigint_of_string s = Inr n \<and> 0 \<le> n)"

definition accounted :: "int \<Rightarrow> journal \<Rightarrow> bool" where
  "accounted allocation j \<longleftrightarrow> (\<exists>p n. bigint_of_string (processedLamports j) = Inr p \<and> evidenced (executions j) = Inr p
     \<and> (\<forall>e \<in> set (executions j). \<exists>m. spends e m)
     \<and> (if truthy (pendingSwap j) then spends (pendingSwap j) n else n = 0) \<and> p + n \<le> allocation)"

abbreviation journal_on :: "jsval \<Rightarrow> int \<Rightarrow> journal" where
  "journal_on d n \<equiv> roundJournal d (show_int n)"

definition journaled :: "journal \<Rightarrow> jsval \<Rightarrow> bool" where
  "journaled j raw \<longleftrightarrow> truthy (pendingSwap j)
     \<and> (raw = opt_member (pendingSwap j) ''swapRaw'' \<or> raw = opt_member (pendingSwap j) ''burnRaw'')"

definition paid_off :: "buyback_round \<Rightarrow> journal \<Rightarrow> bool" where
  "paid_off st j \<longleftrightarrow> (\<exists>p. bigint_of_string (processedLamports j) = Inr p \<and> roundAllocation st \<le> p)"

definition buyback_allowed :: "buyback_event list \<Rightarrow> buyback_event \<Rightarrow> bool" where
  "buyback_allowed t e = (case e of
     RawSent raw r \<Rightarrow> (\<exists>d n st. durable t = Some d \<and> round_read t = Some (n, st) \<and> journaled (journal_on d n) raw)
       \<or> (\<exists>s. raw = Str s \<and> CompletionSigned s \<in> set t)
   | CompletionSigned s \<Rightarrow> (\<exists>d n st. durable t = Some d \<and> round_read t = Some (n, st) \<and> paid_off st (journal_on d n)
       \<and> (\<forall>d0. loaded t = Some d0 \<and> accounted (roundAllocation st) (journal_on d0 n)
         \<longrightarrow> accounted (roundAllocation st) (journal_on d n)))
   | StateSaved d' r \<Rightarrow> (\<forall>d n st. loaded t = Some d \<and> round_read t = Some (n, st)
       \<and> accounted (roundAllocation st) (journal_on d n) \<longrightarrow> accounted (roundAllocation st) (journal_on d' n))
   | _ \<Rightarrow> True)"

lemma trace_simps [simp]:
  "durable (t @ [StateLoaded d]) = Some d" "durable (t @ [StateSaved d (Inr u)]) = Some d"
  "durable (t @ [RawSent a b]) = durable t" "durable (t @ [CompletionSigned s]) = durable t" "durable (t @ [RoundRead n r]) = durable t"
  "loaded (t @ [StateLoaded d]) = Some d" "loaded (t @ [StateSaved d q]) = loaded t"
  "loaded (t @ [RawSent a b]) = loaded t" "loaded (t @ [CompletionSigned s]) = loaded t" "loaded (t @ [RoundRead n r]) = loaded t"
  "round_read (t @ [StateLoaded d]) = round_read t" "round_read (t @ [StateSaved d q]) = round_read t"
  "round_read (t @ [RawSent a b]) = round_read t" "round_read (t @ [CompletionSigned s]) = round_read t"
  "round_read (t @ [RoundRead n (Inr st)]) = Some (n, st)" "round_read (t @ [RoundRead n (Inl e)]) = round_read t"
  by (simp_all add: durable_def loaded_def round_read_def)

lemma allowed_simps [simp]:
  "buyback_allowed t (Requested u b)" "buyback_allowed t (StateLoaded d)" "buyback_allowed t (RoundRead n q)"
  "buyback_allowed t (TokenAccountCreated x)"
  by (simp_all add: buyback_allowed_def)

text \<open>Events that change none of this.\<close>

definition harmless :: "buyback_event \<Rightarrow> bool" where
  "harmless e = (case e of Requested u b \<Rightarrow> True | TokenAccountCreated r \<Rightarrow> True | _ \<Rightarrow> False)"

lemma harmless_simps [simp]: "harmless (Requested u b)" "harmless (TokenAccountCreated r)"
  by (simp_all add: harmless_def)

lemma harmless_trace:
  "list_all harmless new \<Longrightarrow> durable (t @ new) = durable t \<and> loaded (t @ new) = loaded t \<and> round_read (t @ new) = round_read t"
  by (induction new rule: rev_induct) (auto simp: durable_def loaded_def round_read_def harmless_def split: buyback_event.splits)

lemma harmless_justified:
  "list_all harmless new \<Longrightarrow> justified buyback_allowed t \<Longrightarrow> justified buyback_allowed (t @ new)"
proof (induction new rule: rev_induct)
  case (snoc e new)
  then have "buyback_allowed (t @ new) e" by (cases e) (simp_all add: harmless_def)
  then show ?case using snoc by (simp flip: append_assoc del: justified_append)
qed simp

section \<open>Stages\<close>

abbreviation sound :: "'w \<times> buyback_event list \<Rightarrow> bool" where
  "sound s \<equiv> justified buyback_allowed (snd s)"

text \<open>
  Between the steps of a round: the journal in memory is the one on disk and the one in the state, and it is accounted
  for if the loaded one was.
\<close>

definition stage :: "int \<Rightarrow> buyback_round \<Rightarrow> jsval \<Rightarrow> jsval \<times> journal \<Rightarrow> 'w \<times> buyback_event list \<Rightarrow> bool" where
  "stage n st d0 = (\<lambda>(state, j) s. sound s \<and> 0 \<le> n \<and> round_read (snd s) = Some (n, st) \<and> loaded (snd s) = Some d0
     \<and> (\<exists>d. durable (snd s) = Some d \<and> same_journal (journal_on d n) j)
     \<and> wf_state state \<and> same_journal (journal_on state n) j \<and> normal_journal j
     \<and> (accounted (roundAllocation st) (journal_on d0 n) \<longrightarrow> accounted (roundAllocation st) j))"

lemma stage_sound: "stage n st d0 x s \<Longrightarrow> sound s"
  by (cases x) (simp add: stage_def)

lemma accounted_same: "same_journal i j \<Longrightarrow> accounted a i \<longleftrightarrow> accounted a j"
  by (simp add: same_journal_def accounted_def)

lemma journaled_same: "same_journal i j \<Longrightarrow> journaled i raw \<longleftrightarrow> journaled j raw"
  by (simp add: same_journal_def journaled_def)

lemma paid_off_same: "same_journal i j \<Longrightarrow> paid_off st i \<longleftrightarrow> paid_off st j"
  by (simp add: same_journal_def paid_off_def)

lemma stage_adds:
  assumes "adds harmless m" "stage n st d0 x s"
  shows "wp m (\<lambda>_. stage n st d0 x) (\<lambda>_. stage n st d0 x) s"
proof -
  obtain w t where s: "s = (w, t)" by (cases s)
  have keep: "stage n st d0 x u" if "\<exists>new. snd u = t @ new \<and> list_all harmless new" for u
    using that assms(2) harmless_trace harmless_justified
    by (cases x) (auto simp: stage_def s simp del: justified_append)
  show ?thesis unfolding s by (rule wp_mono[OF adds_wp[OF assms(1)]]) (erule keep)+
qed

lemma canonical_show_int: "0 \<le> n \<Longrightarrow> canonical_numeric (show_int n)"
  by (metis canonical_show_nat nonneg_int_cases show_int_nat)

lemma save_stage:
  assumes "stage n st d0 (state, j) s" "statePath cx \<noteq> []"
    and "wf_state state'" "same_journal (journal_on state' n) j'" "normal_journal j'"
    and acc: "accounted (roundAllocation st) j \<Longrightarrow> accounted (roundAllocation st) j'"
  shows "wp (saveState cx ops state') (\<lambda>_. stage n st d0 (state', j')) (\<lambda>_. sound) s"
proof -
  obtain w t where s: "s = (w, t)" by (cases s)
  have "buyback_allowed t (StateSaved state' r)" for r
    using assms(1) acc accounted_same[OF assms(4)] by (auto simp: stage_def s buyback_allowed_def)
  then show ?thesis
    using assms unfolding s
    by (auto simp: saveState_def wp_simps stage_def simp del: justified_append split: prod.split sum.split)
qed

lemma save_put:
  assumes "stage n st d0 (state, j) s" "statePath cx \<noteq> []" "normal_journal j'"
    and "accounted (roundAllocation st) j \<Longrightarrow> accounted (roundAllocation st) j'"
  shows "wp (saveState cx ops (put_journal state (show_int n) j')) (\<lambda>_. stage n st d0 (put_journal state (show_int n) j', j'))
    (\<lambda>_. sound) s"
  using assms(1) by (intro save_stage[OF assms(1,2) _ _ assms(3,4)])
    (auto simp: stage_def intro: wf_state_put roundJournal_put canonical_show_int assms(3))

lemma send_stage:
  assumes "stage n st d0 (state, j) s" "journaled j raw \<or> (\<exists>u. raw = Str u \<and> CompletionSigned u \<in> set (snd s))"
  shows "wp (sendSavedTransaction cx ops raw slot height) (\<lambda>_. stage n st d0 (state, j)) (\<lambda>_. stage n st d0 (state, j)) s"
proof -
  obtain w t where s: "s = (w, t)" by (cases s)
  have "buyback_allowed t (RawSent raw r)" for r
    using assms journaled_same by (auto simp: stage_def s buyback_allowed_def)
  then have sent: "stage n st d0 (state, j) (v, t @ [RawSent raw r])" for v r
    using assms(1) by (auto simp: stage_def s simp del: justified_append)
  have here: "stage n st d0 (state, j) (v, t)" for v
    using assms(1) by (simp add: stage_def s)
  show ?thesis
    unfolding s sendSavedTransaction_def
    by (simp add: wp_simps sent here split: prod.split sum.split)
qed

section \<open>Steps that leave the journal alone\<close>

named_theorems quiet_steps

definition requests :: "buyback_event \<Rightarrow> bool" where
  "requests e = (case e of Requested u b \<Rightarrow> True | _ \<Rightarrow> False)"

lemma requests_simps [simp]: "requests (Requested u b)"
  by (simp add: requests_def)

lemma harmless_requests: "adds requests m \<Longrightarrow> adds harmless m"
  by (erule adds_mono) (simp add: requests_def harmless_def split: buyback_event.splits)

lemma quiet_requests [quiet_steps]: "adds requests (post ops url body)" "adds requests (get ops url)"
  unfolding post_def get_def by (auto intro!: adds_then adds_log)

lemma quiet_pause [quiet_steps]: "adds requests (pause ops n)"
  by (simp add: pause_def)

lemma quiet_pinned [quiet_steps]: "adds requests (pinned_context ops)"
  unfolding pinned_context_def by auto

lemma quiet_measured [quiet_steps]: "adds requests (measured_limit cx ops pinned label ix)"
  unfolding measured_limit_def by (intro adds_then adds_assert adds_read adds_lift adds_ok)

lemma quiet_upsert [quiet_steps]: "adds requests (upsertBuybackEvidence cx ops key es)"
  unfolding upsertBuybackEvidence_def by (intro adds_if adds_then adds_assert adds_lift adds_ok quiet_steps)

lemma quiet_await: "adds requests (await_balance ops ata P left amount)"
  by (induction left arbitrary: amount) (auto intro!: adds_then adds_if quiet_pause)

lemma quiet_wait [quiet_steps]: "adds requests (waitForMyneBalance ops ata P)"
  unfolding waitForMyneBalance_def by (intro adds_then adds_read quiet_await)

lemma quiet_bought [quiet_steps]: "adds requests (confirmedSwapOutputBaseUnits cx ops sig m)"
  unfolding confirmedSwapOutputBaseUnits_def Let_def by (intro adds_then adds_assert adds_read adds_lift)

lemma quiet_burn_amount [quiet_steps]: "adds requests (buildBurnAmountTransaction cx ops m ata delta)"
  unfolding buildBurnAmountTransaction_def Let_def
  by (intro adds_then adds_assert adds_read adds_lift quiet_steps) (simp split: prod.split)

lemma quiet_burn [quiet_steps]: "adds requests (buildBurnTransaction cx ops m ata before)"
  unfolding buildBurnTransaction_def Let_def by (intro adds_then adds_assert adds_read quiet_steps)

lemma quiet_expired [quiet_steps]: "adds requests (swap_expired cx ops p b st)"
  unfolding swap_expired_def by (intro adds_then adds_if adds_read adds_lift adds_ok)

lemma quiet_build [quiet_steps]: "adds requests (buildSwapTransaction cx ops q)"
  unfolding buildSwapTransaction_def Let_def by (intro adds_then adds_assert adds_lift quiet_steps)

lemma quiet_tables [quiet_steps]: "adds requests (fetch_tables ops m c)"
  unfolding fetch_tables_def by (intro adds_map adds_then adds_assert adds_read adds_ok)

lemma quiet_inspect [quiet_steps]: "adds requests (inspectSwapTransaction cx ops tx a ata b m p)"
  unfolding inspectSwapTransaction_def by (intro adds_then adds_read adds_lift quiet_steps) (simp split: prod.split)

lemma quiet_quote [quiet_steps]: "adds requests (fetchQuote cx ops a m p sl route)"
  unfolding fetchQuote_def Let_def by (intro adds_then adds_assert adds_lift adds_ok quiet_steps)

lemma quiet_lease [quiet_steps]: "adds requests (acquireBuybackLease cx ops)"
  unfolding acquireBuybackLease_def by (intro adds_then adds_assert adds_lift adds_ok quiet_steps)

lemma quiet_backlog [quiet_steps]: "adds requests (indexedBuybackBacklog cx ops a b)"
  unfolding indexedBuybackBacklog_def by (intro adds_then adds_assert quiet_steps) (auto split: jsval.split)

lemma harmless_ata: "adds harmless (ensureMyneAta cx ops m)"
  unfolding ensureMyneAta_def Let_def by (intro adds_then adds_if adds_read adds_ok adds_call) simp

section \<open>The arithmetic of the journal\<close>

lemma set_member_other [simp]: "k \<noteq> k' \<Longrightarrow> opt_member (set_member v k x) k' = opt_member v k'"
  by (cases v) (auto simp: lookup_put_field)

lemma truthy_set_member [simp]: "truthy (set_member v k x) = truthy v"
  by (cases v) auto

lemma truthy_with_burn [simp]: "truthy (with_burn p b) = truthy p"
  by (simp add: with_burn_def)

lemma with_burn_spend [simp]: "opt_member (with_burn p b) ''spendLamports'' = opt_member p ''spendLamports''"
  by (simp add: with_burn_def)

lemma evidenced_snoc: "evidenced (es @ [e]) = Inr p \<longleftrightarrow> (\<exists>q m. evidenced es = Inr q
    \<and> then_res (member e ''spendLamports'') to_bigint = Inr m \<and> p = q + m)"
  by (auto simp: evidenced_def fold_res_append res_simps)

lemma spends_member: "spends e m \<Longrightarrow> then_res (member e ''spendLamports'') to_bigint = Inr m"
  by (cases e) (auto simp: spends_def member_def nullish_def)

lemma spends_fun: "spends e m \<Longrightarrow> spends e n \<Longrightarrow> m = n"
  by (auto simp: spends_def)

lemma accounted_pending:
  assumes "accounted a j" "truthy p" "opt_member p ''spendLamports'' = opt_member (pendingSwap j) ''spendLamports''" "truthy (pendingSwap j)"
  shows "accounted a (j\<lparr>pendingSwap := p\<rparr>)"
  using assms by (auto simp: accounted_def spends_def)

lemma accounted_forget: "accounted a j \<Longrightarrow> accounted a (j\<lparr>pendingSwap := Null\<rparr>)"
  by (force simp: accounted_def spends_def split: if_splits)

lemma accounted_complete:
  assumes "accounted a j" "truthy (pendingSwap j)" "complete_execution j = Inr j'"
  shows "accounted a j'"
proof -
  obtain p n where p: "bigint_of_string (processedLamports j) = Inr p" "evidenced (executions j) = Inr p"
      "\<forall>e \<in> set (executions j). \<exists>m. spends e m" "spends (pendingSwap j) n" "p + n \<le> a"
    using assms(1,2) by (auto simp: accounted_def)
  then have n: "to_bigint (opt_member (pendingSwap j) ''spendLamports'') = Inr n" by (auto simp: spends_def)
  have s: "spends (execution_of (pendingSwap j)) n" using p(4) by (auto simp: spends_def execution_of_def)
  have j': "j' = \<lparr>processedLamports = show_int (p + n), pendingSwap = Null, executions = executions j @ [execution_of (pendingSwap j)]\<rparr>"
    using assms(3) p(1) n by (auto simp: complete_execution_def Let_def res_simps)
  have "evidenced (executions j @ [execution_of (pendingSwap j)]) = Inr (p + n)"
    using p(2) spends_member[OF s] by (simp add: evidenced_snoc)
  moreover have "\<forall>e \<in> set (executions j @ [execution_of (pendingSwap j)]). \<exists>m. spends e m" using p(3) s by auto
  ultimately show ?thesis using p(5) by (simp add: accounted_def j')
qed

lemma accounted_repair:
  assumes "accounted a j" "executions j = kept @ [entry]" "\<not> truthy (pendingSwap j)" "evidenced kept = Inr spent"
  shows "accounted a \<lparr>processedLamports = show_int spent, pendingSwap = repaired_pending entry b burn, executions = kept\<rparr>"
proof -
  obtain p where p: "evidenced (kept @ [entry]) = Inr p" "\<forall>e \<in> set (kept @ [entry]). \<exists>m. spends e m" "p \<le> a"
    using assms by (auto simp: accounted_def)
  then obtain m where m: "spends entry m" by auto
  then have "p = spent + m" using p(1) assms(4) spends_member[OF m] by (auto simp: evidenced_snoc)
  moreover have "spends (repaired_pending entry b burn) m" using m by (auto simp: spends_def repaired_pending_def)
  moreover have "truthy (repaired_pending entry b burn)" by (simp add: repaired_pending_def)
  ultimately show ?thesis using p assms(4) unfolding accounted_def by auto
qed

end
