(* ===== verification/Buyback_Safety.thy ===== *)
theory Buyback_Safety
  imports Buyback_Journal
begin

text \<open>
  The safety of \<open>Protocol/scripts/buyback-keeper.mjs\<close>: every step of a round keeps the stage of
  \<open>Buyback_Journal\<close>, so that every trace of a live tick is justified; the guarantees that follow (write-ahead
  journaling, a spend within the allocation, completion only when the allocation is spent); that a dry run sends
  nothing; and two runs that show what the guarantees leave out.
\<close>

section \<open>The steps of a round\<close>

lemma wp_assert_rule:
  "(c \<Longrightarrow> wp k Q E s) \<Longrightarrow> (\<not> c \<Longrightarrow> E (AssertionError msg) s) \<Longrightarrow> wp (assert_io c msg k) Q E s"
  by (simp add: wp_assert)

lemma wp_lift_rule: "(\<And>x. r = Inr x \<Longrightarrow> Q x s) \<Longrightarrow> (\<And>e. r = Inl e \<Longrightarrow> E e s) \<Longrightarrow> wp (lift_io r) Q E s"
  by (simp add: wp_lift split: sum.split)

lemma wp_seq_lift: "(\<And>x. r = Inr x \<Longrightarrow> wp (f x) Q E s) \<Longrightarrow> (\<And>e. E e s) \<Longrightarrow> wp (then_io (lift_io r) f) Q E s"
  by (simp add: wp_then wp_lift split: sum.split)

lemma keeps_stage: "adds harmless m \<Longrightarrow> stage n st d0 x s \<Longrightarrow> wp m (\<lambda>_. stage n st d0 x) (\<lambda>_. sound) s"
  by (rule wp_mono[OF stage_adds]) (auto dest: stage_sound)

lemma quiet_seq:
  assumes "stage n st d0 x s" "adds requests m" "\<And>y s'. stage n st d0 x s' \<Longrightarrow> wp (f y) Q (\<lambda>_. sound) s'"
  shows "wp (then_io m f) Q (\<lambda>_. sound) s"
  by (rule wp_seq[OF keeps_stage[OF harmless_requests[OF assms(2)] assms(1)] assms(3)])

lemma stage_accounted: "stage n st d0 (state, j) s \<Longrightarrow> accounted (roundAllocation st) (journal_on d0 n) \<Longrightarrow> accounted (roundAllocation st) j"
  by (simp add: stage_def)

lemma incomplete_indexes_bound: "incomplete_indexes i es = Inr ks \<Longrightarrow> k \<in> set ks \<Longrightarrow> i \<le> k \<and> k < i + length es"
proof (induction es arbitrary: i ks)
  case (Cons e es)
  then show ?case by (fastforce simp: res_simps split: if_splits)
qed simp

lemma save_return:
  assumes "stage n st d0 (state, j) s" "statePath cx \<noteq> []" "normal_journal j'"
    and "accounted (roundAllocation st) j \<Longrightarrow> accounted (roundAllocation st) j'"
    and "\<And>u s'. stage n st d0 (put_journal state (show_int n) j', j') s' \<Longrightarrow> wp (f u) Q (\<lambda>_. sound) s'"
  shows "wp (then_io (saveState cx ops (put_journal state (show_int n) j')) f) Q (\<lambda>_. sound) s"
  by (rule wp_seq[OF save_put[OF assms(1-4)] assms(5)])

lemma repair_entry_stage:
  assumes st: "stage n st d0 (state, j) s" and live: "statePath cx \<noteq> []"
    and split: "executions j = kept @ [entry]" "\<not> truthy (pendingSwap j)"
  shows "wp (repair_entry cx ops (show_int n) m ata entry kept state) (stage n st d0) (\<lambda>_. sound) s"
  unfolding repair_entry_def Let_def
  by (rule quiet_seq[OF st quiet_bought], rule quiet_seq[OF _ quiet_wait], assumption, rule wp_assert_rule,
      rule quiet_seq[OF _ quiet_burn_amount], assumption, rule wp_seq_lift, erule save_return[OF _ live])
    (auto simp: wp_ok normal_journal_def repaired_pending_def intro: accounted_repair[OF _ split, unfolded repaired_pending_def]
      dest: stage_sound)

lemma repair_stage:
  assumes st: "stage n st d0 (state, j) s" and live: "statePath cx \<noteq> []"
  shows "wp (repairIncompleteExecution cx ops (show_int n) m ata (state, j)) (stage n st d0) (\<lambda>_. sound) s"
proof -
  have split: "executions j = take k (executions j) @ [executions j ! k]" if "Suc k = length (executions j)" for k
    using that by (metis lessI take_Suc_conv_app_nth take_all_iff order_refl)
  show ?thesis
    unfolding repairIncompleteExecution_def prod.case
    using st repair_entry_stage[OF st live split]
    by (intro wp_seq_lift) (auto simp: wp_ok wp_assert stage_sound split: list.split)
qed


lemma swap_failed_stage:
  assumes st: "stage n st d0 (state, j) s" and live: "statePath cx \<noteq> []"
  shows "wp (swap_failed cx ops (show_int n) ata before (state, j) error)
    (\<lambda>r s. case r of None \<Rightarrow> stage n st d0 (state, j) s | Some (_, x) \<Rightarrow> stage n st d0 x s) (\<lambda>_. sound) s"
proof -
  have forget: "normal_journal (j\<lparr>pendingSwap := Null\<rparr>)" by (simp add: normal_journal_def)
  show ?thesis
    unfolding swap_failed_def prod.case Let_def
  proof (rule quiet_seq[OF st adds_read])
    fix current and s' :: "'a \<times> buyback_event list"
    assume s': "stage n st d0 (state, j) s'"
    show "wp (if before < current then ok_io None
       else then_io (read_io (signatureStatus ops (opt_member (pendingSwap j) ''swapSignature''))) (\<lambda>sigStatus.
         then_io (swap_expired cx ops (pendingSwap j) (before < current) sigStatus) (\<lambda>expired.
         if truthy (opt_member sigStatus ''err'') \<or> expired \<or>
            env cx ''CONFIRM_ABANDONED_BUYBACK'' = Str (show_int n @ '':'' @ to_str (opt_member (pendingSwap j) ''swapSignature''))
         then then_io (saveState cx ops (put_journal state (show_int n) (j\<lparr>pendingSwap := Null\<rparr>))) (\<lambda>_.
           ok_io (Some (Skipped (if truthy (opt_member sigStatus ''err'') then ''pending-swap-finalized-error-retry-next-tick''
             else if expired then ''pending-swap-expired-retry-next-tick''
             else ''pending-swap-explicitly-abandoned-retry-next-tick'') Undef (Some (error_string error)),
             put_journal state (show_int n) (j\<lparr>pendingSwap := Null\<rparr>), j\<lparr>pendingSwap := Null\<rparr>)))
         else ok_io (Some (Skipped ''pending-swap-status-ambiguous-manual-reconciliation-required''
           (opt_member (pendingSwap j) ''swapSignature'') (Some (error_string error)), state, j)))))
       (\<lambda>r s. case r of None \<Rightarrow> stage n st d0 (state, j) s | Some (_, x) \<Rightarrow> stage n st d0 x s) (\<lambda>_. sound) s'"
    proof (cases "before < current")
      case True
      then show ?thesis using s' by (simp add: wp_ok)
    next
      case False
      show ?thesis
        unfolding if_not_P[OF False]
        by (rule quiet_seq[OF s' adds_read], rule quiet_seq[OF _ quiet_expired], assumption, unfold wp_if if_distribR)
          (auto simp: wp_ok intro!: save_return[OF _ live forget] intro: accounted_forget)
    qed
  qed
qed

lemma journaled_swap: "truthy (pendingSwap j) \<Longrightarrow> journaled j (opt_member (pendingSwap j) ''swapRaw'')"
  by (simp add: journaled_def)

lemma journaled_burn: "truthy (pendingSwap j) \<Longrightarrow> journaled j (opt_member (pendingSwap j) ''burnRaw'')"
  by (simp add: journaled_def)

text \<open>A saved transaction is sent and its signature compared; the stage survives either way.\<close>

lemma submit_stage:
  fixes s :: "'w \<times> buyback_event list"
  assumes st: "stage n st d0 (state, j) s" and "journaled j raw"
  shows "wp (then_io (sendSavedTransaction cx ops raw slot height) (\<lambda>submitted. assert_io (c submitted) msg (ok_io x)))
    (\<lambda>y s. y = x \<and> stage n st d0 (state, j) s) (\<lambda>_. stage n st d0 (state, j)) s"
proof (rule wp_seq[OF send_stage[OF st]])
  fix y and s' :: "'w \<times> buyback_event list"
  assume "stage n st d0 (state, j) s'"
  then show "wp (assert_io (c y) msg (ok_io x)) (\<lambda>y s. y = x \<and> stage n st d0 (state, j) s) (\<lambda>_. stage n st d0 (state, j)) s'"
    by (simp add: wp_assert wp_ok)
qed (use assms(2) in simp)

lemma submit_swap_stage:
  assumes st: "stage n st d0 (state, j) s" and live: "statePath cx \<noteq> []" and p: "truthy (pendingSwap j)"
  shows "wp (submit_swap cx ops (show_int n) ata before (state, j))
    (\<lambda>r s. case r of None \<Rightarrow> stage n st d0 (state, j) s | Some (_, x) \<Rightarrow> stage n st d0 x s) (\<lambda>_. sound) s"
  unfolding submit_swap_def prod.case Let_def
proof (rule wp_catch_rule[OF _ swap_failed_stage[OF _ live]])
  show "wp (then_io (sendSavedTransaction cx ops (opt_member (pendingSwap j) ''swapRaw'')
        (opt_member (pendingSwap j) ''swapMinContextSlot'') (opt_member (pendingSwap j) ''lastValidBlockHeight'')) (\<lambda>submitted.
      assert_io (Str submitted = opt_member (pendingSwap j) ''swapSignature'') ''Submitted swap signature changed'' (ok_io None)))
    (\<lambda>r s. case r of None \<Rightarrow> stage n st d0 (state, j) s | Some (_, x) \<Rightarrow> stage n st d0 x s)
    (\<lambda>_. stage n st d0 (state, j)) s"
    by (rule wp_mono[OF submit_stage[OF st journaled_swap[OF p]]]) simp_all
qed


definition stage_pending :: "int \<Rightarrow> buyback_round \<Rightarrow> jsval \<Rightarrow> jsval \<times> journal \<Rightarrow> 'w \<times> buyback_event list \<Rightarrow> bool" where
  "stage_pending n st d0 x s \<longleftrightarrow> stage n st d0 x s \<and> truthy (pendingSwap (snd x))"

lemma phase_journal: "truthy (pendingSwap j) \<Longrightarrow> normal_journal (j\<lparr>pendingSwap := set_member (pendingSwap j) k v\<rparr>)"
  by (simp add: normal_journal_def)

abbreviation outcome_stage :: "int \<Rightarrow> buyback_round \<Rightarrow> jsval \<Rightarrow> jsval \<times> journal \<Rightarrow> (recovery \<times> jsval \<times> journal) option
    \<Rightarrow> 'w \<times> buyback_event list \<Rightarrow> bool" where
  "outcome_stage n st d0 x r s \<equiv> (case r of None \<Rightarrow> stage n st d0 x s | Some (_, x') \<Rightarrow> stage n st d0 x' s)"

abbreviation phase_stage :: "int \<Rightarrow> buyback_round \<Rightarrow> jsval \<Rightarrow> (recovery \<times> jsval \<times> journal) + (jsval \<times> journal)
    \<Rightarrow> 'w \<times> buyback_event list \<Rightarrow> bool" where
  "phase_stage n st d0 r s \<equiv> (case r of Inl (_, x) \<Rightarrow> stage n st d0 x s | Inr x \<Rightarrow> stage_pending n st d0 x s)"

lemma mark_swapped_stage:
  assumes st: "stage n st d0 (state, j) s" and live: "statePath cx \<noteq> []" and p: "truthy (pendingSwap j)"
  shows "wp (mark_swapped cx ops (show_int n) (state, j)) (stage_pending n st d0) (\<lambda>_. sound) s"
  unfolding mark_swapped_def prod.case Let_def
  by (rule save_return[OF st live phase_journal[OF p]])
    (use p in \<open>auto simp: wp_ok stage_pending_def intro: accounted_pending\<close>)

lemma swap_phase_stage:
  fixes s :: "'w \<times> buyback_event list"
  assumes st: "stage n st d0 (state, j) s" and live: "statePath cx \<noteq> []" and p: "truthy (pendingSwap j)"
  shows "wp (swap_phase cx ops (show_int n) ata before current (state, j)) (phase_stage n st d0) (\<lambda>_. sound) s"
proof (cases "opt_member (pendingSwap j) ''phase'' = Str ''swap-ready''")
  case False
  then show ?thesis using st p by (simp add: swap_phase_def wp_ok stage_pending_def)
next
  case True
  then have eq: "swap_phase cx ops (show_int n) ata before current (state, j) =
      then_io (if current \<le> before then submit_swap cx ops (show_int n) ata before (state, j) else ok_io None) (\<lambda>outcome.
        case outcome of Some result \<Rightarrow> ok_io (Inl result)
        | None \<Rightarrow> then_io (mark_swapped cx ops (show_int n) (state, j)) (\<lambda>x'. ok_io (Inr x')))"
    by (simp add: swap_phase_def)
  have start: "wp (if current \<le> before then submit_swap cx ops (show_int n) ata before (state, j) else ok_io None)
    (outcome_stage n st d0 (state, j)) (\<lambda>_. sound) s"
    using submit_swap_stage[OF st live p] st by (simp add: wp_ok)
  show ?thesis
    unfolding eq
  proof (rule wp_seq[OF start])
    fix r and s' :: "'w \<times> buyback_event list"
    assume r: "outcome_stage n st d0 (state, j) r s'"
    have "wp (then_io (mark_swapped cx ops (show_int n) (state, j)) (\<lambda>x'. ok_io (Inr x'))) (phase_stage n st d0) (\<lambda>_. sound) s'"
      if "stage n st d0 (state, j) s'"
      by (rule wp_seq[OF mark_swapped_stage[OF that live p]]) (simp add: wp_ok)
    then show "wp (case r of Some result \<Rightarrow> ok_io (Inl result)
        | None \<Rightarrow> then_io (mark_swapped cx ops (show_int n) (state, j)) (\<lambda>x'. ok_io (Inr x'))) (phase_stage n st d0) (\<lambda>_. sound) s'"
      using r by (cases r) (auto simp: wp_ok)
  qed
qed

lemma burn_phase_stage:
  assumes st: "stage_pending n st d0 (state, j) s" and live: "statePath cx \<noteq> []"
  shows "wp (burn_phase cx ops (show_int n) m ata before (state, j)) (stage_pending n st d0) (\<lambda>_. sound) s"
proof -
  have p: "truthy (pendingSwap j)" "stage n st d0 (state, j) s" using st by (simp_all add: stage_pending_def)
  show ?thesis
  proof (cases "truthy (opt_member (pendingSwap j) ''burnRaw'')")
    case True
    then show ?thesis using st by (simp add: burn_phase_def wp_ok)
  next
    case False
    show ?thesis
      unfolding burn_phase_def prod.case Let_def if_not_P[OF False]
    proof (rule quiet_seq[OF p(2) quiet_burn], erule save_return[OF _ live])
      fix burn
      show "normal_journal (j\<lparr>pendingSwap := with_burn (pendingSwap j) burn\<rparr>)" using p(1) by (simp add: normal_journal_def)
      show "accounted (roundAllocation st) (j\<lparr>pendingSwap := with_burn (pendingSwap j) burn\<rparr>)"
        if "accounted (roundAllocation st) j" using that p(1) by (intro accounted_pending) simp_all
    qed (use p in \<open>auto simp: wp_ok stage_pending_def\<close>)
  qed
qed

lemma submit_burn_stage:
  fixes s :: "'w \<times> buyback_event list"
  assumes st: "stage_pending n st d0 (state, j) s"
  shows "wp (submit_burn cx ops ata before (pendingSwap j)) (\<lambda>_. stage_pending n st d0 (state, j)) (\<lambda>_. sound) s"
proof -
  have p: "truthy (pendingSwap j)" "stage n st d0 (state, j) s" using st by (simp_all add: stage_pending_def)
  show ?thesis
    unfolding submit_burn_def
  proof (rule wp_catch_rule)
    show "wp (then_io (sendSavedTransaction cx ops (opt_member (pendingSwap j) ''burnRaw'')
          (opt_member (pendingSwap j) ''burnMinContextSlot'') (opt_member (pendingSwap j) ''burnLastValidBlockHeight'')) (\<lambda>submitted.
        assert_io (Str submitted = opt_member (pendingSwap j) ''burnSignature'') ''Submitted burn signature changed'' (ok_io ())))
      (\<lambda>_. stage_pending n st d0 (state, j)) (\<lambda>_. stage n st d0 (state, j)) s"
      by (rule wp_mono[OF submit_stage[OF p(2) journaled_burn[OF p(1)]]]) (simp_all add: stage_pending_def p)
  next
    fix e and s' :: "'w \<times> buyback_event list"
    assume "stage n st d0 (state, j) s'"
    then show "wp (then_io (read_io (tokenAmount ops ata)) (\<lambda>recovered. if before < recovered then fail_io e else ok_io ()))
        (\<lambda>_. stage_pending n st d0 (state, j)) (\<lambda>_. sound) s'"
      by (rule quiet_seq[OF _ adds_read]) (auto simp: wp_fail wp_ok stage_pending_def p(1) stage_sound)
  qed
qed

lemma settle_burn_stage:
  assumes "stage_pending n st d0 (state, j) s" and live: "statePath cx \<noteq> []"
  shows "wp (settle_burn cx ops (show_int n) ata before (state, j)) (\<lambda>(_, x). stage n st d0 x) (\<lambda>_. sound) s"
proof -
  have p: "truthy (pendingSwap j)" "stage n st d0 (state, j) s" using assms(1) by (simp_all add: stage_pending_def)
  have normal: "normal_journal j'" if "complete_execution j = Inr j'" for j'
    using that by (auto simp: complete_execution_def Let_def res_simps normal_journal_def)
  show ?thesis
    unfolding settle_burn_def prod.case Let_def
    by (rule quiet_seq[OF p(2) quiet_wait], unfold wp_if if_distribR)
      (auto simp: wp_ok dest: stage_sound intro!: wp_seq_lift save_return[OF _ live] normal intro: accounted_complete[OF _ p(1)])
qed

text \<open>Resuming keeps the stage.\<close>

lemma burn_pending_stage:
  assumes "stage_pending n st d0 x s" and live: "statePath cx \<noteq> []"
  shows "wp (burn_pending cx ops (show_int n) m ata before x) (\<lambda>(_, x). stage n st d0 x) (\<lambda>_. sound) s"
proof -
  obtain state j where x: "x = (state, j)" by (cases x)
  have p: "truthy (pendingSwap j)" "stage n st d0 (state, j) s" using assms(1) by (simp_all add: stage_pending_def x)
  have rest: "wp (then_io (burn_phase cx ops (show_int n) m ata before (state, j)) (\<lambda>x'.
       then_io (submit_burn cx ops ata before (pendingSwap (snd x'))) (\<lambda>_. settle_burn cx ops (show_int n) ata before x')))
     (\<lambda>(_, x). stage n st d0 x) (\<lambda>_. sound) s'" if "stage n st d0 (state, j) s'" for s' :: "'a \<times> buyback_event list"
  proof (rule wp_seq[OF burn_phase_stage[OF _ live]])
    show "stage_pending n st d0 (state, j) s'" using that p by (simp add: stage_pending_def)
    fix x' and s2 :: "'a \<times> buyback_event list"
    assume "stage_pending n st d0 x' s2"
    then show "wp (then_io (submit_burn cx ops ata before (pendingSwap (snd x')))
        (\<lambda>_. settle_burn cx ops (show_int n) ata before x')) (\<lambda>(_, x). stage n st d0 x) (\<lambda>_. sound) s2"
      by (cases x') (auto intro!: wp_seq[OF submit_burn_stage] settle_burn_stage[OF _ live])
  qed
  show ?thesis
    unfolding burn_pending_def x
    by (rule quiet_seq[OF p(2) quiet_wait], unfold wp_if if_distribR) (auto simp: wp_ok intro: rest)
qed

lemma recover_stage:
  fixes s :: "'w \<times> buyback_event list"
  assumes st: "stage n st d0 (state, j) s" and live: "statePath cx \<noteq> []"
  shows "wp (recoverPendingBuyback cx ops (show_int n) m ata (state, j)) (\<lambda>(_, x). stage n st d0 x) (\<lambda>_. sound) s"
proof (cases "truthy (pendingSwap j)")
  case False
  then show ?thesis using st by (simp add: recoverPendingBuyback_def wp_ok)
next
  case p: True
  have rest: "wp (case phase of Inl result \<Rightarrow> ok_io result | Inr x' \<Rightarrow> burn_pending cx ops (show_int n) m ata before x')
      (\<lambda>(_, x). stage n st d0 x) (\<lambda>_. sound) s'" if "phase_stage n st d0 phase s'" for phase before and s' :: "'w \<times> buyback_event list"
    using that by (cases phase) (auto simp: wp_ok intro: burn_pending_stage[OF _ live])
  have "wp (then_io (lift_io (to_bigint (opt_member (pendingSwap j) ''beforeBaseUnits''))) (\<lambda>before.
        then_io (read_io (tokenAmount ops ata)) (\<lambda>current.
        then_io (swap_phase cx ops (show_int n) ata before current (state, j)) (\<lambda>phase. case phase of
          Inl result \<Rightarrow> ok_io result
        | Inr x' \<Rightarrow> burn_pending cx ops (show_int n) m ata before x'))))
     (\<lambda>(_, x). stage n st d0 x) (\<lambda>_. sound) s"
    by (rule wp_seq_lift, rule quiet_seq[OF st adds_read], rule wp_seq[OF swap_phase_stage[OF _ live p]], assumption, erule rest)
      (rule stage_sound[OF st])
  then show ?thesis using p by (simp add: recoverPendingBuyback_def)
qed

lemma advance_stage:
  assumes st: "stage n st d0 (state, j) s" and live: "statePath cx \<noteq> []"
  shows "wp (advance_cursor cx ops k state) (\<lambda>_. sound) (\<lambda>_. sound) s"
proof -
  let ?s = "set_member state ''nextRound'' (Num (to_num (Big (k + 1))))"
  have "wf_state ?s" "same_journal (journal_on ?s n) j" "normal_journal j"
    using st by (auto simp: stage_def wf_state_set roundJournal_set)
  from save_stage[OF st live this]
  have "wp (saveState cx ops ?s) (\<lambda>_. sound) (\<lambda>_. sound) s"
    by (rule wp_mono) (auto dest: stage_sound)
  then show ?thesis using st by (simp add: advance_cursor_def wp_ok stage_sound)
qed

lemma completion_stage:
  fixes s :: "'w \<times> buyback_event list"
  assumes st: "stage n st d0 (state, j) s" and paid: "paid_off st j"
  shows "wp (markRoundBuybackComplete cx ops a st) (\<lambda>_. stage n st d0 (state, j)) (\<lambda>_. sound) s"
proof (cases "round_buybackCompleted st")
  case True
  then show ?thesis using st by (simp add: markRoundBuybackComplete_def wp_ok)
next
  case False
  have sent: "wp (then_io (log_io (CompletionSigned raw)) (\<lambda>_.
        then_io (sendSavedTransaction cx ops (Str raw) slot height) (\<lambda>signature. ok_io (Some signature))))
      (\<lambda>_. stage n st d0 (state, j)) (\<lambda>_. sound) s'"
    if s': "stage n st d0 (state, j) s'" for raw slot height and s' :: "'w \<times> buyback_event list"
  proof -
    obtain w t where s: "s' = (w, t)" by (cases s')
    have "buyback_allowed t (CompletionSigned raw)"
      using s' paid paid_off_same accounted_same by (auto simp: stage_def s buyback_allowed_def)
    then have signed: "stage n st d0 (state, j) (w, t @ [CompletionSigned raw])"
      using s' by (auto simp: stage_def s simp del: justified_append)
    have "wp (sendSavedTransaction cx ops (Str raw) slot height) (\<lambda>_. stage n st d0 (state, j)) (\<lambda>_. stage n st d0 (state, j))
        (w, t @ [CompletionSigned raw])"
      by (rule send_stage[OF signed]) simp
    then have "wp (sendSavedTransaction cx ops (Str raw) slot height) (\<lambda>_. stage n st d0 (state, j)) (\<lambda>_. sound)
        (w, t @ [CompletionSigned raw])"
      by (rule wp_mono) (auto dest: stage_sound)
    then show ?thesis by (simp add: s wp_then wp_log wp_ok)
  qed
  show ?thesis
    unfolding markRoundBuybackComplete_def if_not_P[OF False] Let_def
    by (rule quiet_seq[OF st quiet_pinned], rule quiet_seq[OF _ quiet_measured], assumption)
      (auto split: prod.split intro: sent)
qed

lemma complete_round_sound:
  assumes st: "stage n st d0 (state, j) s" and live: "statePath cx \<noteq> []"
  shows "wp (complete_round cx ops k a st (state, j)) (\<lambda>_. sound) (\<lambda>_. sound) s"
proof (cases "bigint_of_string (processedLamports j)")
  case (Inl e)
  then show ?thesis using st by (simp add: complete_round_def wp_simps stage_sound)
next
  case (Inr p)
  have rest: "wp (then_io (markRoundBuybackComplete cx ops a st) (\<lambda>signature.
       then_io (advance_cursor cx ops k state) (\<lambda>_. ok_io (Some signature)))) (\<lambda>_. sound) (\<lambda>_. sound) s"
    if "roundAllocation st \<le> p"
  proof (rule wp_seq[OF completion_stage[OF st]])
    show "paid_off st j" using that Inr by (simp add: paid_off_def)
    fix x and s' :: "'a \<times> buyback_event list"
    assume "stage n st d0 (state, j) s'"
    then show "wp (then_io (advance_cursor cx ops k state) (\<lambda>_. ok_io (Some x))) (\<lambda>_. sound) (\<lambda>_. sound) s'"
      by (intro wp_seq[OF advance_stage[OF _ live]]) (simp_all add: wp_ok)
  qed
  show ?thesis
    using rest st by (simp add: complete_round_def wp_lift Inr wp_then[of "lift_io _"] wp_ok stage_sound)
qed

lemma quiet_sound: "adds requests m \<Longrightarrow> sound s \<Longrightarrow> wp m (\<lambda>_. sound) (\<lambda>_. sound) s"
proof -
  assume m: "adds requests m" and s: "sound s"
  obtain w t where st: "s = (w, t)" by (cases s)
  have keep: "sound u" if "\<exists>new. snd u = t @ new \<and> list_all harmless new" for u :: "'c \<times> buyback_event list"
    using that s harmless_justified st by auto
  show ?thesis unfolding st by (rule wp_mono[OF adds_wp[OF harmless_requests[OF m]]]) (erule keep)+
qed

lemma recovered_sound:
  assumes "stage n st d0 (state, j) s" and live: "statePath cx \<noteq> []"
  shows "wp (then_io (upsertBuybackEvidence cx ops key (executions j)) (\<lambda>_.
      then_io (complete_round cx ops k a st (state, j)) (\<lambda>c. ok_io (f c)))) (\<lambda>_. sound) (\<lambda>_. sound) s"
  by (rule quiet_seq[OF assms(1) quiet_upsert], rule wp_seq[OF complete_round_sound[OF _ live]], assumption) (simp add: wp_ok)

lemma resume_round_sound:
  fixes ops :: "'w buyback_world" and s :: "'w \<times> buyback_event list"
  assumes st: "stage n st d0 (state, j) s" and live: "statePath cx \<noteq> []"
  shows "wp (resume_round cx ops dry n a st m ata (state, j)) (\<lambda>_. sound) (\<lambda>_. sound) s"
proof -
  have outcome: "wp (case result of
         Recovered swapSignature burnSignature burned \<Rightarrow>
           then_io (upsertBuybackEvidence cx ops (show_int n) (executions j')) (\<lambda>_.
           then_io (complete_round cx ops n a st (state', j')) (\<lambda>completion.
           ok_io (Executed result completion)))
       | _ \<Rightarrow> ok_io (Executed result None)) (\<lambda>_. sound) (\<lambda>_. sound) s'"
    if s': "stage n st d0 (state', j') s'" for result state' j' and s' :: "'w \<times> buyback_event list"
    using recovered_sound[OF s' live] stage_sound[OF s'] by (cases result) (simp_all add: wp_ok)
  show ?thesis
    unfolding resume_round_def prod.case
    by (rule wp_assert_rule, rule quiet_seq[OF st adds_read], rule wp_assert_rule, rule wp_seq_pair[OF recover_stage[OF _ live]],
        assumption, clarsimp, erule outcome) (simp_all add: stage_sound[OF st], erule stage_sound)
qed

text \<open>The amount: an integer within the rest of the allocation, whenever the inspection of the swap succeeds.\<close>

lemma num_le_Fin: "num_lt y x \<Longrightarrow> num_lt x y \<Longrightarrow> False"
  by (cases x; cases y) auto

lemma lamports_nonneg: "lamports v = NaN \<or> num_le (Fin 0) (lamports v)"
  by (auto simp: lamports_def num_max_def num_le_def)

lemma amount_range:
  assumes "spendLamports (calculateSpend b r (num_min (lamports v) (to_num (Big remaining))) m) = Fin (of_int k)"
    and "0 < remaining" "remaining \<le> MAX_SAFE_INTEGER"
  shows "0 \<le> k \<and> k \<le> remaining"
proof -
  have safe: "safe_num remaining" using assms(2,3) by (simp add: safe_num_def)
  then have rem: "to_num (Big remaining) = Fin (of_int remaining)" by simp
  obtain x where x: "num_min (lamports v) (to_num (Big remaining)) = Fin x" "0 \<le> x" "x \<le> of_int remaining"
      "Fin (of_int k) = num_min (Fin x) (num_max (Fin 0) (num_sub b r))"
  proof -
    let ?m = "num_min (lamports v) (Fin (of_int remaining))"
    have eq: "Fin (of_int k) = num_min ?m (num_max (Fin 0) (num_sub b r))"
      using assms(1) safe by (simp add: calculateSpend_def Let_def)
    then have "?m \<noteq> NaN" by (auto simp: num_min_def)
    then have "lamports v \<noteq> NaN" by (auto simp: num_min_def)
    then have "num_le (Fin 0) (lamports v)" using lamports_nonneg by auto
    then have "\<exists>x. ?m = Fin x \<and> 0 \<le> x \<and> x \<le> of_int remaining"
      using assms(2) by (cases "lamports v") (auto simp: num_min_def num_le_def)
    then show thesis using that eq rem by auto
  qed
  have "num_max (Fin 0) (num_sub b r) = NaN \<or> num_le (Fin 0) (num_max (Fin 0) (num_sub b r))"
    by (auto simp: num_max_def num_le_def)
  then have "(0::rat) \<le> of_int k \<and> (of_int k::rat) \<le> x"
    using x(2,4) by (cases "num_max (Fin 0) (num_sub b r)") (auto simp: num_min_def num_le_def split: if_splits)
  then have "(0::rat) \<le> of_int k" "(of_int k :: rat) \<le> of_int remaining" using x(3) by auto
  then show ?thesis by simp
qed

lemma check_spend_integer: "check_spend amount b sim = Inr () \<Longrightarrow> \<exists>k. amount = Fin (of_int k)"
  by (cases amount) (auto simp: check_spend_def res_simps split: prod.splits if_splits option.splits)

text \<open>A fact that one step of a sequence establishes once and for all.\<close>

lemma wp_any: "wp m (\<lambda>_ _. True) (\<lambda>_ _. True) s"
  by (rule wpI) (simp split: sum.split)

lemma wp_later: "(\<And>x s. wp (f x) Q (\<lambda>_ _. True) s) \<Longrightarrow> wp (then_io m f) Q (\<lambda>_ _. True) s"
  by (rule wp_seq[OF wp_any])

lemma wp_now: "wp m (\<lambda>_ _. P) (\<lambda>_ _. True) s \<Longrightarrow> wp (then_io m f) (\<lambda>_ _. P) (\<lambda>_ _. True) s"
  by (rule wp_seq, assumption, rule wp_mono[OF wp_any]) auto

lemma inspect_integer: "wp (inspectSwapTransaction cx ops tx amount ata b m p) (\<lambda>_ _. \<exists>k. amount = Fin (of_int k)) (\<lambda>_ _. True) s"
proof -
  have spend: "wp (lift_io (check_spend amount before sim)) (\<lambda>_ _. \<exists>k. amount = Fin (of_int k)) (\<lambda>_ _. True) s" for before sim s
    using check_spend_integer[of amount before sim] by (auto simp: wp_lift split: sum.split)
  show ?thesis
    unfolding inspectSwapTransaction_def
    by (rule wp_later, rule wp_later, rule wp_later, rule wp_later, rule wp_later, rule wp_later, rule wp_later, rule wp_now, rule spend)
qed

lemma inspect_stage:
  fixes ops :: "'w buyback_world" and s :: "'w \<times> buyback_event list"
  assumes "stage n st d0 x s"
  shows "wp (inspectSwapTransaction cx ops tx amount ata b m p)
    (\<lambda>_ s. stage n st d0 x s \<and> (\<exists>k. amount = Fin (of_int k))) (\<lambda>_. sound) s"
  by (rule wp_mono[OF wp_conj[OF keeps_stage[OF harmless_requests[OF quiet_inspect] assms] inspect_integer]]) auto

lemma journal_swap_stage:
  fixes ops :: "'w buyback_world" and s :: "'w \<times> buyback_event list"
  assumes st: "stage n st d0 (state, j) s" and live: "statePath cx \<noteq> []" and none: "\<not> truthy (pendingSwap j)"
    and amount: "\<And>k. amount = Fin (of_int k) \<Longrightarrow> 0 \<le> k \<and> k \<le> remaining" "remaining \<le> MAX_SAFE_INTEGER"
    and remaining: "\<And>p. bigint_of_string (processedLamports j) = Inr p \<Longrightarrow> remaining = roundAllocation st - p"
  shows "wp (journal_swap cx ops (show_int n) m program amount quote checked (state, j)) (\<lambda>(_, x). stage n st d0 x) (\<lambda>_. sound) s"
proof -
  have acc: "accounted (roundAllocation st) (j\<lparr>pendingSwap := pending_of before (num_to_string amount) out raw sig inspected\<rparr>)"
    if a: "amount = Fin (of_int k)" and b: "accounted (roundAllocation st) j" for k before out raw sig inspected
  proof -
    obtain p where p: "bigint_of_string (processedLamports j) = Inr p" "evidenced (executions j) = Inr p"
        "\<forall>e \<in> set (executions j). \<exists>m. spends e m"
      using b by (auto simp: accounted_def)
    have "safe_num k" using amount(1)[OF a] amount(2) by (simp add: safe_num_def)
    then have "spends (pending_of before (num_to_string amount) out raw sig inspected) k"
      using amount(1)[OF a] a by (simp add: spends_def pending_of_def del: num_to_string.simps)
    moreover have "p + k \<le> roundAllocation st" using remaining[OF p(1)] amount(1)[OF a] by simp
    ultimately show ?thesis unfolding accounted_def using p by (auto simp: pending_of_def)
  qed
  have normal: "normal_journal (j\<lparr>pendingSwap := pending_of before spend out raw sig inspected\<rparr>)" for before spend out raw sig inspected
    by (simp add: normal_journal_def pending_of_def)
  show ?thesis
    unfolding journal_swap_def prod.case Let_def
    by (rule wp_seq[OF keeps_stage[OF harmless_ata st]], rule quiet_seq[OF _ adds_read], assumption, rule quiet_seq[OF _ quiet_build], assumption,
        rule wp_seq[OF inspect_stage], assumption, elim conjE exE, erule save_return[OF _ live normal], erule (1) acc)
      (simp add: wp_ok)
qed

lemma stage_trace: "stage n st d0 x (w, t) \<Longrightarrow> justified buyback_allowed t"
  using stage_sound[of n st d0 x "(w, t)"] by simp

lemma buy_round_sound:
  fixes ops :: "'w buyback_world" and s :: "'w \<times> buyback_event list"
  assumes st: "stage n st d0 (state, j) s" and live: "statePath cx \<noteq> []" and none: "\<not> truthy (pendingSwap j)"
    and remaining: "0 < remaining" "bigint_of_string (processedLamports j) = Inr (roundAllocation st - remaining)"
  shows "wp (buy_round cx ops False n a st m pool route remaining (state, j)) (\<lambda>_. sound) (\<lambda>_. sound) s"
proof -
  have outcome: "wp (then_io (case result of Recovered swapSignature burnSignature burned \<Rightarrow>
               upsertBuybackEvidence cx ops (show_int n) (executions j2) | _ \<Rightarrow> ok_io ()) (\<lambda>_.
           then_io (complete_round cx ops n a st (state2, j2)) (\<lambda>completion.
           ok_io (Executed result completion)))) (\<lambda>_. sound) (\<lambda>_. sound) s'"
    if s': "stage n st d0 (state2, j2) s'" for result state2 j2 and s' :: "'w \<times> buyback_event list"
  proof (rule quiet_seq[OF s'])
    show "adds requests (case result of Recovered swapSignature burnSignature burned \<Rightarrow>
               upsertBuybackEvidence cx ops (show_int n) (executions j2) | _ \<Rightarrow> ok_io ())"
      by (cases result) (simp_all add: quiet_upsert)
    fix y and s2 :: "'w \<times> buyback_event list"
    assume "stage n st d0 (state2, j2) s2"
    then show "wp (then_io (complete_round cx ops n a st (state2, j2)) (\<lambda>completion. ok_io (Executed result completion)))
        (\<lambda>_. sound) (\<lambda>_. sound) s2"
      by (intro wp_seq[OF complete_round_sound[OF _ live]]) (simp_all add: wp_ok)
  qed
  have rem: "remaining = roundAllocation st - p" if "bigint_of_string (processedLamports j) = Inr p" for p
    using that remaining(2) by simp
  have buy: "wp (then_io (journal_swap cx ops (show_int n) m program amount quote checked (state, j)) (\<lambda>(ata, state1, j1).
           then_io (recoverPendingBuyback cx ops (show_int n) m ata (state1, j1)) (\<lambda>(result, state2, j2).
           then_io (case result of Recovered swapSignature burnSignature burned \<Rightarrow>
               upsertBuybackEvidence cx ops (show_int n) (executions j2) | _ \<Rightarrow> ok_io ()) (\<lambda>_.
           then_io (complete_round cx ops n a st (state2, j2)) (\<lambda>completion.
           ok_io (Executed result completion)))))) (\<lambda>_. sound) (\<lambda>_. sound) s'"
    if s': "stage n st d0 (state, j) s'" and safe: "remaining \<le> MAX_SAFE_INTEGER"
      and amount: "\<And>k. amount = Fin (of_int k) \<Longrightarrow> 0 \<le> k \<and> k \<le> remaining"
    for program amount quote checked and s' :: "'w \<times> buyback_event list"
    by (rule wp_seq_pair[OF journal_swap_stage[OF s' live none amount safe rem]], assumption, assumption, clarsimp,
        rule wp_seq_pair[OF recover_stage[OF _ live]], assumption, clarsimp, erule outcome)
  show ?thesis
    unfolding buy_round_def prod.case Let_def if_False
    by (rule wp_assert_rule, rule quiet_seq[OF st adds_read], unfold wp_if if_distribR)
      (auto simp: wp_ok stage_sound stage_sound[OF st] simp del: num_to_string.simps
        intro!: wp_seq_lift wp_assert_rule buy quiet_seq[OF _ quiet_quote] dest: amount_range[OF _ remaining(1), unfolded to_num.simps] stage_trace)
qed

lemma wp_if_rule: "(c \<Longrightarrow> wp m Q E s) \<Longrightarrow> (\<not> c \<Longrightarrow> wp n Q E s) \<Longrightarrow> wp (if c then m else n) Q E s"
  by simp

lemma continue_round_sound:
  fixes ops :: "'w buyback_world" and s :: "'w \<times> buyback_event list"
  assumes st: "stage n st d0 (state, j) s" and live: "statePath cx \<noteq> []" and none: "\<not> truthy (pendingSwap j)"
  shows "wp (continue_round cx ops False n a st m pool route (state, j)) (\<lambda>_. sound) (\<lambda>_. sound) s"
proof -
  have finish: "wp (then_io (markRoundBuybackComplete cx ops a st) (\<lambda>signature.
       then_io (advance_cursor cx ops n state) (\<lambda>_. ok_io r))) (\<lambda>_. sound) (\<lambda>_. sound) s'"
    if s': "stage n st d0 (state, j) s'" and paid: "bigint_of_string (processedLamports j) = Inr p" "roundAllocation st \<le> p"
    for r p and s' :: "'w \<times> buyback_event list"
  proof (rule wp_seq[OF completion_stage[OF s']])
    show "paid_off st j" using paid by (simp add: paid_off_def)
    fix y and s2 :: "'w \<times> buyback_event list"
    assume "stage n st d0 (state, j) s2"
    then show "wp (then_io (advance_cursor cx ops n state) (\<lambda>_. ok_io r)) (\<lambda>_. sound) (\<lambda>_. sound) s2"
      by (intro wp_seq[OF advance_stage[OF _ live]]) (simp_all add: wp_ok)
  qed
  have proceed: "wp (let remaining = (if p < roundAllocation st then roundAllocation st - p else 0) in
     if remaining = 0
     then then_io (if False then ok_io None else markRoundBuybackComplete cx ops a st) (\<lambda>signature.
       then_io (if False then ok_io () else advance_cursor cx ops n state) (\<lambda>_.
       ok_io (TickSkipped ''round-already-processed'' (Some (show_int n)))))
     else buy_round cx ops False n a st m pool route remaining (state, j)) (\<lambda>_. sound) (\<lambda>_. sound) s'"
    if s': "stage n st d0 (state, j) s'" and p: "bigint_of_string (processedLamports j) = Inr p"
    for p and s' :: "'w \<times> buyback_event list"
    using finish[OF s' p] buy_round_sound[OF s' live none, of "roundAllocation st - p"] p by (auto simp: Let_def not_less)
  show ?thesis
    unfolding continue_round_def prod.case
    by (rule wp_seq_lift, rule wp_seq_lift, rule quiet_seq[OF st], intro adds_if adds_ok adds_assert quiet_upsert, erule proceed)
      (simp_all add: stage_sound[OF st])
qed

lemma round_read_stage:
  assumes s: "sound s" "0 \<le> n" "round_read (snd s) = Some (n, st)" "durable (snd s) = Some d0" "loaded (snd s) = Some d0" "wf_state d0"
  shows "stage n st d0 (put_journal d0 (show_int n) (journal_on d0 n), journal_on d0 n) s"
  using s roundJournal_put[OF s(6) canonical_show_int[OF s(2)] normal_roundJournal] wf_state_put normal_roundJournal
  by (simp add: stage_def)

lemma serve_round_sound:
  fixes ops :: "'w buyback_world" and s :: "'w \<times> buyback_event list"
  assumes "stage n st d0 (put_journal state (show_int n) (journal_on state n), journal_on state n) s" and live: "statePath cx \<noteq> []"
  shows "wp (serve_round cx ops False n a st m pool route state) (\<lambda>_. sound) (\<lambda>_. sound) s"
proof -
  have one: "wp (if truthy (pendingSwap j') then resume_round cx ops False n a st m ata (state', j')
      else continue_round cx ops False n a st m pool route (state', j')) (\<lambda>_. sound) (\<lambda>_. sound) s'"
    if "stage n st d0 (state', j') s'" for state' j' ata and s' :: "'w \<times> buyback_event list"
    using resume_round_sound[OF that live] continue_round_sound[OF that live] by simp
  show ?thesis
    unfolding serve_round_def Let_def
    by (rule wp_seq[OF repair_stage[OF assms]]) (auto intro: one)
qed

text \<open>Before a round is read: the loaded state is on disk.\<close>

definition opened :: "jsval \<Rightarrow> 'w \<times> buyback_event list \<Rightarrow> bool" where
  "opened d s \<longleftrightarrow> sound s \<and> durable (snd s) = Some d \<and> loaded (snd s) = Some d \<and> wf_state d"

lemma opened_adds:
  assumes "adds requests m" "opened d s"
  shows "wp m (\<lambda>_. opened d) (\<lambda>_. sound) s"
proof -
  obtain w t where s: "s = (w, t)" by (cases s)
  have keep: "opened d u" if "\<exists>new. snd u = t @ new \<and> list_all harmless new" for u
    using that assms(2) harmless_trace harmless_justified by (auto simp: opened_def s simp del: justified_append)
  show ?thesis
    unfolding s by (rule wp_mono[OF adds_wp[OF harmless_requests[OF assms(1)]]]) (erule keep, drule keep, simp add: opened_def)
qed

lemma opened_seq:
  assumes "opened d s" "adds requests m" "\<And>y s'. opened d s' \<Longrightarrow> wp (f y) Q (\<lambda>_. sound) s'"
  shows "wp (then_io m f) Q (\<lambda>_. sound) s"
  by (rule wp_seq[OF opened_adds[OF assms(2,1)] assms(3)])

lemma opened_sound: "opened d s \<Longrightarrow> sound s"
  by (simp add: opened_def)

lemma sound_seq:
  assumes "sound s" "adds requests m" "\<And>y s'. sound s' \<Longrightarrow> wp (f y) Q (\<lambda>_. sound) s'"
  shows "wp (then_io m f) Q (\<lambda>_. sound) s"
  by (rule wp_seq[OF quiet_sound[OF assms(2,1)] assms(3)])

lemma seed_nonneg: "writeBigUInt64LE n = Inr seed \<Longrightarrow> 0 \<le> n"
  by (auto simp: writeBigUInt64LE_def split: if_splits)


lemma advance_opened:
  assumes "opened d s" "round_read (snd s) = Some (n, st)" and live: "statePath cx \<noteq> []"
  shows "wp (advance_cursor cx ops k d) (\<lambda>_. sound) (\<lambda>_. sound) s"
proof -
  obtain w t where s: "s = (w, t)" by (cases s)
  let ?s = "set_member d ''nextRound'' (Num (to_num (Big (k + 1))))"
  have "buyback_allowed t (StateSaved ?s r)" for r
    using assms(1) by (auto simp: opened_def s buyback_allowed_def roundJournal_set)
  then show ?thesis
    using assms(1) unfolding s
    by (auto simp: advance_cursor_def saveState_def wp_simps opened_def simp del: justified_append split: prod.split sum.split)
qed

lemma serve_indexed_sound:
  fixes ops :: "'w buyback_world" and s :: "'w \<times> buyback_event list"
  assumes op: "opened d s" and live: "statePath cx \<noteq> []"
  shows "wp (serve_indexed cx ops False cfg gate route forced d row) (\<lambda>_. sound) (\<lambda>_. sound) s"
proof -
  have read: "wp (then_io (call_io (fetchBuybackRound ops address) (RoundRead n)) (\<lambda>st.
       if \<not> round_settled st then ok_io (TickSkipped ''round-not-settled'' (Some (show_int n)))
       else if round_buybackCompleted st
       then then_io (if nullish forced then advance_cursor cx ops n d else ok_io ()) (\<lambda>_.
         ok_io (TickSkipped ''round-buyback-completed-on-chain'' (Some (show_int n))))
       else serve_round cx ops False n address st (mint cfg) (gate_pool gate) route d)) (\<lambda>_. sound) (\<lambda>_. sound) s'"
    if s': "opened d s'" and n: "0 \<le> n" for n address and s' :: "'w \<times> buyback_event list"
  proof -
    obtain w t where eq: "s' = (w, t)" by (cases s')
    have one: "wp (if \<not> round_settled st then ok_io (TickSkipped ''round-not-settled'' (Some (show_int n)))
       else if round_buybackCompleted st
       then then_io (if nullish forced then advance_cursor cx ops n d else ok_io ()) (\<lambda>_.
         ok_io (TickSkipped ''round-buyback-completed-on-chain'' (Some (show_int n))))
       else serve_round cx ops False n address st (mint cfg) (gate_pool gate) route d) (\<lambda>_. sound) (\<lambda>_. sound)
       (v, t @ [RoundRead n (Inr st)])" for st v
    proof -
      have o: "opened d (v, t @ [RoundRead n (Inr st)])" using s' by (simp add: opened_def eq)
      have "stage n st d (put_journal d (show_int n) (journal_on d n), journal_on d n) (v, t @ [RoundRead n (Inr st)])"
        by (rule round_read_stage) (use o n in \<open>auto simp: opened_def\<close>)
      then have serve: "wp (serve_round cx ops False n address st (mint cfg) (gate_pool gate) route d) (\<lambda>_. sound) (\<lambda>_. sound)
          (v, t @ [RoundRead n (Inr st)])" by (rule serve_round_sound[OF _ live])
      have "wp (then_io (if nullish forced then advance_cursor cx ops n d else ok_io ()) (\<lambda>_.
         ok_io (TickSkipped ''round-buyback-completed-on-chain'' (Some (show_int n))))) (\<lambda>_. sound) (\<lambda>_. sound)
          (v, t @ [RoundRead n (Inr st)])"
        by (rule wp_seq[where Q = "\<lambda>_. sound"]) (use advance_opened[OF o _ live] o in \<open>auto simp: wp_ok opened_def\<close>)
      then show ?thesis using serve o by (auto simp: wp_ok opened_def)
    qed
    obtain r v where f: "fetchBuybackRound ops address w = (r, v)" by (cases "fetchBuybackRound ops address w")
    have "sound (v, t @ [RoundRead n (Inl e)])" for e using s' by (simp add: opened_def eq)
    then show ?thesis
      unfolding eq wp_then[of "call_io _ _"] wp_call f prod.case
      by (cases r; simp only: sum.case) (rule one)
  qed
  show ?thesis
    unfolding serve_indexed_def Let_def
    by (rule wp_seq_lift, rule wp_seq_lift, rule opened_seq[OF op adds_read], rule wp_if_rule,
        simp only: wp_ok, erule opened_sound, rule read, assumption, erule seed_nonneg) (rule opened_sound[OF op])+
qed

lemma load_opened:
  fixes ops :: "'w buyback_world" and s :: "'w \<times> buyback_event list"
  assumes "sound s" and live: "statePath cx \<noteq> []"
  shows "wp (loadState cx ops) opened (\<lambda>_. sound) s"
proof -
  obtain w t where s: "s = (w, t)" by (cases s)
  show ?thesis
    using assms unfolding s
    by (auto simp: loadState_def wp_simps opened_def wf_empty_state wf_state_of_file res_simps simp del: justified_append
      split: prod.split sum.split)
qed

lemma select_round_sound:
  fixes ops :: "'w buyback_world" and s :: "'w \<times> buyback_event list"
  assumes s: "sound s" and live: "statePath cx \<noteq> []"
  shows "wp (select_round cx ops False cfg gate route) (\<lambda>_. sound) (\<lambda>_. sound) s"
proof -
  have rows: "wp (then_io (indexedBuybackBacklog cx ops i u) (\<lambda>rows.
        then_io (lift_io (selectIndexedBuybackRound rows (Num i) (Num u))) (\<lambda>row.
        if \<not> truthy row then ok_io (TickSkipped ''no-indexed-buyback-backlog'' None)
        else serve_indexed cx ops False cfg gate route forced d row))) (\<lambda>_. sound) (\<lambda>_. sound) s'"
    if "opened d s'" for i u forced d and s' :: "'w \<times> buyback_event list"
    by (rule opened_seq[OF that quiet_backlog], rule wp_seq_lift, rule wp_if_rule)
      (auto simp: wp_ok intro: serve_indexed_sound[OF _ live] simp del: justified_append dest: opened_sound)
  have found: "wp (then_io (lift_io (forcedRound cx)) (\<lambda>forced.
    let initial = initialRound cx forced d; upper = to_num (coalesce forced (Num current)) in
    assert_io (safe_nonneg (Num initial)) ''BUYBACK_START_ROUND must be a non-negative integer''
     (if num_lt upper initial then ok_io (TickSkipped ''no-indexed-buyback-backlog'' None)
      else then_io (indexedBuybackBacklog cx ops initial upper) (\<lambda>rows.
        then_io (lift_io (selectIndexedBuybackRound rows (Num initial) (Num upper))) (\<lambda>row.
        if \<not> truthy row then ok_io (TickSkipped ''no-indexed-buyback-backlog'' None)
        else serve_indexed cx ops False cfg gate route forced d row))))) (\<lambda>_. sound) (\<lambda>_. sound) s'"
    if "opened d s'" for current d and s' :: "'w \<times> buyback_event list"
    unfolding Let_def
    by (rule wp_seq_lift, rule wp_assert_rule, rule wp_if_rule, simp_all only: wp_ok opened_sound[OF that])
      (rule rows[OF that])
  show ?thesis
    unfolding select_round_def Let_def[of "currentRound _ _"]
    by (rule sound_seq[OF s adds_read], rule wp_if_rule)
      (auto simp: wp_ok simp del: justified_append intro: wp_seq[OF load_opened[OF _ live] found])
qed

lemma keeperTick_sound:
  fixes ops :: "'w buyback_world" and s :: "'w \<times> buyback_event list"
  assumes s: "sound s"
  shows "wp (keeperTick cx ops False) (\<lambda>_. sound) (\<lambda>_. sound) s"
proof -
  have live: "statePath cx \<noteq> []" if "check_live cx False = Inr u" for u
    using that by (auto simp: check_live_def res_simps)
  show ?thesis
    unfolding keeperTick_def if_False
    by (rule wp_seq_lift, drule live, rule sound_seq[OF s adds_read], rule wp_assert_rule, rule sound_seq[OF _ adds_read], assumption,
        rule wp_seq_lift, rule wp_if_rule)
      (auto simp: wp_ok s simp del: justified_append
        intro!: wp_if_rule sound_seq[OF _ adds_read] sound_seq[OF _ quiet_lease] wp_seq_lift wp_assert_rule select_round_sound)
qed

section \<open>A dry run\<close>

definition silent :: "buyback_event \<Rightarrow> bool" where
  "silent e = (case e of RawSent raw answer \<Rightarrow> False | CompletionSigned raw \<Rightarrow> False | TokenAccountCreated answer \<Rightarrow> False
     | _ \<Rightarrow> True)"

lemma silent_simps [simp]: "silent (Requested u b)" "silent (StateLoaded d)" "silent (StateSaved d q)" "silent (RoundRead n st)"
  by (simp_all add: silent_def)

named_theorems silent_steps

lemma silent_requests: "adds requests m \<Longrightarrow> adds silent m"
  by (erule adds_mono) (simp add: requests_def silent_def split: buyback_event.splits)

lemmas silent_basics = adds_ok adds_read adds_lift adds_fail adds_then adds_assert adds_if adds_call adds_log

lemma silent_save [silent_steps]: "adds silent (saveState cx ops d)"
  unfolding saveState_def by (intro silent_basics) simp

lemma silent_load [silent_steps]: "adds silent (loadState cx ops)"
  unfolding loadState_def by (intro silent_basics adds_catch) simp

lemma silent_advance [silent_steps]: "adds silent (advance_cursor cx ops n d)"
  unfolding advance_cursor_def by (intro silent_basics silent_steps)

lemma silent_repair [silent_steps]: "adds silent (repairIncompleteExecution cx ops key m ata x)"
proof -
  have "adds silent (repair_entry cx ops key m ata e kept d)" for e kept d
    unfolding repair_entry_def Let_def by (intro silent_basics silent_steps silent_requests quiet_steps)
  then show ?thesis
    unfolding repairIncompleteExecution_def
    by (cases x) (auto intro!: silent_basics split: list.split)
qed

lemma silent_resume [silent_steps]: "adds silent (resume_round cx ops True n a st m ata x)"
  by (cases x) (simp add: resume_round_def assert_io_def)

lemma silent_continue [silent_steps]: "adds silent (continue_round cx ops True n a st m pool route x)"
proof -
  have buy: "adds silent (buy_round cx ops True n a st m pool route remaining y)" for remaining y
    unfolding buy_round_def Let_def
    by (cases y) (auto intro!: silent_basics silent_requests quiet_steps)
  show ?thesis
    unfolding continue_round_def Let_def
    by (cases x) (auto intro!: silent_basics buy)
qed

lemma silent_serve [silent_steps]: "adds silent (serve_round cx ops True n a st m pool route d)"
proof -
  have "adds silent (if truthy (pendingSwap j) then resume_round cx ops True n a st m ata (d', j)
      else continue_round cx ops True n a st m pool route (d', j))" for ata d' j
    by (intro silent_basics silent_steps)
  then show ?thesis
    unfolding serve_round_def Let_def by (intro adds_then silent_repair) auto
qed

lemma silent_indexed [silent_steps]: "adds silent (serve_indexed cx ops True cfg gate route forced d row)"
  unfolding serve_indexed_def Let_def by (intro silent_basics silent_steps) simp

lemma silent_select [silent_steps]: "adds silent (select_round cx ops True cfg gate route)"
  unfolding select_round_def Let_def by (intro silent_basics silent_steps silent_requests quiet_steps)

lemma silent_tick: "adds silent (keeperTick cx ops True)"
  unfolding keeperTick_def if_True by (intro silent_basics silent_steps)

section \<open>The keeper's guarantees\<close>

lemma tick_justified:
  assumes "keeperTick cx ops False (w, []) = (r, w', before @ e # after)"
  shows "buyback_allowed before e"
proof -
  have "justified buyback_allowed (before @ e # after)"
    using wpD[OF keeperTick_sound assms] by (simp split: sum.splits)
  then show ?thesis unfolding justified_iff by blast
qed

text \<open>
  C1. Write-ahead journaling: whatever the chain, Jupiter, the database and the disk answer, every raw transaction a
  live tick submits is either the swap or the burn of the pending execution that the journal last written to disk
  holds for the round that was read, or the completion that this tick has just signed. So a keeper that stops at any
  point finds on disk every swap and burn it may have sent.
\<close>

theorem buyback_write_ahead:
  assumes "keeperTick cx ops False (w, []) = (r, w', before @ RawSent raw answer # after)"
  shows "(\<exists>d n st. durable before = Some d \<and> round_read before = Some (n, st) \<and> journaled (journal_on d n) raw)
    \<or> (\<exists>s. raw = Str s \<and> CompletionSigned s \<in> set before)"
  using tick_justified[OF assms] by (simp add: buyback_allowed_def)

text \<open>
  C3. The allocation bounds the spend: if the journal that was loaded for the round accounts for its executions (its
  processed lamports are what they spent, and with the pending swap no more than the allocation), every journal the
  tick writes for the round does too, through swaps, burns, repairs and retries.
\<close>

theorem buyback_never_overspends:
  assumes "keeperTick cx ops False (w, []) = (r, w', before @ StateSaved saved answer # after)"
    and "loaded before = Some d" "round_read before = Some (n, st)" "accounted (roundAllocation st) (journal_on d n)"
  shows "accounted (roundAllocation st) (journal_on saved n)"
  using tick_justified[OF assms(1)] assms(2-4) by (auto simp: buyback_allowed_def)

text \<open>
  C7. Completion is paid for: from an accounted journal, the completion of a round is signed only when the journal on
  disk has processed exactly the allocation, all of it evidenced by the executions.
\<close>

theorem buyback_completion_exact:
  assumes "keeperTick cx ops False (w, []) = (r, w', before @ CompletionSigned raw # after)"
    and "loaded before = Some d" "round_read before = Some (n, st)" "accounted (roundAllocation st) (journal_on d n)"
  shows "\<exists>e. durable before = Some e \<and> evidenced (executions (journal_on e n)) = Inr (roundAllocation st)
    \<and> bigint_of_string (processedLamports (journal_on e n)) = Inr (roundAllocation st)"
proof -
  obtain e where e: "durable before = Some e" "paid_off st (journal_on e n)" "accounted (roundAllocation st) (journal_on e n)"
    using tick_justified[OF assms(1)] assms(2-4) by (auto simp: buyback_allowed_def)
  then obtain p where p: "bigint_of_string (processedLamports (journal_on e n)) = Inr p"
      "evidenced (executions (journal_on e n)) = Inr p" "p \<le> roundAllocation st"
    unfolding accounted_def by (auto simp: spends_def split: if_splits)
  then show ?thesis using e by (auto simp: paid_off_def)
qed

text \<open>
  C37. A dry run signs no completion, submits no transaction and creates no token account, whatever the outside
  answers.
\<close>

theorem dry_run_sends_nothing:
  "list_all silent (snd (snd (keeperTick cx ops True (w, []))))"
proof -
  obtain r w' t where tick: "keeperTick cx ops True (w, []) = (r, w', t)" by (metis prod_cases3)
  show ?thesis using adds_result[OF silent_tick tick] by (auto simp: tick)
qed

section \<open>Runs\<close>

text \<open>
  A keeper that restarts with a signed swap in its journal and finds five base units in its token account, sent by
  somebody else: the balance is the state of the world.
\<close>

definition demo_env :: "string \<Rightarrow> jsval" where
  "demo_env name = (if name = ''DRY_RUN'' then Str ''0'' else if name = ''BUYBACK_KEEPER_LIVE'' then Str ''P''
     else if name = ''BUYBACK_STATE_PATH'' then Str ''s'' else if name = ''SUPABASE_URL'' then Str ''https://d''
     else if name = ''SUPABASE_SERVICE_ROLE_KEY'' then Str ''r'' else Undef)"

definition demo_buyback :: buyback_context where
  "demo_buyback = \<lparr>env = demo_env, programText = ''P'', randomUUID = ''u'', keeperKey = ''K'', quoteUrl = ''q'', swapUrl = ''w'',
     findAddress = (\<lambda>_. ''A''), tokenAddress = (\<lambda>_. ''T''),
     deserialize = (\<lambda>_. Inr (Obj [(''signatures'', Arr [Arr [IntV 1]])])),
     serialize = (\<lambda>_. ''S''),
     signTransaction = (\<lambda>tx. tx), signMessage = (\<lambda>m. (join '','' (map method_name (calls m)), [1])),
     sdkPrograms = [], decompile = (\<lambda>_ _. Inr []), decodeAmount = (\<lambda>_. Inr 0)\<rparr>"

text \<open>JSON texts, with \<open><\<close> for the double quote.\<close>

definition quoted :: "string \<Rightarrow> string" where
  "quoted = map (\<lambda>c. if c = CHR ''<'' then CHR 0x22 else c)"

definition demo_file :: string where
  "demo_file = quoted (''{<rounds<:{<0<:{<pending<:{<phase<:<swap-ready<,<spendLamports<:<1<,<beforeBaseUnits<:<0<,''
     @ ''<swapRaw<:<swap<,<swapSignature<:<s<}}}}'')"

definition demo_backlog :: string where
  "demo_backlog = quoted ''[{<round_id<:0,<resolved<:true,<buyback_completed<:false,<total_wager_wei<:<100<}]''"

definition demo_buyback_world :: "int buyback_world" where
  "demo_buyback_world = \<lparr>
     httpRequest = (\<lambda>url body w. (Inr \<lparr>response_ok = True, status = 200,
       body_text = (if body = None then demo_backlog else ''true'')\<rparr>, w)),
     readStateFile = (\<lambda>w. (Inr demo_file, w)), writeStateFile = (\<lambda>_ w. (Inr (), w)),
     fetchConfig = (\<lambda>w. (Inr \<lparr>config_version = 6, randomnessProgram = SWITCHBOARD_MAINNET_PROGRAM, mint = ''M'', buybackWallet = ''K'',
       initializedAt = 0, roundDurationSeconds = 65\<rparr>, w)),
     genesisHash = (\<lambda>w. (Inr SOLANA_MAINNET_GENESIS_HASH, w)),
     fetchGate = (\<lambda>w. (Inr \<lparr>gate_verified = True, poolProgram = METEORA_DLMM_PROGRAM_TEXT, gate_pool = ''L''\<rparr>, w)),
     fetchBuybackRound = (\<lambda>_ w. (Inr \<lparr>round_settled = True, round_buybackCompleted = False, grossDeployedLamports = 100\<rparr>, w)),
     accountInfo = (\<lambda>_ w. (Inr (Some \<lparr>info_executable = False, info_owner = METEORA_DLMM_PROGRAM_TEXT\<rparr>), w)),
     tokenAmount = (\<lambda>_ w. (Inr w, w)), mintDecimals = (\<lambda>_ w. (Inr (IntV 6), w)), getBalance = (\<lambda>_ w. (Inr 0, w)),
     latestBlockhashAndContext = (\<lambda>w. (Inr (Obj [(''context'', Obj [(''slot'', IntV 1)]),
       (''value'', Obj [(''blockhash'', Str ''B''), (''lastValidBlockHeight'', IntV 9)])]), w)),
     lookupTable = (\<lambda>_ _ w. (Inr Undef, w)), simulateSwap = (\<lambda>_ _ w. (Inl (Error []), w)),
     simulateMessage = (\<lambda>_ _ w. (Inr \<lparr>sim_err = Null, sim_logs = [], unitsConsumed = IntV 1000\<rparr>, w)),
     feeForMessage = (\<lambda>_ w. (Inr (IntV 0), w)), getTransaction = (\<lambda>_ w. (Inr Null, w)),
     sendRawTransaction = (\<lambda>_ _ w. (Inr ''2'', 0)), confirmSaved = (\<lambda>_ w. (Inr Null, w)),
     signatureStatus = (\<lambda>_ w. (Inr Null, w)), blockHeight = (\<lambda>w. (Inr (IntV 0), w)), blockhashValid = (\<lambda>_ w. (Inr Null, w)),
     createTokenAccount = (\<lambda>_ w. (Inr (), w)), sleepMs = (\<lambda>_ w. w), nowMs = (\<lambda>w. (Inr 65000, w))\<rparr>"




definition demo_buyback_loaded :: jsval where
  "demo_buyback_loaded = Obj [(''nextRound'', Undef), (''rounds'', Obj [(''0'', Obj [(''pending'',
     Obj [(''phase'', Str ''swap-ready''), (''spendLamports'', Str ''1''), (''beforeBaseUnits'', Str ''0''),
       (''swapRaw'', Str ''swap''), (''swapSignature'', Str ''s'')])])])]"

definition demo_buyback_swapped :: jsval where
  "demo_buyback_swapped = Obj [(''nextRound'', Undef), (''rounds'', Obj [(''0'', Obj [(''processedLamports'', Str ''0''),
     (''pending'', Obj [(''phase'', Str ''swapped''), (''spendLamports'', Str ''1''), (''beforeBaseUnits'', Str ''0''),
       (''swapRaw'', Str ''swap''), (''swapSignature'', Str ''s'')]), (''executions'', Arr [])])])]"

definition demo_buyback_round :: buyback_round where
  "demo_buyback_round = \<lparr>round_settled = True, round_buybackCompleted = False, grossDeployedLamports = 100\<rparr>"

definition demo_buyback_trace :: "buyback_event list" where
  "demo_buyback_trace = snd (snd (keeperTick demo_buyback demo_buyback_world False (5, [])))"

lemma demo_buyback_run: "let t = demo_buyback_trace in length t = 12
  \<and> loaded (take 4 t) = Some demo_buyback_loaded \<and> round_read (take 4 t) = Some (0, demo_buyback_round)
  \<and> t ! 4 = StateSaved demo_buyback_swapped (Inr ())
  \<and> t ! 6 = RawSent (Str ''burnChecked'') (Inr ''2'') \<and> t ! 9 = CompletionSigned ''markBuybackCompleted''
  \<and> loaded (take 9 t) = Some demo_buyback_loaded \<and> round_read (take 9 t) = Some (0, demo_buyback_round)
  \<and> list_all (\<lambda>e. case e of RawSent raw r \<Rightarrow> raw \<noteq> Str ''swap'' | _ \<Rightarrow> True) t"
  by code_simp


lemma demo_buyback_tick: "keeperTick demo_buyback demo_buyback_world False (5, [])
  = (fst (keeperTick demo_buyback demo_buyback_world False (5, [])),
     fst (snd (keeperTick demo_buyback demo_buyback_world False (5, []))), demo_buyback_trace)"
  by (simp add: demo_buyback_trace_def)

lemma demo_accounted: "accounted (roundAllocation demo_buyback_round) (journal_on demo_buyback_loaded 0)"
proof -
  have j: "journal_on demo_buyback_loaded 0 = \<lparr>processedLamports = ''0'', pendingSwap = Obj [(''phase'', Str ''swap-ready''),
     (''spendLamports'', Str ''1''), (''beforeBaseUnits'', Str ''0''), (''swapRaw'', Str ''swap''), (''swapSignature'', Str ''s'')],
     executions = []\<rparr>" by code_simp
  have b: "bigint_of_string ''0'' = Inr 0" "bigint_of_string ''1'' = Inr 1" "evidenced [] = Inr 0"
      "roundAllocation demo_buyback_round = 1" by code_simp+
  show ?thesis unfolding accounted_def j by (intro exI[of _ 0] exI[of _ 1]) (simp add: b spends_def)
qed

lemma demo_split: "i < length demo_buyback_trace \<Longrightarrow>
   demo_buyback_trace = take i demo_buyback_trace @ demo_buyback_trace ! i # drop (Suc i) demo_buyback_trace"
  by (rule id_take_nth_drop)

lemma demo_tick_at: "i < length demo_buyback_trace \<Longrightarrow> keeperTick demo_buyback demo_buyback_world False (5, [])
  = (fst (keeperTick demo_buyback demo_buyback_world False (5, [])),
     fst (snd (keeperTick demo_buyback demo_buyback_world False (5, []))),
     take i demo_buyback_trace @ demo_buyback_trace ! i # drop (Suc i) demo_buyback_trace)"
  using demo_buyback_tick demo_split by metis

theorem buyback_write_ahead_witness:
  "(\<exists>d n st. durable (take 6 demo_buyback_trace) = Some d \<and> round_read (take 6 demo_buyback_trace) = Some (n, st)
      \<and> journaled (journal_on d n) (Str ''burnChecked''))
    \<or> (\<exists>s. Str ''burnChecked'' = Str s \<and> CompletionSigned s \<in> set (take 6 demo_buyback_trace))"
proof (rule buyback_write_ahead)
  show "keeperTick demo_buyback demo_buyback_world False (5, [])
    = (fst (keeperTick demo_buyback demo_buyback_world False (5, [])),
       fst (snd (keeperTick demo_buyback demo_buyback_world False (5, []))),
       take 6 demo_buyback_trace @ RawSent (Str ''burnChecked'') (Inr ''2'') # drop 7 demo_buyback_trace)"
    using demo_tick_at[of 6] demo_buyback_run by (simp add: Let_def)
qed

theorem buyback_never_overspends_witness:
  "accounted (roundAllocation demo_buyback_round) (journal_on demo_buyback_swapped 0)"
proof (rule buyback_never_overspends[where before = "take 4 demo_buyback_trace" and d = demo_buyback_loaded])
  show "keeperTick demo_buyback demo_buyback_world False (5, [])
    = (fst (keeperTick demo_buyback demo_buyback_world False (5, [])),
       fst (snd (keeperTick demo_buyback demo_buyback_world False (5, []))),
       take 4 demo_buyback_trace @ StateSaved demo_buyback_swapped (Inr ()) # drop 5 demo_buyback_trace)"
    using demo_tick_at[of 4] demo_buyback_run by (simp add: Let_def)
qed (use demo_buyback_run demo_accounted in \<open>simp_all add: Let_def\<close>)

theorem buyback_completion_exact_witness:
  "\<exists>e. durable (take 9 demo_buyback_trace) = Some e
    \<and> evidenced (executions (journal_on e 0)) = Inr (roundAllocation demo_buyback_round)
    \<and> bigint_of_string (processedLamports (journal_on e 0)) = Inr (roundAllocation demo_buyback_round)"
proof (rule buyback_completion_exact[where d = demo_buyback_loaded])
  show "keeperTick demo_buyback demo_buyback_world False (5, [])
    = (fst (keeperTick demo_buyback demo_buyback_world False (5, [])),
       fst (snd (keeperTick demo_buyback demo_buyback_world False (5, []))),
       take 9 demo_buyback_trace @ CompletionSigned ''markBuybackCompleted'' # drop 10 demo_buyback_trace)"
    using demo_tick_at[of 9] demo_buyback_run by (simp add: Let_def)
qed (use demo_buyback_run demo_accounted in \<open>simp_all add: Let_def\<close>)


text \<open>A dry run that finds an execution without its burn.\<close>

definition demo_repair_world :: "int buyback_world" where
  "demo_repair_world = demo_buyback_world\<lparr>readStateFile := (\<lambda>w. (Inr (quoted (''{<rounds<:{<0<:{<processedLamports<:<1<,''
       @ ''<executions<:[{<spendLamports<:<1<,<expectedOutputBaseUnits<:<5<,<swapSignature<:<s<}]}}}'')), w)),
     getTransaction := (\<lambda>_ w. (Inr (Obj [(''meta'', Obj [(''err'', Null), (''preTokenBalances'', Arr []),
       (''postTokenBalances'', Arr [Obj [(''mint'', Str ''M''), (''owner'', Str ''K''),
         (''uiTokenAmount'', Obj [(''amount'', Str ''5'')])]])])]), w))\<rparr>"

definition saves_burn :: "buyback_event \<Rightarrow> bool" where
  "saves_burn e = (case e of StateSaved d answer \<Rightarrow> opt_member (pendingSwap (journal_on d 0)) ''burnRaw'' = Str ''burnChecked''
     | _ \<Rightarrow> False)"


end
