(* ===== verification/Round_Keeper.thy ===== *)
theory Round_Keeper
  imports Keeper_Tx Auto_Plan_Executor Server_Randomness Settlement_Evidence Network_Policy
begin

text \<open>
  \<open>Protocol/scripts/server-round-keeper.mjs\<close>: the process that owns one scheduled round. It opens the round and binds
  the commitment of its secret before betting starts, executes prepaid plans while betting is open, locks the entropy
  slot when betting has closed, and settles by publishing the secret. RPC, HTTP, files, clock and timers are operations
  of the world; the trace records the configuration, the rounds and the chain time that were read, the secret that was loaded, every
  transaction that is simulated or submitted, and the heartbeats to the host. Module-level statements are the steps
  of \<open>run_keeper\<close>, in their order; \<open>process.exit\<close> ends it with an exit code.
\<close>

section \<open>The process\<close>

text \<open>
  The environment, the program, the keeper's key, and functions of libraries: program addresses, sha256, the bytes of
  a public key given as base58 text, and the parser of such a text; and what
  the wallet file holds.
\<close>

record round_context =
  setting :: "string \<Rightarrow> jsval"
  programKey :: string
  keeperWallet :: string
  derive :: "bytes list \<Rightarrow> string"
  sha256 :: "bytes \<Rightarrow> bytes"
  keyBytes :: "string \<Rightarrow> bytes"
  parseKey :: "string \<Rightarrow> string res"
  walletFile :: "jsval res"

text \<open>The accounts as the program's decoder returns them; plans, positions and the stake pool are JSON-like values.\<close>

record server_config =
  cfgVersion :: int
  cfgPaused :: bool
  cfgRandomnessProgram :: string
  cfgRandomnessAuthority :: string
  cfgMint :: string
  cfgInitializedAt :: int
  cfgRoundDuration :: int
  cfgBettingDuration :: int
  cfgBuybackWallet :: string
  cfgAdminFeeWallet :: string

record server_round =
  isSettled :: bool
  boundCommitment :: bytes
  commitSlot :: int
  roundOpenedAt :: int
  roundBettingEndsAt :: int
  roundSettlesAt :: int
  roundRefundAt :: int

record server_gate =
  gateVerified :: bool
  gatePool :: string
  gateMyneVault :: "string option"
  gateSolVault :: "string option"

text \<open>
  What the process asks of its surroundings. An operation under a timer settles or is late. \<open>timerFired\<close> tells
  whether the timer of a flow of several operations has fired by now. \<open>settlementSource\<close> is what the finalized
  history answers.
\<close>

record 'w server_world =
  readConfig :: "'w \<Rightarrow> server_config late \<times> 'w"
  readGenesis :: "'w \<Rightarrow> string late \<times> 'w"
  readRound :: "string \<Rightarrow> 'w \<Rightarrow> server_round option late \<times> 'w"
  readGate :: "'w \<Rightarrow> server_gate late \<times> 'w"
  readSlot :: "'w \<Rightarrow> int late \<times> 'w"
  readBlockTime :: "int \<Rightarrow> 'w \<Rightarrow> jsval late \<times> 'w"
  readTransaction :: "string \<Rightarrow> 'w \<Rightarrow> jsval late \<times> 'w"
  readSlotHashes :: "'w \<Rightarrow> bytes option late \<times> 'w"
  readRent :: "'w \<Rightarrow> jsval late \<times> 'w"
  readStakePool :: "'w \<Rightarrow> jsval late \<times> 'w"
  readPlan :: "string \<Rightarrow> 'w \<Rightarrow> jsval late \<times> 'w"
  readPosition :: "string \<Rightarrow> 'w \<Rightarrow> jsval late \<times> 'w"
  readBlockhash :: "string \<Rightarrow> 'w \<Rightarrow> (string \<times> jsval) late \<times> 'w"
  simulateKeeper :: "tx_message \<Rightarrow> 'w \<Rightarrow> simulation late \<times> 'w"
  sendKeeper :: "tx_message \<Rightarrow> 'w \<Rightarrow> string late \<times> 'w"
  confirmKeeper :: "string \<Rightarrow> string \<Rightarrow> jsval \<Rightarrow> 'w \<Rightarrow> jsval late \<times> 'w"
  loadReveal :: "string \<Rightarrow> int \<Rightarrow> 'w \<Rightarrow> bytes res \<times> 'w"
  settlementSource :: "'w \<Rightarrow> evidence_source \<times> 'w"
  httpGet :: "string \<Rightarrow> 'w \<Rightarrow> http_response late \<times> 'w"
  readBody :: "http_response \<Rightarrow> 'w \<Rightarrow> string late \<times> 'w"
  timerFired :: "string \<Rightarrow> 'w \<Rightarrow> bool \<times> 'w"
  sleepFor :: "int \<Rightarrow> 'w \<Rightarrow> 'w"
  dateNow :: "'w \<Rightarrow> int \<times> 'w"

datatype round_event =
    Heartbeat string string jsval
  | StageSet string
  | ConfigRead "server_config res"
  | RoundSeen "server_round option res"
  | ClockRead "int res"
  | RevealLoaded "bytes res"
  | EntropySeen "bytes option res"
  | FinalizedRead string "jsval res"
  | EvidenceRead "settlement_evidence option res"
  | Simulated tx_message
  | KeeperSent tx_message "string res"
  | PlansRun "plan_event list"

text \<open>\<open>emitRoundHeartbeat\<close> and \<open>emitTerminalRoundHeartbeat\<close>: the phase, the stage, which they set, and the outcome.\<close>

definition emitRoundHeartbeat :: "string \<Rightarrow> string \<Rightarrow> jsval \<Rightarrow> ('w, round_event, unit) io" where
  "emitRoundHeartbeat phase stage outcome = log_io (Heartbeat phase stage outcome)"

definition setStage :: "string \<Rightarrow> ('w, round_event, unit) io" where
  "setStage stage = log_io (StageSet stage)"

definition sleep_io :: "'w server_world \<Rightarrow> int \<Rightarrow> ('w, round_event, unit) io" where
  "sleep_io ops ms = read_io (\<lambda>w. (Inr (), sleepFor ops ms w))"

section \<open>Settings\<close>

text \<open>\<open>boundedInteger(value, fallback, minimum, maximum, name)\<close>\<close>

definition bounded_setting :: "jsval \<Rightarrow> int \<Rightarrow> int \<Rightarrow> int \<Rightarrow> string \<Rightarrow> int res" where
  "bounded_setting v fallback minimum maximum name =
     (let bad = AssertionError (name @ '' must be between '' @ show_int minimum @ '' and '' @ show_int maximum) in
      case safe_int (Num (to_num (coalesce v (IntV fallback)))) of
        Some n \<Rightarrow> if minimum \<le> n \<and> n \<le> maximum then Inr n else Inl bad
      | None \<Rightarrow> Inl bad)"

record round_settings =
  rpcTimeoutMs :: int
  transactionTimeoutMs :: int
  transactionFlowTimeoutMs :: int
  autoPlanOperationTimeoutMs :: int
  settlementLateSeconds :: int
  prebindGraceSeconds :: int

definition roundSettings :: "(string \<Rightarrow> jsval) \<Rightarrow> round_settings res" where
  "roundSettings env =
     then_res (bounded_setting (env ''ROUND_KEEPER_RPC_TIMEOUT_MS'') 8000 500 30000 ''ROUND_KEEPER_RPC_TIMEOUT_MS'') (\<lambda>rpc.
     then_res (bounded_setting (env ''ROUND_KEEPER_TRANSACTION_TIMEOUT_MS'') 12000 2000 30000
       ''ROUND_KEEPER_TRANSACTION_TIMEOUT_MS'') (\<lambda>tx.
     then_res (bounded_setting (env ''ROUND_KEEPER_TRANSACTION_FLOW_TIMEOUT_MS'') 30000 5000 55000
       ''ROUND_KEEPER_TRANSACTION_FLOW_TIMEOUT_MS'') (\<lambda>flow.
     then_res (bounded_setting (env ''AUTO_PLAN_OPERATION_TIMEOUT_MS'') 8000 500 30000 ''AUTO_PLAN_OPERATION_TIMEOUT_MS'') (\<lambda>plan.
     case safe_int (Num (to_num (coalesce (env ''ROUND_KEEPER_SETTLEMENT_LATE_SECONDS'') (IntV 5)))) of
       None \<Rightarrow> Inl (AssertionError ''ROUND_KEEPER_SETTLEMENT_LATE_SECONDS must be a positive integer'')
     | Some late \<Rightarrow>
         assert_ok (0 < late) ''ROUND_KEEPER_SETTLEMENT_LATE_SECONDS must be a positive integer'' (
         then_res (bounded_setting (env ''ROUND_KEEPER_PREBIND_GRACE_SECONDS'') 15 2 45 ''ROUND_KEEPER_PREBIND_GRACE_SECONDS'') (\<lambda>grace.
         Inr \<lparr>rpcTimeoutMs = rpc, transactionTimeoutMs = tx, transactionFlowTimeoutMs = flow,
           autoPlanOperationTimeoutMs = plan, settlementLateSeconds = late, prebindGraceSeconds = grace\<rparr>))))))"

definition requiredEnv :: "round_context \<Rightarrow> string \<Rightarrow> string res" where
  "requiredEnv cx name = (let v = trim (env_text (setting cx) name []) in
     assert_ok (v \<noteq> []) (name @ '' is required'') (Inr v))"

text \<open>The checks of the wallet file: 64 bytes.\<close>

definition check_secret :: "jsval \<Rightarrow> unit res" where
  "check_secret secret = (case secret of
     Arr xs \<Rightarrow> assert_ok (length xs = 64) ''ANCHOR_WALLET must contain a keypair''
       (assert_ok (list_all (\<lambda>b. case integer_of b of Some n \<Rightarrow> 0 \<le> n \<and> n \<le> 255 | None \<Rightarrow> False) xs)
         ''ANCHOR_WALLET contains an invalid byte'' (Inr ()))
   | _ \<Rightarrow> Inl (AssertionError ''ANCHOR_WALLET must contain a keypair''))"

definition require_round_id :: "round_context \<Rightarrow> int res" where
  "require_round_id cx = then_res (requiredEnv cx ''MYNE_ROUND_ID'') (\<lambda>s.
     assert_ok (all_digits s) ''MYNE_ROUND_ID must be an unsigned integer'' (Inr (int (read_nat s))))"

definition authorized :: "round_context \<Rightarrow> unit res" where
  "authorized cx = assert_ok (setting cx ''SERVER_RANDOMNESS_KEEPER_LIVE'' = Str (programKey cx))
     (''Set SERVER_RANDOMNESS_KEEPER_LIVE='' @ programKey cx @ '' only after server-mode approval'') (Inr ())"

section \<open>Time\<close>

definition bounded :: "('w \<Rightarrow> 'a late \<times> 'w) \<Rightarrow> int \<Rightarrow> string \<Rightarrow> ('w, round_event, 'a) io" where
  "bounded operation timeoutMs label = read_io (withOperationTimeout operation timeoutMs label None)"

text \<open>
  \<open>withOperationTimeout\<close> around a flow of operations that polls its own timer: \<open>abort\<close> is the error of a poll that
  finds it fired. The caller then sees the error of the timeout, as it does when the timer fires after the last poll.
\<close>

definition with_timer :: "'w server_world \<Rightarrow> int \<Rightarrow> string \<Rightarrow> js_error \<Rightarrow> ('w, round_event, 'a) io \<Rightarrow> ('w, round_event, 'a) io" where
  "with_timer ops timeoutMs label abort m = (\<lambda>s. case m s of (r, w, t) \<Rightarrow>
     if (case r of Inl e \<Rightarrow> e = abort | Inr x \<Rightarrow> False) then (Inl (timeout_error label timeoutMs None), w, t)
     else case timerFired ops label w of (fired, w') \<Rightarrow>
       ((if fired then Inl (timeout_error label timeoutMs None) else r), w', t))"

definition poll_timer :: "'w server_world \<Rightarrow> string \<Rightarrow> js_error \<Rightarrow> ('w, round_event, unit) io" where
  "poll_timer ops label abort = then_io (read_io (\<lambda>w. case timerFired ops label w of (fired, w') \<Rightarrow> (Inr fired, w')))
     (\<lambda>fired. if fired then fail_io abort else ok_io ())"

definition cancelled_error :: js_error where
  "cancelled_error = Error ''Confirmed chain-time observation cancelled''"

abbreviation clock_label :: string where
  "clock_label \<equiv> ''Confirmed chain-time observation''"

text \<open>\<open>Number(error?.code) !== -32004\<close>\<close>

definition missing_block :: "js_error \<Rightarrow> bool" where
  "missing_block e = (case error_code e of None \<Rightarrow> False | Some c \<Rightarrow> parse_number c = Fin (- 32004))"

text \<open>The inner loop: the blocks from \<open>slot\<close> down, with \<open>left\<close> further offsets; \<open>None\<close> when none has a time.\<close>

fun scan_blocks :: "'w server_world \<Rightarrow> int \<Rightarrow> int \<Rightarrow> nat \<Rightarrow> int \<Rightarrow> js_error option
    \<Rightarrow> ('w, round_event, int option \<times> js_error option) io" where
  "scan_blocks ops timeout slot 0 offset lastError = ok_io (None, lastError)"
| "scan_blocks ops timeout slot (Suc left) offset lastError =
     (if slot < offset then ok_io (None, lastError)
      else then_io (poll_timer ops clock_label cancelled_error) (\<lambda>_.
        then_io (catch_io (then_io (bounded (readBlockTime ops (slot - offset)) timeout
            (''Block time read for slot '' @ show_int (slot - offset))) (\<lambda>v. ok_io (Inr v)))
          (\<lambda>e. ok_io (Inl e))) (\<lambda>answer. case answer of
            Inr v \<Rightarrow> (case integer_of v of Some time \<Rightarrow> ok_io (Some time, lastError)
              | None \<Rightarrow> scan_blocks ops timeout slot left (offset + 1) lastError)
          | Inl e \<Rightarrow> if missing_block e then scan_blocks ops timeout slot left (offset + 1) (Some e)
              else ok_io (None, Some e))))"

text \<open>The outer loop, with \<open>left\<close> attempts to go; an error of an attempt is kept for the final message.\<close>

fun read_chain_time :: "'w server_world \<Rightarrow> int \<Rightarrow> nat \<Rightarrow> nat \<Rightarrow> js_error option \<Rightarrow> ('w, round_event, int) io" where
  "read_chain_time ops timeout 0 attempt lastError = fail_io (Error (''Confirmed chain time is temporarily unavailable''
     @ (case lastError of Some e \<Rightarrow> '': '' @ error_message e | None \<Rightarrow> [])))"
| "read_chain_time ops timeout (Suc left) attempt lastError =
     then_io (poll_timer ops clock_label cancelled_error) (\<lambda>_.
     then_io (catch_io
       (then_io (bounded (readSlot ops) timeout ''Confirmed slot read'') (\<lambda>slot. scan_blocks ops timeout slot 16 0 lastError))
       (\<lambda>e. ok_io (None, Some e))) (\<lambda>(found, lastError'). case found of
         Some time \<Rightarrow> ok_io time
       | None \<Rightarrow> then_io (sleep_io ops (min 2000 (200 * 2 ^ attempt))) (\<lambda>_.
           read_chain_time ops timeout left (Suc attempt) lastError')))"

definition readChainTimeSeconds :: "'w server_world \<Rightarrow> round_settings \<Rightarrow> ('w, round_event, int) io" where
  "readChainTimeSeconds ops st = read_chain_time ops (rpcTimeoutMs st) 8 0 None"

text \<open>\<open>chainTimeSeconds\<close>; the trace records its result.\<close>

definition recorded :: "('a res \<Rightarrow> round_event) \<Rightarrow> ('w, round_event, 'a) io \<Rightarrow> ('w, round_event, 'a) io" where
  "recorded event m = (\<lambda>s. case m s of (r, w, t) \<Rightarrow> (r, w, t @ [event r]))"

definition chainTimeSeconds :: "'w server_world \<Rightarrow> round_settings \<Rightarrow> ('w, round_event, int) io" where
  "chainTimeSeconds ops st = recorded ClockRead
     (with_timer ops (min 30000 (rpcTimeoutMs st * 2)) clock_label cancelled_error (readChainTimeSeconds ops st))"

abbreviation seconds :: "int \<Rightarrow> jsnum" where
  "seconds n \<equiv> Fin (of_int n)"

text \<open>An integral Number as an integer; \<open>setTimeout\<close> takes other Numbers as 0.\<close>

definition num_int :: "jsnum \<Rightarrow> int" where
  "num_int x = (case x of Fin r \<Rightarrow> \<lfloor>r\<rfloor> | _ \<Rightarrow> 0)"

text \<open>\<open>waitForChainTimestamp\<close>: \<open>None\<close> when the fuel ends before the wait.\<close>

fun waitForChainTimestamp :: "nat \<Rightarrow> 'w server_world \<Rightarrow> round_settings \<Rightarrow> string \<Rightarrow> jsnum \<Rightarrow> ('w, round_event, unit option) io" where
  "waitForChainTimestamp 0 ops st stage target = ok_io None"
| "waitForChainTimestamp (Suc fuel) ops st stage target =
     then_io (chainTimeSeconds ops st) (\<lambda>now.
     let remaining = num_sub target (seconds now) in
     if num_le remaining (Fin 0) then ok_io (Some ())
     else then_io (emitRoundHeartbeat ''tick-start'' stage (Str (''waiting:'' @ num_to_string remaining @ ''s''))) (\<lambda>_.
       then_io (sleep_io ops (num_int (num_min (Fin 4000) (num_max (Fin 250) (num_mul remaining (Fin 1000)))))) (\<lambda>_.
       waitForChainTimestamp fuel ops st stage target)))"

section \<open>Reads that are repeated\<close>

text \<open>\<open>fetchRoundWithRetry\<close>, with \<open>left\<close> of its twelve attempts to go.\<close>

definition round_or_error :: "(server_round \<Rightarrow> bool) \<Rightarrow> server_round option \<Rightarrow> server_round option" where
  "round_or_error P found = (case found of Some st \<Rightarrow> if P st then Some st else None | None \<Rightarrow> None)"

definition detail_of :: "js_error option \<Rightarrow> string" where
  "detail_of lastError = (case lastError of Some e \<Rightarrow> '': '' @ error_message e | None \<Rightarrow> [])"

fun retry_round :: "'w server_world \<Rightarrow> round_settings \<Rightarrow> string \<Rightarrow> string \<Rightarrow> (server_round \<Rightarrow> bool) \<Rightarrow> string \<Rightarrow> nat \<Rightarrow> nat
    \<Rightarrow> js_error option \<Rightarrow> ('w, round_event, server_round) io" where
  "retry_round ops st roundAddress stage P label 0 attempt lastError =
     fail_io (Error (label @ '' did not become visible'' @ detail_of lastError))"
| "retry_round ops st roundAddress stage P label (Suc left) attempt lastError =
     then_io (emitRoundHeartbeat ''tick-start'' stage (Str (label @ '':attempt-'' @ show_int (int attempt + 1)))) (\<lambda>_.
     then_io (catch_io
       (then_io (call_io (withOperationTimeout (readRound ops roundAddress) (rpcTimeoutMs st) (label @ '' round read'') None) RoundSeen)
         (\<lambda>found. ok_io (round_or_error P found, lastError)))
       (\<lambda>e. ok_io (None, Some e))) (\<lambda>(found, lastError'). case found of
         Some x \<Rightarrow> ok_io x
       | None \<Rightarrow> then_io (sleep_io ops (min 3000 (200 * 2 ^ attempt))) (\<lambda>_.
           retry_round ops st roundAddress stage P label left (Suc attempt) lastError')))"

definition fetchRoundWithRetry :: "'w server_world \<Rightarrow> round_settings \<Rightarrow> string \<Rightarrow> string \<Rightarrow> (server_round \<Rightarrow> bool) \<Rightarrow> string
    \<Rightarrow> ('w, round_event, server_round) io" where
  "fetchRoundWithRetry ops st roundAddress stage P label = retry_round ops st roundAddress stage P label 12 0 None"

text \<open>\<open>finalizedTransactionTimeSeconds\<close>, with \<open>left\<close> of its twenty attempts to go.\<close>

fun retry_finalized :: "'w server_world \<Rightarrow> round_settings \<Rightarrow> string \<Rightarrow> string \<Rightarrow> nat \<Rightarrow> nat \<Rightarrow> js_error option
    \<Rightarrow> ('w, round_event, int) io" where
  "retry_finalized ops st signature label 0 attempt lastError =
     fail_io (Error (label @ '' finalized chain time is unavailable'' @ detail_of lastError))"
| "retry_finalized ops st signature label (Suc left) attempt lastError =
     then_io (emitRoundHeartbeat ''tick-start'' ''awaiting-settlement-finality''
       (Str (label @ '':attempt-'' @ show_int (int attempt + 1)))) (\<lambda>_.
     then_io (catch_io
       (then_io (call_io (withOperationTimeout (readTransaction ops signature) (rpcTimeoutMs st)
           (label @ '' finalized transaction read'') None) (FinalizedRead signature))
         (\<lambda>transaction. ok_io (safe_int (opt_member transaction ''blockTime''), lastError)))
       (\<lambda>e. ok_io (None, Some e))) (\<lambda>(time, lastError'). case time of
         Some n \<Rightarrow> ok_io n
       | None \<Rightarrow> then_io (sleep_io ops (min 1500 (250 * 2 ^ min attempt 3))) (\<lambda>_.
           retry_finalized ops st signature label left (Suc attempt) lastError')))"

definition finalizedTransactionTimeSeconds :: "'w server_world \<Rightarrow> round_settings \<Rightarrow> string \<Rightarrow> string \<Rightarrow> ('w, round_event, int) io" where
  "finalizedTransactionTimeSeconds ops st signature label = retry_finalized ops st signature label 20 0 None"

section \<open>Transactions\<close>

text \<open>\<open>Number(process.env.KEEPER_PRIORITY_MICROLAMPORTS || 0)\<close>\<close>

definition priorityMicroLamports :: "round_context \<Rightarrow> jsnum" where
  "priorityMicroLamports cx = to_num (js_or (setting cx ''KEEPER_PRIORITY_MICROLAMPORTS'') (IntV 0))"

record keeper_build =
  builtMessage :: tx_message
  builtBlockhash :: string
  builtLastValid :: jsval

definition buildKeeperTransaction :: "round_context \<Rightarrow> 'w server_world \<Rightarrow> round_settings \<Rightarrow> instruction list \<Rightarrow> jsnum
    \<Rightarrow> ('w, round_event, keeper_build) io" where
  "buildKeeperTransaction cx ops st ixs units =
     then_io (bounded (readBlockhash ops ''confirmed'') (rpcTimeoutMs st) ''Latest confirmed blockhash'') (\<lambda>(blockhash, lastValid).
     ok_io \<lparr>builtMessage = \<lparr>payerKey = keeperWallet cx, recentBlockhash = blockhash, message_instructions =
         SetComputeUnitLimit units
         # (if num_lt (Fin 0) (priorityMicroLamports cx)
            then [SetComputeUnitPrice (num_min (Fin 1000000) (priorityMicroLamports cx))] else [])
         @ map Call ixs\<rparr>,
       builtBlockhash = blockhash, builtLastValid = lastValid\<rparr>)"

record keeper_sent =
  sentSignature :: string
  sentMeasuredUnits :: jsnum
  sentComputeLimit :: jsnum

definition flow_error :: "string \<Rightarrow> js_error" where
  "flow_error label = CodedError OPERATION_TIMEOUT_CODE (label @ '' transaction flow timed out'')"

text \<open>\<open>assertFlowActive\<close>\<close>

definition assertFlowActive :: "'w server_world \<Rightarrow> string \<Rightarrow> ('w, round_event, unit) io" where
  "assertFlowActive ops label = poll_timer ops (label @ '' transaction flow'') (flow_error label)"

text \<open>The flow up to the measured units, and from the second build on.\<close>

definition keeper_submit :: "round_context \<Rightarrow> 'w server_world \<Rightarrow> round_settings \<Rightarrow> string \<Rightarrow> instruction list \<Rightarrow> string \<Rightarrow> jsnum
    \<Rightarrow> ('w, round_event, keeper_sent) io" where
  "keeper_submit cx ops st stage ixs label measured =
     then_io (buildKeeperTransaction cx ops st ixs (computeLimit measured)) (\<lambda>final.
     then_io (assertFlowActive ops label) (\<lambda>_.
     then_io (call_io (withOperationTimeout (sendKeeper ops (builtMessage final)) (transactionTimeoutMs st) (label @ '' send'') None)
       (KeeperSent (builtMessage final))) (\<lambda>signature.
     then_io (assertFlowActive ops label) (\<lambda>_.
     then_io (emitRoundHeartbeat ''tick-start'' stage (Str (label @ '':sent:'' @ signature))) (\<lambda>_.
     then_io (bounded (confirmKeeper ops signature (builtBlockhash final) (builtLastValid final)) (transactionTimeoutMs st)
       (label @ '' confirmation'')) (\<lambda>failure.
     then_io (assertFlowActive ops label) (\<lambda>_.
     then_io (lift_io (stringify failure)) (\<lambda>failed.
     assert_io (failure = Null) (''Keeper transaction failed: '' @ failed)
     (then_io (emitRoundHeartbeat ''tick-start'' stage (Str (label @ '':confirmed:'' @ signature))) (\<lambda>_.
      ok_io \<lparr>sentSignature = signature, sentMeasuredUnits = measured, sentComputeLimit = computeLimit measured\<rparr>))))))))))"

definition keeper_flow :: "round_context \<Rightarrow> 'w server_world \<Rightarrow> round_settings \<Rightarrow> string \<Rightarrow> instruction list \<Rightarrow> string
    \<Rightarrow> ('w, round_event, keeper_sent) io" where
  "keeper_flow cx ops st stage ixs label =
     then_io (buildKeeperTransaction cx ops st ixs (Fin 1400000)) (\<lambda>draft.
     then_io (assertFlowActive ops label) (\<lambda>_.
     then_io (log_io (Simulated (builtMessage draft))) (\<lambda>_.
     then_io (bounded (simulateKeeper ops (builtMessage draft)) (transactionTimeoutMs st) (label @ '' simulation'')) (\<lambda>sim.
     then_io (assertFlowActive ops label) (\<lambda>_.
     then_io (lift_io (stringify (sim_err sim))) (\<lambda>err.
     assert_io (sim_err sim = Null) (''Keeper simulation failed: '' @ err @ [CHR 0x0A] @ join [CHR 0x0A] (sim_logs sim))
     (then_io (emitRoundHeartbeat ''tick-start'' stage (Str (label @ '':simulated''))) (\<lambda>_.
      keeper_submit cx ops st stage ixs label (measuredUnits 1400000 (unitsConsumed sim))))))))))"

definition sendKeeperInstructions :: "round_context \<Rightarrow> 'w server_world \<Rightarrow> round_settings \<Rightarrow> string \<Rightarrow> instruction list \<Rightarrow> string
    \<Rightarrow> ('w, round_event, keeper_sent) io" where
  "sendKeeperInstructions cx ops st stage ixs label =
     with_timer ops (transactionFlowTimeoutMs st) (label @ '' transaction flow'') (flow_error label)
       (keeper_flow cx ops st stage ixs label)"

section \<open>The round this process owns\<close>

record round_job =
  jobSettings :: round_settings
  jobId :: int
  jobSeed :: bytes
  jobConfig :: server_config
  jobOpenedAt :: jsnum
  jobBettingEndsAt :: jsnum

abbreviation configKey :: "round_context \<Rightarrow> string" where
  "configKey cx \<equiv> derive cx [text_bytes ''config'']"

abbreviation stakePoolKey :: "round_context \<Rightarrow> string" where
  "stakePoolKey cx \<equiv> derive cx [text_bytes ''stake_pool'']"

definition jobAddress :: "round_context \<Rightarrow> round_job \<Rightarrow> string" where
  "jobAddress cx job = derive cx [text_bytes ''round'', jobSeed job]"

abbreviation jobTimeout :: "round_job \<Rightarrow> int" where
  "jobTimeout job \<equiv> rpcTimeoutMs (jobSettings job)"

text \<open>The deadlines of the heartbeats. Settlement is eligible when betting closes.\<close>

definition settleDeadline :: "round_job \<Rightarrow> jsnum" where
  "settleDeadline job = num_add (jobBettingEndsAt job) (seconds (settlementLateSeconds (jobSettings job)))"

definition prebindDeadline :: "round_job \<Rightarrow> jsnum" where
  "prebindDeadline job = num_add (num_add (num_sub (jobOpenedAt job) (to_num (BN (cfgBettingDuration (jobConfig job)))))
     (seconds PROVIDER_PREPARATION_SAFETY_MARGIN_SECONDS)) (seconds (prebindGraceSeconds (jobSettings job)))"

definition schedule_job :: "round_settings \<Rightarrow> int \<Rightarrow> server_config \<Rightarrow> round_job res" where
  "schedule_job st rid cfg =
     (let number = to_num (Big rid) in
      assert_ok (safe_int (Num number) \<noteq> None) ''MYNE_ROUND_ID exceeds the safe schedule range'' (
      let openedAt = num_add (to_num (BN (cfgInitializedAt cfg))) (num_mul number (to_num (BN (cfgRoundDuration cfg)))) in
      then_res (writeBigUInt64LE rid) (\<lambda>seed.
      Inr \<lparr>jobSettings = st, jobId = rid, jobSeed = seed, jobConfig = cfg, jobOpenedAt = openedAt,
        jobBettingEndsAt = num_add openedAt (to_num (BN (cfgBettingDuration cfg)))\<rparr>)))"

definition byte_values :: "bytes \<Rightarrow> jsval" where
  "byte_values bs = Arr (map (\<lambda>b. IntV (uint b)) bs)"

definition openRoundIx :: "round_context \<Rightarrow> round_job \<Rightarrow> instruction" where
  "openRoundIx cx job = Instruction ''openRound'' [BN (jobId job)]
     [(''config'', Key (configKey cx)), (''round'', Key (jobAddress cx job)), (''payer'', Key (keeperWallet cx)),
      (''systemProgram'', Key ''11111111111111111111111111111111'')]"

definition bindCommitmentIx :: "round_context \<Rightarrow> round_job \<Rightarrow> bytes \<Rightarrow> instruction" where
  "bindCommitmentIx cx job commitment = Instruction ''bindRoundServerCommitment'' [BN (jobId job), byte_values commitment]
     [(''config'', Key (configKey cx)), (''round'', Key (jobAddress cx job)), (''authority'', Key (keeperWallet cx))]"

definition lockEntropyIx :: "round_context \<Rightarrow> round_job \<Rightarrow> instruction" where
  "lockEntropyIx cx job = Instruction ''lockRoundServerEntropy'' [BN (jobId job)]
     [(''config'', Key (configKey cx)), (''round'', Key (jobAddress cx job)), (''executor'', Key (keeperWallet cx))]"

definition key_option :: "string option \<Rightarrow> jsval" where
  "key_option k = (case k of None \<Rightarrow> Null | Some s \<Rightarrow> Key s)"

definition settleRoundIx :: "round_context \<Rightarrow> round_job \<Rightarrow> server_gate \<Rightarrow> bytes \<Rightarrow> instruction" where
  "settleRoundIx cx job gate reveal = Instruction ''settleRoundServer'' [byte_values reveal]
     [(''config'', Key (configKey cx)), (''stakePool'', Key (stakePoolKey cx)), (''round'', Key (jobAddress cx job)),
      (''liquidityGate'', Key (derive cx [text_bytes ''liquidity_gate''])), (''liquidityPool'', Key (gatePool gate)),
      (''myneVault'', key_option (gateMyneVault gate)), (''solVault'', key_option (gateSolVault gate)),
      (''slotHashes'', Key ''SysvarS1otHashes111111111111111111111111111''),
      (''buybackWallet'', Key (cfgBuybackWallet (jobConfig job))), (''adminFeeWallet'', Key (cfgAdminFeeWallet (jobConfig job))),
      (''executor'', Key (keeperWallet cx))]"

section \<open>Recovered settlements\<close>

definition read_evidence :: "round_context \<Rightarrow> 'w server_world \<Rightarrow> round_job \<Rightarrow> ('w, round_event, settlement_evidence option) io" where
  "read_evidence cx ops job = recorded EvidenceRead (\<lambda>(w, t). case settlementSource ops w of (src, w') \<Rightarrow>
     (findFinalizedRoundSettlementEvidence src (Key (jobAddress cx job)) (Big (jobId job)) (IntV 4) (IntV 1000), w', t))"

text \<open>The outcome of the heartbeat: an error message that is not empty goes before the verdict.\<close>

definition audit_outcome :: "round_job \<Rightarrow> string + settlement_evidence option \<Rightarrow> verdict \<Rightarrow> string" where
  "audit_outcome job r result = (case r of
     Inl message \<Rightarrow> if message = [] then verdict_outcome result
       else ''finalized-settlement-evidence-unavailable:'' @ message @ '';deadline-exclusive:'' @ num_to_string (settleDeadline job)
   | Inr ev \<Rightarrow> verdict_outcome result)"

definition auditRecoveredSettlement :: "round_context \<Rightarrow> 'w server_world \<Rightarrow> round_job \<Rightarrow> ('w, round_event, bool) io" where
  "auditRecoveredSettlement cx ops job =
     then_io (catch_io (then_io (read_evidence cx ops job) (\<lambda>ev. ok_io (Inr ev))) (\<lambda>e. ok_io (Inl (error_message e)))) (\<lambda>r.
     then_io (lift_io (classifyFinalizedRoundSettlementEvidence (case r of Inl e \<Rightarrow> None | Inr ev \<Rightarrow> ev)
       (Big (jobId job)) (Num (settleDeadline job)))) (\<lambda>result.
     then_io (if deadlineMet result
        then emitRoundHeartbeat ''tick-complete'' ''settled'' (Str (audit_outcome job r result))
        else emitRoundHeartbeat ''tick-error'' ''settlement-deadline-missed'' (Str (audit_outcome job r result))) (\<lambda>_.
     ok_io (deadlineMet result))))"

section \<open>Prepaid plans\<close>

text \<open>\<open>indexedRows\<close>\<close>

definition indexed_rows :: "round_context \<Rightarrow> 'w server_world \<Rightarrow> round_settings \<Rightarrow> string \<Rightarrow> ('w, round_event, jsval) io" where
  "indexed_rows cx ops st path =
     then_io (emitRoundHeartbeat ''tick-start'' ''auto-plan-index'' (Str ''reading-active-plans'')) (\<lambda>_.
     then_io (bounded (httpGet ops (base_url (setting cx) @ ''/rest/v1/'' @ path)) (autoPlanOperationTimeoutMs st)
       ''Auto-plan index HTTP request'') (\<lambda>response.
     then_io (bounded (readBody ops response) (autoPlanOperationTimeoutMs st) ''Auto-plan index response body'') (\<lambda>text.
     assert_io (response_ok response) (''Indexed read failed ('' @ show_int (status response) @ ''): '' @ text)
       (if text = [] then ok_io (Arr []) else lift_io (JSON_parse text)))))"

text \<open>
  An entry holds its instructions as values: the call, the plan's authority and the nonce. The addresses of their
  accounts are derived when the batch is sent.
\<close>

definition reinvest_value :: "string \<Rightarrow> jsval" where
  "reinvest_value authority = Obj [(''call'', Str ''reinvestAutoPlanRewards''), (''authority'', Str authority)]"

definition execute_value :: "string \<Rightarrow> int \<Rightarrow> jsval" where
  "execute_value authority nonce = Obj [(''call'', Str ''executeAutoPlan''), (''authority'', Str authority), (''nonce'', BN nonce)]"

text \<open>What follows the reads: whether the plan runs in this round, and with which instructions.\<close>

definition plan_entry :: "round_job \<Rightarrow> int \<Rightarrow> string \<Rightarrow> jsval \<Rightarrow> int \<Rightarrow> jsval \<Rightarrow> bool \<Rightarrow> jsval \<Rightarrow> jsval \<Rightarrow> jsval res" where
  "plan_entry job receiptRent authority plan perRound rewardMode reinvest position pool =
     then_res (autoPlanExecutionFunding rewardMode (opt_member plan ''balanceLamports'')
         (coalesce (opt_member position ''pendingSol'') (IntV 0)) (Big (perRound + receiptRent))
         (coalesce (opt_member pool ''rewardPerWeight'') (IntV 0)) (coalesce (opt_member position ''rewardWeight'') (IntV 0))
         (coalesce (opt_member position ''rewardDebt'') (IntV 0))) (\<lambda>funding.
     if \<not> truthy (opt_member plan ''active'') \<or> \<not> fundingExecutable funding then Inr Null
     else then_res (asBig (opt_member plan ''lastRound'')) (\<lambda>lastRound.
       if lastRound = jobId job then Inr Null
       else then_res (asBig (opt_member plan ''nextNonce'')) (\<lambda>nonce.
         then_res (writeBigUInt64LE nonce) (\<lambda>_.
         Inr (Obj [(''authority'', Str authority),
           (''ixs'', Arr ((if reinvest \<and> 0 < fundedPendingSol funding then [reinvest_value authority] else [])
             @ [execute_value authority nonce]))])))))"

text \<open>
  \<open>readAutoPlanStakePool\<close> keeps the account of the first read that succeeds for the whole window; \<open>cache\<close> is what it
  holds, and it is part of the result.
\<close>

definition stake_pool_once :: "'w server_world \<Rightarrow> round_settings \<Rightarrow> jsval option \<Rightarrow> ('w, round_event, jsval) io" where
  "stake_pool_once ops st cache = (case cache of Some pool \<Rightarrow> ok_io pool
     | None \<Rightarrow> bounded (readStakePool ops) (autoPlanOperationTimeoutMs st) ''Auto-plan stake pool read'')"

definition plan_cost :: "jsval \<Rightarrow> int res" where
  "plan_cost plan = (case opt_member plan ''amounts'' of
     Arr amounts \<Rightarrow> fold_res (\<lambda>amount acc. then_res (asBig amount) (\<lambda>n. Inr (acc + n))) amounts 0
   | _ \<Rightarrow> Inl (TypeError ''reduce is not a function''))"

definition plan_mode :: "jsval \<Rightarrow> jsval" where
  "plan_mode plan = Num (to_num (coalesce (opt_member plan ''rewardMode'') (IntV 0)))"

text \<open>\<open>(rewardMode & 2) !== 0\<close>, for the integer that the account holds.\<close>

definition mode_reinvests :: "jsval \<Rightarrow> bool" where
  "mode_reinvests rewardMode = (case integer_of rewardMode of Some n \<Rightarrow> n div 2 mod 2 \<noteq> 0 | None \<Rightarrow> False)"

definition owned_by :: "jsval \<Rightarrow> string \<Rightarrow> bool" where
  "owned_by v authority = (truthy v \<and> opt_member v ''authority'' = Key authority)"

definition fund_entry :: "round_context \<Rightarrow> 'w server_world \<Rightarrow> round_job \<Rightarrow> int \<Rightarrow> jsval option \<Rightarrow> string \<Rightarrow> jsval \<Rightarrow> int
    \<Rightarrow> ('w, round_event, jsval res \<times> jsval option) io" where
  "fund_entry cx ops job receiptRent cache authority plan perRound =
     (let st = jobSettings job; mode = plan_mode plan in
      if \<not> mode_reinvests mode
      then ok_io (plan_entry job receiptRent authority plan perRound mode False Undef Undef, cache)
      else
        then_io (bounded (readPosition ops (derive cx [text_bytes ''stake_position'', keyBytes cx authority]))
          (autoPlanOperationTimeoutMs st) (''Stake position read for '' @ authority)) (\<lambda>position.
        if \<not> owned_by position authority then ok_io (Inr Null, cache)
        else then_io (stake_pool_once ops st cache) (\<lambda>stake.
          ok_io (plan_entry job receiptRent authority plan perRound mode True position stake, Some stake))))"

definition build_entry :: "round_context \<Rightarrow> 'w server_world \<Rightarrow> round_job \<Rightarrow> int \<Rightarrow> jsval option \<Rightarrow> string
    \<Rightarrow> ('w, round_event, jsval res \<times> jsval option) io" where
  "build_entry cx ops job receiptRent cache indexedAuthority =
     then_io (emitRoundHeartbeat ''tick-start'' ''auto-plan-read'' (Str indexedAuthority)) (\<lambda>_.
     then_io (lift_io (parseKey cx indexedAuthority)) (\<lambda>authority.
     then_io (bounded (readPlan ops (derive cx [text_bytes ''auto_plan'', keyBytes cx authority]))
       (autoPlanOperationTimeoutMs (jobSettings job)) (''Auto-plan read for '' @ authority)) (\<lambda>plan.
     if \<not> owned_by plan authority then ok_io (Inr Null, cache)
     else then_io (lift_io (plan_cost plan)) (\<lambda>perRound.
       fund_entry cx ops job receiptRent cache authority plan perRound))))"

definition executePlanIx :: "round_context \<Rightarrow> round_job \<Rightarrow> string \<Rightarrow> int \<Rightarrow> instruction" where
  "executePlanIx cx job authority nonce =
     (let key = keyBytes cx authority in
      Instruction ''executeAutoPlan'' [BN (jobId job), BN nonce]
       [(''config'', Key (configKey cx)), (''autoPlan'', Key (derive cx [text_bytes ''auto_plan'', key])),
        (''miner'', Key (derive cx [text_bytes ''miner'', key])), (''round'', Key (jobAddress cx job)),
        (''receipt'', Key (derive cx [text_bytes ''bet'', jobSeed job, key, le_bytes 8 nonce])),
        (''executor'', Key (keeperWallet cx)), (''randomnessAccount'', Null),
        (''systemProgram'', Key ''11111111111111111111111111111111'')])"

definition reinvestIx :: "round_context \<Rightarrow> string \<Rightarrow> instruction" where
  "reinvestIx cx authority =
     (let key = keyBytes cx authority in
      Instruction ''reinvestAutoPlanRewards'' []
       [(''config'', Key (configKey cx)), (''autoPlan'', Key (derive cx [text_bytes ''auto_plan'', key])),
        (''stakePool'', Key (stakePoolKey cx)), (''stakePosition'', Key (derive cx [text_bytes ''stake_position'', key])),
        (''executor'', Key (keeperWallet cx))])"

definition plan_ix :: "round_context \<Rightarrow> round_job \<Rightarrow> jsval \<Rightarrow> instruction" where
  "plan_ix cx job v =
     (if opt_member v ''call'' = Str ''executeAutoPlan''
      then executePlanIx cx job (to_str (opt_member v ''authority'')) (case opt_member v ''nonce'' of BN n \<Rightarrow> n | _ \<Rightarrow> 0)
      else reinvestIx cx (to_str (opt_member v ''authority'')))"

definition batch_ixs :: "round_context \<Rightarrow> round_job \<Rightarrow> jsval list \<Rightarrow> instruction list" where
  "batch_ixs cx job batch = concat (map (\<lambda>entry. case opt_member entry ''ixs'' of Arr xs \<Rightarrow> map (plan_ix cx job) xs | _ \<Rightarrow> []) batch)"

definition send_batch :: "round_context \<Rightarrow> 'w server_world \<Rightarrow> round_job \<Rightarrow> jsval list \<Rightarrow> ('w, round_event, jsval) io" where
  "send_batch cx ops job batch =
     then_io (emitRoundHeartbeat ''tick-start'' ''auto-plan-send'' (Str (''batch:'' @ show_int (int (length batch))))) (\<lambda>_.
     then_io (sendKeeperInstructions cx ops (jobSettings job) ''auto-plan-send'' (batch_ixs cx job batch) ''Auto-plan execution'') (\<lambda>sent.
     ok_io (Obj [(''signature'', Str (sentSignature sent)), (''measuredUnits'', Num (sentMeasuredUnits sent)),
       (''computeLimit'', Num (sentComputeLimit sent))])))"

text \<open>
  The executor runs on a world of its own: this process with its trace, and the cached stake pool. A callback is late
  when the executor's timer has fired by its end.
\<close>

type_synonym 'w plan_world = "('w \<times> round_event list) \<times> jsval option"

definition timed_call :: "'w server_world \<Rightarrow> string \<Rightarrow> ('w, round_event, 'a) io \<Rightarrow> 'w plan_world \<Rightarrow> 'a late \<times> 'w plan_world" where
  "timed_call ops label m = (\<lambda>(s, cache). case m s of (r, w, t) \<Rightarrow> case timerFired ops label w of (fired, w') \<Rightarrow>
     ((if fired then Late else Settles r), ((w', t), cache)))"

definition entry_call :: "round_context \<Rightarrow> 'w server_world \<Rightarrow> round_job \<Rightarrow> int \<Rightarrow> string \<Rightarrow> 'w plan_world \<Rightarrow> jsval late \<times> 'w plan_world" where
  "entry_call cx ops job receiptRent authority = (\<lambda>(s, cache). case build_entry cx ops job receiptRent cache authority s of (r, w, t) \<Rightarrow>
     case timerFired ops (''Auto-plan account '' @ authority) w of (fired, w') \<Rightarrow>
     (case r of Inl e \<Rightarrow> ((if fired then Late else Settles (Inl e)), ((w', t), cache))
      | Inr (entry, cache') \<Rightarrow> ((if fired then Late else Settles entry), ((w', t), cache'))))"

definition plan_window :: "nat \<Rightarrow> round_context \<Rightarrow> 'w server_world \<Rightarrow> round_job \<Rightarrow> int
    \<Rightarrow> ('w plan_world, plan_event, unit option) io" where
  "plan_window fuel cx ops job receiptRent =
     (let st = jobSettings job in
      executeAutoPlansDuringWindow fuel (num_int (jobBettingEndsAt job))
        (timed_call ops ''Auto-plan chain time'' (chainTimeSeconds ops st))
        (\<lambda>ms ((w, t), cache). ((sleepFor ops ms w, t), cache))
        (\<lambda>path. timed_call ops ''Auto-plan index page'' (indexed_rows cx ops st path))
        (entry_call cx ops job receiptRent)
        (\<lambda>batch. timed_call ops ''Auto-plan batch'' (send_batch cx ops job batch))
        (js_or (setting cx ''AUTO_PLAN_BATCH_SIZE'') (IntV 4)) (js_or (setting cx ''AUTO_PLAN_RETRY_MS'') (IntV 5000))
        (IntV (autoPlanOperationTimeoutMs st)) (IntV (transactionFlowTimeoutMs st + 1000)))"

definition execute_plans :: "nat \<Rightarrow> round_context \<Rightarrow> 'w server_world \<Rightarrow> round_job \<Rightarrow> int \<Rightarrow> ('w, round_event, unit option) io" where
  "execute_plans fuel cx ops job receiptRent = (\<lambda>s. case plan_window fuel cx ops job receiptRent ((s, None), []) of
     (r, ((w, t), cache), plans) \<Rightarrow> (r, w, t @ [PlansRun plans]))"

section \<open>The life of the round\<close>

text \<open>How the process ends: \<open>process.exit\<close>, the end of the module, or, in the model only, the end of the fuel.\<close>

datatype keeper_exit = ExitCode int | Completed bool | StillWaiting

text \<open>After a wait.\<close>

definition after_wait :: "('w, round_event, unit option) io \<Rightarrow> ('w, round_event, keeper_exit) io \<Rightarrow> ('w, round_event, keeper_exit) io" where
  "after_wait m k = then_io m (\<lambda>r. case r of None \<Rightarrow> ok_io StillWaiting | Some u \<Rightarrow> k)"

definition recovered_exit :: "round_context \<Rightarrow> 'w server_world \<Rightarrow> round_job \<Rightarrow> ('w, round_event, keeper_exit) io" where
  "recovered_exit cx ops job = then_io (auditRecoveredSettlement cx ops job) (\<lambda>_. ok_io (ExitCode 0))"

text \<open>The last step: publish the secret, and report whether the settlement was final in time.\<close>

definition settled_in_time :: "round_job \<Rightarrow> int option \<Rightarrow> bool res" where
  "settled_in_time job finalizedAt = (case finalizedAt of None \<Rightarrow> Inr False
     | Some n \<Rightarrow> settlementConfirmedWithinResultWindow (IntV n) (Num (settleDeadline job)))"

definition missed_outcome :: "round_job \<Rightarrow> string + int \<Rightarrow> string" where
  "missed_outcome job finality = (case finality of
     Inl message \<Rightarrow> if message = [] then ''confirmed-at:null;deadline-exclusive:'' @ num_to_string (settleDeadline job)
       else ''finalized-time-unavailable:'' @ message
   | Inr n \<Rightarrow> ''confirmed-at:'' @ show_int n @ '';deadline-exclusive:'' @ num_to_string (settleDeadline job))"

definition report_settlement :: "'w server_world \<Rightarrow> round_job \<Rightarrow> string \<Rightarrow> ('w, round_event, keeper_exit) io" where
  "report_settlement ops job signature =
     then_io (catch_io
       (then_io (finalizedTransactionTimeSeconds ops (jobSettings job) signature ''Server round settlement'') (\<lambda>n. ok_io (Inr n)))
       (\<lambda>e. ok_io (Inl (error_message e)))) (\<lambda>finality.
     then_io (lift_io (settled_in_time job (case finality of Inl e \<Rightarrow> None | Inr n \<Rightarrow> Some n))) (\<lambda>met.
     then_io (if met then emitRoundHeartbeat ''tick-complete'' ''settled'' (Str signature)
        else emitRoundHeartbeat ''tick-error'' ''settlement-deadline-missed'' (Str (missed_outcome job finality))) (\<lambda>_.
     ok_io (Completed met))))"

definition settle_round :: "round_context \<Rightarrow> 'w server_world \<Rightarrow> round_job \<Rightarrow> bytes \<Rightarrow> ('w, round_event, keeper_exit) io" where
  "settle_round cx ops job reveal =
     (let st = jobSettings job in
      then_io (chainTimeSeconds ops st) (\<lambda>startedAt.
      let late = num_le (settleDeadline job) (seconds startedAt);
          stage = (if late then ''settlement-deadline-missed'' else ''settlement-ready'') in
      then_io (if late
         then emitRoundHeartbeat ''tick-error'' stage (Str (''late-by:'' @ num_to_string (num_sub (seconds startedAt) (settleDeadline job)) @ ''s''))
         else emitRoundHeartbeat ''tick-start'' stage (Str (''deadline:'' @ num_to_string (settleDeadline job)))) (\<lambda>_.
      then_io (bounded (readGate ops) (rpcTimeoutMs st) ''Liquidity gate read'') (\<lambda>gate.
      assert_io (gateVerified gate) ''Liquidity gate is not verified''
      (assert_io (gateMyneVault gate \<noteq> None \<and> gateSolVault gate \<noteq> None) ''Liquidity gate has no verified token vaults''
       (then_io (sendKeeperInstructions cx ops st stage [settleRoundIx cx job gate reveal] ''Server round settlement'') (\<lambda>sent.
        then_io (fetchRoundWithRetry ops st (jobAddress cx job) stage isSettled ''Server round settlement'') (\<lambda>_.
        report_settlement ops job (sentSignature sent)))))))))"

text \<open>The wait for the entropy slot; \<open>lastBeat\<close> is when the last heartbeat of the wait was sent.\<close>

fun await_entropy :: "nat \<Rightarrow> 'w server_world \<Rightarrow> round_settings \<Rightarrow> jsnum \<Rightarrow> int \<Rightarrow> int \<Rightarrow> ('w, round_event, unit option) io" where
  "await_entropy 0 ops st refundAt target lastBeat = ok_io None"
| "await_entropy (Suc fuel) ops st refundAt target lastBeat =
     then_io (chainTimeSeconds ops st) (\<lambda>now.
     assert_io (num_lt (seconds now) refundAt) ''Future entropy slot was not retained before refund''
     (then_io (call_io (withOperationTimeout (readSlotHashes ops) (rpcTimeoutMs st) ''SlotHashes sysvar read'' None) EntropySeen) (\<lambda>found.
      then_io (lift_io (case found of None \<Rightarrow> Inr False | Some data \<Rightarrow> serverEntropyAvailable data (Big target))) (\<lambda>available.
      if available then ok_io (Some ())
      else then_io (read_io (\<lambda>w. case dateNow ops w of (n, w') \<Rightarrow> (Inr n, w'))) (\<lambda>date.
        then_io (if 1000 \<le> date - lastBeat
           then emitRoundHeartbeat ''tick-start'' ''awaiting-entropy'' (Str (''target-slot:'' @ show_int target)) else ok_io ()) (\<lambda>_.
        then_io (sleep_io ops 150) (\<lambda>_.
        await_entropy fuel ops st refundAt target (if 1000 \<le> date - lastBeat then date else lastBeat))))))))"

definition after_lock :: "nat \<Rightarrow> round_context \<Rightarrow> 'w server_world \<Rightarrow> round_job \<Rightarrow> jsnum \<Rightarrow> bytes \<Rightarrow> server_round
    \<Rightarrow> ('w, round_event, keeper_exit) io" where
  "after_lock fuel cx ops job refundAt reveal locked =
     (let st = jobSettings job in
      if isSettled locked then recovered_exit cx ops job
      else then_io (chainTimeSeconds ops st) (\<lambda>now.
        assert_io (num_lt (seconds now) refundAt) ''Round reached its refund window before server settlement''
        (then_io (lift_io (decodeServerEntropySlot (BN (commitSlot locked)))) (\<lambda>target.
         after_wait (await_entropy fuel ops st refundAt target 0)
         (then_io (setStage ''awaiting-settlement-window'') (\<lambda>_.
          after_wait (waitForChainTimestamp fuel ops st ''awaiting-settlement-window'' (jobBettingEndsAt job))
            (settle_round cx ops job reveal)))))))"

definition lock_round :: "nat \<Rightarrow> round_context \<Rightarrow> 'w server_world \<Rightarrow> round_job \<Rightarrow> jsnum \<Rightarrow> bytes \<Rightarrow> ('w, round_event, keeper_exit) io" where
  "lock_round fuel cx ops job refundAt reveal =
     (let st = jobSettings job in
      then_io (call_io (withOperationTimeout (readRound ops (jobAddress cx job)) (rpcTimeoutMs st) ''Betting-close round read'' None)
        RoundSeen) (\<lambda>found. case found of
        None \<Rightarrow> fail_io (Error (''Account does not exist or has no data '' @ jobAddress cx job))
      | Some current \<Rightarrow>
        if \<not> isSettled current \<and> commitSlot current = SERVER_RANDOMNESS_PENDING
        then then_io (sendKeeperInstructions cx ops st ''betting-closed'' [lockEntropyIx cx job] ''Server entropy lock'') (\<lambda>sent.
          then_io (fetchRoundWithRetry ops st (jobAddress cx job) ''betting-closed''
            (\<lambda>x. commitSlot x \<noteq> SERVER_RANDOMNESS_PENDING) ''Future server entropy slot lock'') (\<lambda>locked.
          then_io (chainTimeSeconds ops st) (\<lambda>lockedAt.
          then_io (if num_le (settleDeadline job) (seconds lockedAt)
             then emitRoundHeartbeat ''tick-error'' ''lock-deadline-missed''
               (Str (''late-by:'' @ num_to_string (num_sub (seconds lockedAt) (jobBettingEndsAt job)) @ ''s''))
             else ok_io ()) (\<lambda>_.
          then_io (emitRoundHeartbeat ''tick-start'' ''entropy-locked'' (Str (sentSignature sent))) (\<lambda>_.
          after_lock fuel cx ops job refundAt reveal locked)))))
        else after_lock fuel cx ops job refundAt reveal current))"

text \<open>Betting: the prepaid plans run until it closes.\<close>

definition betting :: "nat \<Rightarrow> round_context \<Rightarrow> 'w server_world \<Rightarrow> round_job \<Rightarrow> ('w, round_event, unit option) io" where
  "betting fuel cx ops job =
     (let st = jobSettings job in
      then_io (emitRoundHeartbeat ''tick-start'' ''betting-open'' (Str (''closes:'' @ num_to_string (jobBettingEndsAt job)))) (\<lambda>_.
      then_io (chainTimeSeconds ops st) (\<lambda>now.
      if num_lt (seconds now) (jobBettingEndsAt job)
      then then_io (bounded (readRent ops) (rpcTimeoutMs st) ''Bet receipt rent exemption read'') (\<lambda>rent.
        then_io (lift_io (to_bigint rent)) (\<lambda>receiptRent.
        execute_plans fuel cx ops job receiptRent))
      else ok_io (Some ()))))"

definition play_round :: "nat \<Rightarrow> round_context \<Rightarrow> 'w server_world \<Rightarrow> round_job \<Rightarrow> bytes \<Rightarrow> server_round \<Rightarrow> string option
    \<Rightarrow> ('w, round_event, keeper_exit) io" where
  "play_round fuel cx ops job reveal bound bindSignature =
     (let st = jobSettings job; refundAt = to_num (BN (roundRefundAt bound)) in
      assert_io (to_num (BN (roundOpenedAt bound)) = jobOpenedAt job) ''Round opened_at disagrees with the canonical schedule''
      (assert_io (to_num (BN (roundBettingEndsAt bound)) = jobBettingEndsAt job) ''Round betting deadline disagrees with config''
      (assert_io (to_num (BN (roundSettlesAt bound)) = jobBettingEndsAt job) ''Round settlement time disagrees with config''
      (then_io (emitRoundHeartbeat ''tick-start'' ''commitment-bound''
          (Str (case bindSignature of None \<Rightarrow> ''recovered'' | Some sig \<Rightarrow> if sig = [] then ''recovered'' else sig))) (\<lambda>_.
       then_io (setStage ''awaiting-betting-open'') (\<lambda>_.
       after_wait (waitForChainTimestamp fuel ops st ''awaiting-betting-open'' (jobOpenedAt job))
       (after_wait (betting fuel cx ops job)
       (then_io (setStage ''awaiting-betting-close'') (\<lambda>_.
        after_wait (waitForChainTimestamp fuel ops st ''awaiting-betting-close'' (jobBettingEndsAt job))
        (then_io (emitRoundHeartbeat ''tick-start'' ''betting-closed''
            (Str (''lock-deadline:'' @ num_to_string (jobBettingEndsAt job)))) (\<lambda>_.
         lock_round fuel cx ops job refundAt reveal)))))))))))"

text \<open>Open the round with the commitment of the secret, in one transaction, and read it back.\<close>

definition open_round :: "round_context \<Rightarrow> 'w server_world \<Rightarrow> round_job \<Rightarrow> bytes \<Rightarrow> ('w, round_event, server_round \<times> string) io" where
  "open_round cx ops job commitment =
     (let st = jobSettings job in
      then_io (emitRoundHeartbeat ''tick-start'' ''preparing'' (Str ''opening-and-binding'')) (\<lambda>_.
      then_io (sendKeeperInstructions cx ops st ''preparing'' [openRoundIx cx job, bindCommitmentIx cx job commitment]
        ''Atomic round preparation'') (\<lambda>sent.
      then_io (fetchRoundWithRetry ops st (jobAddress cx job) ''preparing'' (\<lambda>x. boundCommitment x = commitment)
        ''Atomic round opening and server commitment binding'') (\<lambda>opened.
      then_io (chainTimeSeconds ops st) (\<lambda>completedAt.
      then_io (if num_lt (prebindDeadline job) (seconds completedAt)
         then emitRoundHeartbeat ''tick-error'' ''next-prebind-deadline-missed''
           (Str (''late-by:'' @ num_to_string (num_sub (seconds completedAt) (prebindDeadline job)) @ ''s''))
         else ok_io ()) (\<lambda>_.
      ok_io (opened, sentSignature sent)))))))"

definition roundCommitment :: "round_context \<Rightarrow> round_job \<Rightarrow> bytes \<Rightarrow> bytes res" where
  "roundCommitment cx job reveal = serverRandomnessCommitment (sha256 cx) (keyBytes cx (programKey cx))
     (keyBytes cx (cfgMint (jobConfig job))) (Big (jobId job)) reveal"

definition own_round :: "nat \<Rightarrow> round_context \<Rightarrow> 'w server_world \<Rightarrow> string \<Rightarrow> round_job \<Rightarrow> server_round option
    \<Rightarrow> ('w, round_event, keeper_exit) io" where
  "own_round fuel cx ops stateDir job existing =
     then_io (call_io (loadReveal ops stateDir (jobId job)) RevealLoaded) (\<lambda>reveal.
     then_io (lift_io (roundCommitment cx job reveal)) (\<lambda>commitment.
     case existing of
       None \<Rightarrow> then_io (open_round cx ops job commitment) (\<lambda>(opened, sig). play_round fuel cx ops job reveal opened (Some sig))
     | Some x \<Rightarrow>
         assert_io (boundCommitment x = commitment)
           ''Persisted reveal does not match the round commitment; refusing an unrecoverable settlement''
         (assert_io (commitSlot x = SERVER_RANDOMNESS_PENDING \<or> 0 < commitSlot x)
           ''Existing round is not a bound server commit-reveal round''
         (play_round fuel cx ops job reveal x None))))"

definition start_round :: "nat \<Rightarrow> round_context \<Rightarrow> 'w server_world \<Rightarrow> string \<Rightarrow> round_job \<Rightarrow> ('w, round_event, keeper_exit) io" where
  "start_round fuel cx ops stateDir job =
     then_io (call_io (withOperationTimeout (readRound ops (jobAddress cx job)) (jobTimeout job) ''Initial round read'' None) RoundSeen)
       (\<lambda>existing. case existing of
       Some x \<Rightarrow> if isSettled x then recovered_exit cx ops job else own_round fuel cx ops stateDir job existing
     | None \<Rightarrow> then_io (chainTimeSeconds ops (jobSettings job)) (\<lambda>now.
         if num_le (jobOpenedAt job) (seconds now)
         then then_io (emitRoundHeartbeat ''tick-error'' ''prepare-deadline-missed''
             (Str (''deadline:'' @ num_to_string (jobOpenedAt job)))) (\<lambda>_. ok_io (ExitCode ROUND_KEEPER_MISSED_EXIT_CODE))
         else own_round fuel cx ops stateDir job None))"

section \<open>Start\<close>

text \<open>Everything before the first heartbeat: the settings, the id of the round and the directory of the secrets.\<close>

definition startup :: "round_context \<Rightarrow> (round_settings \<times> int \<times> string) res" where
  "startup cx =
     then_res (requiredEnv cx ''ANCHOR_PROVIDER_URL'') (\<lambda>rpcUrl.
     then_res (requiredEnv cx ''ANCHOR_WALLET'') (\<lambda>_.
     then_res (requiredEnv cx ''SERVER_RANDOMNESS_STATE_DIR'') (\<lambda>stateDir.
     then_res (requiredEnv cx ''SUPABASE_URL'') (\<lambda>indexUrl.
     then_res (requiredEnv cx ''SUPABASE_SERVICE_ROLE_KEY'') (\<lambda>_.
     assert_ok (is_https rpcUrl) ''ANCHOR_PROVIDER_URL must use HTTPS'' (
     assert_ok (is_https indexUrl) ''SUPABASE_URL must use HTTPS'' (
     then_res (walletFile cx) (\<lambda>secret.
     then_res (check_secret secret) (\<lambda>_.
     then_res (require_round_id cx) (\<lambda>rid.
     then_res (authorized cx) (\<lambda>_.
     then_res (roundSettings (setting cx)) (\<lambda>st. Inr (st, rid, stateDir)))))))))))))"

definition check_config :: "round_context \<Rightarrow> round_settings \<Rightarrow> server_config \<Rightarrow> unit res" where
  "check_config cx st cfg =
     assert_ok (cfgRandomnessProgram cfg = programKey cx) ''Server keeper requires the MYNE program-id randomness mode'' (
     assert_ok (cfgRandomnessAuthority cfg = keeperWallet cx) ''Keeper wallet must equal config.randomness_authority'' (
     then_res (requireExactSettlementWindow (Num (to_num (BN (cfgRoundDuration cfg)))) (Num (to_num (BN (cfgBettingDuration cfg))))
       (IntV (settlementLateSeconds st))) (\<lambda>_. Inr ())))"

definition own_schedule :: "nat \<Rightarrow> round_context \<Rightarrow> 'w server_world \<Rightarrow> round_settings \<Rightarrow> int \<Rightarrow> string
    \<Rightarrow> ('w, round_event, keeper_exit) io" where
  "own_schedule fuel cx ops st rid stateDir =
     then_io (call_io (withOperationTimeout (readConfig ops) (rpcTimeoutMs st) ''Protocol config read'' None) ConfigRead) (\<lambda>cfg.
     assert_io (cfgVersion cfg = 6) ''Server round keeper requires protocol fee schedule v6''
     (if cfgPaused cfg
      then then_io (emitRoundHeartbeat ''tick-complete'' ''deferred'' (Str ''protocol-paused'')) (\<lambda>_.
        ok_io (ExitCode ROUND_KEEPER_DEFERRED_EXIT_CODE))
      else
        then_io (lift_io (check_config cx st cfg)) (\<lambda>_.
        then_io (bounded (readGenesis ops) (rpcTimeoutMs st) ''Genesis hash read'') (\<lambda>genesis.
        then_io (lift_io (requireMatchingSolanaNetwork (Str genesis) (Str (cfgRandomnessProgram cfg)) (Str (programKey cx)))) (\<lambda>_.
        then_io (lift_io (schedule_job st rid cfg)) (\<lambda>job.
        then_io (emitRoundHeartbeat ''tick-start'' ''preflight-complete'' (Str ''configuration-verified'')) (\<lambda>_.
        start_round fuel cx ops stateDir job)))))))"

text \<open>\<open>uncaughtExceptionMonitor\<close>: a heartbeat with the stage of the last one, then the error ends the process.\<close>

definition beat_stage :: "round_event list \<Rightarrow> string" where
  "beat_stage t = fold (\<lambda>e stage. case e of Heartbeat phase s outcome \<Rightarrow> s | StageSet s \<Rightarrow> s | _ \<Rightarrow> stage) t ''preflight''"

definition monitored :: "('w, round_event, 'a) io \<Rightarrow> ('w, round_event, 'a) io" where
  "monitored m = (\<lambda>s. case m s of (Inl e, w, t) \<Rightarrow> (Inl e, w, t @ [Heartbeat ''tick-error'' (beat_stage t) (Str (error_message e))])
     | (Inr x, w, t) \<Rightarrow> (Inr x, w, t))"

definition run_keeper :: "nat \<Rightarrow> round_context \<Rightarrow> 'w server_world \<Rightarrow> ('w, round_event, keeper_exit) io" where
  "run_keeper fuel cx ops =
     then_io (lift_io (startup cx)) (\<lambda>(st, rid, stateDir).
     then_io (emitRoundHeartbeat ''tick-start'' ''preflight'' (Str ''starting'')) (\<lambda>_.
     monitored (own_schedule fuel cx ops st rid stateDir)))"

end
