(* ===== verification/Round_Traces.thy ===== *)
theory Round_Traces
  imports Round_Keeper
begin

text \<open>
  What the trace of the round keeper must show before it may send: the round of its configuration, the chain times and
  rounds it read, the secret it loaded. The rules of this theory carry such knowledge through a run: a step appends
  events that are allowed by what is known before it (\<open>step\<close>, \<open>quiet_step\<close>), and its value may add to what is known
  (\<open>yields\<close>). The lemmas then give, for each operation of the keeper, what it may send and what its value shows.
\<close>

section \<open>What a trace allows\<close>

text \<open>The round of the process, as its configuration was read.\<close>

definition job_in :: "round_context \<Rightarrow> round_event list \<Rightarrow> round_job \<Rightarrow> bool" where
  "job_in cx t job \<longleftrightarrow> (\<exists>st rid dir cfg. startup cx = Inr (st, rid, dir) \<and> ConfigRead (Inr cfg) \<in> set t
     \<and> schedule_job st rid cfg = Inr job)"

definition seen :: "round_event list \<Rightarrow> server_round \<Rightarrow> bool" where
  "seen t x \<longleftrightarrow> RoundSeen (Inr (Some x)) \<in> set t"

definition clock_before :: "round_event list \<Rightarrow> jsnum \<Rightarrow> bool" where
  "clock_before t deadline \<longleftrightarrow> (\<exists>n. ClockRead (Inr n) \<in> set t \<and> \<not> num_le deadline (seconds n))"

text \<open>The chain time was read with nothing of the time to \<open>target\<close> remaining.\<close>

definition clock_reached :: "round_event list \<Rightarrow> jsnum \<Rightarrow> bool" where
  "clock_reached t target \<longleftrightarrow> (\<exists>n. ClockRead (Inr n) \<in> set t \<and> num_le (num_sub target (seconds n)) (Fin 0))"

definition secret_in :: "round_context \<Rightarrow> round_event list \<Rightarrow> round_job \<Rightarrow> bytes \<Rightarrow> bytes \<Rightarrow> bool" where
  "secret_in cx t job reveal commitment \<longleftrightarrow> job_in cx t job \<and> RevealLoaded (Inr reveal) \<in> set t
     \<and> roundCommitment cx job reveal = Inr commitment"

text \<open>
  The messages a trace allows: opening and binding the round; locking its entropy; settling it; executing plans.
\<close>

definition opens_round :: "round_context \<Rightarrow> round_event list \<Rightarrow> instruction list \<Rightarrow> bool" where
  "opens_round cx t ixs \<longleftrightarrow> (\<exists>job reveal commitment. secret_in cx t job reveal commitment
     \<and> ixs = [openRoundIx cx job, bindCommitmentIx cx job commitment]
     \<and> RoundSeen (Inr None) \<in> set t \<and> clock_before t (jobOpenedAt job))"

definition locks_entropy :: "round_context \<Rightarrow> round_event list \<Rightarrow> instruction list \<Rightarrow> bool" where
  "locks_entropy cx t ixs \<longleftrightarrow> (\<exists>job x. job_in cx t job \<and> ixs = [lockEntropyIx cx job]
     \<and> clock_reached t (jobBettingEndsAt job) \<and> seen t x \<and> \<not> isSettled x \<and> commitSlot x = SERVER_RANDOMNESS_PENDING)"

definition entropy_ready :: "round_event list \<Rightarrow> server_round \<Rightarrow> bool" where
  "entropy_ready t x \<longleftrightarrow> (\<exists>target data. decodeServerEntropySlot (BN (commitSlot x)) = Inr target
     \<and> EntropySeen (Inr (Some data)) \<in> set t \<and> serverEntropyAvailable data (Big target) = Inr True)"

text \<open>A round was read that is bound to the commitment of the loaded secret; and its entropy was found after betting closed.\<close>

definition reveals :: "round_context \<Rightarrow> round_event list \<Rightarrow> round_job \<Rightarrow> bytes \<Rightarrow> bool" where
  "reveals cx t job reveal \<longleftrightarrow> (\<exists>commitment bound. secret_in cx t job reveal commitment
     \<and> seen t bound \<and> boundCommitment bound = commitment)"

definition may_settle :: "round_context \<Rightarrow> round_event list \<Rightarrow> round_job \<Rightarrow> bytes \<Rightarrow> bool" where
  "may_settle cx t job reveal \<longleftrightarrow> reveals cx t job reveal \<and> clock_reached t (jobBettingEndsAt job)
     \<and> (\<exists>x. seen t x \<and> \<not> isSettled x \<and> entropy_ready t x)"

definition settles_server :: "round_context \<Rightarrow> round_event list \<Rightarrow> instruction list \<Rightarrow> bool" where
  "settles_server cx t ixs \<longleftrightarrow> (\<exists>job gate reveal. may_settle cx t job reveal \<and> ixs = [settleRoundIx cx job gate reveal])"

definition plan_call :: "round_context \<Rightarrow> round_job \<Rightarrow> instruction \<Rightarrow> bool" where
  "plan_call cx job i \<longleftrightarrow> (\<exists>authority nonce. i = executePlanIx cx job authority nonce \<or> i = reinvestIx cx authority)"

definition runs_plans :: "round_context \<Rightarrow> round_event list \<Rightarrow> instruction list \<Rightarrow> bool" where
  "runs_plans cx t ixs \<longleftrightarrow> (\<exists>job reveal. reveals cx t job reveal \<and> clock_reached t (jobOpenedAt job)
     \<and> clock_before t (jobBettingEndsAt job) \<and> list_all (plan_call cx job) ixs)"

definition calls_allowed :: "round_context \<Rightarrow> round_event list \<Rightarrow> instruction list \<Rightarrow> bool" where
  "calls_allowed cx t ixs \<longleftrightarrow> opens_round cx t ixs \<or> locks_entropy cx t ixs \<or> settles_server cx t ixs \<or> runs_plans cx t ixs"

text \<open>A settlement that was final in time: its own transaction, or one found in the finalized history.\<close>

definition final_in_time :: "round_context \<Rightarrow> round_event list \<Rightarrow> bool" where
  "final_in_time cx t \<longleftrightarrow> (\<exists>job n. job_in cx t job \<and> num_lt (seconds n) (settleDeadline job)
     \<and> ((\<exists>sig tx. FinalizedRead sig (Inr tx) \<in> set t \<and> opt_member tx ''blockTime'' = IntV n)
        \<or> (\<exists>ev. EvidenceRead (Inr (Some ev)) \<in> set t \<and> ev_roundId ev = show_int (jobId job) \<and> ev_blockTime ev = IntV n)))"

abbreviation settled_beat :: "round_event \<Rightarrow> bool" where
  "settled_beat e \<equiv> (case e of Heartbeat phase stage outcome \<Rightarrow> phase = ''tick-complete'' \<and> stage = ''settled'' | _ \<Rightarrow> False)"

definition keeper_allowed :: "round_context \<Rightarrow> round_event list \<Rightarrow> round_event \<Rightarrow> bool" where
  "keeper_allowed cx t e = (case e of
     Simulated m \<Rightarrow> calls_allowed cx t (calls m)
   | KeeperSent m answer \<Rightarrow> calls_allowed cx t (calls m)
   | _ \<Rightarrow> settled_beat e \<longrightarrow> final_in_time cx t)"

text \<open>All of this lasts when the trace grows.\<close>

definition lasting :: "(round_event list \<Rightarrow> bool) \<Rightarrow> bool" where
  "lasting F \<longleftrightarrow> (\<forall>t u. F t \<longrightarrow> F (t @ u))"

lemma lastingD: "lasting F \<Longrightarrow> F t \<Longrightarrow> F (t @ u)"
  by (simp add: lasting_def)

named_theorems lasts

lemma lasting_mem [lasts]: "lasting (\<lambda>t. e \<in> set t)"
  by (simp add: lasting_def)

lemma lasting_const [lasts]: "lasting (\<lambda>t. P)"
  by (simp add: lasting_def)

lemma lasting_conj [lasts]: "lasting F \<Longrightarrow> lasting G \<Longrightarrow> lasting (\<lambda>t. F t \<and> G t)"
  by (simp add: lasting_def)

lemma lasting_disj [lasts]: "lasting F \<Longrightarrow> lasting G \<Longrightarrow> lasting (\<lambda>t. F t \<or> G t)"
  by (simp add: lasting_def)

lemma lasting_ex [lasts]: "(\<And>x. lasting (F x)) \<Longrightarrow> lasting (\<lambda>t. \<exists>x. F x t)"
  unfolding lasting_def by blast

lemma lasting_imp [lasts]: "(P \<Longrightarrow> lasting F) \<Longrightarrow> lasting (\<lambda>t. P \<longrightarrow> F t)"
  by (auto simp: lasting_def)

lemma lasting_facts [lasts]:
  "lasting (\<lambda>t. job_in cx t job)" "lasting (\<lambda>t. seen t x)" "lasting (\<lambda>t. clock_before t d)"
  "lasting (\<lambda>t. clock_reached t d)" "lasting (\<lambda>t. secret_in cx t job reveal c)" "lasting (\<lambda>t. entropy_ready t x)"
  "lasting (\<lambda>t. reveals cx t job reveal)" "lasting (\<lambda>t. may_settle cx t job reveal)"
  unfolding job_in_def seen_def clock_before_def clock_reached_def secret_in_def entropy_ready_def reveals_def may_settle_def by (intro lasts)+

lemma lasting_calls [lasts]: "lasting (\<lambda>t. calls_allowed cx t ixs)"
  unfolding calls_allowed_def opens_round_def locks_entropy_def settles_server_def runs_plans_def by (intro lasts)

section \<open>Steps\<close>

text \<open>Events a step may append: messages with allowed calls, and no claim that the round is settled.\<close>

definition sends :: "(instruction list \<Rightarrow> bool) \<Rightarrow> round_event \<Rightarrow> bool" where
  "sends P e = (case e of Simulated m \<Rightarrow> P (calls m) | KeeperSent m answer \<Rightarrow> P (calls m) | _ \<Rightarrow> \<not> settled_beat e)"

lemma sends_simps [simp]:
  "sends P (Simulated m) = P (calls m)" "sends P (KeeperSent m answer) = P (calls m)"
  "sends P (Heartbeat phase stage outcome) = (\<not> (phase = ''tick-complete'' \<and> stage = ''settled''))"
  "sends P (StageSet stage)" "sends P (ConfigRead a)" "sends P (RoundSeen b)" "sends P (ClockRead c)" "sends P (RevealLoaded d)"
  "sends P (EntropySeen f)" "sends P (FinalizedRead g h)" "sends P (EvidenceRead i)" "sends P (PlansRun p)"
  by (simp_all add: sends_def)

text \<open>The trace is justified and what is known of it holds.\<close>

definition known :: "round_context \<Rightarrow> (round_event list \<Rightarrow> bool) \<Rightarrow> 'w \<times> round_event list \<Rightarrow> bool" where
  "known cx F s \<longleftrightarrow> justified (keeper_allowed cx) (snd s) \<and> F (snd s)"

abbreviation trusted :: "round_context \<Rightarrow> 'w \<times> round_event list \<Rightarrow> bool" where
  "trusted cx s \<equiv> justified (keeper_allowed cx) (snd s)"

lemma known_trusted: "known cx F s \<Longrightarrow> trusted cx s"
  by (simp add: known_def)

lemma sends_justified:
  assumes "lasting F" and P: "\<And>t ixs. F t \<Longrightarrow> P ixs \<Longrightarrow> calls_allowed cx t ixs"
  shows "list_all (sends P) new \<Longrightarrow> justified (keeper_allowed cx) t \<Longrightarrow> F t \<Longrightarrow> justified (keeper_allowed cx) (t @ new)"
proof (induction new rule: rev_induct)
  case (snoc e new)
  have "F (t @ new)" using assms(1) snoc.prems(3) by (rule lastingD)
  then have "keeper_allowed cx (t @ new) e"
    using snoc.prems(1) P by (cases e) (auto simp: keeper_allowed_def sends_def)
  then show ?case using snoc by (simp flip: append_assoc del: justified_append)
qed simp

lemma known_adds:
  assumes "adds (sends P) m" "known cx F s" "lasting F" "\<And>t ixs. F t \<Longrightarrow> P ixs \<Longrightarrow> calls_allowed cx t ixs"
  shows "wp m (\<lambda>_. known cx F) (\<lambda>_. known cx F) s"
proof -
  obtain w t where s: "s = (w, t)" by (cases s)
  have keep: "known cx F u" if "\<exists>new. snd u = t @ new \<and> list_all (sends P) new" for u
    using that assms(2) sends_justified[OF assms(3,4)] lastingD[OF assms(3)] by (auto simp: known_def s simp del: justified_append)
  show ?thesis unfolding s by (rule wp_mono[OF adds_wp[OF assms(1)]]) (erule keep)+
qed

text \<open>What the value of a step says about the trace.\<close>

definition yields :: "('a \<Rightarrow> round_event list \<Rightarrow> bool) \<Rightarrow> ('w, round_event, 'a) io \<Rightarrow> bool" where
  "yields R m \<longleftrightarrow> (\<forall>s. wp m (\<lambda>x s'. R x (snd s')) (\<lambda>_ _. True) s)"

lemma step_yields:
  assumes "known cx F s" "lasting F" "adds (sends P) m" "yields R m" "\<And>t ixs. F t \<Longrightarrow> P ixs \<Longrightarrow> calls_allowed cx t ixs"
    and "\<And>x s'. known cx (\<lambda>t. F t \<and> R x t) s' \<Longrightarrow> wp (f x) Q (\<lambda>_. trusted cx) s'"
  shows "wp (then_io m f) Q (\<lambda>_. trusted cx) s"
proof (rule wp_seq)
  have y: "wp m (\<lambda>x s'. R x (snd s')) (\<lambda>_ _. True) s" using assms(4) unfolding yields_def by blast
  show "wp m (\<lambda>x. known cx (\<lambda>t. F t \<and> R x t)) (\<lambda>_. trusted cx) s"
    by (rule wp_mono[OF wp_conj[OF known_adds[OF assms(3,1,2)] y]], erule (1) assms(5), simp_all add: known_def)
qed (rule assms(6))

lemma step:
  assumes "known cx F s" "lasting F" "adds (sends P) m" "\<And>t ixs. F t \<Longrightarrow> P ixs \<Longrightarrow> calls_allowed cx t ixs"
    and "\<And>x s'. known cx F s' \<Longrightarrow> wp (f x) Q (\<lambda>_. trusted cx) s'"
  shows "wp (then_io m f) Q (\<lambda>_. trusted cx) s"
  by (rule wp_seq[OF wp_mono[OF known_adds[OF assms(3,1,2)]]], erule (1) assms(4), assumption, erule known_trusted, erule assms(5))

text \<open>Steps that send nothing.\<close>

abbreviation sends_nothing :: "round_event \<Rightarrow> bool" where
  "sends_nothing \<equiv> sends (\<lambda>_. False)"

lemma quiet_step:
  assumes "known cx F s" "lasting F" "adds sends_nothing m" "\<And>x s'. known cx F s' \<Longrightarrow> wp (f x) Q (\<lambda>_. trusted cx) s'"
  shows "wp (then_io m f) Q (\<lambda>_. trusted cx) s"
  by (rule step[OF assms(1-3) _ assms(4)]) simp

lemma quiet_yields:
  assumes "known cx F s" "lasting F" "adds sends_nothing m" "yields R m"
    and "\<And>x s'. known cx (\<lambda>t. F t \<and> R x t) s' \<Longrightarrow> wp (f x) Q (\<lambda>_. trusted cx) s'"
  shows "wp (then_io m f) Q (\<lambda>_. trusted cx) s"
  by (rule step_yields[OF assms(1-4) _ assms(5)]) simp

lemma sends_mono: "adds sends_nothing m \<Longrightarrow> adds (sends P) m"
  by (erule adds_mono) (simp add: sends_def split: round_event.splits)

section \<open>Laws of the combinators\<close>

lemma then_assoc: "then_io (then_io m f) g = then_io m (\<lambda>x. then_io (f x) g)"
  by (rule ext) (simp add: then_io_def split: prod.split sum.split)

lemma then_ok: "then_io (ok_io x) f = f x"
  by (rule ext) (simp add: then_io_def ok_io_def)

lemma adds_recorded: "adds A m \<Longrightarrow> (\<And>r. A (event r)) \<Longrightarrow> adds A (recorded event m)"
  unfolding adds_def recorded_def
proof (intro allI)
  fix w t
  assume m: "\<forall>w t. \<exists>new. snd (snd (m (w, t))) = t @ new \<and> list_all A new" and a: "\<And>r. A (event r)"
  obtain r v u where "m (w, t) = (r, v, u)" by (metis prod_cases3)
  moreover obtain new where "snd (snd (m (w, t))) = t @ new" "list_all A new" using m by blast
  ultimately show "\<exists>new. snd (snd (case m (w, t) of (r, w, t) \<Rightarrow> (r, w, t @ [event r]))) = t @ new \<and> list_all A new"
    using a by (intro exI[of _ "new @ [event r]"]) simp
qed

lemma adds_with_timer: "adds A m \<Longrightarrow> adds A (with_timer ops ms label abort m)"
  unfolding adds_def with_timer_def
proof (intro allI)
  fix w t
  assume m: "\<forall>w t. \<exists>new. snd (snd (m (w, t))) = t @ new \<and> list_all A new"
  obtain r v u where e: "m (w, t) = (r, v, u)" by (metis prod_cases3)
  obtain new where new: "snd (snd (m (w, t))) = t @ new" "list_all A new" using m by blast
  show "\<exists>new. snd (snd (case m (w, t) of (r, w, t) \<Rightarrow>
     if (case r of Inl e \<Rightarrow> e = abort | Inr x \<Rightarrow> False) then (Inl (timeout_error label ms None), w, t)
     else case timerFired ops label w of (fired, w') \<Rightarrow>
       ((if fired then Inl (timeout_error label ms None) else r), w', t))) = t @ new \<and> list_all A new"
    using new by (intro exI[of _ new]) (simp add: e split: prod.split)
qed

lemma adds_monitored: "adds A m \<Longrightarrow> (\<And>stage outcome. A (Heartbeat ''tick-error'' stage outcome)) \<Longrightarrow> adds A (monitored m)"
  unfolding adds_def monitored_def
proof (intro allI)
  fix w t
  assume m: "\<forall>w t. \<exists>new. snd (snd (m (w, t))) = t @ new \<and> list_all A new"
    and a: "\<And>stage outcome. A (Heartbeat ''tick-error'' stage outcome)"
  obtain r v u where e: "m (w, t) = (r, v, u)" by (metis prod_cases3)
  obtain new where new: "u = t @ new" "list_all A new" using m e by (metis snd_conv)
  show "\<exists>new. snd (snd (case m (w, t) of (Inl e, w, t) \<Rightarrow> (Inl e, w, t @ [Heartbeat ''tick-error'' (beat_stage t) (Str (error_message e))])
     | (Inr x, w, t) \<Rightarrow> (Inr x, w, t))) = t @ new \<and> list_all A new"
  proof (cases r)
    case (Inl x)
    then show ?thesis using new a by (intro exI[of _ "new @ [Heartbeat ''tick-error'' (beat_stage u) (Str (error_message x))]"]) (simp add: e)
  qed (use new e in simp)
qed

lemma yieldsI: "(\<And>w t. wp m (\<lambda>x s'. R x (snd s')) (\<lambda>_ _. True) (w, t)) \<Longrightarrow> yields R m"
  by (simp add: yields_def)

lemma yields_recorded: "yields (\<lambda>x t. event (Inr x) \<in> set t) (recorded event m)"
  by (rule yieldsI) (simp add: wp_def recorded_def split: prod.split sum.split)

lemma yields_call: "yields (\<lambda>x t. event (Inr x) \<in> set t) (call_io action event)"
  by (rule yieldsI) (simp add: wp_simps split: prod.split sum.split)

lemma yields_lift: "yields (\<lambda>x t. r = Inr x) (lift_io r)"
  by (rule yieldsI) (simp add: wp_simps split: sum.split)

lemma wp_true: "wp m (\<lambda>_ _. True) (\<lambda>_ _. True) s"
  by (rule wpI) (simp split: sum.split)

text \<open>What the tail yields.\<close>

lemma wp_tail: "(\<And>x s'. wp (f x) Q (\<lambda>_ _. True) s') \<Longrightarrow> wp (then_io m f) Q (\<lambda>_ _. True) s"
  by (rule wp_seq[OF wp_true])

section \<open>Silent steps\<close>

named_theorems silent_steps

lemmas io_basics = adds_ok adds_read adds_lift adds_fail adds_then adds_assert adds_if adds_call adds_log adds_catch

lemma silent_beat [silent_steps]: "adds (sends C) (emitRoundHeartbeat ''tick-start'' stage outcome)"
  "adds (sends C) (emitRoundHeartbeat ''tick-error'' stage outcome)"
  "adds (sends C) (emitRoundHeartbeat ''tick-complete'' ''deferred'' outcome)"
  by (simp_all add: emitRoundHeartbeat_def adds_log)

lemma silent_stage [silent_steps]: "adds (sends C) (setStage stage)"
  by (simp add: setStage_def adds_log)

lemma silent_sleep [silent_steps]: "adds (sends C) (sleep_io ops ms)"
  by (simp add: sleep_io_def)

lemma silent_bounded [silent_steps]: "adds (sends C) (bounded operation ms label)"
  by (simp add: bounded_def)

lemma silent_poll [silent_steps]: "adds (sends C) (poll_timer ops label e)"
  unfolding poll_timer_def by (intro io_basics)

lemma silent_scan [silent_steps]: "adds (sends C) (scan_blocks ops timeout slot left offset lastError)"
proof (induction left arbitrary: offset lastError)
  case (Suc left)
  have "adds (sends C) (case answer of
            Inr v \<Rightarrow> (case integer_of v of Some time \<Rightarrow> ok_io (Some time, lastError)
              | None \<Rightarrow> scan_blocks ops timeout slot left (offset + 1) lastError)
          | Inl e \<Rightarrow> if missing_block e then scan_blocks ops timeout slot left (offset + 1) (Some e)
              else ok_io (None, Some e))" for answer
    using Suc by (auto split: sum.split option.split)
  then show ?case by (auto intro!: io_basics silent_steps)
qed simp

lemma silent_chain [silent_steps]: "adds (sends C) (read_chain_time ops timeout left attempt lastError)"
proof (induction left arbitrary: attempt lastError)
  case (Suc left)
  have "adds (sends C) (case found of Some time \<Rightarrow> ok_io time
       | None \<Rightarrow> then_io (sleep_io ops (min 2000 (200 * 2 ^ attempt))) (\<lambda>_. read_chain_time ops timeout left (Suc attempt) lastError'))"
    for found lastError'
    using Suc by (auto intro!: io_basics silent_steps split: option.split)
  then show ?case by (auto intro!: io_basics silent_steps)
qed simp

lemma silent_clock [silent_steps]: "adds (sends C) (chainTimeSeconds ops st)"
  unfolding chainTimeSeconds_def readChainTimeSeconds_def by (intro adds_recorded adds_with_timer silent_steps) simp

lemma yields_clock: "yields (\<lambda>n t. ClockRead (Inr n) \<in> set t) (chainTimeSeconds ops st)"
  unfolding chainTimeSeconds_def by (rule yields_recorded)

lemma silent_wait [silent_steps]: "adds (sends C) (waitForChainTimestamp fuel ops st stage target)"
proof (induction fuel)
  case (Suc fuel)
  then show ?case unfolding waitForChainTimestamp.simps Let_def by (intro io_basics silent_steps)
qed simp

lemma wp_clock: "wp (chainTimeSeconds ops st) (\<lambda>n s. ClockRead (Inr n) \<in> set (snd s)) (\<lambda>_ _. True) s"
  using yields_clock unfolding yields_def by blast

lemma reachedI: "ClockRead (Inr n) \<in> set t \<Longrightarrow> num_le (num_sub target (seconds n)) (Fin 0) \<Longrightarrow> clock_reached t target"
  by (auto simp: clock_reached_def)

lemma yields_wait: "yields (\<lambda>r t. r = Some () \<longrightarrow> clock_reached t target) (waitForChainTimestamp fuel ops st stage target)"
  unfolding yields_def
proof
  fix s
  show "wp (waitForChainTimestamp fuel ops st stage target) (\<lambda>r s. r = Some () \<longrightarrow> clock_reached (snd s) target) (\<lambda>_ _. True) s"
  proof (induction fuel arbitrary: s)
    case (Suc fuel)
    show ?case
      unfolding waitForChainTimestamp.simps Let_def
      by (rule wp_seq[OF wp_clock]) (auto simp: wp_ok intro!: wp_tail Suc intro: reachedI)
  qed (simp add: wp_ok)
qed

lemma silent_retry [silent_steps]: "adds (sends C) (retry_round ops st address stage P label left attempt lastError)"
proof (induction left arbitrary: attempt lastError)
  case (Suc left)
  have "adds (sends C) (case found of Some x \<Rightarrow> ok_io x
       | None \<Rightarrow> then_io (sleep_io ops (min 3000 (200 * 2 ^ attempt))) (\<lambda>_.
           retry_round ops st address stage P label left (Suc attempt) lastError'))" for found lastError'
    using Suc by (auto intro!: io_basics silent_steps split: option.split)
  then show ?case by (auto intro!: io_basics silent_steps)
qed simp

lemma silent_fetch [silent_steps]: "adds (sends C) (fetchRoundWithRetry ops st address stage P label)"
  unfolding fetchRoundWithRetry_def by (rule silent_steps)

lemma wp_retry: "wp (retry_round ops st address stage P label left attempt lastError) (\<lambda>x s. seen (snd s) x \<and> P x) (\<lambda>_ _. True) s"
proof (induction left arbitrary: attempt lastError s)
  case (Suc left)
  have read: "wp (catch_io
       (then_io (call_io action RoundSeen) (\<lambda>found. ok_io (round_or_error P found, lastError)))
       (\<lambda>e. ok_io (None, Some e))) (\<lambda>(found, e) s. \<forall>x. found = Some x \<longrightarrow> seen (snd s) x \<and> P x) (\<lambda>_ _. True) s" for action s
    by (cases s) (auto simp: wp_simps round_or_error_def seen_def split: prod.split sum.split option.splits if_splits)
  show ?case
    unfolding retry_round.simps by (rule wp_tail, rule wp_seq_pair[OF read]) (auto simp: wp_ok intro!: wp_tail Suc split: option.split)
qed (simp add: wp_fail)

lemma yields_fetch: "yields (\<lambda>x t. seen t x \<and> P x) (fetchRoundWithRetry ops st address stage P label)"
  unfolding yields_def fetchRoundWithRetry_def by (intro allI wp_retry)

lemma silent_finalized [silent_steps]: "adds (sends C) (retry_finalized ops st sig label left attempt lastError)"
proof (induction left arbitrary: attempt lastError)
  case (Suc left)
  have "adds (sends C) (case time of Some n \<Rightarrow> ok_io n
       | None \<Rightarrow> then_io (sleep_io ops (min 1500 (250 * 2 ^ min attempt 3))) (\<lambda>_.
           retry_finalized ops st sig label left (Suc attempt) lastError'))" for time lastError'
    using Suc by (auto intro!: io_basics silent_steps split: option.split)
  then show ?case by (auto intro!: io_basics silent_steps)
qed simp

definition finalized_at :: "round_event list \<Rightarrow> string \<Rightarrow> int \<Rightarrow> bool" where
  "finalized_at t sig n \<longleftrightarrow> (\<exists>tx. FinalizedRead sig (Inr tx) \<in> set t \<and> opt_member tx ''blockTime'' = IntV n)"

lemma wp_finalized: "wp (retry_finalized ops st sig label left attempt lastError) (\<lambda>n s. finalized_at (snd s) sig n) (\<lambda>_ _. True) s"
proof (induction left arbitrary: attempt lastError s)
  case (Suc left)
  have read: "wp (catch_io
       (then_io (call_io action (FinalizedRead sig)) (\<lambda>tx. ok_io (safe_int (opt_member tx ''blockTime''), lastError)))
       (\<lambda>e. ok_io (None, Some e))) (\<lambda>(time, e) s. \<forall>n. time = Some n \<longrightarrow> finalized_at (snd s) sig n) (\<lambda>_ _. True) s" for action s
    by (cases s) (auto simp: wp_simps finalized_at_def safe_int_Some split: prod.split sum.split)
  show ?case
    unfolding retry_finalized.simps by (rule wp_tail, rule wp_seq_pair[OF read]) (auto simp: wp_ok intro!: wp_tail Suc split: option.split)
qed (simp add: wp_fail)

section \<open>Transactions\<close>

lemma calls_built: "calls \<lparr>payerKey = p, recentBlockhash = b, message_instructions =
    SetComputeUnitLimit u # (if c then [SetComputeUnitPrice q] else []) @ map Call ixs\<rparr> = ixs"
proof -
  have "concat (map (\<lambda>i. case i of Call x \<Rightarrow> [x] | _ \<Rightarrow> []) (map Call ixs)) = ixs" by (induction ixs) auto
  then show ?thesis by (simp add: calls_def)
qed

lemma adds_bounded: "adds A (bounded operation ms label)"
  by (simp add: bounded_def)

lemma build_then:
  assumes "\<And>b. calls (builtMessage b) = ixs \<Longrightarrow> adds A (f b)"
  shows "adds A (then_io (buildKeeperTransaction cx ops st ixs units) f)"
proof -
  have "adds A (then_io (ok_io \<lparr>builtMessage = \<lparr>payerKey = keeperWallet cx, recentBlockhash = bh, message_instructions =
         SetComputeUnitLimit units # (if num_lt (Fin 0) (priorityMicroLamports cx)
            then [SetComputeUnitPrice (num_min (Fin 1000000) (priorityMicroLamports cx))] else []) @ map Call ixs\<rparr>,
       builtBlockhash = bh, builtLastValid = lv\<rparr>) f)" for bh lv
    unfolding then_ok by (rule assms) (simp only: keeper_build.simps calls_built)
  note built = this
  show ?thesis
    unfolding buildKeeperTransaction_def then_assoc
    by (rule adds_then[OF adds_bounded]) (simp only: split_def, rule built)
qed

lemma silent_active [silent_steps]: "adds (sends C) (assertFlowActive ops label)"
  unfolding assertFlowActive_def by (rule silent_steps)

lemma submit_sends: "P ixs \<Longrightarrow> adds (sends P) (keeper_submit cx ops st stage ixs label measured)"
  unfolding keeper_submit_def by (rule build_then, intro io_basics silent_steps) simp

lemma flow_sends: "P ixs \<Longrightarrow> adds (sends P) (keeper_flow cx ops st stage ixs label)"
  unfolding keeper_flow_def by (rule build_then, intro io_basics silent_steps submit_sends) simp_all

lemma instructions_send: "P ixs \<Longrightarrow> adds (sends P) (sendKeeperInstructions cx ops st stage ixs label)"
  unfolding sendKeeperInstructions_def by (intro adds_with_timer flow_sends)

section \<open>Plans\<close>

lemma batch_plan_calls: "list_all (plan_call cx job) (batch_ixs cx job batch)"
  by (auto simp: batch_ixs_def list_all_iff plan_ix_def plan_call_def split: jsval.splits)

lemma silent_rows [silent_steps]: "adds (sends C) (indexed_rows cx ops st path)"
  unfolding indexed_rows_def by (intro io_basics silent_steps)

lemma silent_entry [silent_steps]: "adds (sends C) (build_entry cx ops job rent cache a)"
proof -
  have pool: "adds (sends C) (stake_pool_once ops st c)" for st c
    unfolding stake_pool_once_def by (auto intro: silent_steps split: option.split)
  have fund: "adds (sends C) (fund_entry cx ops job rent c b plan n)" for c b plan n
    unfolding fund_entry_def Let_def by (intro io_basics silent_steps pool)
  show ?thesis unfolding build_entry_def by (intro io_basics silent_steps fund)
qed

lemma batch_sends: "adds (sends (list_all (plan_call cx job))) (send_batch cx ops job batch)"
  unfolding send_batch_def by (intro io_basics silent_steps instructions_send batch_plan_calls)

lemma window_loop_keeps_state:
  assumes pass: "keeps I pass"
    and clock: "\<And>w t r w'. I (w, t) \<Longrightarrow> clockRead w = (r, w') \<Longrightarrow> I (w', t)"
    and rest: "\<And>w t d. I (w, t) \<Longrightarrow> I (sleep d w, t)" and trace: "\<And>w t e. I (w, t) \<Longrightarrow> I (w, t @ [e])"
  shows "keeps I (window_loop fuel ends clockRead sleep delay timeout pass)"
proof (induction fuel)
  case (Suc fuel)
  have clock': "keeps I (read_io (withOperationTimeout clockRead timeout label None))" for label
    by (rule keeps_timed_read) (rule clock)
  have pause: "keeps I (read_io (\<lambda>w. (Inr (), sleep d w)))" for d by (rule keeps_read) (auto intro: rest)
  have log: "keeps I (log_io e)" for e by (rule keeps_log) (rule trace)
  show ?case
    unfolding window_loop.simps Let_def by (intro keeps_then keeps_if keeps_ok keeps_catch clock' pause log pass Suc)
qed simp

lemma adds_known:
  assumes "adds (sends P) m" "known cx F s" "lasting F" "\<And>t ixs. F t \<Longrightarrow> P ixs \<Longrightarrow> calls_allowed cx t ixs" "m s = (r, s')"
  shows "known cx F s'"
proof -
  have "wp m (\<lambda>_. known cx F) (\<lambda>_. known cx F) s" by (rule known_adds[OF assms(1-3)]) (rule assms(4))
  from wpD[OF this assms(5)] show ?thesis by (simp split: sum.splits)
qed

lemma known_world: "known cx F (w, t) \<Longrightarrow> known cx F (w', t)"
  by (simp add: known_def)

lemma timed_known:
  assumes "adds (sends P) m" "known cx F (fst v)" "lasting F" "\<And>t ixs. F t \<Longrightarrow> P ixs \<Longrightarrow> calls_allowed cx t ixs"
    and "timed_call ops label m v = (r, v')"
  shows "known cx F (fst v')"
proof -
  obtain s c where v: "v = (s, c)" by (cases v)
  obtain q w t where m: "m s = (q, w, t)" by (metis prod_cases3)
  have "known cx F (w, t)" by (rule adds_known[OF assms(1) _ assms(3) _ m]) (use assms(2,4) in \<open>auto simp: v\<close>)
  then show ?thesis using assms(5) by (auto simp: timed_call_def v m intro: known_world split: prod.splits)
qed

lemma entry_known:
  assumes "known cx F (fst v)" "lasting F" "entry_call cx ops job rent a v = (r, v')"
  shows "known cx F (fst v')"
proof -
  obtain s c where v: "v = (s, c)" by (cases v)
  obtain q w t where m: "build_entry cx ops job rent c a s = (q, w, t)" by (metis prod_cases3)
  have "known cx F (w, t)" by (rule adds_known[OF silent_entry[where C = "\<lambda>_. False"] _ assms(2) _ m]) (use assms(1) in \<open>auto simp: v\<close>)
  then show ?thesis using assms(3) by (auto simp: entry_call_def v m intro: known_world split: prod.splits sum.splits)
qed

lemma plans_known:
  assumes s: "known cx F s" and F: "lasting F"
    and plans: "\<And>t ixs. F t \<Longrightarrow> list_all (plan_call cx job) ixs \<Longrightarrow> calls_allowed cx t ixs"
  shows "wp (execute_plans fuel cx ops job rent) (\<lambda>_. known cx F) (\<lambda>_. known cx F) s"
proof -
  let ?I = "\<lambda>x. known cx F (fst (fst x))"
  have none: "\<And>t ixs. F t \<Longrightarrow> False \<Longrightarrow> calls_allowed cx t ixs" by simp
  have clock: "?I (v', u)" if "?I (v, u)" "timed_call ops label (chainTimeSeconds ops st) v = (r, v')" for v u r v' label st
    using timed_known[OF silent_clock[where C = "\<lambda>_. False"] _ F none that(2)] that(1) by simp
  have rows: "?I (v', u)" if "?I (v, u)" "timed_call ops label (indexed_rows cx ops st path) v = (r, v')" for v u r v' label st path
    using timed_known[OF silent_rows[where C = "\<lambda>_. False"] _ F none that(2)] that(1) by simp
  have batch: "?I (v', u)" if "?I (v, u)" "timed_call ops label (send_batch cx ops job b) v = (r, v')" for v u r v' label b
    using timed_known[OF batch_sends _ F plans that(2)] that(1) by simp
  have entry: "?I (v', u)" if "?I (v, u)" "entry_call cx ops job rent a v = (r, v')" for v u r v' a
    using entry_known[OF _ F that(2)] that(1) by simp
  have pause: "?I ((\<lambda>ms ((w, t), c). ((sleepFor ops ms w, t), c)) d v, u)" if "?I (v, u)" for v u d
    using that by (auto intro: known_world split: prod.split)
  have "keeps ?I (plan_window fuel cx ops job rent)"
    unfolding plan_window_def executeAutoPlansDuringWindow_def Let_def
    by (intro window_loop_keeps_state plan_pass_keeps) (erule (1) rows entry batch clock | erule pause | simp only: fst_conv)+
  then have "?I (snd (plan_window fuel cx ops job rent ((s, None), [])))"
    using s unfolding keeps_def by (metis fst_conv)
  moreover obtain r w t c u where e: "plan_window fuel cx ops job rent ((s, None), []) = (r, ((w, t), c), u)"
    by (metis prod.exhaust)
  ultimately have k: "known cx F (w, t)" by simp
  then have "known cx F (w, t @ [PlansRun u])" using lastingD[OF F] by (simp add: known_def keeper_allowed_def)
  then show ?thesis by (simp add: wp_def execute_plans_def e split: sum.split)
qed

end
