(* ===== verification/Round_Safety.thy ===== *)
theory Round_Safety
  imports Round_Traces
begin

text \<open>
  The safety of the round keeper, from the end of its life to the start: every step of \<open>run_keeper\<close> keeps the trace
  justified, so each message is sent only after what allows it. The theorems read that off for the secret, the
  opening of a round, prepaid plans and the report that a round is settled.
\<close>

section \<open>The end of a round\<close>

lemma in_time_lt: "settlementConfirmedWithinResultWindow (IntV n) (Num d) = Inr True \<Longrightarrow> num_lt (seconds n) d"
  by (auto simp: settlementConfirmedWithinResultWindow_def res_simps)

lemma beat_known:
  assumes "known cx F s" "\<And>t. F t \<Longrightarrow> final_in_time cx t"
  shows "wp (emitRoundHeartbeat ''tick-complete'' ''settled'' outcome) (\<lambda>_. trusted cx) (\<lambda>_. trusted cx) s"
proof -
  obtain w t where s: "s = (w, t)" by (cases s)
  have "keeper_allowed cx t (Heartbeat ''tick-complete'' ''settled'' outcome)"
    using assms by (simp add: known_def s keeper_allowed_def)
  then show ?thesis using assms(1) by (simp add: known_def s emitRoundHeartbeat_def wp_log)
qed

lemma missed_known:
  assumes "trusted cx s"
  shows "wp (emitRoundHeartbeat ''tick-error'' stage outcome) (\<lambda>_. trusted cx) (\<lambda>_. trusted cx) s"
proof -
  obtain w t where s: "s = (w, t)" by (cases s)
  then show ?thesis using assms by (simp add: emitRoundHeartbeat_def wp_log keeper_allowed_def)
qed

lemma verdict_known:
  assumes s: "known cx F s" and met: "met \<Longrightarrow> (\<And>t. F t \<Longrightarrow> final_in_time cx t)"
  shows "wp (then_io (if met then emitRoundHeartbeat ''tick-complete'' ''settled'' a else emitRoundHeartbeat ''tick-error'' stage b)
     (\<lambda>_. ok_io r)) (\<lambda>_. trusted cx) (\<lambda>_. trusted cx) s"
proof (rule wp_seq[where Q = "\<lambda>_. trusted cx"])
  show "wp (if met then emitRoundHeartbeat ''tick-complete'' ''settled'' a else emitRoundHeartbeat ''tick-error'' stage b)
     (\<lambda>_. trusted cx) (\<lambda>_. trusted cx) s"
    using beat_known[OF s met] missed_known[OF known_trusted[OF s]] by simp
qed (simp add: wp_ok)

lemma lasting_finalized [lasts]: "lasting (\<lambda>t. finalized_at t sig n)"
  unfolding finalized_at_def by (intro lasts)

lemma lift_step:
  assumes "trusted cx s" "\<And>x. r = Inr x \<Longrightarrow> wp (f x) Q (\<lambda>_. trusted cx) s"
  shows "wp (then_io (lift_io r) f) Q (\<lambda>_. trusted cx) s"
  using assms by (simp add: wp_then wp_lift split: sum.split)

lemma report_known:
  assumes s: "known cx F s" and F: "lasting F" and job: "\<And>t. F t \<Longrightarrow> job_in cx t job"
  shows "wp (report_settlement ops job sig) (\<lambda>_. trusted cx) (\<lambda>_. trusted cx) s"
proof -
  let ?R = "\<lambda>r t. case r of Inl e \<Rightarrow> True | Inr n \<Rightarrow> finalized_at t sig n"
  have last_R: "lasting (?R r)" for r by (cases r) (simp_all add: lasts)
  show ?thesis
    unfolding report_settlement_def
  proof (rule quiet_yields[OF s F, where R = ?R])
    show "adds (sends C) (catch_io
       (then_io (finalizedTransactionTimeSeconds ops (jobSettings job) sig ''Server round settlement'') (\<lambda>n. ok_io (Inr n)))
       (\<lambda>e. ok_io (Inl (error_message e))))" for C
      unfolding finalizedTransactionTimeSeconds_def by (intro io_basics silent_steps)
    show "yields ?R (catch_io
       (then_io (finalizedTransactionTimeSeconds ops (jobSettings job) sig ''Server round settlement'') (\<lambda>n. ok_io (Inr n)))
       (\<lambda>e. ok_io (Inl (error_message e))))"
      unfolding yields_def finalizedTransactionTimeSeconds_def
      by (intro allI wp_catch_rule[OF wp_seq[OF wp_finalized]]) (simp_all add: wp_ok)
  next
    fix r :: "string + int" and s2 :: "'a \<times> round_event list"
    assume k: "known cx (\<lambda>t. F t \<and> ?R r t) s2"
    show "wp (then_io (lift_io (settled_in_time job (case r of Inl e \<Rightarrow> None | Inr n \<Rightarrow> Some n))) (\<lambda>met.
       then_io (if met then emitRoundHeartbeat ''tick-complete'' ''settled'' (Str sig)
          else emitRoundHeartbeat ''tick-error'' ''settlement-deadline-missed'' (Str (missed_outcome job r))) (\<lambda>_.
       ok_io (Completed met)))) (\<lambda>_. trusted cx) (\<lambda>_. trusted cx) s2"
    proof (rule lift_step[OF known_trusted[OF k]], rule verdict_known[OF k])
      fix met t
      assume met: "settled_in_time job (case r of Inl e \<Rightarrow> None | Inr n \<Rightarrow> Some n) = Inr met" met and t: "F t \<and> ?R r t"
      then obtain n where n: "r = Inr n" "num_lt (seconds n) (settleDeadline job)"
        by (cases r) (auto simp: settled_in_time_def dest: in_time_lt)
      then show "final_in_time cx t" using t job[of t] by (auto simp: final_in_time_def finalized_at_def)
    qed
  qed
qed

lemma audit_known:
  assumes s: "known cx F s" and F: "lasting F" and job: "\<And>t. F t \<Longrightarrow> job_in cx t job"
  shows "wp (auditRecoveredSettlement cx ops job) (\<lambda>_. trusted cx) (\<lambda>_. trusted cx) s"
proof -
  let ?R = "\<lambda>r t. case r of Inl (e :: string) \<Rightarrow> True | Inr ev \<Rightarrow> EvidenceRead (Inr ev) \<in> set t"
  let ?m = "catch_io (then_io (read_evidence cx ops job) (\<lambda>ev. ok_io (Inr ev))) (\<lambda>e. ok_io (Inl (error_message e)))"
  have quiet: "adds (sends C) (read_evidence cx ops job)" for C
    unfolding read_evidence_def by (rule adds_recorded) (simp_all add: adds_def split: prod.split)
  have read: "wp (read_evidence cx ops job) (\<lambda>ev s. EvidenceRead (Inr ev) \<in> set (snd s)) (\<lambda>_ _. True) s" for s
    using yields_recorded unfolding yields_def read_evidence_def by blast
  have y: "yields ?R ?m"
    unfolding yields_def by (intro allI wp_catch_rule[where F = "\<lambda>_ _. True", OF wp_seq[OF read]]) (simp_all add: wp_ok)
  show ?thesis
    unfolding auditRecoveredSettlement_def
  proof (rule quiet_yields[OF s F _ y])
    show "adds (sends C) ?m" for C by (intro io_basics quiet)
  next
    fix r :: "string + settlement_evidence option" and s2 :: "'a \<times> round_event list"
    assume k: "known cx (\<lambda>t. F t \<and> ?R r t) s2"
    let ?v = "classifyFinalizedRoundSettlementEvidence (case r of Inl e \<Rightarrow> None | Inr ev \<Rightarrow> ev) (Big (jobId job)) (Num (settleDeadline job))"
    show "wp (then_io (lift_io ?v) (\<lambda>result.
       then_io (if deadlineMet result
          then emitRoundHeartbeat ''tick-complete'' ''settled'' (Str (audit_outcome job r result))
          else emitRoundHeartbeat ''tick-error'' ''settlement-deadline-missed'' (Str (audit_outcome job r result))) (\<lambda>_.
       ok_io (deadlineMet result)))) (\<lambda>_. trusted cx) (\<lambda>_. trusted cx) s2"
    proof (rule lift_step[OF known_trusted[OF k]], rule verdict_known[OF k])
      fix result t
      assume v: "?v = Inr result" and met: "deadlineMet result" and t: "F t \<and> ?R r t"
      obtain ev where r: "r = Inr (Some ev)" using v met
        by (cases r) (auto simp: classifyFinalizedRoundSettlementEvidence_def res_simps split: option.splits)
      then obtain n where n: "ev_roundId ev = show_int (jobId job)" "ev_blockTime ev = IntV n"
          "settlementConfirmedWithinResultWindow (IntV n) (Num (settleDeadline job)) = Inr True"
        using v met by (auto simp: classifyFinalizedRoundSettlementEvidence_def res_simps safe_int_Some asRoundId_def)
      have "job_in cx t job" "EvidenceRead (Inr (Some ev)) \<in> set t" using t job[of t] r by simp_all
      with n(1,2) in_time_lt[OF n(3)] show "final_in_time cx t" unfolding final_in_time_def by blast
    qed
  qed
qed

lemma recovered_known:
  assumes s: "known cx F s" and F: "lasting F" and job: "\<And>t. F t \<Longrightarrow> job_in cx t job"
  shows "wp (recovered_exit cx ops job) (\<lambda>_. trusted cx) (\<lambda>_. trusted cx) s"
  unfolding recovered_exit_def by (rule wp_seq[OF audit_known[OF s F job]]) (simp_all add: wp_ok)

section \<open>The life of the round\<close>

lemma check_step: "trusted cx s \<Longrightarrow> (c \<Longrightarrow> wp k Q (\<lambda>_. trusted cx) s) \<Longrightarrow> wp (assert_io c msg k) Q (\<lambda>_. trusted cx) s"
  by (simp add: wp_assert)

lemma check_true: "(c \<Longrightarrow> wp k Q (\<lambda>_ _. True) s) \<Longrightarrow> wp (assert_io c msg k) Q (\<lambda>_ _. True) s"
  by (simp add: wp_assert)

lemma wait_step:
  assumes "known cx F s" "lasting F" "adds sends_nothing m" "yields (\<lambda>r t. r = Some () \<longrightarrow> G t) m"
    and "\<And>s'. known cx (\<lambda>t. F t \<and> G t) s' \<Longrightarrow> wp k (\<lambda>_. trusted cx) (\<lambda>_. trusted cx) s'"
  shows "wp (after_wait m k) (\<lambda>_. trusted cx) (\<lambda>_. trusted cx) s"
  unfolding after_wait_def
proof (rule quiet_yields[OF assms(1-4)])
  fix r and s' :: "'a \<times> round_event list"
  assume s: "known cx (\<lambda>t. F t \<and> (r = Some () \<longrightarrow> G t)) s'"
  show "wp (case r of None \<Rightarrow> ok_io StillWaiting | Some u \<Rightarrow> k) (\<lambda>_. trusted cx) (\<lambda>_. trusted cx) s'"
    using s by (cases r) (auto simp: wp_ok known_def intro!: assms(5))
qed

lemma silent_entropy [silent_steps]: "adds (sends C) (await_entropy fuel ops st refundAt target lastBeat)"
proof (induction fuel arbitrary: lastBeat)
  case (Suc fuel)
  then show ?case unfolding await_entropy.simps by (intro io_basics silent_steps) simp
qed simp

definition entropy_in :: "int \<Rightarrow> round_event list \<Rightarrow> bool" where
  "entropy_in target t \<longleftrightarrow> (\<exists>data. EntropySeen (Inr (Some data)) \<in> set t \<and> serverEntropyAvailable data (Big target) = Inr True)"


lemma yields_entropy: "yields (\<lambda>r t. r = Some () \<longrightarrow> entropy_in target t) (await_entropy fuel ops st refundAt target lastBeat)"
  unfolding yields_def
proof
  fix s
  show "wp (await_entropy fuel ops st refundAt target lastBeat) (\<lambda>r s. r = Some () \<longrightarrow> entropy_in target (snd s)) (\<lambda>_ _. True) s"
  proof (induction fuel arbitrary: s lastBeat)
    case (Suc fuel)
    have read: "wp (call_io action EntropySeen) (\<lambda>found s. EntropySeen (Inr found) \<in> set (snd s)) (\<lambda>_ _. True) s" for action s
      using yields_call unfolding yields_def by blast
    show ?case
      unfolding await_entropy.simps
    proof (rule wp_tail)
      fix now s
      let ?rest = "\<lambda>found. then_io (lift_io (case found of None \<Rightarrow> Inr False | Some data \<Rightarrow> serverEntropyAvailable data (Big target)))
         (\<lambda>available. if available then ok_io (Some ())
          else then_io (read_io (\<lambda>w. case dateNow ops w of (n, w') \<Rightarrow> (Inr n, w'))) (\<lambda>date.
            then_io (if 1000 \<le> date - lastBeat
               then emitRoundHeartbeat ''tick-start'' ''awaiting-entropy'' (Str (''target-slot:'' @ show_int target)) else ok_io ()) (\<lambda>_.
            then_io (sleep_io ops 150) (\<lambda>_.
            await_entropy fuel ops st refundAt target (if 1000 \<le> date - lastBeat then date else lastBeat)))))"
      have rest: "wp (?rest found) (\<lambda>r s. r = Some () \<longrightarrow> entropy_in target (snd s)) (\<lambda>_ _. True) s"
        if "EntropySeen (Inr found) \<in> set (snd s)" for found s
      proof -
        have later: "wp (then_io (read_io (\<lambda>w. case dateNow ops w of (n, w') \<Rightarrow> (Inr n, w'))) (\<lambda>date.
            then_io (if 1000 \<le> date - lastBeat
               then emitRoundHeartbeat ''tick-start'' ''awaiting-entropy'' (Str (''target-slot:'' @ show_int target)) else ok_io ()) (\<lambda>_.
            then_io (sleep_io ops 150) (\<lambda>_.
            await_entropy fuel ops st refundAt target (if 1000 \<le> date - lastBeat then date else lastBeat)))))
            (\<lambda>r s. r = Some () \<longrightarrow> entropy_in target (snd s)) (\<lambda>_ _. True) s"
          by (intro wp_tail Suc)
        show ?thesis
          using that later by (cases found) (auto simp: wp_then[of "lift_io r" for r] wp_lift wp_ok entropy_in_def split: sum.split)
      qed
      show "wp (assert_io (num_lt (seconds now) refundAt) ''Future entropy slot was not retained before refund''
         (then_io (call_io (withOperationTimeout (readSlotHashes ops) (rpcTimeoutMs st) ''SlotHashes sysvar read'' None) EntropySeen)
           ?rest)) (\<lambda>r s. r = Some () \<longrightarrow> entropy_in target (snd s)) (\<lambda>_ _. True) s"
        by (rule check_true, rule wp_seq[OF read rest])
    qed
  qed (simp add: wp_ok)
qed

lemma entropy_readyI: "decodeServerEntropySlot (BN (commitSlot x)) = Inr target \<Longrightarrow> entropy_in target t \<Longrightarrow> entropy_ready t x"
  by (auto simp: entropy_ready_def entropy_in_def)

lemma lasting_entropy [lasts]: "lasting (entropy_in target)"
  unfolding entropy_in_def by (intro lasts)

text \<open>The round after its betting has closed.\<close>

definition closed :: "round_context \<Rightarrow> round_job \<Rightarrow> bytes \<Rightarrow> round_event list \<Rightarrow> bool" where
  "closed cx job reveal t \<longleftrightarrow> reveals cx t job reveal \<and> clock_reached t (jobBettingEndsAt job)"

lemma lasting_closed [lasts]: "lasting (closed cx job reveal)"
  unfolding closed_def by (intro lasts)

lemma reveals_job: "reveals cx t job reveal \<Longrightarrow> job_in cx t job"
  by (auto simp: reveals_def secret_in_def)

lemma settle_known:
  assumes s: "known cx F s" and F: "lasting F" and go: "\<And>t. F t \<Longrightarrow> may_settle cx t job reveal"
  shows "wp (settle_round cx ops job reveal) (\<lambda>_. trusted cx) (\<lambda>_. trusted cx) s"
proof -
  have job: "F t \<Longrightarrow> job_in cx t job" for t using go[of t] by (auto simp: may_settle_def dest: reveals_job)
  have out: "F t \<Longrightarrow> ixs = [settleRoundIx cx job gate reveal] \<Longrightarrow> calls_allowed cx t ixs" for t ixs gate
    using go[of t] by (auto simp: calls_allowed_def settles_server_def)
  show ?thesis
    unfolding settle_round_def Let_def
    apply (rule quiet_step[OF s F silent_clock])
    apply (rule quiet_step[OF _ F], assumption, intro io_basics silent_steps)
    apply (rule quiet_step[OF _ F], assumption, intro io_basics silent_steps)
    apply (rule check_step, erule known_trusted)
    apply (rule check_step, erule known_trusted)
    apply (rule step[OF _ F instructions_send[where P = "\<lambda>ixs. \<exists>gate. ixs = [settleRoundIx cx job gate reveal]"]], assumption, blast, metis out)
    apply (rule quiet_step[OF _ F silent_fetch], assumption)
    apply (rule report_known[OF _ F job])
    apply assumption+
    done
qed

lemma after_known:
  assumes s: "known cx F s" and F: "lasting F" and go: "\<And>t. F t \<Longrightarrow> closed cx job reveal t \<and> seen t x"
  shows "wp (after_lock fuel cx ops job refundAt reveal x) (\<lambda>_. trusted cx) (\<lambda>_. trusted cx) s"
proof (cases "isSettled x")
  case True
  then show ?thesis
    unfolding after_lock_def Let_def if_P[OF True] by (intro recovered_known[OF s F] reveals_job) (use go in \<open>auto simp: closed_def\<close>)
next
  case False
  have fact: "may_settle cx t job reveal"
    if "((F t \<and> decodeServerEntropySlot (BN (commitSlot x)) = Inr target) \<and> entropy_in target t) \<and> clock_reached t (jobBettingEndsAt job)"
    for t target
    using that go[of t] False entropy_readyI by (auto simp: may_settle_def closed_def)
  show ?thesis
    unfolding after_lock_def Let_def if_not_P[OF False]
    apply (rule quiet_step[OF s F silent_clock])
    apply (rule check_step, erule known_trusted)
    apply (rule quiet_yields[OF _ F adds_lift yields_lift], assumption)
    apply (rule wait_step[OF _ _ silent_entropy yields_entropy], assumption, intro lasts F)
    apply (rule quiet_step, assumption, intro lasts F, rule silent_stage)
    apply (rule wait_step[OF _ _ silent_wait yields_wait], assumption, intro lasts F)
    apply (rule settle_known, assumption, intro lasts F, erule fact)
    done
qed

lemma lock_known:
  assumes s: "known cx F s" and F: "lasting F" and go: "\<And>t. F t \<Longrightarrow> closed cx job reveal t"
  shows "wp (lock_round fuel cx ops job refundAt reveal) (\<lambda>_. trusted cx) (\<lambda>_. trusted cx) s"
proof -
  have lock: "calls_allowed cx t ixs"
    if "F t \<and> RoundSeen (Inr (Some x)) \<in> set t" "ixs = [lockEntropyIx cx job]" "\<not> isSettled x" "commitSlot x = SERVER_RANDOMNESS_PENDING"
    for t ixs x
    using that go[of t] reveals_job[of cx t job reveal] unfolding calls_allowed_def locks_entropy_def closed_def seen_def by blast
  have after: "wp (after_lock fuel cx ops job refundAt reveal x) (\<lambda>_. trusted cx) (\<lambda>_. trusted cx) s"
    if "known cx G s" "lasting G" "\<And>t. G t \<Longrightarrow> F t \<and> seen t x" for G x s
    by (rule after_known[OF that(1,2)]) (use that(3) go in blast)
  show ?thesis
    unfolding lock_round_def Let_def
  proof (rule quiet_yields[OF s F _ yields_call], intro io_basics, simp)
    fix found and s2 :: "'a \<times> round_event list"
    assume k: "known cx (\<lambda>t. F t \<and> RoundSeen (Inr found) \<in> set t) s2"
    show "wp (case found of None \<Rightarrow> fail_io (Error (''Account does not exist or has no data '' @ jobAddress cx job))
      | Some current \<Rightarrow>
        if \<not> isSettled current \<and> commitSlot current = SERVER_RANDOMNESS_PENDING
        then then_io (sendKeeperInstructions cx ops (jobSettings job) ''betting-closed'' [lockEntropyIx cx job] ''Server entropy lock'') (\<lambda>sent.
          then_io (fetchRoundWithRetry ops (jobSettings job) (jobAddress cx job) ''betting-closed''
            (\<lambda>x. commitSlot x \<noteq> SERVER_RANDOMNESS_PENDING) ''Future server entropy slot lock'') (\<lambda>locked.
          then_io (chainTimeSeconds ops (jobSettings job)) (\<lambda>lockedAt.
          then_io (if num_le (settleDeadline job) (seconds lockedAt)
             then emitRoundHeartbeat ''tick-error'' ''lock-deadline-missed''
               (Str (''late-by:'' @ num_to_string (num_sub (seconds lockedAt) (jobBettingEndsAt job)) @ ''s''))
             else ok_io ()) (\<lambda>_.
          then_io (emitRoundHeartbeat ''tick-start'' ''entropy-locked'' (Str (sentSignature sent))) (\<lambda>_.
          after_lock fuel cx ops job refundAt reveal locked)))))
        else after_lock fuel cx ops job refundAt reveal current) (\<lambda>_. trusted cx) (\<lambda>_. trusted cx) s2"
    proof (cases found)
      case None
      then show ?thesis using k by (simp add: wp_fail known_def)
    next
      case (Some x)
      have last: "lasting (\<lambda>t. F t \<and> RoundSeen (Inr (Some x)) \<in> set t)" by (intro lasts F)
      note k = k[unfolded Some]
      show ?thesis
      proof (cases "\<not> isSettled x \<and> commitSlot x = SERVER_RANDOMNESS_PENDING")
        case False
        then show ?thesis unfolding Some by (simp only: option.case if_False, intro after[OF k last]) (simp add: seen_def)
      next
        case True
        show ?thesis
          unfolding Some option.case if_P[OF True]
          apply (rule step[OF k last instructions_send[where P = "\<lambda>ixs. ixs = [lockEntropyIx cx job]"]], rule refl)
           apply (erule lock, assumption, use True in simp, use True in simp)
          apply (rule quiet_yields[OF _ last silent_fetch yields_fetch], assumption)
          apply (rule quiet_step[OF _ _ silent_clock], assumption, intro lasts F)
          apply (rule quiet_step, assumption, intro lasts F, intro io_basics silent_steps)
          apply (rule quiet_step, assumption, intro lasts F, intro io_basics silent_steps)
          apply (rule after, assumption, intro lasts F, blast)
          done
      qed
    qed
  qed
qed

lemma lt_not_le: "num_lt x y \<Longrightarrow> \<not> num_le y x"
  by (cases x; cases y) (auto simp: num_le_def)

lemma wp_cond: "(c \<Longrightarrow> wp m Q E s) \<Longrightarrow> (\<not> c \<Longrightarrow> wp n Q E s) \<Longrightarrow> wp (if c then m else n) Q E s"
  by simp

lemma known_more: "known cx (\<lambda>t. F t \<and> R t) s \<Longrightarrow> known cx F s"
  by (simp add: known_def)

lemma known_weaken: "known cx F s \<Longrightarrow> (\<And>t. F t \<Longrightarrow> G t) \<Longrightarrow> known cx G s"
  by (simp add: known_def)

lemma betting_known:
  assumes s: "known cx F s" and F: "lasting F"
    and go: "\<And>t. F t \<Longrightarrow> reveals cx t job reveal \<and> clock_reached t (jobOpenedAt job)"
  shows "wp (betting fuel cx ops job) (\<lambda>_. known cx F) (\<lambda>_. trusted cx) s"
proof -
  have plan: "calls_allowed cx t ixs"
    if "F t \<and> clock_before t (jobBettingEndsAt job)" "list_all (plan_call cx job) ixs" for t ixs
    using that go[of t] unfolding calls_allowed_def runs_plans_def by blast
  have run: "wp (execute_plans fuel cx ops job rent) (\<lambda>_. known cx F) (\<lambda>_. trusted cx) s"
    if "known cx (\<lambda>t. F t \<and> clock_before t (jobBettingEndsAt job)) s" for rent s
    apply (rule wp_mono[OF plans_known[OF that]])
    subgoal by (intro lasts F)
    subgoal by (rule plan)
    subgoal by (erule known_more)
    by (erule known_trusted)
  show ?thesis
    unfolding betting_def Let_def
    apply (rule quiet_step[OF s F], intro io_basics silent_steps)
    apply (rule quiet_yields[OF _ F silent_clock yields_clock], assumption)
    subgoal for u s1 now s2
    proof (cases "num_lt (seconds now) (jobBettingEndsAt job)")
      case True
      assume "known cx (\<lambda>t. F t \<and> ClockRead (Inr now) \<in> set t) s2"
      then have k: "known cx (\<lambda>t. F t \<and> clock_before t (jobBettingEndsAt job)) s2"
        by (rule known_weaken) (use lt_not_le[OF True] in \<open>auto simp: clock_before_def\<close>)
      show ?thesis
        unfolding if_P[OF True]
        apply (rule quiet_step[OF k], intro lasts F, rule silent_bounded)
        apply (rule quiet_step, assumption, intro lasts F, intro io_basics)
        apply (erule run)
        done
    next
      case False
      assume "known cx (\<lambda>t. F t \<and> ClockRead (Inr now) \<in> set t) s2"
      then show ?thesis unfolding if_not_P[OF False] wp_ok by (rule known_more)
    qed
    done
qed

lemma play_known:
  assumes s: "known cx F s" and F: "lasting F" and go: "\<And>t. F t \<Longrightarrow> reveals cx t job reveal"
  shows "wp (play_round fuel cx ops job reveal bound sig) (\<lambda>_. trusted cx) (\<lambda>_. trusted cx) s"
proof -
  let ?G = "\<lambda>t. F t \<and> clock_reached t (jobOpenedAt job)"
  have G: "lasting ?G" by (intro lasts F)
  have after: "wp (after_wait (betting fuel cx ops job) k) (\<lambda>_. trusted cx) (\<lambda>_. trusted cx) s"
    if "known cx ?G s" "\<And>s. known cx ?G s \<Longrightarrow> wp k (\<lambda>_. trusted cx) (\<lambda>_. trusted cx) s" for k s
    unfolding after_wait_def
  proof (rule wp_seq[OF betting_known[where reveal = reveal, OF that(1) G]])
    fix r and s' :: "'a \<times> round_event list"
    assume "known cx ?G s'"
    then show "wp (case r of None \<Rightarrow> ok_io StillWaiting | Some u \<Rightarrow> k) (\<lambda>_. trusted cx) (\<lambda>_. trusted cx) s'"
      using that(2) by (cases r) (auto simp: wp_ok known_def)
  qed (use go in simp)
  have shut: "closed cx job reveal t" if "?G t \<and> clock_reached t (jobBettingEndsAt job)" for t
    using that go by (simp add: closed_def)
  show ?thesis
    unfolding play_round_def Let_def
    apply (rule check_step[OF known_trusted[OF s]])+
    apply (rule quiet_step[OF s F], rule silent_beat)
    apply (rule quiet_step[OF _ F silent_stage], assumption)
    apply (rule wait_step[OF _ F silent_wait yields_wait], assumption)
    apply (rule after, assumption)
    apply (rule quiet_step[OF _ G silent_stage], assumption)
    apply (rule wait_step[OF _ G silent_wait yields_wait], assumption)
    apply (rule quiet_step, assumption, intro lasts F, rule silent_beat)
    apply (rule lock_known, assumption, intro lasts F, erule shut)
    done
qed

lemma open_known:
  assumes s: "known cx F s" and F: "lasting F"
    and go: "\<And>t. F t \<Longrightarrow> secret_in cx t job reveal commitment \<and> RoundSeen (Inr None) \<in> set t \<and> clock_before t (jobOpenedAt job)"
  shows "wp (open_round cx ops job commitment) (\<lambda>(x, sig). known cx (\<lambda>t. F t \<and> seen t x \<and> boundCommitment x = commitment))
    (\<lambda>_. trusted cx) s"
proof -
  have out: "calls_allowed cx t ixs" if "F t" "ixs = [openRoundIx cx job, bindCommitmentIx cx job commitment]" for t ixs
    using that go[of t] unfolding calls_allowed_def opens_round_def by blast
  show ?thesis
    unfolding open_round_def Let_def
    apply (rule quiet_step[OF s F], rule silent_beat)
    apply (rule step[OF _ F instructions_send[where P = "\<lambda>ixs. ixs = [openRoundIx cx job, bindCommitmentIx cx job commitment]"]],
        assumption, rule refl, erule (1) out)
    apply (rule quiet_yields[OF _ F silent_fetch yields_fetch], assumption)
    apply (rule quiet_step[OF _ _ silent_clock], assumption, intro lasts F)
    apply (rule quiet_step, assumption, intro lasts F, intro io_basics silent_steps)
    apply (simp add: wp_ok)
    done
qed

lemma own_known:
  assumes s: "known cx F s" and F: "lasting F" and job: "\<And>t. F t \<Longrightarrow> job_in cx t job"
    and there: "\<And>t x. F t \<Longrightarrow> existing = Some x \<Longrightarrow> seen t x"
    and missing: "\<And>t. F t \<Longrightarrow> existing = None \<Longrightarrow> RoundSeen (Inr None) \<in> set t \<and> clock_before t (jobOpenedAt job)"
  shows "wp (own_round fuel cx ops dir job existing) (\<lambda>_. trusted cx) (\<lambda>_. trusted cx) s"
  unfolding own_round_def
proof (rule quiet_yields[OF s F _ yields_call], intro io_basics, simp,
    rule quiet_yields[OF _ _ adds_lift yields_lift], assumption, intro lasts F)
  fix reveal commitment and s2 :: "'a \<times> round_event list"
  let ?F = "\<lambda>t. (F t \<and> RevealLoaded (Inr reveal) \<in> set t) \<and> roundCommitment cx job reveal = Inr commitment"
  assume k: "known cx ?F s2"
  have last: "lasting ?F" by (intro lasts F)
  have secret: "secret_in cx t job reveal commitment" if "?F t" for t
    using that job by (simp add: secret_in_def)
  have bound: "reveals cx t job reveal" if "?F t \<and> seen t x \<and> boundCommitment x = commitment" for t x
    using that secret[of t] unfolding reveals_def by blast
  show "wp (case existing of
       None \<Rightarrow> then_io (open_round cx ops job commitment) (\<lambda>(opened, sig). play_round fuel cx ops job reveal opened (Some sig))
     | Some x \<Rightarrow>
         assert_io (boundCommitment x = commitment)
           ''Persisted reveal does not match the round commitment; refusing an unrecoverable settlement''
         (assert_io (commitSlot x = SERVER_RANDOMNESS_PENDING \<or> 0 < commitSlot x)
           ''Existing round is not a bound server commit-reveal round''
         (play_round fuel cx ops job reveal x None))) (\<lambda>_. trusted cx) (\<lambda>_. trusted cx) s2"
  proof (cases existing)
    case None
    show ?thesis
      unfolding None option.case
      apply (rule wp_seq_pair[OF open_known[where reveal = reveal, OF k last]])
      subgoal for t using secret[of t] missing[OF _ None, of t] by simp
      apply (rule play_known, assumption, intro lasts F, erule bound)
      done
  next
    case (Some x)
    have "known cx (\<lambda>t. ?F t \<and> seen t x) s2" using k there[OF _ Some] by (auto simp: known_def)
    note k' = this
    show ?thesis
      unfolding Some option.case
      apply (rule check_step[OF known_trusted[OF k]])+
      apply (rule play_known[OF k'], intro lasts F)
      apply (rule bound[where x = x], simp)
      done
  qed
qed

lemma start_known:
  assumes s: "known cx F s" and F: "lasting F" and job: "\<And>t. F t \<Longrightarrow> job_in cx t job"
  shows "wp (start_round fuel cx ops dir job) (\<lambda>_. trusted cx) (\<lambda>_. trusted cx) s"
  unfolding start_round_def
proof (rule quiet_yields[OF s F _ yields_call], intro io_basics, simp)
  fix existing and s2 :: "'a \<times> round_event list"
  let ?F = "\<lambda>t. F t \<and> RoundSeen (Inr existing) \<in> set t"
  assume k: "known cx ?F s2"
  have last: "lasting ?F" by (intro lasts F)
  show "wp (case existing of
       Some x \<Rightarrow> if isSettled x then recovered_exit cx ops job else own_round fuel cx ops dir job existing
     | None \<Rightarrow> then_io (chainTimeSeconds ops (jobSettings job)) (\<lambda>now.
         if num_le (jobOpenedAt job) (seconds now)
         then then_io (emitRoundHeartbeat ''tick-error'' ''prepare-deadline-missed''
             (Str (''deadline:'' @ num_to_string (jobOpenedAt job)))) (\<lambda>_. ok_io (ExitCode ROUND_KEEPER_MISSED_EXIT_CODE))
         else own_round fuel cx ops dir job None)) (\<lambda>_. trusted cx) (\<lambda>_. trusted cx) s2"
  proof (cases existing)
    case (Some x)
    have "wp (recovered_exit cx ops job) (\<lambda>_. trusted cx) (\<lambda>_. trusted cx) s2"
      by (rule recovered_known[OF k last job]) simp
    moreover have "wp (own_round fuel cx ops dir job existing) (\<lambda>_. trusted cx) (\<lambda>_. trusted cx) s2"
      by (rule own_known[OF k last job]) (auto simp: Some seen_def)
    ultimately show ?thesis by (simp add: Some)
  next
    case None
    show ?thesis
      unfolding None option.case
    proof (rule quiet_yields[OF k last silent_clock yields_clock])
      fix now and s3 :: "'a \<times> round_event list"
      assume k3: "known cx (\<lambda>t. ?F t \<and> ClockRead (Inr now) \<in> set t) s3"
      show "wp (if num_le (jobOpenedAt job) (seconds now)
         then then_io (emitRoundHeartbeat ''tick-error'' ''prepare-deadline-missed''
             (Str (''deadline:'' @ num_to_string (jobOpenedAt job)))) (\<lambda>_. ok_io (ExitCode ROUND_KEEPER_MISSED_EXIT_CODE))
         else own_round fuel cx ops dir job None) (\<lambda>_. trusted cx) (\<lambda>_. trusted cx) s3"
      proof (cases "num_le (jobOpenedAt job) (seconds now)")
        case True
        then show ?thesis
          by (simp only: if_True) (rule wp_seq[OF missed_known[OF known_trusted[OF k3]]], simp add: wp_ok)
      next
        case False
        show ?thesis
          unfolding if_not_P[OF False]
          apply (rule own_known[OF k3])
          subgoal by (intro lasts F)
          using job False None by (auto simp: clock_before_def)
      qed
    qed
  qed
qed

lemma schedule_known:
  assumes st: "startup cx = Inr (st, rid, dir)" and s: "trusted cx s"
  shows "wp (own_schedule fuel cx ops st rid dir) (\<lambda>_. trusted cx) (\<lambda>_. trusted cx) s"
  unfolding own_schedule_def
proof (rule quiet_yields[where F = "\<lambda>_. True", OF _ lasting_const _ yields_call])
  show "known cx (\<lambda>_. True) s" using s by (simp add: known_def)
  fix cfg and s2 :: "'a \<times> round_event list"
  let ?F = "\<lambda>t. True \<and> ConfigRead (Inr cfg) \<in> set t"
  assume k: "known cx ?F s2"
  have last: "lasting ?F" by (intro lasts)
  have job: "job_in cx t job" if "?F t \<and> schedule_job st rid cfg = Inr job" for t job
    using that st unfolding job_in_def by blast
  show "wp (assert_io (cfgVersion cfg = 6) ''Server round keeper requires protocol fee schedule v6''
     (if cfgPaused cfg
      then then_io (emitRoundHeartbeat ''tick-complete'' ''deferred'' (Str ''protocol-paused'')) (\<lambda>_.
        ok_io (ExitCode ROUND_KEEPER_DEFERRED_EXIT_CODE))
      else
        then_io (lift_io (check_config cx st cfg)) (\<lambda>_.
        then_io (bounded (readGenesis ops) (rpcTimeoutMs st) ''Genesis hash read'') (\<lambda>genesis.
        then_io (lift_io (requireMatchingSolanaNetwork (Str genesis) (Str (cfgRandomnessProgram cfg)) (Str (programKey cx)))) (\<lambda>_.
        then_io (lift_io (schedule_job st rid cfg)) (\<lambda>job.
        then_io (emitRoundHeartbeat ''tick-start'' ''preflight-complete'' (Str ''configuration-verified'')) (\<lambda>_.
        start_round fuel cx ops dir job))))))) (\<lambda>_. trusted cx) (\<lambda>_. trusted cx) s2"
    apply (rule check_step[OF known_trusted[OF k]], rule wp_cond)
    subgoal by (rule quiet_step[OF k last], rule silent_beat) (simp add: wp_ok known_def)
      apply (rule quiet_step[OF k last adds_lift])
      apply (rule quiet_step[OF _ last silent_bounded], assumption)
      apply (rule quiet_step[OF _ last adds_lift], assumption)
      apply (rule quiet_yields[OF _ last adds_lift yields_lift], assumption)
      apply (rule quiet_step, assumption, intro lasts, rule silent_beat)
      apply (rule start_known, assumption, intro lasts, erule job)
      done
qed (simp add: adds_call)

lemma monitored_trusted:
  assumes "wp m (\<lambda>_. trusted cx) (\<lambda>_. trusted cx) s"
  shows "wp (monitored m) (\<lambda>_. trusted cx) (\<lambda>_. trusted cx) s"
proof -
  obtain r w t where m: "m s = (r, w, t)" by (metis prod_cases3)
  show ?thesis using assms by (cases r) (simp_all add: wp_def monitored_def m keeper_allowed_def)
qed

lemma run_trusted: "wp (run_keeper fuel cx ops) (\<lambda>_. trusted cx) (\<lambda>_. trusted cx) (w, [])"
  unfolding run_keeper_def
proof (cases "startup cx")
  case (Inr r)
  obtain st rid dir where r: "r = (st, rid, dir)" by (metis prod_cases3)
  show "wp (then_io (lift_io (startup cx)) (\<lambda>(st, rid, stateDir).
     then_io (emitRoundHeartbeat ''tick-start'' ''preflight'' (Str ''starting'')) (\<lambda>_.
     monitored (own_schedule fuel cx ops st rid stateDir)))) (\<lambda>_. trusted cx) (\<lambda>_. trusted cx) (w, [])"
    unfolding wp_then[of "lift_io _"] wp_lift Inr r sum.case prod.case
    by (rule quiet_step[where F = "\<lambda>_. True", OF _ lasting_const], simp add: known_def, rule silent_beat)
      (intro monitored_trusted schedule_known, simp_all add: Inr r known_def)
qed (simp add: wp_then wp_lift)

lemma run_justified: "run_keeper fuel cx ops (w, []) = (r, w', t) \<Longrightarrow> justified (keeper_allowed cx) t"
  using wpD[OF run_trusted] by (fastforce split: sum.splits)

section \<open>What the process sends\<close>

definition message_of :: "round_event \<Rightarrow> tx_message option" where
  "message_of e = (case e of Simulated m \<Rightarrow> Some m | KeeperSent m answer \<Rightarrow> Some m | _ \<Rightarrow> None)"

lemma message_allowed:
  assumes "run_keeper fuel cx ops (w, []) = (r, w', before @ e # after)" "message_of e = Some m"
  shows "calls_allowed cx before (calls m)"
  using run_justified[OF assms(1)] assms(2) by (auto simp: keeper_allowed_def message_of_def split: round_event.splits)

lemma call_names [simp]:
  "method_name (openRoundIx cx job) = ''openRound''" "method_name (bindCommitmentIx cx job c) = ''bindRoundServerCommitment''"
  "method_name (lockEntropyIx cx job) = ''lockRoundServerEntropy''"
  "method_name (settleRoundIx cx job gate reveal) = ''settleRoundServer''"
  "method_name (executePlanIx cx job a n) = ''executeAutoPlan''" "method_name (reinvestIx cx a) = ''reinvestAutoPlanRewards''"
  by (simp_all add: openRoundIx_def bindCommitmentIx_def lockEntropyIx_def settleRoundIx_def executePlanIx_def reinvestIx_def Let_def)

lemma plan_names: "list_all (plan_call cx job) ixs \<Longrightarrow> i \<in> set ixs \<Longrightarrow> method_name i \<in> {''executeAutoPlan'', ''reinvestAutoPlanRewards''}"
  by (auto simp: list_all_iff plan_call_def)

text \<open>Which of the four messages a call belongs to.\<close>

lemma call_cases:
  assumes "calls_allowed cx t ixs" "i \<in> set ixs"
  shows "method_name i = ''settleRoundServer'' \<Longrightarrow> settles_server cx t ixs"
    and "method_name i = ''openRound'' \<or> method_name i = ''bindRoundServerCommitment'' \<Longrightarrow> opens_round cx t ixs"
    and "method_name i = ''lockRoundServerEntropy'' \<Longrightarrow> locks_entropy cx t ixs"
    and "method_name i = ''executeAutoPlan'' \<or> method_name i = ''reinvestAutoPlanRewards'' \<Longrightarrow> runs_plans cx t ixs"
proof -
  have "settles_server cx t ixs \<Longrightarrow> method_name i = ''settleRoundServer''" using assms(2) by (auto simp: settles_server_def)
  moreover have "opens_round cx t ixs \<Longrightarrow> method_name i \<in> {''openRound'', ''bindRoundServerCommitment''}"
    using assms(2) by (auto simp: opens_round_def)
  moreover have "locks_entropy cx t ixs \<Longrightarrow> method_name i = ''lockRoundServerEntropy''"
    using assms(2) by (auto simp: locks_entropy_def)
  moreover have "runs_plans cx t ixs \<Longrightarrow> method_name i \<in> {''executeAutoPlan'', ''reinvestAutoPlanRewards''}"
    using plan_names[OF _ assms(2)] unfolding runs_plans_def by blast
  ultimately show "method_name i = ''settleRoundServer'' \<Longrightarrow> settles_server cx t ixs"
    and "method_name i = ''openRound'' \<or> method_name i = ''bindRoundServerCommitment'' \<Longrightarrow> opens_round cx t ixs"
    and "method_name i = ''lockRoundServerEntropy'' \<Longrightarrow> locks_entropy cx t ixs"
    and "method_name i = ''executeAutoPlan'' \<or> method_name i = ''reinvestAutoPlanRewards'' \<Longrightarrow> runs_plans cx t ixs"
    using assms(1) unfolding calls_allowed_def by auto
qed

text \<open>
  C2. The secret of a round is not published early: the keeper simulates or submits \<open>settleRoundServer\<close>, which carries
  the secret, only in a message of its own and after it has read a chain time at which betting has closed, a round bound
  to the commitment of that secret, and the slot hash of the entropy slot that an unsettled round was locked to.
\<close>

theorem server_secret_not_early:
  assumes "run_keeper fuel cx ops (w, []) = (r, w', before @ e # after)" "message_of e = Some m"
    and "i \<in> set (calls m)" "method_name i = ''settleRoundServer''"
  shows "\<exists>job gate reveal. calls m = [settleRoundIx cx job gate reveal] \<and> may_settle cx before job reveal"
  using call_cases(1)[OF message_allowed[OF assms(1,2)] assms(3,4)] unfolding settles_server_def by blast

text \<open>
  C5. A round is opened and bound in one transaction: the keeper simulates or submits \<open>openRound\<close> or
  \<open>bindRoundServerCommitment\<close> only together, for the round its configuration schedules, with the commitment of the
  secret it has loaded from its durable store, after the round was read as missing and before it is due to open.
\<close>

theorem server_round_opened_bound:
  assumes "run_keeper fuel cx ops (w, []) = (r, w', before @ e # after)" "message_of e = Some m" "i \<in> set (calls m)"
    and "method_name i = ''openRound'' \<or> method_name i = ''bindRoundServerCommitment''"
  shows "\<exists>job reveal commitment. calls m = [openRoundIx cx job, bindCommitmentIx cx job commitment]
    \<and> secret_in cx before job reveal commitment \<and> RoundSeen (Inr None) \<in> set before \<and> clock_before before (jobOpenedAt job)"
  using call_cases(2)[OF message_allowed[OF assms(1,2)] assms(3,4)] unfolding opens_round_def by blast

text \<open>
  Prepaid plans run only while betting is open: a message with a plan's execution or reinvestment holds only such
  calls, and the keeper has read chain times at which the round was open and at which betting had not closed, and the round
  bound to its commitment.
\<close>

theorem server_plans_in_window:
  assumes "run_keeper fuel cx ops (w, []) = (r, w', before @ e # after)" "message_of e = Some m" "i \<in> set (calls m)"
    and "method_name i = ''executeAutoPlan'' \<or> method_name i = ''reinvestAutoPlanRewards''"
  shows "\<exists>job reveal. reveals cx before job reveal \<and> clock_reached before (jobOpenedAt job)
    \<and> clock_before before (jobBettingEndsAt job) \<and> list_all (plan_call cx job) (calls m)"
  using call_cases(4)[OF message_allowed[OF assms(1,2)] assms(3,4)] unfolding runs_plans_def by blast

text \<open>The entropy is locked after betting has closed, for a round that was read as pending.\<close>

theorem server_entropy_locked_after_close:
  assumes "run_keeper fuel cx ops (w, []) = (r, w', before @ e # after)" "message_of e = Some m"
    and "i \<in> set (calls m)" "method_name i = ''lockRoundServerEntropy''"
  shows "locks_entropy cx before (calls m)"
  by (rule call_cases(3)[OF message_allowed[OF assms(1,2)] assms(3,4)])


section \<open>Two runs\<close>

text \<open>
  A restarted keeper finds its round bound and locked after betting has closed, and settles it. A keeper starts before
  its round exists, and the simulation of its opening fails.
\<close>

definition demo_setting :: "string \<Rightarrow> jsval" where
  "demo_setting name = (if name = ''ANCHOR_PROVIDER_URL'' then Str ''https://r'' else if name = ''SUPABASE_URL'' then Str ''https://d''
     else if name = ''ANCHOR_WALLET'' then Str ''w'' else if name = ''SERVER_RANDOMNESS_STATE_DIR'' then Str ''/s''
     else if name = ''SUPABASE_SERVICE_ROLE_KEY'' then Str ''k'' else if name = ''MYNE_ROUND_ID'' then Str ''1''
     else if name = ''SERVER_RANDOMNESS_KEEPER_LIVE'' then Str ''P'' else Undef)"

definition demo_round_context :: round_context where
  "demo_round_context = \<lparr>setting = demo_setting, programKey = ''P'', keeperWallet = ''K'', derive = (\<lambda>_. ''A''),
     sha256 = (\<lambda>_. [7]), keyBytes = (\<lambda>_. []), parseKey = Inr, walletFile = Inr (Arr (replicate 64 (IntV 1)))\<rparr>"

definition demo_server_config :: server_config where
  "demo_server_config = \<lparr>cfgVersion = 6, cfgPaused = False, cfgRandomnessProgram = ''P'', cfgRandomnessAuthority = ''K'', cfgMint = ''M'',
     cfgInitializedAt = 0, cfgRoundDuration = 65, cfgBettingDuration = 60, cfgBuybackWallet = ''B'', cfgAdminFeeWallet = ''F''\<rparr>"

definition demo_opened :: server_round where
  "demo_opened = \<lparr>isSettled = False, boundCommitment = [7], commitSlot = SERVER_RANDOMNESS_PENDING, roundOpenedAt = 65,
     roundBettingEndsAt = 125, roundSettlesAt = 125, roundRefundAt = 1000\<rparr>"

text \<open>What a transaction does to the round: the world is the chain time and the round.\<close>

definition demo_apply :: "tx_message \<Rightarrow> server_round option \<Rightarrow> server_round option" where
  "demo_apply m x = (case map method_name (calls m) of
     [] \<Rightarrow> x
   | name # _ \<Rightarrow> if name = ''openRound'' then Some demo_opened
       else if name = ''lockRoundServerEntropy'' then map_option (\<lambda>r. r\<lparr>commitSlot := 2 ^ 63 + 5\<rparr>) x
       else if name = ''settleRoundServer'' then map_option (\<lambda>r. r\<lparr>isSettled := True\<rparr>) x else x)"

definition demo_server_world :: "(int \<times> server_round option) server_world" where
  "demo_server_world = \<lparr>
     readConfig = (\<lambda>w. (Settles (Inr demo_server_config), w)),
     readGenesis = (\<lambda>w. (Settles (Inr SOLANA_MAINNET_GENESIS_HASH), w)),
     readRound = (\<lambda>_ w. (Settles (Inr (snd w)), w)),
     readGate = (\<lambda>w. (Settles (Inr \<lparr>gateVerified = True, gatePool = ''L'', gateMyneVault = Some ''V'', gateSolVault = Some ''S''\<rparr>), w)),
     readSlot = (\<lambda>w. (Settles (Inr 9), w)),
     readBlockTime = (\<lambda>_ w. (Settles (Inr (IntV (fst w))), w)),
     readTransaction = (\<lambda>_ w. (Settles (Inr (Obj [(''blockTime'', IntV (fst w))])), w)),
     readSlotHashes = (\<lambda>w. (Settles (Inr (Some ([1, 0, 0, 0, 0, 0, 0, 0, 5] @ replicate 39 0))), w)),
     readRent = (\<lambda>w. (Settles (Inr (IntV 1)), w)),
     readStakePool = (\<lambda>w. (Settles (Inr Null), w)),
     readPlan = (\<lambda>_ w. (Settles (Inr Null), w)),
     readPosition = (\<lambda>_ w. (Settles (Inr Null), w)),
     readBlockhash = (\<lambda>_ w. (Settles (Inr (''H'', IntV 1)), w)),
     simulateKeeper = (\<lambda>_ w. (Settles (Inr \<lparr>sim_err = Null, sim_logs = [], unitsConsumed = IntV 1000\<rparr>), w)),
     sendKeeper = (\<lambda>m w. (Settles (Inr ''sig''), (fst w, demo_apply m (snd w)))),
     confirmKeeper = (\<lambda>_ _ _ w. (Settles (Inr Null), w)),
     loadReveal = (\<lambda>_ _ w. (Inr (replicate 32 3), w)),
     settlementSource = (\<lambda>w. (demo_evidence_source, w)),
     httpGet = (\<lambda>_ w. (Settles (Inr \<lparr>response_ok = True, status = 200, body_text = ''[]''\<rparr>), w)),
     readBody = (\<lambda>r w. (Settles (Inr (body_text r)), w)),
     timerFired = (\<lambda>_ w. (False, w)),
     sleepFor = (\<lambda>_ w. (fst w + 60, snd w)),
     dateNow = (\<lambda>w. (fst w, w))\<rparr>"

definition demo_settle_run :: "keeper_exit res \<times> (int \<times> server_round option) \<times> round_event list" where
  "demo_settle_run = run_keeper 5 demo_round_context demo_server_world
     ((126, Some (demo_opened\<lparr>commitSlot := 2 ^ 63 + 5\<rparr>)), [])"

definition demo_open_run :: "keeper_exit res \<times> (int \<times> server_round option) \<times> round_event list" where
  "demo_open_run = run_keeper 5 demo_round_context
     (demo_server_world\<lparr>simulateKeeper := \<lambda>_ w. (Settles (Inl (Error [])), w)\<rparr>) ((8, None), [])"

definition sends_method :: "string \<Rightarrow> round_event \<Rightarrow> bool" where
  "sends_method name e = (case message_of e of None \<Rightarrow> False | Some m \<Rightarrow> name \<in> set (map method_name (calls m)))"

lemma demo_settles: "case demo_settle_run of (r, w, t) \<Rightarrow> r = Inr (Completed True) \<and> length t = 31
    \<and> sends_method ''settleRoundServer'' (t ! 23) \<and> t ! 30 = Heartbeat ''tick-complete'' ''settled'' (Str ''sig'')"
  by code_simp

lemma demo_opens: "case demo_open_run of (r, w, t) \<Rightarrow> length t = 9 \<and> sends_method ''openRound'' (t ! 7)"
  by code_simp

lemma demo_split_run: "k < length t \<Longrightarrow> x = (r, w, t) \<Longrightarrow> x = (r, w, take k t @ t ! k # drop (Suc k) t)"
  by (simp flip: id_take_nth_drop)

theorem server_secret_not_early_witness:
  "\<exists>t m job gate reveal. snd (snd demo_settle_run) = t \<and> message_of (t ! 23) = Some m
     \<and> calls m = [settleRoundIx demo_round_context job gate reveal] \<and> may_settle demo_round_context (take 23 t) job reveal"
proof -
  obtain r w t where t: "demo_settle_run = (r, w, t)" by (metis prod_cases3)
  then have l: "length t = 31" and sent: "sends_method ''settleRoundServer'' (t ! 23)" using demo_settles unfolding t by simp_all
  obtain m i where m: "message_of (t ! 23) = Some m" "i \<in> set (calls m)" "method_name i = ''settleRoundServer''"
    using sent by (auto simp: sends_method_def split: option.splits)
  have e: "demo_settle_run = (r, w, take 23 t @ t ! 23 # drop (Suc 23) t)" by (rule demo_split_run[OF _ t]) (simp add: l)
  from server_secret_not_early[OF e[unfolded demo_settle_run_def] m] show ?thesis unfolding t snd_conv using m(1) by blast
qed

theorem server_round_opened_bound_witness:
  "\<exists>t m job reveal commitment. snd (snd demo_open_run) = t \<and> message_of (t ! 7) = Some m
     \<and> calls m = [openRoundIx demo_round_context job, bindCommitmentIx demo_round_context job commitment]
     \<and> secret_in demo_round_context (take 7 t) job reveal commitment \<and> RoundSeen (Inr None) \<in> set (take 7 t)
     \<and> clock_before (take 7 t) (jobOpenedAt job)"
proof -
  obtain r w t where t: "demo_open_run = (r, w, t)" by (metis prod_cases3)
  then have l: "length t = 9" and sent: "sends_method ''openRound'' (t ! 7)" using demo_opens unfolding t by simp_all
  obtain m i where m: "message_of (t ! 7) = Some m" "i \<in> set (calls m)" "method_name i = ''openRound''"
    using sent by (auto simp: sends_method_def split: option.splits)
  have e: "demo_open_run = (r, w, take 7 t @ t ! 7 # drop (Suc 7) t)" by (rule demo_split_run[OF _ t]) (simp add: l)
  from server_round_opened_bound[OF e[unfolded demo_open_run_def] m(1,2) disjI1[OF m(3)]] show ?thesis unfolding t snd_conv using m(1) by blast
qed


end
