(* ===== verification/Round_Waits.thy ===== *)
theory Round_Waits
  imports Round_Safety
begin

text \<open>
  The waits of the round keeper end. The source puts no bound on them; on a chain whose time advances the wait for a
  timestamp returns, and the wait for the entropy slot ends by the refund time of the round.
\<close>

section \<open>A fair chain\<close>

text \<open>
  \<open>ms\<close> is the chain's time in milliseconds. Reads answer, with a block time that is not behind; no timer fires; no
  operation turns the time back, and a sleep passes.
\<close>

definition fair_chain :: "('w \<Rightarrow> int) \<Rightarrow> 'w server_world \<Rightarrow> bool" where
  "fair_chain ms ops \<longleftrightarrow>
     (\<forall>w. case readSlot ops w of (a, w') \<Rightarrow> ms w \<le> ms w' \<and> (\<exists>slot. a = Settles (Inr slot) \<and> 0 \<le> slot))
   \<and> (\<forall>slot w. case readBlockTime ops slot w of (a, w') \<Rightarrow> ms w \<le> ms w' \<and> (\<exists>n. a = Settles (Inr (IntV n)) \<and> ms w div 1000 \<le> n))
   \<and> (\<forall>label w. case timerFired ops label w of (fired, w') \<Rightarrow> ms w \<le> ms w' \<and> \<not> fired)
   \<and> (\<forall>d w. 0 \<le> d \<longrightarrow> ms w + d \<le> ms (sleepFor ops d w))"

abbreviation later :: "('w \<Rightarrow> int) \<Rightarrow> int \<Rightarrow> 'w \<times> round_event list \<Rightarrow> bool" where
  "later ms m s \<equiv> m \<le> ms (fst s)"

lemma fair_slotD:
  assumes "fair_chain ms ops" "readSlot ops w = (a, w')"
  shows "ms w \<le> ms w' \<and> (\<exists>slot. a = Settles (Inr slot) \<and> 0 \<le> slot)"
  using assms(1)[unfolded fair_chain_def, THEN conjunct1, THEN spec, of w] assms(2) by simp

lemma fair_blockD:
  assumes "fair_chain ms ops" "readBlockTime ops slot w = (a, w')"
  shows "ms w \<le> ms w' \<and> (\<exists>n. a = Settles (Inr (IntV n)) \<and> ms w div 1000 \<le> n)"
  using assms(1)[unfolded fair_chain_def, THEN conjunct2, THEN conjunct1, THEN spec[of _ slot], THEN spec[of _ w]] assms(2) by simp

lemma fair_timerD:
  assumes "fair_chain ms ops" "timerFired ops label w = (f, w')"
  shows "ms w \<le> ms w' \<and> \<not> f"
  using assms(1)[unfolded fair_chain_def, THEN conjunct2, THEN conjunct2, THEN conjunct1, THEN spec[of _ label], THEN spec[of _ w]] assms(2) by simp

lemma fair_sleepD: "fair_chain ms ops \<Longrightarrow> 0 \<le> d \<Longrightarrow> ms w + d \<le> ms (sleepFor ops d w)"
  by (simp add: fair_chain_def)

lemma half_even_nonpos:
  assumes "x \<le> 0"
  shows "half_even x \<le> 0"
proof -
  have "of_int (half_even x) \<le> x + 1/2" using half_even_error[of x] by linarith
  also have "\<dots> < of_int 1" using assms by simp
  finally show ?thesis by simp
qed

lemma fl_nonpos: "x \<le> 0 \<Longrightarrow> fl x \<le> 0"
  by (simp add: fl_def mult_nonpos_nonneg half_even_nonpos divide_nonpos_nonneg)

lemma sub_reached: "n' \<le> n \<Longrightarrow> num_le (num_sub (seconds n') (seconds n)) (Fin 0)"
  using fl_nonpos[of "of_int n' + - of_int n"] by (auto simp: num_sub_def num_of_rat_def num_le_def Let_def)

lemma sub_number: "num_sub (seconds n') (seconds n) \<noteq> NaN"
  by (simp add: num_sub_def num_of_rat_def Let_def)

lemma pause_bounds: "x \<noteq> NaN \<Longrightarrow> 250 \<le> num_int (num_min (Fin 4000) (num_max (Fin 250) (num_mul x (Fin 1000))))"
  by (cases x) (auto simp: num_min_def num_max_def num_int_def num_of_rat_def Let_def le_floor_iff)

lemma fair_poll:
  assumes "fair_chain ms ops" "m \<le> ms w"
  shows "wp (poll_timer ops label e) (\<lambda>_. later ms m) (\<lambda>_ _. False) (w, t)"
proof -
  obtain f w' where f: "timerFired ops label w = (f, w')" by (metis prod.exhaust)
  moreover have "ms w \<le> ms w' \<and> \<not> f" by (rule fair_timerD[OF assms(1) f])
  ultimately show ?thesis using assms(2) by (simp add: poll_timer_def wp_simps)
qed

lemma fair_scan:
  assumes "fair_chain ms ops" "0 \<le> slot" "safe_num timeout" "0 < timeout" "m \<le> ms w"
  shows "wp (scan_blocks ops timeout slot (Suc left) 0 e) (\<lambda>(found, e') s. later ms m s \<and> (\<exists>n. found = Some n \<and> m div 1000 \<le> n))
    (\<lambda>_ _. False) (w, t)"
proof -
  have block: "wp (catch_io (then_io (bounded (readBlockTime ops (slot - 0)) timeout (''Block time read for slot '' @ x)) (\<lambda>v. ok_io (Inr v)))
      (\<lambda>e. ok_io (Inl e))) (\<lambda>a s. later ms m s \<and> (\<exists>n. a = Inr (IntV n) \<and> m div 1000 \<le> n)) (\<lambda>_ _. False) s" if "later ms m s" for s x
  proof -
    obtain v u where s: "s = (v, u)" by (cases s)
    obtain a v' where r: "readBlockTime ops slot v = (a, v')" by (metis prod.exhaust)
    from fair_blockD[OF assms(1) r]
    have "ms v \<le> ms v'" "\<exists>n. a = Settles (Inr (IntV n)) \<and> ms v div 1000 \<le> n" by simp_all
    moreover have "m div 1000 \<le> ms v div 1000" using that by (simp add: s zdiv_mono1)
    ultimately show ?thesis using that assms(3,4) by (auto simp: s r bounded_def withOperationTimeout_def wp_simps)
  qed
  show ?thesis
    unfolding scan_blocks.simps if_not_P[OF assms(2)[folded linorder_not_less]]
    apply (rule wp_seq[OF fair_poll[OF assms(1,5)]])
    apply (erule wp_seq[OF block])
    apply (auto simp: wp_ok)
    done
qed

lemma fair_read:
  assumes "fair_chain ms ops" "safe_num timeout" "0 < timeout" "m \<le> ms w"
  shows "wp (read_chain_time ops timeout (Suc left) attempt e) (\<lambda>n s. later ms m s \<and> m div 1000 \<le> n) (\<lambda>_ _. False) (w, t)"
proof -
  have slot: "wp (bounded (readSlot ops) timeout ''Confirmed slot read'') (\<lambda>slot s. later ms m s \<and> 0 \<le> slot) (\<lambda>_ _. False) s"
    if "later ms m s" for s
  proof -
    obtain v u where s: "s = (v, u)" by (cases s)
    obtain a v' where r: "readSlot ops v = (a, v')" by (metis prod.exhaust)
    from fair_slotD[OF assms(1) r]
    have "ms v \<le> ms v'" "\<exists>slot. a = Settles (Inr slot) \<and> 0 \<le> slot" by simp_all
    then show ?thesis using that assms(2,3) by (auto simp: s r bounded_def withOperationTimeout_def wp_simps)
  qed
  have scan: "wp (scan_blocks ops timeout slot 16 0 e) (\<lambda>(found, e') s. later ms m s \<and> (\<exists>n. found = Some n \<and> m div 1000 \<le> n))
    (\<lambda>_ _. False) s" if "later ms m s \<and> 0 \<le> slot" for slot s
    using fair_scan[OF assms(1) _ assms(2,3), of slot m "fst s" 15 e "snd s"] that by (simp del: scan_blocks.simps)
  show ?thesis
    unfolding read_chain_time.simps
    apply (rule wp_seq[OF fair_poll[OF assms(1,4)]])
    apply (rule wp_seq_pair)
     apply (rule wp_catch_rule[where F = "\<lambda>_ _. False"])
      apply (erule wp_seq[OF slot], erule scan)
     apply simp
    apply (auto simp: wp_ok)
    done
qed

definition sane_timeouts :: "round_settings \<Rightarrow> bool" where
  "sane_timeouts st \<longleftrightarrow> safe_num (rpcTimeoutMs st) \<and> 0 < rpcTimeoutMs st"

lemma fair_clock_read:
  assumes "fair_chain ms ops" "sane_timeouts st" "later ms m s"
  shows "wp (chainTimeSeconds ops st) (\<lambda>n s. later ms m s \<and> m div 1000 \<le> n) (\<lambda>_ _. False) s"
proof -
  obtain w t where s: "s = (w, t)" by (cases s)
  have eight: "(8::nat) = Suc 7" by simp
  have "wp (readChainTimeSeconds ops st) (\<lambda>n s. later ms m s \<and> m div 1000 \<le> n) (\<lambda>_ _. False) (w, t)"
    unfolding readChainTimeSeconds_def eight
    by (rule fair_read[OF assms(1)]) (use assms(2,3) in \<open>simp_all add: s sane_timeouts_def\<close>)
  note read = wpD[OF this]
  obtain r v u where r: "readChainTimeSeconds ops st (w, t) = (r, v, u)" by (metis prod_cases3)
  obtain n where n: "r = Inr n" "m \<le> ms v" "m div 1000 \<le> n" using read[OF r] by (cases r) simp_all
  obtain f v' where f: "timerFired ops clock_label v = (f, v')" by (metis prod.exhaust)
  have "ms v \<le> ms v'" "\<not> f" using fair_timerD[OF assms(1) f] by simp_all
  then show ?thesis using r n by (simp add: wp_def chainTimeSeconds_def recorded_def with_timer_def f s)
qed

lemma fair_sleep: "fair_chain ms ops \<Longrightarrow> 0 \<le> d \<Longrightarrow> later ms m s \<Longrightarrow>
    wp (sleep_io ops d) (\<lambda>_. later ms (m + d)) (\<lambda>_ _. False) s"
  using fair_sleepD[of ms ops d "fst s"] by (cases s) (simp add: sleep_io_def wp_simps)

lemma wait_returns:
  assumes "fair_chain ms ops" "sane_timeouts st" "later ms m s" "target * 1000 \<le> m + 250 * int fuel"
  shows "wp (waitForChainTimestamp (Suc fuel) ops st stage (seconds target)) (\<lambda>r _. r = Some ()) (\<lambda>_ _. False) s"
  using assms(3,4)
proof (induction fuel arbitrary: m s)
  case 0
  have "target \<le> n" if "m div 1000 \<le> n" for n using 0(2) that by simp
  then show ?case
    unfolding waitForChainTimestamp.simps Let_def
    by (intro wp_seq[OF fair_clock_read[OF assms(1,2) 0(1)]]) (simp add: sub_reached wp_ok)
next
  case (Suc fuel)
  show ?case
    unfolding waitForChainTimestamp.simps(2)[of "Suc fuel"] Let_def
  proof (rule wp_seq[OF fair_clock_read[OF assms(1,2) Suc.prems(1)]])
    fix n s'
    let ?d = "num_int (num_min (Fin 4000) (num_max (Fin 250) (num_mul (num_sub (seconds target) (seconds n)) (Fin 1000))))"
    assume s': "later ms m s' \<and> m div 1000 \<le> n"
    have d: "250 \<le> ?d" by (rule pause_bounds[OF sub_number])
    have beat: "wp (emitRoundHeartbeat a b c) (\<lambda>_. later ms m) (\<lambda>_ _. False) s'" for a b c
      using s' by (cases s') (simp add: emitRoundHeartbeat_def wp_log)
    show "wp (if num_le (num_sub (seconds target) (seconds n)) (Fin 0) then ok_io (Some ())
       else then_io (emitRoundHeartbeat ''tick-start'' stage (Str (''waiting:'' @ num_to_string (num_sub (seconds target) (seconds n)) @ ''s''))) (\<lambda>_.
         then_io (sleep_io ops ?d) (\<lambda>_. waitForChainTimestamp (Suc fuel) ops st stage (seconds target))))
       (\<lambda>r _. r = Some ()) (\<lambda>_ _. False) s'"
    proof (cases "num_le (num_sub (seconds target) (seconds n)) (Fin 0)")
      case True
      then show ?thesis by (simp add: wp_ok)
    next
      case False
      show ?thesis
        unfolding if_not_P[OF False]
        apply (rule wp_seq[OF beat])
        apply (rule wp_seq[OF fair_sleep[OF assms(1)]], use d in simp, assumption)
        apply (rule Suc.IH, assumption)
        using Suc.prems(2) d by simp
    qed
  qed
qed

section \<open>The entropy slot\<close>

lemma wp_any_error: "wp m Q (\<lambda>_ _. False) s \<Longrightarrow> wp m Q (\<lambda>_ _. True) s"
  by (erule wp_mono) simp_all

lemma entropy_decides:
  assumes "fair_chain ms ops" "sane_timeouts st"
    and hashes: "\<And>w a w'. readSlotHashes ops w = (a, w') \<Longrightarrow> ms w \<le> ms w'"
    and date: "\<And>w a w'. dateNow ops w = (a, w') \<Longrightarrow> ms w \<le> ms w'"
    and "later ms m s" "refund * 1000 \<le> m + 150 * int fuel"
  shows "wp (await_entropy (Suc fuel) ops st (seconds refund) target lastBeat) (\<lambda>r _. r = Some ()) (\<lambda>_ _. True) s"
  using assms(5,6)
proof (induction fuel arbitrary: m s lastBeat)
  case 0
  have no: "\<not> num_lt (seconds n) (seconds refund)" if "m div 1000 \<le> n" for n using 0(2) that by simp
  show ?case
    unfolding await_entropy.simps
    by (intro wp_seq[OF wp_any_error[OF fair_clock_read[OF assms(1,2) 0(1)]]] check_true) (elim conjE, drule no, erule (1) notE)
next
  case (Suc fuel)
  have seen: "wp (call_io (withOperationTimeout (readSlotHashes ops) a b None) EntropySeen) (\<lambda>_. later ms m) (\<lambda>_ _. True) s"
    if "later ms m s" for s a b
  proof -
    obtain v u where s: "s = (v, u)" by (cases s)
    obtain x v' where x: "readSlotHashes ops v = (x, v')" by (metis prod.exhaust)
    from hashes[OF x] show ?thesis using that
      by (simp add: s wp_call withOperationTimeout_def x split: late.split sum.split)
  qed
  have kept: "wp (lift_io r) (\<lambda>_. later ms m) (\<lambda>_ _. True) s" if "later ms m s" for s and r :: "bool res"
    using that by (simp add: wp_lift split: sum.split)
  have now: "wp (read_io (\<lambda>w. case dateNow ops w of (n, w') \<Rightarrow> (Inr n, w'))) (\<lambda>_. later ms m) (\<lambda>_ _. True) s"
    if "later ms m s" for s
  proof -
    obtain v u where s: "s = (v, u)" by (cases s)
    obtain x v' where x: "dateNow ops v = (x, v')" by (metis prod.exhaust)
    from date[OF x] show ?thesis using that by (simp add: s wp_read x)
  qed
  have beat: "wp (if c then emitRoundHeartbeat x y z else ok_io ()) (\<lambda>_. later ms m) (\<lambda>_ _. True) s" if "later ms m s" for s c x y z
    using that by (cases s) (simp add: emitRoundHeartbeat_def wp_log wp_ok)
  have rest: "wp (if available then ok_io (Some ())
      else then_io (read_io (\<lambda>w. case dateNow ops w of (n, w') \<Rightarrow> (Inr n, w'))) (\<lambda>date.
        then_io (if 1000 \<le> date - lastBeat
           then emitRoundHeartbeat ''tick-start'' ''awaiting-entropy'' (Str (''target-slot:'' @ show_int target)) else ok_io ()) (\<lambda>_.
        then_io (sleep_io ops 150) (\<lambda>_.
        await_entropy (Suc fuel) ops st (seconds refund) target (if 1000 \<le> date - lastBeat then date else lastBeat)))))
      (\<lambda>r _. r = Some ()) (\<lambda>_ _. True) s" if "later ms m s" for available s
  proof (rule wp_cond)
    show "wp (ok_io (Some ())) (\<lambda>r _. r = Some ()) (\<lambda>_ _. True) s" by (simp add: wp_ok)
    show "wp (then_io (read_io (\<lambda>w. case dateNow ops w of (n, w') \<Rightarrow> (Inr n, w'))) (\<lambda>date.
        then_io (if 1000 \<le> date - lastBeat
           then emitRoundHeartbeat ''tick-start'' ''awaiting-entropy'' (Str (''target-slot:'' @ show_int target)) else ok_io ()) (\<lambda>_.
        then_io (sleep_io ops 150) (\<lambda>_.
        await_entropy (Suc fuel) ops st (seconds refund) target (if 1000 \<le> date - lastBeat then date else lastBeat)))))
      (\<lambda>r _. r = Some ()) (\<lambda>_ _. True) s"
      apply (rule wp_seq[OF now[OF that]])
      apply (erule wp_seq[OF beat])
      apply (rule wp_seq[OF wp_any_error[OF fair_sleep[OF assms(1)]]], simp, assumption)
      apply (rule Suc.IH, assumption)
      using Suc.prems(2) by simp
  qed
  show ?case
    unfolding await_entropy.simps(2)[of "Suc fuel"]
    apply (rule wp_seq[OF wp_any_error[OF fair_clock_read[OF assms(1,2) Suc.prems(1)]]])
    apply (rule check_true)
    apply (rule wp_seq[OF seen], simp)
    apply (erule wp_seq[OF kept])
    apply (erule rest)
    done
qed

section \<open>The waits end\<close>

lemma settings_sane: "roundSettings env = Inr st \<Longrightarrow> sane_timeouts st"
  by (auto simp: roundSettings_def bounded_setting_def res_simps Let_def sane_timeouts_def safe_num_def MAX_SAFE_INTEGER_def
      split: option.splits if_splits)


definition demo_fair_world :: "(int \<times> server_round option) server_world" where
  "demo_fair_world = demo_server_world\<lparr>sleepFor := (\<lambda>d w. (fst w + d, snd w))\<rparr>"


text \<open>The same of the entropy slot: its wait ends, with the slot or by the refund time.\<close>

theorem server_entropy_wait_ends:
  assumes "roundSettings env = Inr st" "fair_chain ms ops" "refund * 1000 \<le> ms w + 150 * int fuel"
    and "\<And>w a w'. readSlotHashes ops w = (a, w') \<Longrightarrow> ms w \<le> ms w'"
    and "\<And>w a w'. dateNow ops w = (a, w') \<Longrightarrow> ms w \<le> ms w'"
  shows "fst (await_entropy (Suc fuel) ops st (seconds refund) target lastBeat (w, t)) \<noteq> Inr None"
proof -
  have "wp (await_entropy (Suc fuel) ops st (seconds refund) target lastBeat) (\<lambda>r _. r = Some ()) (\<lambda>_ _. True) (w, t)"
    by (rule entropy_decides[OF assms(2) settings_sane[OF assms(1)] assms(4,5) _ assms(3)]) simp_all
  then show ?thesis by (auto simp: wp_def split: prod.splits sum.splits)
qed

end
