(* ===== verification/Spec2Isabelle.thy ===== *)
theory Spec2Isabelle
  imports Round_Schedule Auto_Plan Referral_Index Anchor_Events Lifecycle_Queue Server_Randomness
    Round_Archive Archive_Projection Round_Reconciliation Buyback_Policy Incident_Latch Event_Loop
    Liquidity_Policy Receipt_Recovery Settlement_Evidence Network_Policy Round_Clock Round_Rewards
    Miner_Roster Sol_Units Round_View Staking_Apy Client_Reads
    Auto_Plan_Executor Keeper_Tx Lifecycle_Keeper Buyback_Keeper Buyback_Journal Buyback_Safety
    Round_Keeper Round_Traces Round_Safety Round_Waits
begin

text \<open>
  MYNE is a mining game on Solana: time is cut into rounds of 65 seconds, miners bet on 25 tiles, a winning
  tile is drawn from committed randomness, and fees flow to stakers, a buyback, a motherlode pot and the
  administrator. The repository has the on-chain program (Rust), the workers that keep rounds opened,
  settled, indexed and archived (\<open>Protocol/scripts\<close>), and the web client (\<open>Frontend/src\<close>). This
  development models the JavaScript that decides: the policy modules the workers call and the pure
  modules of the client. The workers are loops that read the chain and the database, ask a policy, and
  act. Every policy is a function of what was read; four of the workers are modelled whole, with the order in which
  they read, write and send.

  \<^bold>\<open>How JavaScript is modelled.\<close>
  \<^item> \<open>Js_Prelude\<close>: results \<open>js_error + 'a\<close>; every \<open>throw\<close>, failed \<open>assert\<close> and early return is a branch. \<open>assert_ok\<close>,
    \<open>throw_if\<close>, \<open>then_res\<close>, \<open>catch_res\<close>, \<open>fold_res\<close> and \<open>map_res\<close> keep the shape of the source; their inversion rules
    are collected in \<open>res_simps\<close>.
  \<^item> \<open>Js_Values\<close>: dynamic values \<open>jsval\<close>; Number as binary64 (rationals rounded by \<open>fl\<close>, with NaN and the infinities),
    BigInt as \<open>int\<close>, \<open>String(v)\<close>, \<open>BigInt(v)\<close>, \<open>Number(v)\<close>, truthiness, \<open>?.\<close> and \<open>??\<close>. Strings are sequences of 8-bit
    characters. It proves when integer arithmetic in Numbers is exact.
  \<^item> \<open>Js_Bytes\<close>: byte buffers, little-endian integers, hexadecimal. \<open>Js_Json\<close>: \<open>JSON.parse\<close> and the quoting of
    \<open>JSON.stringify\<close>; its fuel is the text's length, which every call consumes.
  \<^item> \<open>Js_Io\<close>: asynchronous code. A computation acts on a world, whose operations (RPC, HTTP, files, clock, timers) are
    arguments that may answer anything, and appends events to a trace; \<open>wp\<close> is its weakest precondition, with rules for
    each combinator and loop, and \<open>justified\<close> says that every event of a trace is allowed by the events before it.

  \<^bold>\<open>The workers' policies\<close> (\<open>Protocol/scripts\<close>).
  \<^item> \<open>Round_Schedule\<close> (\<open>round-schedule-policy.mjs\<close>): which round to prepare and where to resume after a pause; the
    results are exact against the integer schedule.
  \<^item> \<open>Auto_Plan\<close> (\<open>auto-plan-policy.mjs\<close>): exactly when a prepaid plan may run, and the funding ceiling.
  \<^item> \<open>Referral_Index\<close> (\<open>referral-index-policy.mjs\<close>) and \<open>Anchor_Events\<close> (\<open>anchor-event-data.mjs\<close>): projection of decoded
    events; claims are conserved and self-referral is impossible.
  \<^item> \<open>Lifecycle_Queue\<close> (\<open>lifecycle-queue-policy.mjs\<close>): fair bounded batches, the cursor walk over history, isolated
    processing of rounds.
  \<^item> \<open>Server_Randomness\<close> (\<open>server-randomness-policy.mjs\<close>): the reveal file as steps of racing workers with an invariant over
    all interleavings, the binding commitment, the entropy slot and the SlotHashes scan. sha256 is a parameter.
  \<^item> \<open>Round_Archive\<close>, \<open>Archive_Projection\<close>, \<open>Round_Reconciliation\<close> (\<open>round-archive-policy.mjs\<close>,
    \<open>round-reconciliation-policy.mjs\<close>): the archived snapshot and its hash, fee audit and randomness proof, and the decisions
    whether the index equals the chain, is replayed, repaired or accepted as closed. Sorting is stated through the
    locales \<open>row_order\<close> and \<open>collation\<close> (the host's \<open>localeCompare\<close>), interpreted on the code's comparators.
  \<^item> \<open>Buyback_Policy\<close> (\<open>buyback-policy.mjs\<close>), \<open>Liquidity_Policy\<close> (\<open>mainnet-liquidity-policy.mjs\<close>): the round to buy back for,
    spending limits, quotes and blockhash handling; the inspection of the pool behind the liquidity gate.
  \<^item> \<open>Incident_Latch\<close> (\<open>round-deadline-incident-latch.mjs\<close>): the durable latch of missed deadlines as a transition system
    with queued, failing and interleaved writes and restarts.
  \<^item> \<open>Event_Loop\<close> (\<open>event-driven-loop.mjs\<close>): heartbeats, the lossless wake signal and the bounded worker cycle.
  \<^item> \<open>Receipt_Recovery\<close> (\<open>receipt-recovery-policy.mjs\<close>) and \<open>Settlement_Evidence\<close> (\<open>round-settlement-evidence.mjs\<close>): what a
    restarted keeper accepts from the chain.
  \<^item> \<open>Network_Policy\<close> (\<open>production-network-policy.mjs\<close>, \<open>demo-miner-bids.mjs\<close>).

  \<^bold>\<open>The workers\<close> (\<open>Protocol/scripts\<close>), as computations of \<open>Js_Io\<close>. What they send is judged against the trace.
  \<^item> \<open>Keeper_Tx\<close>: messages, instructions, HTTP answers and the measured compute limit, which covers the simulation.
  \<^item> \<open>Auto_Plan_Executor\<close> (\<open>auto-plan-executor.mjs\<close>): discovering, evaluating and executing prepaid plans. A batch whose
    outcome is unknown is never sent again, a failing batch is halved until the culprits are alone, and the run returns.
  \<^item> \<open>Lifecycle_Keeper\<close> (\<open>round-lifecycle-keeper.mjs\<close>): settling, refunding, archiving and closing rounds. Every
    transaction is justified by chain state read before it; each outstanding receipt is paid by its own instruction.
  \<^item> \<open>Buyback_Keeper\<close> (\<open>buyback-keeper.mjs\<close>): \<open>keeperTick\<close> down to the journal, the inspection of the swap, the burn and
    the recovery after a crash. \<open>Buyback_Journal\<close> states what a trace says about the journal on disk; \<open>Buyback_Safety\<close>
    proves that transactions are journaled before they are sent, that the spend stays within the allocation, that a
    round is completed only when its allocation is spent, and that a dry run sends nothing; two runs show that foreign
    tokens can stand in for a swap and that a dry run may rewrite the journal.
  \<^item> \<open>Round_Keeper\<close> (\<open>server-round-keeper.mjs\<close>): the process of one round, from its settings to \<open>process.exit\<close>. Its
    module-level statements are \<open>startup\<close>, \<open>own_schedule\<close>, \<open>start_round\<close>, \<open>own_round\<close>, \<open>open_round\<close>, \<open>play_round\<close>,
    \<open>betting\<close>, \<open>lock_round\<close>, \<open>after_lock\<close> and \<open>settle_round\<close>, in the order of the source. \<open>Round_Traces\<close> carries what the
    keeper has read through a run; \<open>Round_Safety\<close> proves when it may open and bind a round, execute plans, lock the
    entropy, publish the secret and report the round as settled. \<open>Round_Waits\<close> proves that its waits end when the
    chain's time advances.

  \<^bold>\<open>The client's pure modules\<close> (\<open>Frontend/src/chain\<close>).
  \<^item> \<open>Round_Clock\<close> (\<open>round.js\<close>, \<open>config.js\<close>): the clock partitions time, and agrees with the keepers' schedule.
  \<^item> \<open>Round_Rewards\<close> (\<open>round-rewards.js\<close>, \<open>mining-shares.js\<close>): exact reward arithmetic that conserves the pool.
  \<^item> \<open>Miner_Roster\<close> (\<open>miner-aggregation.js\<close>, \<open>previous-miners.js\<close>): the roster refines an abstract per-address view.
  \<^item> \<open>Sol_Units\<close> (\<open>units.js\<close>, \<open>burn-accounting.js\<close>): amounts as text, supply and burn totals.
  \<^item> \<open>Round_View\<close> (\<open>round-lifecycle.js\<close>, \<open>randomness-mode.js\<close>, \<open>round-range.js\<close>): the stage of a round and its randomness,
    with the same slot encoding as the workers.
  \<^item> \<open>Staking_Apy\<close> (\<open>staking-apy.js\<close>): the yield shown, and the reward windows it rests on, which leave no round out.
  \<^item> \<open>Client_Reads\<close> (\<open>token-account.js\<close>, \<open>referral-read-model.js\<close>, \<open>referral-code.js\<close>, \<open>confirmed-tile-bets.js\<close>,
    \<open>staking-totals.js\<close>, \<open>receipt-nonce.js\<close>, \<open>protocol-capabilities.js\<close>): small readers with their bounds.

  \<^bold>\<open>Parameters.\<close> Code that is not in the repository is an argument with its documented laws as hypotheses: sha256 (no
  collision on the inputs at hand), \<open>localeCompare\<close> (a consistent three-way comparison), the \<open>PublicKey\<close> class and
  program address derivation, \<open>node:path\<close>, RPC reads, the Anchor event and account decoders, URL parsing. Time is always
  an argument.

  \<^bold>\<open>Bounds and fuel.\<close> Loops over lists are structural. \<open>JSON.parse\<close> has the text's length as fuel; page scans and retries
  run for the number of pages or attempts the source allows; the round range runs for its scan limit. The execution
  window of the auto-plan executor has one unit of fuel per half second it lasts, its halving one more than the batch is
  long, and \<open>waitForMyneBalance\<close> eleven further reads, as the source counts them. The attempts of the round keeper's reads
  are the source's; its waits for a chain time, for the entropy slot and for the end of betting have no bound in the
  source and take their fuel from \<open>run_keeper\<close>, which answers \<open>StillWaiting\<close> when it ends; a unit per 250 ms, 150 ms and 500 ms of
  chain time is enough.

  \<^bold>\<open>Not modelled.\<close> The Rust program and the SQL of the database (other languages). Of the modelled workers, the outer
  loops (start, interval, signal handling, logging to the console) and the SDKs they call (transaction encoding, account
  decoders, RPC), which are parameters. The worker host, the indexer and the Switchboard keeper
  (\<open>production-worker-host.mjs\<close>, \<open>round-indexer.mjs\<close>, \<open>switchboard-round-keeper.mjs\<close>): child processes, subscriptions,
  oracle calls and database writes around the policies above. The page controllers, realtime clients and
  wallet transactions of the client (DOM and wallet I/O), and operator scripts.
\<close>

end
